(* ===== verification/Prelude.thy ===== *)
theory Prelude
  imports
    Main
    "HOL-Library.List_Lexorder"
    "HOL-Library.Char_ord"
    "HOL-Library.Sublist"
    "HOL-Library.Multiset"
    "HOL-Library.Product_Lexorder"
begin

text \<open>
  Shared vocabulary of the development: the machine integers of the Rust code with their
  saturating, checked and wrapping operations, byte strings with the \<open>str\<close> methods the
  code calls, \<open>core::cmp::Ordering\<close> with \<open>sort_by\<close>, and the two ordered collections
  \<open>BTreeMap\<close> and \<open>BTreeSet\<close> as strictly sorted lists, together with the lemmas the
  component theories rest on.  A Rust \<open>String\<close> is a HOL \<open>string\<close> holding its UTF-8 bytes,
  so the order on strings is the byte order that Rust's \<open>Ord\<close> uses.
\<close>

named_theorems rust_int \<open>ranges and bounds of the machine integer operations\<close>
named_theorems step_intro \<open>facts that build one step of a state machine\<close>

section \<open>Machine integers\<close>

type_synonym i64 = int
type_synonym i32 = int
type_synonym u64 = nat
type_synonym u32 = nat
type_synonym usize = nat

definition i64_max :: int where "i64_max = 9223372036854775807"
definition i64_min :: int where "i64_min = -9223372036854775808"
definition u64_max :: nat where "u64_max = 18446744073709551615"
definition u32_max :: nat where "u32_max = 4294967295"

definition in_i64 :: "int \<Rightarrow> bool" where
  "in_i64 x \<longleftrightarrow> i64_min \<le> x \<and> x \<le> i64_max"

definition i64_saturating_add :: "i64 \<Rightarrow> i64 \<Rightarrow> i64" where
  "i64_saturating_add a b = max i64_min (min i64_max (a + b))"

definition i64_checked_add :: "i64 \<Rightarrow> i64 \<Rightarrow> i64 option" where
  "i64_checked_add a b = (if in_i64 (a + b) then Some (a + b) else None)"

text \<open>Two's complement subtraction, as an optimised build computes \<open>a - b\<close> on \<open>i64\<close>.\<close>

definition i64_wrapping_sub :: "i64 \<Rightarrow> i64 \<Rightarrow> i64" where
  "i64_wrapping_sub a b = (a - b + 9223372036854775808) mod 18446744073709551616
     - 9223372036854775808"

text \<open>Division on \<open>i64\<close> truncates towards zero.\<close>

definition i64_div :: "i64 \<Rightarrow> i64 \<Rightarrow> i64" where
  "i64_div a b = sgn a * sgn b * (\<bar>a\<bar> div \<bar>b\<bar>)"

definition u64_saturating_add :: "u64 \<Rightarrow> u64 \<Rightarrow> u64" where
  "u64_saturating_add a b = min u64_max (a + b)"

definition u64_checked_add :: "u64 \<Rightarrow> u64 \<Rightarrow> u64 option" where
  "u64_checked_add a b = (if a + b \<le> u64_max then Some (a + b) else None)"

definition u32_saturating_add :: "u32 \<Rightarrow> u32 \<Rightarrow> u32" where
  "u32_saturating_add a b = min u32_max (a + b)"

lemma i64_saturating_add_exact [rust_int]:
  "in_i64 (a + b) \<Longrightarrow> i64_saturating_add a b = a + b"
  by (simp add: i64_saturating_add_def in_i64_def)

lemma i64_saturating_add_range [rust_int, simp]: "in_i64 (i64_saturating_add a b)"
  by (simp add: i64_saturating_add_def in_i64_def i64_min_def i64_max_def)

lemma i64_saturating_add_ge:
  "in_i64 a \<Longrightarrow> 0 \<le> b \<Longrightarrow> a \<le> i64_saturating_add a b"
  by (auto simp: i64_saturating_add_def in_i64_def)

lemma i64_saturating_add_le:
  "in_i64 a \<Longrightarrow> 0 \<le> b \<Longrightarrow> i64_saturating_add a b \<le> a + b"
  by (auto simp: i64_saturating_add_def in_i64_def)

lemma i64_saturating_add_mono:
  "b \<le> c \<Longrightarrow> i64_saturating_add a b \<le> i64_saturating_add a c"
  by (auto simp: i64_saturating_add_def)

lemma i64_saturating_add_gt:
  "in_i64 a \<Longrightarrow> a < i64_max \<Longrightarrow> 0 < b \<Longrightarrow> a < i64_saturating_add a b"
  by (auto simp: i64_saturating_add_def in_i64_def)

lemma i64_wrapping_sub_exact [rust_int]:
  "in_i64 (a - b) \<Longrightarrow> i64_wrapping_sub a b = a - b"
  by (simp add: i64_wrapping_sub_def in_i64_def i64_min_def i64_max_def)

lemma i64_div_nonneg [rust_int]: "0 \<le> a \<Longrightarrow> 0 < b \<Longrightarrow> i64_div a b = a div b"
  by (cases "a = 0") (simp_all add: i64_div_def)

lemma u64_saturating_add_bound [rust_int, simp]: "u64_saturating_add a b \<le> u64_max"
  by (simp add: u64_saturating_add_def)

lemma u64_saturating_add_exact [rust_int]: "a + b \<le> u64_max \<Longrightarrow> u64_saturating_add a b = a + b"
  by (simp add: u64_saturating_add_def)

lemma u32_saturating_add_bound [rust_int, simp]: "u32_saturating_add a b \<le> u32_max"
  by (simp add: u32_saturating_add_def)

section \<open>Strings\<close>

definition ascii_lower :: "char \<Rightarrow> char" where
  "ascii_lower c = (if CHR ''A'' \<le> c \<and> c \<le> CHR ''Z'' then char_of (of_char c + (32::nat)) else c)"

definition to_ascii_lowercase :: "string \<Rightarrow> string" where
  "to_ascii_lowercase s = map ascii_lower s"

definition eq_ignore_ascii_case :: "string \<Rightarrow> string \<Rightarrow> bool" where
  "eq_ignore_ascii_case a b \<longleftrightarrow> to_ascii_lowercase a = to_ascii_lowercase b"

definition is_ascii_alphabetic :: "char \<Rightarrow> bool" where
  "is_ascii_alphabetic c \<longleftrightarrow>
     (CHR ''A'' \<le> c \<and> c \<le> CHR ''Z'') \<or> (CHR ''a'' \<le> c \<and> c \<le> CHR ''z'')"

definition is_ascii_digit :: "char \<Rightarrow> bool" where
  "is_ascii_digit c \<longleftrightarrow> CHR ''0'' \<le> c \<and> c \<le> CHR ''9''"

definition is_ascii_alphanumeric :: "char \<Rightarrow> bool" where
  "is_ascii_alphanumeric c \<longleftrightarrow> is_ascii_alphabetic c \<or> is_ascii_digit c"

definition starts_with :: "string \<Rightarrow> string \<Rightarrow> bool" where
  "starts_with s p \<longleftrightarrow> take (length p) s = p"

definition ends_with :: "string \<Rightarrow> string \<Rightarrow> bool" where
  "ends_with s p \<longleftrightarrow> length p \<le> length s \<and> drop (length s - length p) s = p"

text \<open>The byte offset of the first occurrence of a pattern, Rust's \<open>str::find\<close>.\<close>

fun find_sub :: "string \<Rightarrow> string \<Rightarrow> nat option" where
  "find_sub p [] = (if p = [] then Some 0 else None)"
| "find_sub p (c # cs) =
     (if starts_with (c # cs) p then Some 0 else map_option Suc (find_sub p cs))"

definition str_contains :: "string \<Rightarrow> string \<Rightarrow> bool" where
  "str_contains s p \<longleftrightarrow> find_sub p s \<noteq> None"

text \<open>\<open>str::split\<close> on a separator byte: always at least one segment.\<close>

fun split_on :: "char \<Rightarrow> string \<Rightarrow> string list" where
  "split_on c [] = [[]]"
| "split_on c (x # xs) =
     (if x = c then [] # split_on c xs
      else (case split_on c xs of [] \<Rightarrow> [[x]] | h # t \<Rightarrow> (x # h) # t))"

text \<open>\<open>join\<close> of a segment list with a separator byte.\<close>

fun join_with :: "char \<Rightarrow> string list \<Rightarrow> string" where
  "join_with c [] = []"
| "join_with c [s] = s"
| "join_with c (s # t # ss) = s @ c # join_with c (t # ss)"

text \<open>\<open>rsplit_once\<close>: the text before and after the last separator.\<close>

fun rsplit_once :: "char \<Rightarrow> string \<Rightarrow> (string \<times> string) option" where
  "rsplit_once c [] = None"
| "rsplit_once c (x # xs) =
     (case rsplit_once c xs of
        Some (b, a) \<Rightarrow> Some (x # b, a)
      | None \<Rightarrow> if x = c then Some ([], xs) else None)"

lemma split_on_nonempty [simp]: "split_on c s \<noteq> []"
  by (induction s) (auto split: list.splits)

lemma join_split [simp]: "join_with c (split_on c s) = s"
proof (induction s)
  case Nil
  then show ?case by simp
next
  case (Cons x xs)
  obtain h t where ht: "split_on c xs = h # t"
    using split_on_nonempty [of c xs] by (meson list.exhaust)
  show ?case
    using Cons ht by (cases t) auto
qed

lemma split_on_no_sep: "seg \<in> set (split_on c s) \<Longrightarrow> c \<notin> set seg"
  by (induction s arbitrary: seg) (auto split: list.splits if_splits)

lemma split_on_plain: "c \<notin> set s \<Longrightarrow> split_on c s = [s]"
  by (induction s) auto

lemma split_on_append: "c \<notin> set s \<Longrightarrow> split_on c (s @ c # r) = s # split_on c r"
  by (induction s) auto

lemma split_join:
  "ss \<noteq> [] \<Longrightarrow> \<forall>s \<in> set ss. c \<notin> set s \<Longrightarrow> split_on c (join_with c ss) = ss"
  by (induction c ss rule: join_with.induct) (auto simp: split_on_plain split_on_append)

lemma rsplit_once_Some:
  "rsplit_once c s = Some (b, a) \<Longrightarrow> s = b @ c # a \<and> c \<notin> set a"
proof (induction s arbitrary: b a)
  case Nil
  then show ?case by simp
next
  case (Cons x xs)
  have none: "c \<notin> set ys" if "rsplit_once c ys = None" for ys
    using that by (induction ys) (auto split: option.splits if_splits)
  show ?case
    using Cons by (auto split: option.splits if_splits dest: none)
qed

lemma eq_ignore_ascii_case_refl [simp]: "eq_ignore_ascii_case s s"
  by (simp add: eq_ignore_ascii_case_def)

lemma eq_ignore_ascii_case_length: "eq_ignore_ascii_case a b \<Longrightarrow> length a = length b"
  by (auto simp: eq_ignore_ascii_case_def to_ascii_lowercase_def dest: map_eq_imp_length_eq)

text \<open>Decimal and fixed-width hexadecimal rendering.\<close>

definition digit_char :: "nat \<Rightarrow> char" where
  "digit_char d = (if d < 10 then char_of (48 + d) else char_of (87 + d))"

fun show_nat :: "nat \<Rightarrow> string" where
  "show_nat n = (if n < 10 then [digit_char n] else show_nat (n div 10) @ [digit_char (n mod 10)])"

declare show_nat.simps [simp del]

text \<open>Decimal rendering is read back by evaluating the digits, and holds digits only.\<close>

lemma show_nat_value: "foldl (\<lambda>a c. 10 * a + (of_char c - 48)) 0 (show_nat n) = (n::nat)"
proof (induction n rule: less_induct)
  case (less n)
  show ?case
  proof (cases "n < 10")
    case True
    then show ?thesis by (simp add: show_nat.simps [of n] digit_char_def)
  next
    case False
    with less.IH [of "n div 10"] show ?thesis
      by (simp add: show_nat.simps [of n] digit_char_def)
  qed
qed

lemma show_nat_inject: "show_nat m = show_nat n \<Longrightarrow> m = n"
  by (metis show_nat_value)

lemma show_nat_digits: "c \<in> set (show_nat n) \<Longrightarrow> 48 \<le> (of_char c :: nat) \<and> (of_char c :: nat) < 58"
proof (induction n rule: less_induct)
  case (less n)
  show ?case
  proof (cases "n < 10")
    case True
    with less.prems show ?thesis by (simp add: show_nat.simps [of n] digit_char_def)
  next
    case False
    with less.prems less.IH [of "n div 10"] show ?thesis
      by (auto simp: show_nat.simps [of n] digit_char_def)
  qed
qed

lemma show_nat_no_colon: "CHR '':'' \<notin> set (show_nat n)"
  using show_nat_digits [of "CHR '':''" n] by auto

text \<open>Two texts that agree, cut at the first separator, agree on both sides of it.\<close>

lemma split_at_first:
  "xs @ c # ys = xs' @ c # ys' \<Longrightarrow> c \<notin> set xs \<Longrightarrow> c \<notin> set xs' \<Longrightarrow> xs = xs' \<and> ys = ys'"
  by (induction xs arbitrary: xs') (case_tac xs'; auto)+

definition show_int :: "int \<Rightarrow> string" where
  "show_int i = (if i < 0 then CHR ''-'' # show_nat (nat (- i)) else show_nat (nat i))"

primrec hex_digits :: "nat \<Rightarrow> nat \<Rightarrow> string" where
  "hex_digits 0 n = []"
| "hex_digits (Suc w) n = hex_digits w (n div 16) @ [digit_char (n mod 16)]"

lemma length_hex_digits [simp]: "length (hex_digits w n) = w"
  by (induction w arbitrary: n) auto

lemma hex_digits_inj:
  "m < 16 ^ w \<Longrightarrow> n < 16 ^ w \<Longrightarrow> hex_digits w m = hex_digits w n \<Longrightarrow> m = n"
proof (induction w arbitrary: m n)
  case (Suc w)
  have digit: "digit_char a = digit_char b \<Longrightarrow> a = b" if "a < 16" "b < 16" for a b
  proof -
    have "inj_on digit_char {..<16}" by code_simp
    then show "digit_char a = digit_char b \<Longrightarrow> a = b" using that by (auto dest: inj_onD)
  qed
  have "hex_digits w (m div 16) = hex_digits w (n div 16)" and
    "digit_char (m mod 16) = digit_char (n mod 16)"
    using Suc.prems(3) by simp_all
  moreover have "m div 16 < 16 ^ w" and "n div 16 < 16 ^ w"
    using Suc.prems(1,2) by (simp_all add: less_mult_imp_div_less mult.commute)
  ultimately have "m div 16 = n div 16" and "m mod 16 = n mod 16"
    using Suc.IH digit by simp_all
  then show ?case by (metis div_mult_mod_eq)
qed simp

section \<open>Reading back a spelling\<close>

lemma find_spelling:
  assumes "inj f" and "x \<in> set xs"
  shows "find (\<lambda>a. f a = t) xs = Some x \<longleftrightarrow> t = f x"
  using assms(2)
proof (induction xs)
  case (Cons a xs)
  then show ?case using assms(1) by (auto dest: injD simp: find_None_iff find_Some_iff)
qed simp

section \<open>Ordering and sorting\<close>

text \<open>
  \<open>core::cmp::Ordering\<close>, the comparison of two values of an ordered type, and \<open>then_with\<close>,
  which consults the second comparison only on \<open>Equal\<close>.
\<close>

datatype ordering = Less | Equal | Greater

fun reverse_ordering :: "ordering \<Rightarrow> ordering" where
  "reverse_ordering Less = Greater"
| "reverse_ordering Equal = Equal"
| "reverse_ordering Greater = Less"

definition cmp :: "'a::linorder \<Rightarrow> 'a \<Rightarrow> ordering" where
  "cmp a b = (if a < b then Less else if a = b then Equal else Greater)"

definition then_with :: "ordering \<Rightarrow> ordering \<Rightarrow> ordering" where
  "then_with a b = (if a = Equal then b else a)"

text \<open>
  \<open>slice::sort_by\<close> is a stable sort by a comparison function; so is insertion sort, and a
  stable sort has only one result.
\<close>

fun insert_by :: "('a \<Rightarrow> 'a \<Rightarrow> ordering) \<Rightarrow> 'a \<Rightarrow> 'a list \<Rightarrow> 'a list" where
  "insert_by f x [] = [x]"
| "insert_by f x (y # ys) = (if f x y = Greater then y # insert_by f x ys else x # y # ys)"

fun sort_by :: "('a \<Rightarrow> 'a \<Rightarrow> ordering) \<Rightarrow> 'a list \<Rightarrow> 'a list" where
  "sort_by f [] = []"
| "sort_by f (x # xs) = insert_by f x (sort_by f xs)"

lemma mset_insert_by [simp]: "mset (insert_by f x xs) = add_mset x (mset xs)"
  by (induction xs) auto

lemma mset_sort_by [simp]: "mset (sort_by f xs) = mset xs"
  by (induction xs) auto

lemma set_sort_by [simp]: "set (sort_by f xs) = set xs"
  by (metis mset_sort_by set_mset_mset)

lemma length_sort_by [simp]: "length (sort_by f xs) = length xs"
  by (metis mset_sort_by size_mset)

lemma sort_by_Nil_iff [simp]: "sort_by f xs = [] \<longleftrightarrow> xs = []"
  by (metis length_0_conv length_sort_by)

text \<open>The laws \<open>sort_by\<close> asks of its comparison function.\<close>

locale rust_ord =
  fixes ord :: "'a \<Rightarrow> 'a \<Rightarrow> ordering"
  assumes ord_refl: "ord x x = Equal"
    and ord_swap: "ord y x = reverse_ordering (ord x y)"
    and ord_trans: "ord x y \<noteq> Greater \<Longrightarrow> ord y z \<noteq> Greater \<Longrightarrow> ord x z \<noteq> Greater"
begin

lemma ord_total: "ord x y \<noteq> Greater \<or> ord y x \<noteq> Greater"
  using ord_swap [of y x] by (cases "ord x y") auto

lemma sorted_insert_by:
  assumes "sorted_wrt (\<lambda>a b. ord a b \<noteq> Greater) ys"
  shows "sorted_wrt (\<lambda>a b. ord a b \<noteq> Greater) (insert_by ord x ys)"
  using assms
proof (induction ys)
  case Nil
  then show ?case by simp
next
  case (Cons y ys)
  have mem: "z \<in> set (insert_by ord x ys) \<longleftrightarrow> z = x \<or> z \<in> set ys" for z
    by (metis insert_iff mset_insert_by set_mset_add_mset_insert set_mset_mset)
  show ?case
  proof (cases "ord x y = Greater")
    case True
    then have "ord y x \<noteq> Greater" using ord_total by blast
    with True Cons mem show ?thesis by auto
  next
    case False
    have "ord x z \<noteq> Greater" if "z \<in> set ys" for z
      using ord_trans [OF False, of z] Cons.prems that by simp
    with False Cons.prems show ?thesis by auto
  qed
qed

lemma sorted_sort_by: "sorted_wrt (\<lambda>a b. ord a b \<noteq> Greater) (sort_by ord xs)"
  by (induction xs) (auto intro: sorted_insert_by)

lemma sorted_unique:
  assumes "sorted_wrt (\<lambda>a b. ord a b \<noteq> Greater) xs"
    and "sorted_wrt (\<lambda>a b. ord a b \<noteq> Greater) ys"
    and "mset xs = mset ys"
    and "\<forall>a \<in> set xs. \<forall>b \<in> set xs. ord a b = Equal \<longrightarrow> a = b"
  shows "xs = ys"
  using assms
proof (induction xs arbitrary: ys)
  case Nil
  then show ?case by simp
next
  case (Cons x xs)
  then obtain y ys' where ys: "ys = y # ys'" by (cases ys) auto
  have sets: "set (x # xs) = set (y # ys')"
    using Cons.prems(3) ys by (metis mset_eq_setD)
  have "y \<in> set (x # xs)" and "x \<in> set (y # ys')"
    using sets by auto
  then have "ord x y \<noteq> Greater" and "ord y x \<noteq> Greater"
    using Cons.prems(1,2) ys ord_refl [of x] by auto
  then have "ord x y = Equal"
    using ord_swap [of y x] by (cases "ord x y") auto
  then have "x = y"
    using Cons.prems(4) \<open>y \<in> set (x # xs)\<close> by auto
  moreover have "xs = ys'"
    using Cons.prems ys \<open>x = y\<close> by (intro Cons.IH) auto
  ultimately show ?case using ys by simp
qed

lemma sort_by_permutation:
  assumes "mset xs = mset ys"
    and "\<forall>a \<in> set xs. \<forall>b \<in> set xs. ord a b = Equal \<longrightarrow> a = b"
  shows "sort_by ord xs = sort_by ord ys"
  by (rule sorted_unique) (use assms sorted_sort_by in auto)

lemma sort_by_head_least:
  "sort_by ord xs = y # ys \<Longrightarrow> z \<in> set xs \<Longrightarrow> ord y z \<noteq> Greater"
proof -
  assume sorted: "sort_by ord xs = y # ys" and "z \<in> set xs"
  then have "z \<in> set (y # ys)"
    using set_sort_by [of ord xs] by simp
  moreover have "\<forall>z \<in> set ys. ord y z \<noteq> Greater"
    using sorted_sort_by [of xs] sorted by simp
  ultimately show ?thesis using ord_refl [of y] by auto
qed

end

text \<open>The order of a \<open>linorder\<close> type satisfies the laws, so sorting by \<open>cmp\<close> sorts.\<close>

interpretation natural: rust_ord cmp
  by unfold_locales (auto simp: cmp_def split: if_splits)

lemma sort_by_cmp: "sort_by cmp xs = sort xs"
proof (rule natural.sorted_unique)
  have "sorted (sort xs)" by simp
  then show "sorted_wrt (\<lambda>a b. cmp a b \<noteq> Greater) (sort xs)"
    by (rule sorted_wrt_mono_rel [rotated]) (auto simp: cmp_def)
qed (simp_all add: natural.sorted_sort_by, auto simp: cmp_def split: if_splits)

section \<open>Ordered collections\<close>

text \<open>
  \<open>BTreeMap\<close> is an association list whose keys increase strictly, which is also the order its
  iterators visit; \<open>BTreeSet\<close> is a strictly increasing list.  The interface a component may
  rely on is the locale \<open>ordered_map\<close>.
\<close>

type_synonym ('k, 'v) btree_map = "('k \<times> 'v) list"
type_synonym 'k btree_set = "'k list"

definition bt_wf :: "('k::linorder, 'v) btree_map \<Rightarrow> bool" where
  "bt_wf m \<longleftrightarrow> sorted_wrt (<) (map fst m)"

definition bt_get :: "('k, 'v) btree_map \<Rightarrow> 'k \<Rightarrow> 'v option" where
  "bt_get m k = map_of m k"

fun bt_insert :: "'k::linorder \<Rightarrow> 'v \<Rightarrow> ('k, 'v) btree_map \<Rightarrow> ('k, 'v) btree_map" where
  "bt_insert k v [] = [(k, v)]"
| "bt_insert k v ((k', v') # m) =
     (if k < k' then (k, v) # (k', v') # m
      else if k = k' then (k, v) # m
      else (k', v') # bt_insert k v m)"

definition bt_remove :: "'k \<Rightarrow> ('k, 'v) btree_map \<Rightarrow> ('k, 'v) btree_map" where
  "bt_remove k m = filter (\<lambda>e. fst e \<noteq> k) m"

locale ordered_map =
  fixes get :: "'m \<Rightarrow> 'k::linorder \<Rightarrow> 'v option"
    and ins :: "'k \<Rightarrow> 'v \<Rightarrow> 'm \<Rightarrow> 'm"
    and del :: "'k \<Rightarrow> 'm \<Rightarrow> 'm"
    and keys :: "'m \<Rightarrow> 'k list"
    and wf :: "'m \<Rightarrow> bool"
  assumes get_ins: "get (ins k v m) j = (if j = k then Some v else get m j)"
    and get_del: "get (del k m) j = (if j = k then None else get m j)"
    and wf_ins: "wf m \<Longrightarrow> wf (ins k v m)"
    and wf_del: "wf m \<Longrightarrow> wf (del k m)"
    and keys_wf: "wf m \<Longrightarrow> sorted_wrt (<) (keys m)"
    and keys_get: "k \<in> set (keys m) \<longleftrightarrow> get m k \<noteq> None"
begin

lemma set_keys_ins: "set (keys (ins k v m)) = insert k (set (keys m))"
  by (rule set_eqI) (simp add: keys_get get_ins)

lemma set_keys_del: "set (keys (del k m)) = set (keys m) - {k}"
  by (rule set_eqI) (simp add: keys_get get_del)

lemma length_keys: "wf m \<Longrightarrow> length (keys m) = card (set (keys m))"
  using keys_wf [of m] by (simp add: distinct_card strict_sorted_iff)

lemma length_ins:
  "wf m \<Longrightarrow> length (keys (ins k v m)) = (if get m k = None then Suc (length (keys m)) else length (keys m))"
  by (simp add: length_keys wf_ins set_keys_ins card_insert_if keys_get)

text \<open>A client that inserts only absent keys: the first value recorded for a key stays.\<close>

lemma first_insert_wins:
  "get (foldl (\<lambda>m (k, v). if get m k = None then ins k v m else m) m evs) j =
     (case get m j of Some v \<Rightarrow> Some v | None \<Rightarrow> map_of evs j)"
proof (induction evs arbitrary: m)
  case Nil
  show ?case by (cases "get m j") simp_all
next
  case (Cons e evs)
  obtain k v where e: "e = (k, v)" by (cases e)
  have "get (if get m k = None then ins k v m else m) j =
      (case get m j of Some w \<Rightarrow> Some w | None \<Rightarrow> if j = k then Some v else None)"
    by (cases "get m k") (auto simp: get_ins split: option.split)
  then show ?case
    using Cons.IH [of "if get m k = None then ins k v m else m"] e
    by (cases "get m j") auto
qed

lemma absent_insert_wf:
  "wf m \<Longrightarrow> wf (foldl (\<lambda>m (k, v). if get m k = None then ins k v m else m) m evs)"
  by (induction evs arbitrary: m) (auto simp: wf_ins)

lemma length_del:
  "wf m \<Longrightarrow> length (keys (del k m)) = (if get m k = None then length (keys m) else length (keys m) - 1)"
  by (simp add: length_keys wf_del set_keys_del card_Diff_singleton_if keys_get)

end

lemma bt_get_insert [simp]: "bt_get (bt_insert k v m) j = (if j = k then Some v else bt_get m j)"
  by (induction k v m rule: bt_insert.induct) (auto simp: bt_get_def)

lemma bt_get_remove [simp]: "bt_get (bt_remove k m) j = (if j = k then None else bt_get m j)"
  by (induction m) (auto simp: bt_get_def bt_remove_def)

lemma bt_get_Nil [simp]: "bt_get [] k = None"
  by (simp add: bt_get_def)

lemma bt_insert_fst: "fst ` set (bt_insert k v m) = insert k (fst ` set m)"
  by (induction k v m rule: bt_insert.induct) auto

lemma bt_wf_insert [simp]: "bt_wf m \<Longrightarrow> bt_wf (bt_insert k v m)"
proof (induction k v m rule: bt_insert.induct)
  case (2 k v k' v' m)
  have "x \<in> insert k (fst ` set m)" if "x \<in> fst ` set (bt_insert k v m)" for x
    using that by (simp add: bt_insert_fst)
  with 2 show ?case by (fastforce simp: bt_wf_def)
qed (simp add: bt_wf_def)

lemma bt_wf_remove [simp]: "bt_wf m \<Longrightarrow> bt_wf (bt_remove k m)"
  by (induction m) (auto simp: bt_wf_def bt_remove_def)

lemma bt_wf_Nil [simp]: "bt_wf []"
  by (simp add: bt_wf_def)

lemma bt_keys_get: "k \<in> set (map fst m) \<longleftrightarrow> bt_get m k \<noteq> None"
  by (simp add: bt_get_def map_of_eq_None_iff)

interpretation bt: ordered_map bt_get bt_insert bt_remove "map fst" bt_wf
  by unfold_locales (simp_all add: bt_keys_get del: set_map list.set_map, simp add: bt_wf_def)

definition bs_insert :: "'k::linorder \<Rightarrow> 'k btree_set \<Rightarrow> 'k btree_set" where
  "bs_insert k s = (if k \<in> set s then s else insort k s)"

lemma set_bs_insert [simp]: "set (bs_insert k s) = insert k (set s)"
  by (auto simp: bs_insert_def set_insort_key)

lemma bs_insert_sorted [simp]: "sorted_wrt (<) s \<Longrightarrow> sorted_wrt (<) (bs_insert k s)"
  by (auto simp: bs_insert_def strict_sorted_iff sorted_insort distinct_insort)

lemma length_bs_insert: "length (bs_insert k s) = (if k \<in> set s then length s else Suc (length s))"
  by (simp add: bs_insert_def)

text \<open>\<open>Vec::sort\<close> followed by \<open>dedup\<close>, and collecting into a \<open>BTreeSet\<close>, both list the set.\<close>

lemma distinct_remdups_adj: "sorted xs \<Longrightarrow> distinct (remdups_adj xs)"
proof (induction xs rule: remdups_adj.induct)
  case (3 x y xs)
  show ?case
  proof (cases "x = y")
    case False
    with "3.prems" have "x < y" and "\<forall>z \<in> set xs. y \<le> z" by auto
    then have "x \<notin> set (y # xs)" by auto
    with False 3 show ?thesis by simp
  qed (use 3 in simp)
qed simp_all

lemma sort_dedup: "remdups_adj (sort xs) = sorted_list_of_set (set xs)"
  by (metis distinct_remdups_adj remdups_adj_set set_sort sorted_list_of_set.idem_if_sorted_distinct
      sorted_remdups_adj sorted_sort)

definition bs_collect :: "'k::linorder list \<Rightarrow> 'k btree_set" where
  "bs_collect xs = foldl (\<lambda>s k. bs_insert k s) [] xs"

lemma bs_collect_eq: "bs_collect xs = sorted_list_of_set (set xs)"
proof -
  have "sorted_wrt (<) s \<Longrightarrow> sorted_wrt (<) (foldl (\<lambda>s k. bs_insert k s) s xs) \<and>
      set (foldl (\<lambda>s k. bs_insert k s) s xs) = set s \<union> set xs" for s
    by (induction xs arbitrary: s) auto
  from this [of "[]"] show ?thesis
    unfolding bs_collect_def
    by (intro strict_sorted_equal) simp_all
qed

lemma bs_collect_Nil [simp]: "bs_collect [] = []"
  by (simp add: bs_collect_def)

lemma bs_collect_set [simp]: "set (bs_collect xs) = set xs"
  by (simp add: bs_collect_eq)

text \<open>A well-formed map is determined by its lookups.\<close>

lemma bt_ext:
  assumes "bt_wf m" and "bt_wf n" and "\<And>k. bt_get m k = bt_get n k"
  shows "m = n"
proof (rule map_sorted_distinct_set_unique [where f = fst])
  have d: "distinct (map fst m)" "distinct (map fst n)"
    using assms(1,2) by (simp_all add: bt_wf_def strict_sorted_iff)
  show "set m = set n"
    using assms(3) map_of_eq_Some_iff [OF d(1)] map_of_eq_Some_iff [OF d(2)]
    by (auto simp: bt_get_def)
  then show "inj_on fst (set m \<union> set n)" using d(2) by (simp add: distinct_map)
qed (use assms(1,2) in \<open>simp_all add: bt_wf_def strict_sorted_iff\<close>)

end
