(* ===== verification/Machines.thy ===== *)
theory Machines
  imports Prelude
begin

text \<open>
  Interfaces shared by the state machines of the development.  \<open>trace\<close> runs a labelled step
  relation over a list of events.  The locales state what a machine promises: an invariant
  kept by every step (\<open>state_machine\<close>), ownership tokens that only grow
  (\<open>fenced_machine\<close>), and a requirement that stays raised until it is acknowledged
  (\<open>sticky_requirement\<close>); their lemmas lift these promises to whole runs.
\<close>

inductive trace :: "('s \<Rightarrow> 'e \<Rightarrow> 's \<Rightarrow> bool) \<Rightarrow> 's \<Rightarrow> 'e list \<Rightarrow> 's \<Rightarrow> bool" for step where
  trace_nil: "trace step s [] s"
| trace_cons: "step s e t \<Longrightarrow> trace step t es u \<Longrightarrow> trace step s (e # es) u"

declare trace.intros [step_intro]

inductive_cases trace_NilE: "trace step s [] u"
inductive_cases trace_ConsE: "trace step s (e # es) u"

inductive_simps trace_Nil_iff [simp]: "trace step s [] u"
inductive_simps trace_Cons_iff: "trace step s (e # es) u"

lemma trace_append:
  "trace step s es t \<Longrightarrow> trace step t fs u \<Longrightarrow> trace step s (es @ fs) u"
  by (induction rule: trace.induct) (auto intro: step_intro)

lemma trace_appendD:
  "trace step s (es @ fs) u \<Longrightarrow> \<exists>t. trace step s es t \<and> trace step t fs u"
  by (induction es arbitrary: s) (simp, fastforce simp: trace_Cons_iff)

locale state_machine =
  fixes step :: "'s \<Rightarrow> 'e \<Rightarrow> 's \<Rightarrow> bool"
    and inv :: "'s \<Rightarrow> bool"
  assumes step_inv: "step s e t \<Longrightarrow> inv s \<Longrightarrow> inv t"
begin

lemma trace_inv: "trace step s es t \<Longrightarrow> inv s \<Longrightarrow> inv t"
  by (induction rule: trace.induct) (auto intro: step_inv)

end

text \<open>
  A machine whose states carry a fence.  \<open>grants s e\<close> says that the event hands ownership to a
  new owner, \<open>accepts s e\<close> is the fence under which the event is accepted as an owner's.
\<close>

locale fenced_machine = state_machine +
  fixes fence :: "'s \<Rightarrow> int"
    and grants :: "'s \<Rightarrow> 'e \<Rightarrow> bool"
    and accepts :: "'s \<Rightarrow> 'e \<Rightarrow> int option"
  assumes fence_grant: "step s e t \<Longrightarrow> inv s \<Longrightarrow> grants s e \<Longrightarrow> fence t = fence s + 1"
    and fence_keep: "step s e t \<Longrightarrow> inv s \<Longrightarrow> \<not> grants s e \<Longrightarrow> fence t = fence s"
    and accepts_current: "accepts s e = Some f \<Longrightarrow> f = fence s"
begin

lemma trace_fence_mono: "trace step s es t \<Longrightarrow> inv s \<Longrightarrow> fence s \<le> fence t"
proof (induction rule: trace.induct)
  case (trace_cons s e t es u)
  then have "fence s \<le> fence t"
    using fence_grant [of s e t] fence_keep [of s e t] by (cases "grants s e") auto
  moreover have "inv t" using trace_cons by (auto intro: step_inv)
  ultimately show ?case using trace_cons by simp
qed simp

lemma superseded_forever:
  assumes "trace step s es t" and "inv s" and "step t e t'" and "grants t e"
    and "trace step t' fs u" and "accepts u e' = Some f"
  shows "fence s < f"
proof -
  have "inv t" using assms(1,2) by (rule trace_inv)
  then have "inv t'" by (rule step_inv [OF assms(3)])
  have "fence s \<le> fence t" using assms(1,2) by (rule trace_fence_mono)
  also have "\<dots> < fence t'" using fence_grant assms(3,4) \<open>inv t\<close> by simp
  also have "\<dots> \<le> fence u" using assms(5) \<open>inv t'\<close> by (rule trace_fence_mono)
  also have "\<dots> = f" using accepts_current assms(6) by simp
  finally show ?thesis .
qed

end

text \<open>
  A requirement that, once raised, only an acknowledgement clears: \<open>raised\<close> reads it, \<open>acks\<close>
  says which events acknowledge.
\<close>

locale sticky_requirement =
  fixes step :: "'s \<Rightarrow> 'e \<Rightarrow> 's \<Rightarrow> bool"
    and raised :: "'s \<Rightarrow> 'r option"
    and acks :: "'e \<Rightarrow> bool"
  assumes sticky_step: "step s e t \<Longrightarrow> \<not> acks e \<Longrightarrow> raised s = Some r \<Longrightarrow> raised t = Some r"
begin

lemma sticky_trace:
  "trace step s es t \<Longrightarrow> list_all (\<lambda>e. \<not> acks e) es \<Longrightarrow> raised s = Some r \<Longrightarrow> raised t = Some r"
  by (induction rule: trace.induct) (auto intro: sticky_step)

end

end
