(* ===== verification/Redact.thy ===== *)
theory Redact
  imports Prelude
begin

text \<open>
  The scrubber of \<^verbatim>\<open>graph-core/src/redact.rs\<close>: which detail keys an error may carry, which
  tokens count as credentials, and \<open>scrub\<close>, which rewrites a diagnostic text token by token.
  The lemmas show that the scan ends and consumes its input, and that the value of a sensitive
  key, or everything after a credential marker, cannot influence the output.
\<close>

section \<open>The word lists\<close>

definition REDACTED :: string where "REDACTED = ''[redacted]''"
definition REDACTED_PATH :: string where "REDACTED_PATH = ''[path]''"

definition ALLOWED_DETAIL_KEYS :: "string list" where
  "ALLOWED_DETAIL_KEYS =
    [''actual'', ''component'', ''config_key'', ''config_source'', ''expected'', ''file_count'',
     ''generation'', ''job_id'', ''limit'', ''migration_name'', ''migration_version'',
     ''observed'', ''portable_path'', ''project_id'', ''required_version'', ''retryable'',
     ''rule'', ''schema'', ''solution_id'', ''sqlite_version'', ''storage_class'', ''table'',
     ''version'']"

definition SENSITIVE_KEYS :: "string list" where
  "SENSITIVE_KEYS =
    [''access_key'', ''api_key'', ''apikey'', ''auth'', ''authorization'', ''conn_str'',
     ''connection_string'', ''connectionstring'', ''cookie'', ''credential'', ''credentials'',
     ''passphrase'', ''passwd'', ''password'', ''private_key'', ''pwd'', ''secret'',
     ''session_key'', ''token'']"

definition CREDENTIAL_MARKERS :: "string list" where
  "CREDENTIAL_MARKERS = [''bearer'', ''basic'']"

definition is_allowed_detail_key :: "string \<Rightarrow> bool" where
  "is_allowed_detail_key key \<longleftrightarrow>
     list_ex (\<lambda>allowed. eq_ignore_ascii_case allowed key) ALLOWED_DETAIL_KEYS"

text \<open>\<open>trim_matches\<close> and \<open>trim_end_matches\<close> drop the bytes satisfying a predicate at the ends.\<close>

definition trim_end_matches :: "(char \<Rightarrow> bool) \<Rightarrow> string \<Rightarrow> string" where
  "trim_end_matches p s = rev (dropWhile p (rev s))"

definition trim_matches :: "(char \<Rightarrow> bool) \<Rightarrow> string \<Rightarrow> string" where
  "trim_matches p s = trim_end_matches p (dropWhile p s)"

definition is_sensitive_key :: "string \<Rightarrow> bool" where
  "is_sensitive_key key =
     (let key = trim_matches
        (\<lambda>c. \<not> is_ascii_alphanumeric c \<and> c \<noteq> CHR ''_'' \<and> c \<noteq> CHR ''-'') key
      in list_ex (\<lambda>sensitive. eq_ignore_ascii_case sensitive key) SENSITIVE_KEYS)"

definition looks_like_absolute_path :: "string \<Rightarrow> bool" where
  "looks_like_absolute_path token =
     (if 3 \<le> length token \<and> is_ascii_alphabetic (token ! 0) \<and> token ! 1 = CHR '':''
         \<and> (token ! 2 = CHR 0x5C \<or> token ! 2 = CHR ''/'') then True
      else if starts_with token [CHR 0x5C, CHR 0x5C] \<or> starts_with token ''//'' then True
      else if starts_with token ''/'' then
        (case split_on CHR ''/'' token of
           _ # first # _ # _ \<Rightarrow> first \<noteq> []
         | _ \<Rightarrow> False)
      else False)"

definition is_jwt_like :: "string \<Rightarrow> bool" where
  "is_jwt_like token \<longleftrightarrow>
     starts_with token ''eyJ'' \<and> 2 \<le> length (filter (\<lambda>c. c = CHR ''.'') token) \<and> 20 < length token"

definition scrub_url_userinfo :: "string \<Rightarrow> string option" where
  "scrub_url_userinfo token =
     (case find_sub ''://'' token of
        None \<Rightarrow> None
      | Some scheme_end \<Rightarrow>
          let authority_start = scheme_end + 3;
              rest = drop authority_start token;
              authority = takeWhile (\<lambda>c. c \<noteq> CHR ''/'') rest;
              tail = dropWhile (\<lambda>c. c \<noteq> CHR ''/'') rest
          in if CHR ''@'' \<in> set authority
             then Some (take authority_start token @ REDACTED
                    @ dropWhile (\<lambda>c. c \<noteq> CHR ''@'') authority @ tail)
             else None)"

definition is_credential_marker :: "string \<Rightarrow> bool" where
  "is_credential_marker token =
     (let bare = trim_end_matches (\<lambda>c. c = CHR '':'') token
      in is_sensitive_key bare
         \<or> list_ex (\<lambda>marker. eq_ignore_ascii_case marker bare) CREDENTIAL_MARKERS)"

section \<open>The token scan\<close>

text \<open>
  \<open>char::is_whitespace\<close> on the UTF-8 bytes at the head of a text: the length in bytes of the
  whitespace character found there, 0 when there is none.
\<close>

definition ws_len :: "string \<Rightarrow> nat" where
  "ws_len s = (case map of_char s of
      [] \<Rightarrow> 0
    | a # r \<Rightarrow>
        if (9 \<le> a \<and> a \<le> 13) \<or> a = (32::nat) then 1
        else (case r of
            [] \<Rightarrow> 0
          | b # r' \<Rightarrow>
              if a = 194 \<and> (b = 133 \<or> b = 160) then 2
              else (case r' of
                  [] \<Rightarrow> 0
                | c # _ \<Rightarrow>
                    if (a = 225 \<and> b = 154 \<and> c = 128)
                      \<or> (a = 226 \<and> b = 128 \<and> ((128 \<le> c \<and> c \<le> 138) \<or> c = 168 \<or> c = 169 \<or> c = 175))
                      \<or> (a = 226 \<and> b = 129 \<and> c = 159)
                      \<or> (a = 227 \<and> b = 128 \<and> c = 128)
                    then 3 else 0)))"

lemma ws_len_Nil [simp]: "ws_len [] = 0"
  by (simp add: ws_len_def)

lemma ws_len_le: "ws_len s \<le> length s"
proof (cases s)
  case (Cons a r)
  then show ?thesis by (cases r; cases "tl r") (simp_all add: ws_len_def)
qed simp

text \<open>The token up to the next whitespace, and the whitespace run at the head of a text.\<close>

fun break_ws :: "string \<Rightarrow> string \<times> string" where
  "break_ws [] = ([], [])"
| "break_ws (c # cs) =
     (if 0 < ws_len (c # cs) then ([], c # cs)
      else (case break_ws cs of (t, r) \<Rightarrow> (c # t, r)))"

function span_ws :: "string \<Rightarrow> string \<times> string" where
  "span_ws s =
     (if ws_len s = 0 then ([], s)
      else (case span_ws (drop (ws_len s) s) of (w, r) \<Rightarrow> (take (ws_len s) s @ w, r)))"
  by pat_completeness auto
termination
proof (relation "measure length")
  fix s :: string
  assume "ws_len s \<noteq> 0"
  with ws_len_le [of s] show "(drop (ws_len s) s, s) \<in> measure length" by auto
qed simp

declare span_ws.simps [simp del]

lemma break_ws_append: "break_ws s = (t, r) \<Longrightarrow> s = t @ r"
  by (induction s arbitrary: t r) (auto split: if_splits prod.splits)

lemma break_ws_rest: "break_ws s = (t, r) \<Longrightarrow> r = [] \<or> 0 < ws_len r"
  by (induction s arbitrary: t r) (auto split: if_splits prod.splits)

lemma span_ws_append: "span_ws s = (w, r) \<Longrightarrow> s = w @ r"
proof (induction s arbitrary: w r rule: span_ws.induct)
  case (1 s)
  show ?case
  proof (cases "ws_len s = 0")
    case True
    with "1.prems" show ?thesis by (simp add: span_ws.simps [of s])
  next
    case False
    obtain w' r' where d: "span_ws (drop (ws_len s) s) = (w', r')" by fastforce
    with False "1.prems" have "w = take (ws_len s) s @ w'" and "r = r'"
      by (simp_all add: span_ws.simps [of s])
    with "1.IH" [OF False d] show ?thesis by (metis append.assoc append_take_drop_id)
  qed
qed

lemma span_ws_shorter:
  assumes "0 < ws_len s" shows "length (snd (span_ws s)) < length s"
proof -
  obtain w r where d: "span_ws (drop (ws_len s) s) = (w, r)" by fastforce
  from span_ws_append [OF d] have "length r \<le> length s - ws_len s"
    by (metis length_append length_drop le_add2)
  with assms ws_len_le [of s] d show ?thesis by (auto simp: span_ws.simps [of s])
qed

lemma rest_shorter:
  assumes "s \<noteq> []" and "break_ws s = (t, r)"
  shows "length (snd (span_ws r)) < length s"
proof (cases "r = []")
  case True
  with assms show ?thesis by (simp add: span_ws.simps [of "[]"])
next
  case False
  with break_ws_rest [OF assms(2)] have "length (snd (span_ws r)) < length r"
    by (simp add: span_ws_shorter)
  also have "\<dots> \<le> length s" using break_ws_append [OF assms(2)] by simp
  finally show ?thesis .
qed

lemma rest_shorter_eq:
  "s \<noteq> [] \<Longrightarrow> (t, r) = break_ws s \<Longrightarrow> (w, r') = span_ws r \<Longrightarrow> length r' < length s"
  by (metis rest_shorter snd_conv)

text \<open>What one token is replaced by when it neither sets a sensitive key nor is a marker.\<close>

definition scrub_token :: "string \<Rightarrow> string" where
  "scrub_token token =
     (if is_jwt_like token then REDACTED
      else (case scrub_url_userinfo token of
          Some scrubbed \<Rightarrow> scrubbed
        | None \<Rightarrow> if looks_like_absolute_path token then REDACTED_PATH else token))"

text \<open>The text before the first \<open>=\<close>, when the token holds one.\<close>

definition assignment_key :: "string \<Rightarrow> string option" where
  "assignment_key token =
     (if CHR ''='' \<in> set token then Some (takeWhile (\<lambda>c. c \<noteq> CHR ''='') token) else None)"

function scrub_loop :: "string \<Rightarrow> string \<Rightarrow> string" where
  "scrub_loop out remainder =
     (if remainder = [] then out
      else (case break_ws remainder of (token, rest) \<Rightarrow>
        (case span_ws rest of (ws, remainder') \<Rightarrow>
          (case assignment_key token of
             Some key \<Rightarrow>
               if is_sensitive_key key
               then scrub_loop (out @ key @ ''=[redacted]'' @ ws) remainder'
               else if is_credential_marker token then out @ token @ '' '' @ REDACTED
               else scrub_loop (out @ scrub_token token @ ws) remainder'
           | None \<Rightarrow>
               if is_credential_marker token then out @ token @ '' '' @ REDACTED
               else scrub_loop (out @ scrub_token token @ ws) remainder'))))"
  by pat_completeness auto
termination
proof (relation "measure (\<lambda>(out, remainder). length remainder)")
  show "wf (measure (\<lambda>(out :: string, remainder :: string). length remainder))" by simp
qed (auto intro: rest_shorter_eq)

declare scrub_loop.simps [simp del]

definition scrub :: "string \<Rightarrow> string" where
  "scrub input = (if str_contains input ''PRIVATE KEY'' then REDACTED else scrub_loop [] input)"

definition scrub_for_export :: "string \<Rightarrow> string" where
  "scrub_for_export input = scrub input"

section \<open>Secrets do not reach the output\<close>

text \<open>No whitespace character starts anywhere in \<open>s\<close>, whatever follows it.\<close>

definition ws_free :: "string \<Rightarrow> bool" where
  "ws_free s \<longleftrightarrow> list_all (\<lambda>c. CHR 0x21 \<le> c \<and> c \<le> CHR 0x7E) s"

lemma ws_len_visible: "CHR 0x21 \<le> c \<Longrightarrow> c \<le> CHR 0x7E \<Longrightarrow> ws_len (c # s) = 0"
  by (cases s; cases "tl s") (auto simp: ws_len_def less_eq_char_def)

lemma break_ws_free:
  "ws_free t \<Longrightarrow> break_ws (t @ r) = (t @ fst (break_ws r), snd (break_ws r))"
  by (induction t) (auto simp: ws_free_def ws_len_visible split: prod.splits)

lemma break_ws_at: "r = [] \<or> 0 < ws_len r \<Longrightarrow> break_ws r = ([], r)"
  by (cases r) auto

lemma scrub_loop_assignment:
  assumes "ws_free key" and "CHR ''='' \<notin> set key" and "is_sensitive_key key"
    and "ws_free v" and "r = [] \<or> 0 < ws_len r"
  shows "scrub_loop out (key @ CHR ''='' # v @ r)
       = scrub_loop (out @ key @ ''=[redacted]'' @ fst (span_ws r)) (snd (span_ws r))"
proof -
  have free: "ws_free (key @ CHR ''='' # v)"
    using assms(1,4) by (simp add: ws_free_def less_eq_char_def)
  have brk: "break_ws (key @ CHR ''='' # v @ r) = (key @ CHR ''='' # v, r)"
    using break_ws_free [OF free, of r] break_ws_at [OF assms(5)] by simp
  have "assignment_key (key @ CHR ''='' # v) = Some key"
    using assms(2) by (auto simp: assignment_key_def takeWhile_append)
  then show ?thesis
    using assms(3) brk by (subst scrub_loop.simps) (simp split: prod.splits)
qed

lemma scrub_loop_marker:
  assumes "ws_free m" and "m \<noteq> []" and "CHR ''='' \<notin> set m" and "is_credential_marker m"
    and "r = [] \<or> 0 < ws_len r"
  shows "scrub_loop out (m @ r) = out @ m @ '' '' @ REDACTED"
proof -
  have "break_ws (m @ r) = (m, r)"
    using break_ws_free [OF assms(1), of r] break_ws_at [OF assms(5)] by simp
  moreover have "assignment_key m = None"
    using assms(3) by (simp add: assignment_key_def)
  ultimately show ?thesis
    using assms(2,4) by (subst scrub_loop.simps) (simp split: prod.splits)
qed

section \<open>Properties of the scrubber\<close>

text \<open>The value of a sensitive assignment never influences the scrubbed text: two messages that
  differ only in the value after \<open>key=\<close> are scrubbed to the same text (a message with a private key
  header is replaced as a whole).\<close>

theorem scrub_hides_assigned_value:
  assumes "ws_free key" and "CHR ''='' \<notin> set key" and "is_sensitive_key key"
    and "ws_free secret" and "ws_free secret'" and "r = [] \<or> 0 < ws_len r"
    and "\<not> str_contains (key @ CHR ''='' # secret @ r) ''PRIVATE KEY''"
    and "\<not> str_contains (key @ CHR ''='' # secret' @ r) ''PRIVATE KEY''"
  shows "scrub (key @ CHR ''='' # secret @ r) = scrub (key @ CHR ''='' # secret' @ r)"
  using assms by (simp add: scrub_def scrub_loop_assignment)

theorem scrub_hides_assigned_value_witness:
  "scrub (''password=hunter2'' @ '' failed'') = scrub (''password=s3cr3t'' @ '' failed'')"
proof -
  have "scrub (''password'' @ CHR ''='' # ''hunter2'' @ '' failed'') =
      scrub (''password'' @ CHR ''='' # ''s3cr3t'' @ '' failed'')"
    by (rule scrub_hides_assigned_value) code_simp+
  then show ?thesis by simp
qed

text \<open>Everything after a bare credential marker is replaced, whatever it holds: the scrubbed text
  ends at the marker with the redaction mark.\<close>

theorem scrub_cuts_after_marker:
  assumes "ws_free m" and "m \<noteq> []" and "CHR ''='' \<notin> set m" and "is_credential_marker m"
    and "0 < ws_len r"
  shows "scrub (m @ r) = (if str_contains (m @ r) ''PRIVATE KEY'' then REDACTED
    else m @ '' '' @ REDACTED)"
  using assms by (simp add: scrub_def scrub_loop_marker)

theorem scrub_cuts_after_marker_witness:
  "scrub (''Bearer'' @ '' abc def'') = ''Bearer [redacted]''"
proof -
  have "scrub (''Bearer'' @ '' abc def'') =
      (if str_contains (''Bearer'' @ '' abc def'') ''PRIVATE KEY'' then REDACTED
       else ''Bearer'' @ '' '' @ REDACTED)"
    by (rule scrub_cuts_after_marker) code_simp+
  moreover have "\<not> str_contains (''Bearer'' @ '' abc def'') ''PRIVATE KEY''" by code_simp
  ultimately show ?thesis by (simp only: if_False REDACTED_def) simp
qed

text \<open>
  An assignment hides its own token only: a credential of two words leaves the second one in the
  output.
\<close>

lemma assignment_keeps_second_word:
  "scrub ''authorization=Bearer abcdef'' = ''authorization=[redacted] abcdef''"
  by code_simp

end
