(* ===== verification/Errors.thy ===== *)
theory Errors
  imports Redact
begin

text \<open>
  The error values of \<^verbatim>\<open>graph-core/src/error.rs\<close>: stable codes and their wire spelling, the
  process exit codes, and \<open>AxiomError\<close> with its redacted message and details.  Fallible
  functions of the development return \<open>'a result\<close>, an \<open>AxiomError\<close> or a value.  The lemmas
  say what survives the construction of an error: its code and retryability, an allowlisted
  detail whose text holds nothing to scrub, and a message that is never blank.
\<close>

section \<open>Codes\<close>

datatype error_code =
    ValidationError | Unauthenticated | Forbidden | NotFound | Conflict | IncompatibleInput
  | RateLimited | NotReady | WriterAlreadyRunning | WorktreeBusy | MigrationChecksumMismatch
  | MigrationOrderConflict | SchemaNewerThanBinary | SqliteUnsupportedVersion
  | SqliteNetworkStorageUnsupported | UnsafeHomePath | UnsafePortablePath | ConfigInvalid
  | ShuttingDown | Internal

fun error_code_str :: "error_code \<Rightarrow> string" where
  "error_code_str ValidationError = ''VALIDATION_ERROR''"
| "error_code_str Unauthenticated = ''UNAUTHENTICATED''"
| "error_code_str Forbidden = ''FORBIDDEN''"
| "error_code_str NotFound = ''NOT_FOUND''"
| "error_code_str Conflict = ''CONFLICT''"
| "error_code_str IncompatibleInput = ''INCOMPATIBLE_INPUT''"
| "error_code_str RateLimited = ''RATE_LIMITED''"
| "error_code_str NotReady = ''NOT_READY''"
| "error_code_str WriterAlreadyRunning = ''WRITER_ALREADY_RUNNING''"
| "error_code_str WorktreeBusy = ''WORKTREE_BUSY''"
| "error_code_str MigrationChecksumMismatch = ''MIGRATION_CHECKSUM_MISMATCH''"
| "error_code_str MigrationOrderConflict = ''MIGRATION_ORDER_CONFLICT''"
| "error_code_str SchemaNewerThanBinary = ''SCHEMA_NEWER_THAN_BINARY''"
| "error_code_str SqliteUnsupportedVersion = ''SQLITE_UNSUPPORTED_VERSION''"
| "error_code_str SqliteNetworkStorageUnsupported = ''SQLITE_NETWORK_STORAGE_UNSUPPORTED''"
| "error_code_str UnsafeHomePath = ''UNSAFE_HOME_PATH''"
| "error_code_str UnsafePortablePath = ''UNSAFE_PORTABLE_PATH''"
| "error_code_str ConfigInvalid = ''CONFIG_INVALID''"
| "error_code_str ShuttingDown = ''SHUTTING_DOWN''"
| "error_code_str Internal = ''INTERNAL''"

fun default_retryable :: "error_code \<Rightarrow> bool" where
  "default_retryable Conflict = True"
| "default_retryable RateLimited = True"
| "default_retryable NotReady = True"
| "default_retryable WorktreeBusy = True"
| "default_retryable ShuttingDown = True"
| "default_retryable _ = False"

definition error_code_all :: "error_code list" where
  "error_code_all =
    [ValidationError, Unauthenticated, Forbidden, NotFound, Conflict, IncompatibleInput,
     RateLimited, NotReady, WriterAlreadyRunning, WorktreeBusy, MigrationChecksumMismatch,
     MigrationOrderConflict, SchemaNewerThanBinary, SqliteUnsupportedVersion,
     SqliteNetworkStorageUnsupported, UnsafeHomePath, UnsafePortablePath, ConfigInvalid,
     ShuttingDown, Internal]"

datatype exit_code =
    ExitSuccess | ExitValidation | ExitNotFound | ExitNotReady | ExitAuthorization
  | ExitConflict | ExitTimeoutOrBusy | ExitIoInternal | ExitIncompatible
  | ExitLockUnavailable | ExitPartialOperation

fun exit_code_i32 :: "exit_code \<Rightarrow> i32" where
  "exit_code_i32 ExitSuccess = 0"
| "exit_code_i32 ExitValidation = 2"
| "exit_code_i32 ExitNotFound = 3"
| "exit_code_i32 ExitNotReady = 4"
| "exit_code_i32 ExitAuthorization = 5"
| "exit_code_i32 ExitConflict = 6"
| "exit_code_i32 ExitTimeoutOrBusy = 7"
| "exit_code_i32 ExitIoInternal = 8"
| "exit_code_i32 ExitIncompatible = 9"
| "exit_code_i32 ExitLockUnavailable = 10"
| "exit_code_i32 ExitPartialOperation = 20"

fun exit_code_meaning :: "exit_code \<Rightarrow> string" where
  "exit_code_meaning ExitSuccess = ''success''"
| "exit_code_meaning ExitValidation = ''validation''"
| "exit_code_meaning ExitNotFound = ''not found''"
| "exit_code_meaning ExitNotReady = ''not ready/stale''"
| "exit_code_meaning ExitAuthorization = ''authorization''"
| "exit_code_meaning ExitConflict = ''conflict''"
| "exit_code_meaning ExitTimeoutOrBusy = ''timeout/busy''"
| "exit_code_meaning ExitIoInternal = ''I/O internal''"
| "exit_code_meaning ExitIncompatible = ''incompatible''"
| "exit_code_meaning ExitLockUnavailable = ''lock unavailable''"
| "exit_code_meaning ExitPartialOperation = ''partial multi-repo operation''"

definition exit_code_all :: "exit_code list" where
  "exit_code_all =
    [ExitSuccess, ExitValidation, ExitNotFound, ExitNotReady, ExitAuthorization, ExitConflict,
     ExitTimeoutOrBusy, ExitIoInternal, ExitIncompatible, ExitLockUnavailable,
     ExitPartialOperation]"

definition exit_code_display :: "exit_code \<Rightarrow> string" where
  "exit_code_display c = show_int (exit_code_i32 c) @ '' ('' @ exit_code_meaning c @ '')''"

fun exit_code_for :: "error_code \<Rightarrow> exit_code" where
  "exit_code_for ValidationError = ExitValidation"
| "exit_code_for ConfigInvalid = ExitValidation"
| "exit_code_for UnsafeHomePath = ExitValidation"
| "exit_code_for UnsafePortablePath = ExitValidation"
| "exit_code_for NotFound = ExitNotFound"
| "exit_code_for NotReady = ExitNotReady"
| "exit_code_for ShuttingDown = ExitNotReady"
| "exit_code_for Unauthenticated = ExitAuthorization"
| "exit_code_for Forbidden = ExitAuthorization"
| "exit_code_for Conflict = ExitConflict"
| "exit_code_for WorktreeBusy = ExitConflict"
| "exit_code_for RateLimited = ExitTimeoutOrBusy"
| "exit_code_for WriterAlreadyRunning = ExitLockUnavailable"
| "exit_code_for Internal = ExitIoInternal"
| "exit_code_for IncompatibleInput = ExitIncompatible"
| "exit_code_for MigrationChecksumMismatch = ExitIncompatible"
| "exit_code_for MigrationOrderConflict = ExitIncompatible"
| "exit_code_for SchemaNewerThanBinary = ExitIncompatible"
| "exit_code_for SqliteUnsupportedVersion = ExitIncompatible"
| "exit_code_for SqliteNetworkStorageUnsupported = ExitIncompatible"

section \<open>The error value\<close>

record axiom_error =
  ae_code :: error_code
  ae_message :: string
  ae_retryable :: bool
  ae_details :: "(string, string) btree_map"
  ae_dropped_details :: usize
  ae_request_id :: "string option"

type_synonym 'a result = "axiom_error + 'a"

definition blank :: "string \<Rightarrow> bool" where
  "blank s \<longleftrightarrow> snd (span_ws s) = []"

definition axiom_error_new :: "error_code \<Rightarrow> string \<Rightarrow> axiom_error" where
  "axiom_error_new code message =
     (let scrubbed = scrub message
      in \<lparr>ae_code = code,
          ae_message = (if blank scrubbed then error_code_str code else scrubbed),
          ae_retryable = default_retryable code,
          ae_details = [],
          ae_dropped_details = 0,
          ae_request_id = None\<rparr>)"

definition with_detail :: "axiom_error \<Rightarrow> string \<Rightarrow> string \<Rightarrow> axiom_error" where
  "with_detail e key value =
     (if \<not> is_allowed_detail_key key
      then e\<lparr>ae_dropped_details := ae_dropped_details e + 1\<rparr>
      else e\<lparr>ae_details := bt_insert (to_ascii_lowercase key) (scrub value) (ae_details e)\<rparr>)"

definition with_retryable :: "axiom_error \<Rightarrow> bool \<Rightarrow> axiom_error" where
  "with_retryable e r = e\<lparr>ae_retryable := r\<rparr>"

definition with_request_id :: "axiom_error \<Rightarrow> string \<Rightarrow> axiom_error" where
  "with_request_id e rid = e\<lparr>ae_request_id := Some (scrub rid)\<rparr>"

definition ae_exit_code :: "axiom_error \<Rightarrow> exit_code" where
  "ae_exit_code e = exit_code_for (ae_code e)"

text \<open>The wire envelope drops the count of rejected keys and keeps the rest.\<close>

record error_envelope =
  env_code :: error_code
  env_message :: string
  env_retryable :: bool
  env_details :: "(string, string) btree_map"
  env_request_id :: "string option"

definition envelope :: "axiom_error \<Rightarrow> error_envelope" where
  "envelope e =
     \<lparr>env_code = ae_code e, env_message = ae_message e, env_retryable = ae_retryable e,
      env_details = ae_details e, env_request_id = ae_request_id e\<rparr>"

definition axiom_error_display :: "axiom_error \<Rightarrow> string" where
  "axiom_error_display e = error_code_str (ae_code e) @ '': '' @ ae_message e"

text \<open>
  \<open>AxiomError::new(code, message).with_detail(k1, v1).with_detail(k2, v2)\<close>, the chain every
  module uses, is \<open>fail code message [(k1, v1), (k2, v2)]\<close>.
\<close>

definition fail :: "error_code \<Rightarrow> string \<Rightarrow> (string \<times> string) list \<Rightarrow> axiom_error" where
  "fail code message details =
     foldl (\<lambda>e (k, v). with_detail e k v) (axiom_error_new code message) details"

definition rule_of :: "axiom_error \<Rightarrow> string option" where
  "rule_of e = bt_get (ae_details e) ''rule''"

section \<open>What an error keeps\<close>

lemma with_detail_fields [simp]:
  "ae_code (with_detail e k v) = ae_code e"
  "ae_message (with_detail e k v) = ae_message e"
  "ae_retryable (with_detail e k v) = ae_retryable e"
  "ae_request_id (with_detail e k v) = ae_request_id e"
  by (simp_all add: with_detail_def)

lemma axiom_error_new_code [simp]: "ae_code (axiom_error_new c m) = c"
  by (simp add: axiom_error_new_def Let_def)

lemma foldl_with_detail_fields:
  "ae_code (foldl (\<lambda>e (k, v). with_detail e k v) e ds) = ae_code e"
  "ae_message (foldl (\<lambda>e (k, v). with_detail e k v) e ds) = ae_message e"
  "ae_retryable (foldl (\<lambda>e (k, v). with_detail e k v) e ds) = ae_retryable e"
  by (induction ds arbitrary: e) (auto split: prod.splits)

lemma fail_code [simp]: "ae_code (fail c m ds) = c"
  by (simp add: fail_def foldl_with_detail_fields)

lemma fail_retryable [simp]: "ae_retryable (fail c m ds) = default_retryable c"
  by (simp add: fail_def foldl_with_detail_fields axiom_error_new_def Let_def)

lemma fail_exit_code [simp]: "ae_exit_code (fail c m ds) = exit_code_for c"
  by (simp add: ae_exit_code_def)

text \<open>Every stored detail has an allowlisted, lowercased key and a scrubbed value.\<close>

definition details_redacted :: "axiom_error \<Rightarrow> bool" where
  "details_redacted e \<longleftrightarrow> bt_wf (ae_details e) \<and>
     (\<forall>k v. bt_get (ae_details e) k = Some v \<longrightarrow>
        is_allowed_detail_key k \<and> (\<exists>raw. v = scrub raw))"

lemma of_char_ascii_lower:
  "of_char (ascii_lower c) =
     (if 65 \<le> (of_char c :: nat) \<and> of_char c \<le> (90::nat) then of_char c + 32 else (of_char c :: nat))"
  by (auto simp: ascii_lower_def less_eq_char_def)

lemma ascii_lower_idem [simp]: "ascii_lower (ascii_lower c) = ascii_lower c"
  by (simp add: ascii_lower_def less_eq_char_def)

lemma to_ascii_lowercase_idem [simp]:
  "to_ascii_lowercase (to_ascii_lowercase s) = to_ascii_lowercase s"
  by (simp add: to_ascii_lowercase_def)

lemma allowed_lowercase [simp]:
  "is_allowed_detail_key (to_ascii_lowercase k) = is_allowed_detail_key k"
  by (simp add: is_allowed_detail_key_def eq_ignore_ascii_case_def)

lemma details_redacted_new: "details_redacted (axiom_error_new c m)"
  by (simp add: details_redacted_def axiom_error_new_def Let_def)

lemma details_redacted_with_detail: "details_redacted e \<Longrightarrow> details_redacted (with_detail e k v)"
  by (auto simp: details_redacted_def with_detail_def)

text \<open>The rule an error names: the scrubbed text of its \<open>rule\<close> detail.\<close>

lemma rule_of_with_detail:
  "rule_of (with_detail e k v) =
     (if to_ascii_lowercase k = ''rule'' \<and> is_allowed_detail_key k then Some (scrub v) else rule_of e)"
  by (simp add: rule_of_def with_detail_def)

lemma allowed_rule [simp]: "is_allowed_detail_key ''rule''"
  and lower_rule [simp]: "to_ascii_lowercase ''rule'' = ''rule''"
  by code_simp+

lemma rule_of_foldl:
  "\<forall>(k, v) \<in> set ds. to_ascii_lowercase k \<noteq> ''rule'' \<Longrightarrow>
   rule_of (foldl (\<lambda>e (k, v). with_detail e k v) e ds) = rule_of e"
  by (induction ds arbitrary: e) (auto simp: rule_of_with_detail)

lemma rule_of_fail:
  "\<forall>(k, v) \<in> set ds. to_ascii_lowercase k \<noteq> ''rule'' \<Longrightarrow>
   rule_of (fail c m ((''rule'', r) # ds)) = Some (scrub r)"
  by (simp add: fail_def rule_of_foldl rule_of_with_detail)

lemma lower_detail_keys [simp]:
  "to_ascii_lowercase ''actual'' \<noteq> ''rule''" "to_ascii_lowercase ''expected'' \<noteq> ''rule''"
  "to_ascii_lowercase ''job_id'' \<noteq> ''rule''" "to_ascii_lowercase ''limit'' \<noteq> ''rule''"
  by code_simp+

section \<open>Properties of errors\<close>

text \<open>The ways the code has to build an error: the constructor and then any builders in any order.\<close>

datatype error_builder = WithDetail string string | WithRetryable bool | WithRequestId string

fun apply_builder :: "axiom_error \<Rightarrow> error_builder \<Rightarrow> axiom_error" where
  "apply_builder e (WithDetail key value) = with_detail e key value"
| "apply_builder e (WithRetryable retryable) = with_retryable e retryable"
| "apply_builder e (WithRequestId request_id) = with_request_id e request_id"

definition built_error :: "error_code \<Rightarrow> string \<Rightarrow> error_builder list \<Rightarrow> axiom_error" where
  "built_error code message builders = foldl apply_builder (axiom_error_new code message) builders"

fun rejected_detail :: "error_builder \<Rightarrow> bool" where
  "rejected_detail (WithDetail key value) \<longleftrightarrow> \<not> is_allowed_detail_key key"
| "rejected_detail _ \<longleftrightarrow> False"

lemma fail_built: "fail code message details = built_error code message (map (\<lambda>(k, v). WithDetail k v) details)"
proof -
  have "foldl (\<lambda>e (k, v). with_detail e k v) e ds = foldl apply_builder e (map (\<lambda>(k, v). WithDetail k v) ds)" for e ds
    by (induction ds arbitrary: e) (auto split: prod.split)
  then show ?thesis by (simp add: fail_def built_error_def)
qed

text \<open>C34: Nothing an error carries went past the scrubber, whichever builders it went through and in whatever
  order: every stored detail has an allowlisted key and a scrubbed value and the keys are unique, the request id is
  scrubbed, the message is scrubbed or the code's own name, and a detail with any other key is only counted.\<close>

theorem error_details_always_redacted:
  "details_redacted (built_error code message builders) \<and>
   pred_option (\<lambda>request_id. request_id \<in> range scrub) (ae_request_id (built_error code message builders)) \<and>
   ae_message (built_error code message builders) \<in> insert (error_code_str code) (range scrub) \<and>
   ae_dropped_details (built_error code message builders) = length (filter rejected_detail builders)"
proof -
  have step: "details_redacted e \<Longrightarrow> details_redacted (apply_builder e b)"
    "pred_option (\<lambda>r. r \<in> range scrub) (ae_request_id e) \<Longrightarrow> pred_option (\<lambda>r. r \<in> range scrub) (ae_request_id (apply_builder e b))"
    "ae_message (apply_builder e b) = ae_message e"
    "ae_dropped_details (apply_builder e b) = ae_dropped_details e + (if rejected_detail b then 1 else 0)" for e b
    by (cases b; auto simp: details_redacted_with_detail details_redacted_def with_retryable_def with_request_id_def
        with_detail_def)+
  have "details_redacted (foldl apply_builder e bs) \<and>
      pred_option (\<lambda>r. r \<in> range scrub) (ae_request_id (foldl apply_builder e bs)) \<and>
      ae_message (foldl apply_builder e bs) = ae_message e \<and>
      ae_dropped_details (foldl apply_builder e bs) = ae_dropped_details e + length (filter rejected_detail bs)"
    if "details_redacted e" "pred_option (\<lambda>r. r \<in> range scrub) (ae_request_id e)" for e bs
    using that by (induction bs arbitrary: e) (simp_all add: step)
  from this [OF details_redacted_new, of code message builders] show ?thesis
    by (auto simp: built_error_def axiom_error_new_def Let_def)
qed

text \<open>An error never has a blank message, and its stable code, retryability and exit code depend
  on the error code alone.\<close>

theorem error_message_never_blank:
  "\<not> blank (ae_message (fail code message details)) \<and>
   ae_code (fail code message details) = code \<and>
   ae_retryable (fail code message details) = default_retryable code \<and>
   ae_exit_code (fail code message details) = exit_code_for code"
proof -
  have "\<not> blank (error_code_str c)" for c
    by (cases c; simp; code_simp)
  then have "\<not> blank (ae_message (axiom_error_new code message))"
    by (simp add: axiom_error_new_def Let_def)
  then show ?thesis
    by (simp add: fail_code fail_retryable fail_exit_code) (simp add: fail_def foldl_with_detail_fields)
qed

end
