(* ===== verification/QueueCore.thy ===== *)
theory QueueCore
  imports Errors
begin

text \<open>
  The shared model of \<^verbatim>\<open>graph-queue/src/lib.rs\<close>: the nine job states and the frozen
  transition table, the job kinds, the durable job row as the record \<open>job_record\<close>, and the
  fence arithmetic.  The lemmas give the table as a function of the source state, the round
  trip of the wire spellings, and the strict growth of fences; \<open>job_wf\<close> is the
  well-formedness of a row that every operation of the queue keeps.
\<close>

section \<open>Reason codes\<close>

definition REASON_TRANSITION_NOT_ALLOWED :: string where
  "REASON_TRANSITION_NOT_ALLOWED = ''transition_not_allowed''"
definition REASON_TERMINAL_STATE :: string where
  "REASON_TERMINAL_STATE = ''terminal_state''"
definition REASON_STALE_FENCE :: string where
  "REASON_STALE_FENCE = ''stale_fence''"
definition REASON_FENCE_OUT_OF_ORDER :: string where
  "REASON_FENCE_OUT_OF_ORDER = ''fence_out_of_order''"
definition REASON_LEASE_OWNER_MISMATCH :: string where
  "REASON_LEASE_OWNER_MISMATCH = ''lease_owner_mismatch''"
definition REASON_LEASE_EXPIRED :: string where
  "REASON_LEASE_EXPIRED = ''lease_expired''"
definition REASON_FENCE_OVERFLOW :: string where
  "REASON_FENCE_OVERFLOW = ''fence_overflow''"
definition REASON_NOT_ELIGIBLE :: string where
  "REASON_NOT_ELIGIBLE = ''not_eligible''"
definition REASON_LEASE_NOT_EXPIRED :: string where
  "REASON_LEASE_NOT_EXPIRED = ''lease_not_expired''"
definition REASON_INVALID_FENCE :: string where
  "REASON_INVALID_FENCE = ''invalid_fence''"

lemmas reason_defs =
  REASON_TRANSITION_NOT_ALLOWED_def REASON_TERMINAL_STATE_def REASON_STALE_FENCE_def
  REASON_FENCE_OUT_OF_ORDER_def REASON_LEASE_OWNER_MISMATCH_def REASON_LEASE_EXPIRED_def
  REASON_FENCE_OVERFLOW_def REASON_NOT_ELIGIBLE_def REASON_LEASE_NOT_EXPIRED_def
  REASON_INVALID_FENCE_def

text \<open>No reason code is touched by the scrubber, so it reaches the caller verbatim.\<close>

lemma scrub_reason [simp]:
  "scrub REASON_TRANSITION_NOT_ALLOWED = REASON_TRANSITION_NOT_ALLOWED"
  "scrub REASON_TERMINAL_STATE = REASON_TERMINAL_STATE"
  "scrub REASON_STALE_FENCE = REASON_STALE_FENCE"
  "scrub REASON_FENCE_OUT_OF_ORDER = REASON_FENCE_OUT_OF_ORDER"
  "scrub REASON_LEASE_OWNER_MISMATCH = REASON_LEASE_OWNER_MISMATCH"
  "scrub REASON_LEASE_EXPIRED = REASON_LEASE_EXPIRED"
  "scrub REASON_FENCE_OVERFLOW = REASON_FENCE_OVERFLOW"
  "scrub REASON_NOT_ELIGIBLE = REASON_NOT_ELIGIBLE"
  "scrub REASON_INVALID_FENCE = REASON_INVALID_FENCE"
  by code_simp+

section \<open>States and transitions\<close>

datatype job_state =
  Pending | Leased | Running | RetryWait | CancelRequested
  | Succeeded | Failed | Cancelled | Superseded

fun job_state_str :: "job_state \<Rightarrow> string" where
  "job_state_str Pending = ''PENDING''"
| "job_state_str Leased = ''LEASED''"
| "job_state_str Running = ''RUNNING''"
| "job_state_str RetryWait = ''RETRY_WAIT''"
| "job_state_str CancelRequested = ''CANCEL_REQUESTED''"
| "job_state_str Succeeded = ''SUCCEEDED''"
| "job_state_str Failed = ''FAILED''"
| "job_state_str Cancelled = ''CANCELLED''"
| "job_state_str Superseded = ''SUPERSEDED''"

definition job_state_all :: "job_state list" where
  "job_state_all =
    [Pending, Leased, Running, RetryWait, CancelRequested, Succeeded, Failed, Cancelled,
     Superseded]"

definition job_state_parse :: "string \<Rightarrow> job_state option" where
  "job_state_parse value = find (\<lambda>s. job_state_str s = value) job_state_all"

fun is_terminal :: "job_state \<Rightarrow> bool" where
  "is_terminal Succeeded = True"
| "is_terminal Failed = True"
| "is_terminal Cancelled = True"
| "is_terminal Superseded = True"
| "is_terminal _ = False"

fun holds_lease :: "job_state \<Rightarrow> bool" where
  "holds_lease Leased = True"
| "holds_lease Running = True"
| "holds_lease _ = False"

datatype job_kind =
  InventoryScan | ParseBatch | ResolveAffected | PublishProject | PublishCatalog
  | CheckpointExport | VerifyCheckpoint | SnapshotGc | Repair

fun job_kind_str :: "job_kind \<Rightarrow> string" where
  "job_kind_str InventoryScan = ''InventoryScan''"
| "job_kind_str ParseBatch = ''ParseBatch''"
| "job_kind_str ResolveAffected = ''ResolveAffected''"
| "job_kind_str PublishProject = ''PublishProject''"
| "job_kind_str PublishCatalog = ''PublishCatalog''"
| "job_kind_str CheckpointExport = ''CheckpointExport''"
| "job_kind_str VerifyCheckpoint = ''VerifyCheckpoint''"
| "job_kind_str SnapshotGc = ''SnapshotGC''"
| "job_kind_str Repair = ''Repair''"

definition job_kind_all :: "job_kind list" where
  "job_kind_all =
    [InventoryScan, ParseBatch, ResolveAffected, PublishProject, PublishCatalog,
     CheckpointExport, VerifyCheckpoint, SnapshotGc, Repair]"

definition job_kind_parse :: "string \<Rightarrow> job_kind option" where
  "job_kind_parse value = find (\<lambda>k. job_kind_str k = value) job_kind_all"

definition ALLOWED_TRANSITIONS :: "(job_state \<times> job_state) list" where
  "ALLOWED_TRANSITIONS =
    [(Pending, Leased), (Pending, CancelRequested), (Pending, Superseded),
     (Leased, Running), (Leased, Pending), (Leased, CancelRequested),
     (Running, Succeeded), (Running, Failed), (Running, RetryWait), (Running, Pending),
     (Running, CancelRequested), (Running, Superseded),
     (RetryWait, Pending), (RetryWait, CancelRequested), (RetryWait, Superseded),
     (CancelRequested, Cancelled)]"

definition transition_allowed :: "job_state \<Rightarrow> job_state \<Rightarrow> bool" where
  "transition_allowed s t \<longleftrightarrow> list_ex (\<lambda>(a, b). a = s \<and> b = t) ALLOWED_TRANSITIONS"

definition ensure_transition :: "job_state \<Rightarrow> job_state \<Rightarrow> unit result" where
  "ensure_transition s t =
     (if is_terminal s then
        Inl (fail Conflict ''job is in a terminal state''
          [(''rule'', REASON_TERMINAL_STATE), (''actual'', job_state_str s)])
      else if \<not> transition_allowed s t then
        Inl (fail Conflict ''transition is not allowed''
          [(''rule'', REASON_TRANSITION_NOT_ALLOWED), (''actual'', job_state_str s),
           (''expected'', job_state_str t)])
      else Inr ())"

lemma transition_allowed_simps [simp]:
  "transition_allowed Pending t \<longleftrightarrow> t \<in> {Leased, CancelRequested, Superseded}"
  "transition_allowed Leased t \<longleftrightarrow> t \<in> {Running, Pending, CancelRequested}"
  "transition_allowed Running t \<longleftrightarrow>
     t \<in> {Succeeded, Failed, RetryWait, Pending, CancelRequested, Superseded}"
  "transition_allowed RetryWait t \<longleftrightarrow> t \<in> {Pending, CancelRequested, Superseded}"
  "transition_allowed CancelRequested t \<longleftrightarrow> t = Cancelled"
  by (auto simp: transition_allowed_def ALLOWED_TRANSITIONS_def)

lemma transition_from_terminal [simp]: "is_terminal s \<Longrightarrow> \<not> transition_allowed s t"
  by (cases s) (simp_all add: transition_allowed_def ALLOWED_TRANSITIONS_def)

lemma ensure_transition_ok: "ensure_transition s t = Inr u \<longleftrightarrow> transition_allowed s t"
  by (auto simp: ensure_transition_def)

lemma ensure_transition_allowed [simp]:
  "transition_allowed s t \<Longrightarrow> ensure_transition s t = Inr ()"
  by (simp add: ensure_transition_ok)

lemma ensure_transition_refused:
  "\<not> transition_allowed s t \<Longrightarrow> \<exists>e. ensure_transition s t = Inl e \<and> ae_code e = Conflict"
  by (simp add: ensure_transition_def)

lemma holds_lease_not_terminal: "holds_lease s \<Longrightarrow> \<not> is_terminal s"
  by (cases s) auto

section \<open>The durable job row\<close>

record job_record =
  j_id :: string
  j_solution_id :: string
  j_kind :: job_kind
  j_scope_key :: string
  j_state :: job_state
  j_priority :: i32
  j_target_event_seq :: i64
  j_attempt :: u32
  j_fence :: i64
  j_lease_owner :: "string option"
  j_lease_until :: "i64 option"
  j_ready_at :: i64
  j_created_at :: i64
  j_last_error_code :: "string option"

definition job_record_new ::
  "string \<Rightarrow> string \<Rightarrow> job_kind \<Rightarrow> string \<Rightarrow> i32 \<Rightarrow> i64 \<Rightarrow> i64 \<Rightarrow> job_record" where
  "job_record_new job_id solution_id kind scope_key priority target_event_seq now =
     \<lparr>j_id = job_id, j_solution_id = solution_id, j_kind = kind, j_scope_key = scope_key,
      j_state = Pending, j_priority = priority, j_target_event_seq = target_event_seq,
      j_attempt = 0, j_fence = 0, j_lease_owner = None, j_lease_until = None,
      j_ready_at = now, j_created_at = now, j_last_error_code = None\<rparr>"

definition lease_identity :: "job_record \<Rightarrow> (string \<times> i64 \<times> string) option" where
  "lease_identity job =
     (case j_lease_owner job of
        Some owner \<Rightarrow> if holds_lease (j_state job) then Some (j_id job, j_fence job, owner) else None
      | None \<Rightarrow> None)"

definition is_claimable_at :: "job_record \<Rightarrow> i64 \<Rightarrow> bool" where
  "is_claimable_at job now \<longleftrightarrow> j_state job \<in> {Pending, RetryWait} \<and> j_ready_at job \<le> now"

definition release_lease :: "job_record \<Rightarrow> job_record" where
  "release_lease job = job\<lparr>j_lease_owner := None, j_lease_until := None\<rparr>"

lemma release_lease_simps [simp]:
  "j_state (release_lease job) = j_state job"
  "j_fence (release_lease job) = j_fence job"
  "j_id (release_lease job) = j_id job"
  "j_lease_owner (release_lease job) = None"
  "j_lease_until (release_lease job) = None"
  "j_attempt (release_lease job) = j_attempt job"
  "j_ready_at (release_lease job) = j_ready_at job"
  "j_created_at (release_lease job) = j_created_at job"
  "j_target_event_seq (release_lease job) = j_target_event_seq job"
  "j_priority (release_lease job) = j_priority job"
  by (simp_all add: release_lease_def)

section \<open>Fences and durations\<close>

definition ensure_valid_fence :: "i64 \<Rightarrow> unit result" where
  "ensure_valid_fence fence =
     (if fence < 0 then
        Inl (fail ValidationError ''a fence must not be negative''
          [(''rule'', REASON_INVALID_FENCE), (''actual'', show_int fence)])
      else Inr ())"

definition next_fence :: "i64 \<Rightarrow> i64 result" where
  "next_fence current =
     (case ensure_valid_fence current of
        Inl e \<Rightarrow> Inl e
      | Inr _ \<Rightarrow>
          (case i64_checked_add current 1 of
             Some f \<Rightarrow> Inr f
           | None \<Rightarrow> Inl (fail Conflict ''the fence cannot increase further''
               [(''rule'', REASON_FENCE_OVERFLOW)])))"

definition clamp_duration :: "i64 \<Rightarrow> i64 \<Rightarrow> i64" where
  "clamp_duration requested max_duration =
     (if requested < 0 then 0
      else if requested > max_duration then max_duration
      else requested)"

lemma next_fence_ok:
  "next_fence f = Inr g \<longleftrightarrow> 0 \<le> f \<and> g = f + 1 \<and> in_i64 g"
  by (auto simp: next_fence_def ensure_valid_fence_def i64_checked_add_def
      split: option.splits sum.splits if_splits)

lemma clamp_duration_bounds [rust_int]:
  "0 \<le> m \<Longrightarrow> 0 \<le> clamp_duration d m"
  "0 \<le> m \<Longrightarrow> clamp_duration d m \<le> m"
  by (auto simp: clamp_duration_def)

section \<open>Well-formed rows\<close>

text \<open>
  A row as the queue operations keep it: the fence is a non-negative \<open>i64\<close>, the owner and the
  deadline are set together, exactly the leased and running states and a cancellation that
  still waits for its worker may carry them, and a lease was granted by at least one claim.
\<close>

definition job_wf :: "job_record \<Rightarrow> bool" where
  "job_wf job \<longleftrightarrow>
     0 \<le> j_fence job \<and> in_i64 (j_fence job) \<and>
     (j_lease_owner job = None \<longleftrightarrow> j_lease_until job = None) \<and>
     (holds_lease (j_state job) \<longrightarrow> j_lease_owner job \<noteq> None) \<and>
     (j_lease_owner job \<noteq> None \<longrightarrow>
        (holds_lease (j_state job) \<or> j_state job = CancelRequested) \<and> 1 \<le> j_fence job)"

lemma job_wf_new: "job_wf (job_record_new i s k sc p t now)"
  by (simp add: job_wf_def job_record_new_def in_i64_def i64_min_def i64_max_def)

section \<open>Properties of the wire names\<close>

text \<open>Reading back a written job state or job kind gives the same value, and only the written
  spellings are read.\<close>

theorem state_and_kind_roundtrip:
  "(job_state_parse text = Some s \<longleftrightarrow> text = job_state_str s) \<and>
   (job_kind_parse text = Some k \<longleftrightarrow> text = job_kind_str k)"
proof
  have "inj job_state_str"
  proof (rule injI)
    fix a b show "job_state_str a = job_state_str b \<Longrightarrow> a = b" by (cases a; cases b) simp_all
  qed
  moreover have "s \<in> set job_state_all" by (cases s) (simp_all add: job_state_all_def)
  ultimately show "job_state_parse text = Some s \<longleftrightarrow> text = job_state_str s"
    unfolding job_state_parse_def by (rule find_spelling)
next
  have "inj job_kind_str"
  proof (rule injI)
    fix a b show "job_kind_str a = job_kind_str b \<Longrightarrow> a = b" by (cases a; cases b) simp_all
  qed
  moreover have "k \<in> set job_kind_all" by (cases k) (simp_all add: job_kind_all_def)
  ultimately show "job_kind_parse text = Some k \<longleftrightarrow> text = job_kind_str k"
    unfolding job_kind_parse_def by (rule find_spelling)
qed

end
