(* ===== verification/QueueLease.thy ===== *)
theory QueueLease
  imports QueueCore
begin

text \<open>
  Claims and heartbeats: \<^verbatim>\<open>graph-queue/src/claim.rs\<close> and \<^verbatim>\<open>graph-queue/src/heartbeat.rs\<close>.
  An operation that takes \<open>&mut JobRecord\<close> returns its \<open>Result\<close> paired with the row it leaves
  behind, on the error paths too.  The lemmas characterise each operation on every branch and
  show that it keeps \<open>job_wf\<close>, that a claim raises the fence by one, and that a renewed
  deadline never exceeds the lease bound.
\<close>

section \<open>Leases\<close>

definition DEFAULT_LEASE_MS :: i64 where "DEFAULT_LEASE_MS = 30000"
definition MAX_LEASE_MS :: i64 where "MAX_LEASE_MS = 300000"

record lease =
  l_job_id :: string
  l_fence :: i64
  l_owner :: string
  l_lease_until :: i64

definition lease_is_live_at :: "lease \<Rightarrow> i64 \<Rightarrow> bool" where
  "lease_is_live_at lease now \<longleftrightarrow> l_lease_until lease > now"

definition lease_matches :: "lease \<Rightarrow> job_record \<Rightarrow> bool" where
  "lease_matches lease job \<longleftrightarrow>
     j_fence job = l_fence lease \<and> j_lease_owner job = Some (l_owner lease)"

definition lease_restore :: "string \<Rightarrow> i64 \<Rightarrow> string \<Rightarrow> i64 \<Rightarrow> lease" where
  "lease_restore job_id fence owner lease_until =
     \<lparr>l_job_id = job_id, l_fence = fence, l_owner = owner, l_lease_until = lease_until\<rparr>"

section \<open>Claiming\<close>

datatype claim_outcome = Claimed lease | NotEligible job_state

definition claim ::
  "job_record \<Rightarrow> string \<Rightarrow> i64 \<Rightarrow> i64 \<Rightarrow> claim_outcome result \<times> job_record" where
  "claim job owner now lease_ms =
     (if owner = [] then
        (Inl (fail ValidationError ''a lease owner identity must not be empty''
           [(''job_id'', j_id job)]), job)
      else if \<not> is_claimable_at job now then (Inr (NotEligible (j_state job)), job)
      else (case next_fence (j_fence job) of
          Inl e \<Rightarrow> (Inl e, job)
        | Inr fence \<Rightarrow>
            (case ensure_transition (j_state job) Leased of
               Inl e \<Rightarrow> (Inl e, job)
             | Inr _ \<Rightarrow>
                 let duration = clamp_duration lease_ms MAX_LEASE_MS;
                     until = i64_saturating_add now duration
                 in (Inr (Claimed \<lparr>l_job_id = j_id job, l_fence = fence, l_owner = owner,
                                  l_lease_until = until\<rparr>),
                     job\<lparr>j_fence := fence, j_state := Leased,
                         j_attempt := u32_saturating_add (j_attempt job) 1,
                         j_lease_owner := Some owner, j_lease_until := Some until\<rparr>))))"

definition ensure_live_owner :: "job_record \<Rightarrow> lease \<Rightarrow> i64 \<Rightarrow> unit result" where
  "ensure_live_owner job lease now =
     (if is_terminal (j_state job) then
        Inl (fail Conflict ''job is in a terminal state''
          [(''rule'', REASON_TERMINAL_STATE), (''job_id'', j_id job)])
      else if l_fence lease < j_fence job then
        Inl (fail Conflict ''lease fence is stale''
          [(''rule'', REASON_STALE_FENCE), (''job_id'', j_id job),
           (''actual'', show_int (l_fence lease)), (''expected'', show_int (j_fence job))])
      else if l_fence lease > j_fence job then
        Inl (fail Conflict ''lease fence is ahead of the job''
          [(''rule'', REASON_FENCE_OUT_OF_ORDER), (''job_id'', j_id job),
           (''actual'', show_int (l_fence lease)), (''expected'', show_int (j_fence job))])
      else if j_lease_owner job \<noteq> Some (l_owner lease) then
        Inl (fail Conflict ''caller does not own the live lease''
          [(''rule'', REASON_LEASE_OWNER_MISMATCH), (''job_id'', j_id job)])
      else if (case j_lease_until job of None \<Rightarrow> True | Some until \<Rightarrow> until \<le> now) then
        Inl (fail Conflict ''the lease has expired''
          [(''rule'', REASON_LEASE_EXPIRED), (''job_id'', j_id job)])
      else Inr ())"

definition start_running :: "job_record \<Rightarrow> lease \<Rightarrow> i64 \<Rightarrow> unit result \<times> job_record" where
  "start_running job lease now =
     (case ensure_transition (j_state job) Running of
        Inl e \<Rightarrow> (Inl e, job)
      | Inr _ \<Rightarrow>
          (case ensure_live_owner job lease now of
             Inl e \<Rightarrow> (Inl e, job)
           | Inr _ \<Rightarrow> (Inr (), job\<lparr>j_state := Running\<rparr>)))"

text \<open>The live owner of a row, as a predicate: the condition every fenced operation checks.\<close>

definition live_owner :: "job_record \<Rightarrow> i64 \<Rightarrow> string \<Rightarrow> i64 \<Rightarrow> bool" where
  "live_owner job fence owner now \<longleftrightarrow>
     \<not> is_terminal (j_state job) \<and> fence = j_fence job \<and> j_lease_owner job = Some owner \<and>
     (\<exists>until. j_lease_until job = Some until \<and> now < until)"

lemma ensure_live_owner_ok:
  "ensure_live_owner job lease now = Inr u \<longleftrightarrow> live_owner job (l_fence lease) (l_owner lease) now"
  by (auto simp: ensure_live_owner_def live_owner_def split: option.splits)

lemma live_owner_check [simp]:
  "live_owner job (l_fence lease) (l_owner lease) now \<Longrightarrow> ensure_live_owner job lease now = Inr ()"
  by (simp add: ensure_live_owner_ok)

lemma live_owner_refused:
  "\<not> live_owner job (l_fence lease) (l_owner lease) now \<Longrightarrow>
   \<exists>e. ensure_live_owner job lease now = Inl e"
  by (cases "ensure_live_owner job lease now") (auto simp: ensure_live_owner_ok)

lemma claim_succeeds_iff:
  "fst (claim job owner now ms) = Inr (Claimed l) \<longleftrightarrow>
     owner \<noteq> [] \<and> j_state job = Pending \<and> j_ready_at job \<le> now \<and>
     0 \<le> j_fence job \<and> in_i64 (j_fence job + 1) \<and>
     l = \<lparr>l_job_id = j_id job, l_fence = j_fence job + 1, l_owner = owner,
          l_lease_until = i64_saturating_add now (clamp_duration ms MAX_LEASE_MS)\<rparr>"
proof (cases "owner = [] \<or> \<not> is_claimable_at job now")
  case True
  then show ?thesis by (auto simp: claim_def is_claimable_at_def)
next
  case False
  then have st: "j_state job = Pending \<or> j_state job = RetryWait" and "j_ready_at job \<le> now"
    by (auto simp: is_claimable_at_def)
  show ?thesis
  proof (cases "next_fence (j_fence job)")
    case (Inl e)
    then have "\<not> (0 \<le> j_fence job \<and> in_i64 (j_fence job + 1))"
      using next_fence_ok [of "j_fence job" "j_fence job + 1"] by auto
    with False Inl show ?thesis by (auto simp: claim_def)
  next
    case (Inr f)
    then have f: "0 \<le> j_fence job" "f = j_fence job + 1" "in_i64 (j_fence job + 1)"
      by (auto simp: next_fence_ok)
    with False Inr st \<open>j_ready_at job \<le> now\<close> show ?thesis
      by (auto simp: claim_def Let_def ensure_transition_def)
  qed
qed

lemma claim_row:
  "claim job owner now ms = (Inr (Claimed l), job') \<Longrightarrow>
   job' = job\<lparr>j_fence := l_fence l, j_state := Leased,
              j_attempt := u32_saturating_add (j_attempt job) 1,
              j_lease_owner := Some owner, j_lease_until := Some (l_lease_until l)\<rparr>"
  by (auto simp: claim_def Let_def split: if_splits sum.splits)

lemma claim_unchanged:
  "claim job owner now ms = (r, job') \<Longrightarrow> \<forall>l. r \<noteq> Inr (Claimed l) \<Longrightarrow> job' = job"
  by (auto simp: claim_def Let_def split: if_splits sum.splits)

lemma claim_cases [consumes 1, case_names claimed unchanged]:
  assumes "claim job owner now ms = (r, job')"
  obtains l where "r = Inr (Claimed l)" and "owner \<noteq> []" and "j_state job = Pending"
      and "j_ready_at job \<le> now" and "0 \<le> j_fence job" and "in_i64 (j_fence job + 1)"
      and "l_fence l = j_fence job + 1" and "l_owner l = owner" and "l_job_id l = j_id job"
      and "l_lease_until l = i64_saturating_add now (clamp_duration ms MAX_LEASE_MS)"
      and "job' = job\<lparr>j_fence := j_fence job + 1, j_state := Leased,
              j_attempt := u32_saturating_add (j_attempt job) 1,
              j_lease_owner := Some owner, j_lease_until := Some (l_lease_until l)\<rparr>"
    | "\<forall>l. r \<noteq> Inr (Claimed l)" and "job' = job"
proof (cases "\<exists>l. r = Inr (Claimed l)")
  case True
  then obtain l where l: "r = Inr (Claimed l)" by blast
  with assms have "fst (claim job owner now ms) = Inr (Claimed l)" by simp
  note ok = this [unfolded claim_succeeds_iff]
  show ?thesis
    by (rule that(1) [OF l]) (use ok claim_row [of job owner now ms l job'] assms l in auto)
next
  case False
  then show ?thesis using claim_unchanged [OF assms] that(2) by blast
qed

lemma claim_wf: "claim job owner now ms = (r, job') \<Longrightarrow> job_wf job \<Longrightarrow> job_wf job'"
  by (erule claim_cases) (auto simp: job_wf_def)

lemma start_running_cases [consumes 1, case_names started unchanged]:
  assumes "start_running job lease now = (r, job')"
  obtains "r = Inr ()" and "j_state job = Leased"
      and "live_owner job (l_fence lease) (l_owner lease) now" and "job' = job\<lparr>j_state := Running\<rparr>"
    | e where "r = Inl e" and "job' = job"
proof (cases r)
  case (Inl e)
  with assms show ?thesis
    by (intro that(2)) (auto simp: start_running_def split: sum.splits)
next
  case (Inr u)
  with assms have "transition_allowed (j_state job) Running"
      and "live_owner job (l_fence lease) (l_owner lease) now" and "job' = job\<lparr>j_state := Running\<rparr>"
    by (auto simp: start_running_def ensure_transition_ok ensure_live_owner_ok split: sum.splits)
  with Inr show ?thesis by (intro that(1)) (cases "j_state job"; simp)+
qed

lemma start_running_wf: "start_running job lease now = (r, job') \<Longrightarrow> job_wf job \<Longrightarrow> job_wf job'"
  by (erule start_running_cases) (auto simp: job_wf_def)

section \<open>Heartbeats\<close>

definition MAX_HEARTBEAT_EXTENSION_MS :: i64 where "MAX_HEARTBEAT_EXTENSION_MS = 120000"

datatype heartbeat_outcome = Renewed i64 | HeartbeatRefused string

definition heartbeat_refusal_reason :: "job_record \<Rightarrow> lease \<Rightarrow> i64 \<Rightarrow> string option" where
  "heartbeat_refusal_reason job lease now =
     (if is_terminal (j_state job) then Some REASON_TERMINAL_STATE
      else if \<not> holds_lease (j_state job) then Some REASON_NOT_ELIGIBLE
      else if l_fence lease < j_fence job then Some REASON_STALE_FENCE
      else if l_fence lease > j_fence job then Some REASON_FENCE_OUT_OF_ORDER
      else if j_lease_owner job \<noteq> Some (l_owner lease) then Some REASON_LEASE_OWNER_MISMATCH
      else (case j_lease_until job of
          Some until \<Rightarrow> if until \<le> now then Some REASON_LEASE_EXPIRED else None
        | None \<Rightarrow> Some REASON_LEASE_EXPIRED))"

definition heartbeat ::
  "job_record \<Rightarrow> lease \<Rightarrow> i64 \<Rightarrow> i64 \<Rightarrow> heartbeat_outcome result \<times> job_record" where
  "heartbeat job lease now extension_ms =
     (if extension_ms < 0 then
        (Inl (fail ValidationError ''a heartbeat extension must not be negative''
           [(''actual'', show_int extension_ms), (''job_id'', j_id job)]), job)
      else (case heartbeat_refusal_reason job lease now of
          Some reason \<Rightarrow> (Inr (HeartbeatRefused reason), job)
        | None \<Rightarrow>
            let extension = clamp_duration extension_ms MAX_HEARTBEAT_EXTENSION_MS;
                current = (case j_lease_until job of Some u \<Rightarrow> u | None \<Rightarrow> now);
                deadline = min (i64_saturating_add current extension)
                               (i64_saturating_add now MAX_LEASE_MS)
            in (Inr (Renewed deadline), job\<lparr>j_lease_until := Some deadline\<rparr>)))"

definition accepts_heartbeat :: "job_state \<Rightarrow> bool" where
  "accepts_heartbeat state \<longleftrightarrow> holds_lease state"

lemma heartbeat_accepted_iff:
  "heartbeat_refusal_reason job lease now = None \<longleftrightarrow>
     holds_lease (j_state job) \<and> live_owner job (l_fence lease) (l_owner lease) now"
  by (cases "j_state job")
    (auto simp: heartbeat_refusal_reason_def live_owner_def split: option.splits)

lemma heartbeat_cases [consumes 1, case_names renewed unchanged]:
  assumes "heartbeat job lease now ext = (r, job')"
  obtains cur d where "r = Inr (Renewed d)" and "0 \<le> ext" and "holds_lease (j_state job)"
      and "live_owner job (l_fence lease) (l_owner lease) now"
      and "j_lease_until job = Some cur" and "now < cur"
      and "d = min (i64_saturating_add cur (clamp_duration ext MAX_HEARTBEAT_EXTENSION_MS))
                   (i64_saturating_add now MAX_LEASE_MS)"
      and "job' = job\<lparr>j_lease_until := Some d\<rparr>"
    | "\<forall>d. r \<noteq> Inr (Renewed d)" and "job' = job"
proof (cases "0 \<le> ext \<and> heartbeat_refusal_reason job lease now = None")
  case True
  then have live: "holds_lease (j_state job)" "live_owner job (l_fence lease) (l_owner lease) now"
    by (simp_all add: heartbeat_accepted_iff)
  then obtain cur where cur: "j_lease_until job = Some cur" "now < cur"
    by (auto simp: live_owner_def)
  show ?thesis
    using assms True live cur by (intro that(1)) (auto simp: heartbeat_def Let_def)
next
  case False
  then show ?thesis
    using assms by (intro that(2)) (auto simp: heartbeat_def Let_def split: option.splits if_splits)
qed

lemma heartbeat_wf: "heartbeat job lease now ext = (r, job') \<Longrightarrow> job_wf job \<Longrightarrow> job_wf job'"
  by (erule heartbeat_cases) (auto simp: job_wf_def)

section \<open>Properties of claims and heartbeats\<close>

text \<open>A claim grants a lease exactly for a named owner on a due \<open>PENDING\<close> row whose fence can
  still rise; the lease then carries the next fence and a deadline at most \<open>MAX_LEASE_MS\<close> away, and
  the row records that owner, fence and deadline and one more attempt.\<close>

theorem claim_grants_iff:
  "claim job owner now ms = (Inr (Claimed l), job') \<longleftrightarrow>
     owner \<noteq> [] \<and> j_state job = Pending \<and> j_ready_at job \<le> now \<and>
     0 \<le> j_fence job \<and> in_i64 (j_fence job + 1) \<and>
     l = \<lparr>l_job_id = j_id job, l_fence = j_fence job + 1, l_owner = owner,
          l_lease_until = i64_saturating_add now (clamp_duration ms MAX_LEASE_MS)\<rparr> \<and>
     job' = job\<lparr>j_fence := j_fence job + 1, j_state := Leased,
          j_attempt := u32_saturating_add (j_attempt job) 1,
          j_lease_owner := Some owner, j_lease_until := Some (l_lease_until l)\<rparr>"
proof
  assume c: "claim job owner now ms = (Inr (Claimed l), job')"
  then have "fst (claim job owner now ms) = Inr (Claimed l)" by simp
  note ok = this [unfolded claim_succeeds_iff]
  with claim_row [OF c] show "owner \<noteq> [] \<and> j_state job = Pending \<and> j_ready_at job \<le> now \<and>
     0 \<le> j_fence job \<and> in_i64 (j_fence job + 1) \<and>
     l = \<lparr>l_job_id = j_id job, l_fence = j_fence job + 1, l_owner = owner,
          l_lease_until = i64_saturating_add now (clamp_duration ms MAX_LEASE_MS)\<rparr> \<and>
     job' = job\<lparr>j_fence := j_fence job + 1, j_state := Leased,
          j_attempt := u32_saturating_add (j_attempt job) 1,
          j_lease_owner := Some owner, j_lease_until := Some (l_lease_until l)\<rparr>" by simp
next
  assume r: "owner \<noteq> [] \<and> j_state job = Pending \<and> j_ready_at job \<le> now \<and>
     0 \<le> j_fence job \<and> in_i64 (j_fence job + 1) \<and>
     l = \<lparr>l_job_id = j_id job, l_fence = j_fence job + 1, l_owner = owner,
          l_lease_until = i64_saturating_add now (clamp_duration ms MAX_LEASE_MS)\<rparr> \<and>
     job' = job\<lparr>j_fence := j_fence job + 1, j_state := Leased,
          j_attempt := u32_saturating_add (j_attempt job) 1,
          j_lease_owner := Some owner, j_lease_until := Some (l_lease_until l)\<rparr>"
  then have "fst (claim job owner now ms) = Inr (Claimed l)" by (simp add: claim_succeeds_iff)
  then have c: "claim job owner now ms = (Inr (Claimed l), snd (claim job owner now ms))"
    by (metis prod.collapse)
  from claim_row [OF this] r c show "claim job owner now ms = (Inr (Claimed l), job')" by simp
qed

text \<open>A heartbeat keeps a lease alive but never open-ended: a renewal leaves a deadline in the
  future and at most \<open>MAX_LEASE_MS\<close> from now, and a lease within that bound is never shortened and
  grows by at most \<open>MAX_HEARTBEAT_EXTENSION_MS\<close>.\<close>

theorem heartbeat_deadline_bounds:
  assumes "heartbeat job lease now ext = (Inr (Renewed d), job')"
    and "in_i64 now" and "j_lease_until job = Some cur" and "in_i64 cur"
    and "cur \<le> now + MAX_LEASE_MS"
  shows "j_lease_until job' = Some d \<and> now < d \<and> d \<le> now + MAX_LEASE_MS \<and>
    cur \<le> d \<and> d \<le> cur + MAX_HEARTBEAT_EXTENSION_MS \<and> j_fence job' = j_fence job"
  using assms(1)
proof (cases rule: heartbeat_cases)
  case (renewed cur' d')
  define a where "a = i64_saturating_add cur (clamp_duration ext MAX_HEARTBEAT_EXTENSION_MS)"
  define b where "b = i64_saturating_add now MAX_LEASE_MS"
  have d: "d = min a b" "now < cur" using renewed assms(3) by (simp_all add: a_def b_def)
  have "0 \<le> clamp_duration ext MAX_HEARTBEAT_EXTENSION_MS"
    and "clamp_duration ext MAX_HEARTBEAT_EXTENSION_MS \<le> MAX_HEARTBEAT_EXTENSION_MS"
    by (simp_all add: clamp_duration_bounds MAX_HEARTBEAT_EXTENSION_MS_def)
  then have a: "cur \<le> a" "a \<le> cur + MAX_HEARTBEAT_EXTENSION_MS"
    using assms(4) unfolding a_def i64_saturating_add_def in_i64_def by linarith+
  have b: "cur \<le> b" "b \<le> now + MAX_LEASE_MS"
    using assms(2,4,5)
    unfolding b_def i64_saturating_add_def in_i64_def i64_min_def i64_max_def MAX_LEASE_MS_def
    by linarith+
  have "now < d" and "d \<le> now + MAX_LEASE_MS" and "cur \<le> d"
    and "d \<le> cur + MAX_HEARTBEAT_EXTENSION_MS"
    using a b d by (simp_all add: min_le_iff_disj)
  with renewed show ?thesis by simp
qed simp

theorem heartbeat_deadline_bounds_witness:
  "let job = (job_record_new ''j'' ''s'' Repair ''x'' 0 1 0)\<lparr>j_state := Running, j_fence := 1,
         j_lease_owner := Some ''w'', j_lease_until := Some 10\<rparr>;
       lease = \<lparr>l_job_id = ''j'', l_fence = 1, l_owner = ''w'', l_lease_until = 10\<rparr>
   in heartbeat job lease 5 7 = (Inr (Renewed 17), job\<lparr>j_lease_until := Some 17\<rparr>) \<and> (5::int) < 17"
proof -
  define job where "job = (job_record_new ''j'' ''s'' Repair ''x'' 0 1 0)\<lparr>j_state := Running,
     j_fence := 1, j_lease_owner := Some ''w'', j_lease_until := Some 10\<rparr>"
  define le where "le = \<lparr>l_job_id = ''j'', l_fence = 1, l_owner = ''w'', l_lease_until = 10\<rparr>"
  have beat: "heartbeat job le 5 7 = (Inr (Renewed 17), job\<lparr>j_lease_until := Some 17\<rparr>)"
    by (simp add: heartbeat_def heartbeat_refusal_reason_def job_def le_def job_record_new_def
        i64_saturating_add_def i64_min_def i64_max_def clamp_duration_def MAX_LEASE_MS_def
        MAX_HEARTBEAT_EXTENSION_MS_def)
  have "(5::int) < 17"
    using heartbeat_deadline_bounds [OF beat, of 10]
    by (simp add: job_def in_i64_def i64_min_def i64_max_def MAX_LEASE_MS_def)
  with beat show ?thesis by (simp add: Let_def job_def le_def)
qed

text \<open>
  \<open>is_claimable_at\<close> reports a due \<open>RETRY_WAIT\<close> row as claimable, but the transition table has no
  edge from it to \<open>LEASED\<close>, so claiming it always fails with a conflict.
\<close>

lemma claim_retry_wait_conflict:
  assumes "j_state job = RetryWait" and "j_ready_at job \<le> now" and "owner \<noteq> []"
  shows "is_claimable_at job now \<and>
    (\<exists>e. claim job owner now ms = (Inl e, job) \<and> ae_code e \<in> {Conflict, ValidationError})"
proof -
  have refused: "\<exists>e. ensure_transition RetryWait Leased = Inl e \<and> ae_code e = Conflict"
    by (rule ensure_transition_refused) simp
  have code: "ae_code e \<in> {Conflict, ValidationError}" if "next_fence f = Inl e" for f e
    using that by (auto simp: next_fence_def ensure_valid_fence_def split: option.splits if_splits)
  have due: "is_claimable_at job now" using assms by (simp add: is_claimable_at_def)
  show ?thesis
  proof (cases "next_fence (j_fence job)")
    case (Inl e)
    with code [OF Inl] due assms show ?thesis by (simp add: claim_def)
  next
    case (Inr f)
    from refused obtain e where "ensure_transition RetryWait Leased = Inl e" "ae_code e = Conflict"
      by blast
    with Inr due assms show ?thesis by (simp add: claim_def)
  qed
qed

end
