(* ===== verification/QueueAck.thy ===== *)
theory QueueAck
  imports QueueLease
begin

text \<open>
  Result commits: \<^verbatim>\<open>graph-queue/src/ack.rs\<close>.  A worker asks to commit the generation it
  analysed; the lemmas say exactly when the row moves to \<open>Succeeded\<close> and that a refused
  commit leaves the row as it was, with the reason the code reports on each branch.
\<close>

record result_commit =
  rc_job_id :: string
  rc_fence :: i64
  rc_owner :: string
  rc_analyzed_generation :: i64
  rc_desired_generation :: i64

definition result_commit_new ::
  "string \<Rightarrow> i64 \<Rightarrow> string \<Rightarrow> i64 \<Rightarrow> i64 \<Rightarrow> result_commit result" where
  "result_commit_new job_id fence owner analyzed desired =
     (if analyzed < 0 \<or> desired < 0 then
        Inl (fail ValidationError ''a result generation must not be negative''
          [(''job_id'', job_id), (''actual'', show_int analyzed @ ''/'' @ show_int desired)])
      else Inr \<lparr>rc_job_id = job_id, rc_fence = fence, rc_owner = owner,
                rc_analyzed_generation = analyzed, rc_desired_generation = desired\<rparr>)"

datatype commit_decision = Accepted i64 bool | Rejected string

fun is_accepted :: "commit_decision \<Rightarrow> bool" where
  "is_accepted (Accepted _ _) = True"
| "is_accepted (Rejected _) = False"

fun keeps_dirty :: "commit_decision \<Rightarrow> bool" where
  "keeps_dirty (Accepted _ remains) = remains"
| "keeps_dirty (Rejected _) = False"

definition remains_dirty :: "i64 \<Rightarrow> i64 \<Rightarrow> bool" where
  "remains_dirty analyzed desired \<longleftrightarrow> desired > analyzed"

definition rejection_reason :: "job_record \<Rightarrow> result_commit \<Rightarrow> i64 \<Rightarrow> string" where
  "rejection_reason job commit now =
     (if rc_fence commit < j_fence job then REASON_STALE_FENCE
      else if rc_fence commit > j_fence job then REASON_FENCE_OUT_OF_ORDER
      else if j_lease_owner job \<noteq> Some (rc_owner commit) then REASON_LEASE_OWNER_MISMATCH
      else if (case j_lease_until job of None \<Rightarrow> True | Some until \<Rightarrow> until \<le> now)
        then REASON_LEASE_EXPIRED
      else REASON_NOT_ELIGIBLE)"

definition commit_result ::
  "job_record \<Rightarrow> result_commit \<Rightarrow> i64 \<Rightarrow> commit_decision result \<times> job_record" where
  "commit_result job commit now =
     (if j_id job \<noteq> rc_job_id commit then
        (Inl (fail ValidationError ''the result commit names a different job''
           [(''job_id'', j_id job), (''actual'', rc_job_id commit)]), job)
      else if is_terminal (j_state job) then (Inr (Rejected REASON_TERMINAL_STATE), job)
      else if j_state job \<noteq> Running then (Inr (Rejected REASON_TRANSITION_NOT_ALLOWED), job)
      else
        let lease = lease_restore (j_id job) (rc_fence commit) (rc_owner commit)
              (case j_lease_until job of Some u \<Rightarrow> u | None \<Rightarrow> now)
        in (case ensure_live_owner job lease now of
              Inl _ \<Rightarrow> (Inr (Rejected (rejection_reason job commit now)), job)
            | Inr _ \<Rightarrow>
                let remains = remains_dirty (rc_analyzed_generation commit) (rc_desired_generation commit)
                in (Inr (Accepted (rc_analyzed_generation commit) remains),
                    (release_lease (job\<lparr>j_state := Succeeded\<rparr>))\<lparr>j_last_error_code := None\<rparr>)))"

lemma commit_cases [consumes 1, case_names accepted unchanged]:
  assumes "commit_result job commit now = (r, job')"
  obtains "r = Inr (Accepted (rc_analyzed_generation commit)
              (remains_dirty (rc_analyzed_generation commit) (rc_desired_generation commit)))"
      and "j_id job = rc_job_id commit" and "j_state job = Running"
      and "live_owner job (rc_fence commit) (rc_owner commit) now"
      and "job' = (release_lease (job\<lparr>j_state := Succeeded\<rparr>))\<lparr>j_last_error_code := None\<rparr>"
    | "\<forall>g b. r \<noteq> Inr (Accepted g b)" and "job' = job"
      and "j_id job \<noteq> rc_job_id commit \<or> j_state job \<noteq> Running
           \<or> \<not> live_owner job (rc_fence commit) (rc_owner commit) now"
proof (cases "j_id job = rc_job_id commit \<and> j_state job = Running
    \<and> live_owner job (rc_fence commit) (rc_owner commit) now")
  case True
  then show ?thesis
    using assms
    by (intro that(1)) (auto simp: commit_result_def Let_def lease_restore_def)
next
  case False
  then show ?thesis
    using assms by (intro that(2))
      (auto simp: commit_result_def Let_def lease_restore_def ensure_live_owner_ok
        split: sum.splits if_splits)
qed

lemma commit_wf: "commit_result job c now = (r, job') \<Longrightarrow> job_wf job \<Longrightarrow> job_wf job'"
  by (erule commit_cases) (auto simp: job_wf_def release_lease_def)

text \<open>
  Once the job is running, a rejection always carries the reason of the lease check that
  failed: the fallback \<open>not_eligible\<close> is never reported.
\<close>

lemma rejection_reason_not_fallback:
  assumes "\<not> is_terminal (j_state job)"
    and "\<not> live_owner job (rc_fence c) (rc_owner c) now"
  shows "rejection_reason job c now \<noteq> REASON_NOT_ELIGIBLE"
  using assms by (auto simp: rejection_reason_def live_owner_def reason_defs split: option.splits)

section \<open>Properties of commits\<close>

text \<open>A result is accepted exactly from the live owner of the running job it names, under the
  row's current fence; the decision reports the analysed generation, and says that the project
  stays dirty exactly when a newer generation is desired.  Acceptance moves the row to
  \<open>SUCCEEDED\<close>, releases the lease and clears the error code.\<close>

theorem commit_accepted_iff:
  "commit_result job c now = (Inr (Accepted g dirty), job') \<longleftrightarrow>
     j_id job = rc_job_id c \<and> j_state job = Running \<and>
     live_owner job (rc_fence c) (rc_owner c) now \<and>
     g = rc_analyzed_generation c \<and> dirty = (rc_desired_generation c > rc_analyzed_generation c) \<and>
     job' = (release_lease (job\<lparr>j_state := Succeeded\<rparr>))\<lparr>j_last_error_code := None\<rparr>"
proof (cases "commit_result job c now")
  case (Pair r job'')
  from Pair show ?thesis
    by (cases rule: commit_cases) (use Pair in \<open>auto simp: remains_dirty_def\<close>)
qed

text \<open>A refused commit leaves the row as it was and names the lease check that failed: for a
  running job the reason is one of stale fence, fence ahead, wrong owner or expired lease, never
  the fallback.\<close>

theorem commit_rejection_reason:
  assumes "commit_result job c now = (Inr (Rejected reason), job')" and "j_state job = Running"
  shows "job' = job \<and> reason \<in> {REASON_STALE_FENCE, REASON_FENCE_OUT_OF_ORDER,
    REASON_LEASE_OWNER_MISMATCH, REASON_LEASE_EXPIRED}"
  using assms(1)
proof (cases rule: commit_cases)
  case unchanged
  have "j_id job = rc_job_id c"
    using assms by (auto simp: commit_result_def split: if_splits)
  with unchanged assms(2) have dead: "\<not> live_owner job (rc_fence c) (rc_owner c) now" by simp
  have "reason = rejection_reason job c now"
    using assms by (auto simp: commit_result_def Let_def split: if_splits sum.splits)
  with dead unchanged assms(2) show ?thesis
    by (auto simp: rejection_reason_def live_owner_def split: option.splits)
qed simp

theorem commit_rejection_reason_witness:
  "let job = (job_record_new ''j'' ''s'' Repair ''x'' 0 1 0)\<lparr>j_state := Running, j_fence := 2,
         j_lease_owner := Some ''w2'', j_lease_until := Some 10\<rparr>;
       c = \<lparr>rc_job_id = ''j'', rc_fence = 1, rc_owner = ''w1'', rc_analyzed_generation = 3,
             rc_desired_generation = 3\<rparr>
   in commit_result job c 5 = (Inr (Rejected REASON_STALE_FENCE), job) \<and>
      REASON_STALE_FENCE \<noteq> REASON_NOT_ELIGIBLE"
proof -
  define job where "job = (job_record_new ''j'' ''s'' Repair ''x'' 0 1 0)\<lparr>j_state := Running,
     j_fence := 2, j_lease_owner := Some ''w2'', j_lease_until := Some 10\<rparr>"
  define c where "c = \<lparr>rc_job_id = ''j'', rc_fence = 1, rc_owner = ''w1'',
     rc_analyzed_generation = 3, rc_desired_generation = 3\<rparr>"
  have no: "commit_result job c 5 = (Inr (Rejected REASON_STALE_FENCE), job)"
    by (simp add: commit_result_def job_def c_def job_record_new_def ensure_live_owner_def
        lease_restore_def rejection_reason_def)
  have "REASON_STALE_FENCE \<noteq> REASON_NOT_ELIGIBLE"
    using commit_rejection_reason [OF no] by (auto simp: reason_defs)
  with no show ?thesis by (simp add: Let_def job_def c_def)
qed

end
