(* ===== verification/QueueCancel.thy ===== *)
theory QueueCancel
  imports QueueLease
begin

text \<open>
  Cancellation: \<^verbatim>\<open>graph-queue/src/cancel.rs\<close>.  The dirty ledger is passed by shared reference
  and is only read; the cancel token is a shared flag, so the operations that may raise it
  return its new value beside the row.
\<close>

type_synonym dirty_ledger = "string btree_set"
type_synonym cancel_token = bool

datatype cancel_outcome =
    CancelDone usize
  | CancelNoted bool
  | AlreadyRequested
  | AlreadyCancelled
  | CancelTerminal job_state

fun cancel_outcome_is_terminal :: "cancel_outcome \<Rightarrow> bool" where
  "cancel_outcome_is_terminal (CancelDone _) = True"
| "cancel_outcome_is_terminal AlreadyCancelled = True"
| "cancel_outcome_is_terminal _ = False"

definition token_new :: cancel_token where "token_new = False"
definition token_cancel :: "cancel_token \<Rightarrow> cancel_token" where "token_cancel t = True"

definition acknowledge_cancel ::
  "job_record \<Rightarrow> dirty_ledger \<Rightarrow> cancel_outcome result \<times> job_record" where
  "acknowledge_cancel job dirty =
     (if j_state job = Cancelled then (Inr AlreadyCancelled, job)
      else (case ensure_transition (j_state job) Cancelled of
          Inl e \<Rightarrow> (Inl e, job)
        | Inr _ \<Rightarrow> (Inr (CancelDone (length dirty)), release_lease (job\<lparr>j_state := Cancelled\<rparr>))))"

definition request_cancel ::
  "job_record \<Rightarrow> dirty_ledger \<Rightarrow> cancel_token \<Rightarrow>
   cancel_outcome result \<times> job_record \<times> cancel_token" where
  "request_cancel job dirty token =
     (if j_state job = Cancelled then (Inr AlreadyCancelled, job, token)
      else if is_terminal (j_state job) then (Inr (CancelTerminal (j_state job)), job, token)
      else if j_state job = CancelRequested then (Inr AlreadyRequested, job, token)
      else (case ensure_transition (j_state job) CancelRequested of
          Inl e \<Rightarrow> (Inl e, job, token)
        | Inr _ \<Rightarrow>
            let job' = job\<lparr>j_state := CancelRequested\<rparr>
            in if holds_lease (j_state job)
               then (Inr (CancelNoted True), job', token_cancel token)
               else (case acknowledge_cancel job' dirty of (r, job'') \<Rightarrow> (r, job'', token))))"

definition cancel_pending_now ::
  "job_record \<Rightarrow> dirty_ledger \<Rightarrow> cancel_outcome result \<times> job_record" where
  "cancel_pending_now job dirty =
     (if is_terminal (j_state job) then (Inr (CancelTerminal (j_state job)), job)
      else if holds_lease (j_state job) then
        (Inl (fail Conflict ''a leased job must be cancelled cooperatively''
           [(''rule'', REASON_NOT_ELIGIBLE), (''job_id'', j_id job)]), job)
      else (case ensure_transition (j_state job) CancelRequested of
          Inl e \<Rightarrow> (Inl e, job)
        | Inr _ \<Rightarrow>
            (case ensure_transition CancelRequested Cancelled of
               Inl e \<Rightarrow> (Inl e, job)
             | Inr _ \<Rightarrow>
                 (Inr (CancelDone (length dirty)), release_lease (job\<lparr>j_state := Cancelled\<rparr>)))))"

definition outstanding_after_cancel :: "dirty_ledger \<Rightarrow> usize \<Rightarrow> usize" where
  "outstanding_after_cancel dirty cancelled = length dirty"

lemma acknowledge_cancel_cases [consumes 1, case_names acknowledged unchanged]:
  assumes "acknowledge_cancel job dirty = (r, job')"
  obtains "r = Inr (CancelDone (length dirty))" and "j_state job = CancelRequested"
      and "job' = release_lease (job\<lparr>j_state := Cancelled\<rparr>)"
    | "\<forall>n. r \<noteq> Inr (CancelDone n)" and "job' = job"
proof (cases "j_state job = CancelRequested")
  case True
  with assms show ?thesis by (intro that(1)) (simp_all add: acknowledge_cancel_def)
next
  case False
  then have "\<not> transition_allowed (j_state job) Cancelled" by (cases "j_state job") auto
  from ensure_transition_refused [OF this] assms False show ?thesis
    by (intro that(2)) (auto simp: acknowledge_cancel_def split: if_splits)
qed

text \<open>The effect of a cancellation request, state by state.\<close>

lemma request_cancel_terminal:
  "is_terminal (j_state job) \<Longrightarrow>
   request_cancel job dirty tok =
     (Inr (if j_state job = Cancelled then AlreadyCancelled else CancelTerminal (j_state job)), job, tok)"
  by (simp add: request_cancel_def)

lemma request_cancel_again:
  "j_state job = CancelRequested \<Longrightarrow> request_cancel job dirty tok = (Inr AlreadyRequested, job, tok)"
  by (simp add: request_cancel_def)

lemma request_cancel_leased:
  "holds_lease (j_state job) \<Longrightarrow>
   request_cancel job dirty tok = (Inr (CancelNoted True), job\<lparr>j_state := CancelRequested\<rparr>, True)"
  by (cases "j_state job") (simp_all add: request_cancel_def token_cancel_def)

lemma request_cancel_queued:
  "j_state job \<in> {Pending, RetryWait} \<Longrightarrow>
   request_cancel job dirty tok =
     (Inr (CancelDone (length dirty)), release_lease (job\<lparr>j_state := Cancelled\<rparr>), tok)"
  by (cases "j_state job")
    (simp_all add: request_cancel_def acknowledge_cancel_def release_lease_def)

lemmas request_cancel_by_state =
  request_cancel_terminal request_cancel_again request_cancel_leased request_cancel_queued

lemma request_cancel_cases [consumes 1, case_names noted finished unchanged]:
  assumes "request_cancel job dirty tok = (r, job', tok')"
  obtains "r = Inr (CancelNoted True)" and "holds_lease (j_state job)"
      and "job' = job\<lparr>j_state := CancelRequested\<rparr>" and "tok'"
    | "r = Inr (CancelDone (length dirty))" and "j_state job \<in> {Pending, RetryWait}"
      and "job' = release_lease (job\<lparr>j_state := Cancelled\<rparr>)" and "tok' = tok"
    | "job' = job" and "tok' = tok" and "is_terminal (j_state job) \<or> j_state job = CancelRequested"
proof (cases "holds_lease (j_state job)")
  case True
  then show ?thesis using assms that(1) by (auto simp: request_cancel_leased)
next
  case False
  then consider "j_state job \<in> {Pending, RetryWait}"
    | "is_terminal (j_state job) \<or> j_state job = CancelRequested"
    by (cases "j_state job") auto
  then show ?thesis
  proof cases
    case 1
    then show ?thesis using assms that(2) by (simp add: request_cancel_queued)
  next
    case 2
    then show ?thesis
      using assms that(3) by (auto simp: request_cancel_terminal request_cancel_again)
  qed
qed

lemma request_cancel_wf:
  "request_cancel job dirty tok = (r, job', tok') \<Longrightarrow> job_wf job \<Longrightarrow> job_wf job'"
  by (erule request_cancel_cases) (auto simp: job_wf_def release_lease_def)

lemma acknowledge_cancel_wf: "acknowledge_cancel job dirty = (r, job') \<Longrightarrow> job_wf job \<Longrightarrow> job_wf job'"
  by (erule acknowledge_cancel_cases) (auto simp: job_wf_def release_lease_def)

lemma cancel_pending_now_queued:
  "j_state job \<in> {Pending, RetryWait} \<Longrightarrow>
   cancel_pending_now job dirty =
     (Inr (CancelDone (length dirty)), release_lease (job\<lparr>j_state := Cancelled\<rparr>))"
  by (cases "j_state job") (simp_all add: cancel_pending_now_def)

lemma cancel_pending_now_other:
  "j_state job \<notin> {Pending, RetryWait} \<Longrightarrow> snd (cancel_pending_now job dirty) = job"
  by (auto simp: cancel_pending_now_def split: sum.splits)
    (cases "j_state job"; simp add: ensure_transition_ok)

lemma cancel_pending_now_cases [consumes 1, case_names finished unchanged]:
  assumes "cancel_pending_now job dirty = (r, job')"
  obtains "r = Inr (CancelDone (length dirty))" and "j_state job \<in> {Pending, RetryWait}"
      and "job' = release_lease (job\<lparr>j_state := Cancelled\<rparr>)"
    | "job' = job"
proof (cases "j_state job \<in> {Pending, RetryWait}")
  case True
  with assms that(1) show ?thesis by (simp add: cancel_pending_now_queued)
next
  case False
  with assms that(2) cancel_pending_now_other [of job dirty] show ?thesis by simp
qed

lemma cancel_pending_now_wf: "cancel_pending_now job dirty = (r, job') \<Longrightarrow> job_wf job \<Longrightarrow> job_wf job'"
  by (erule cancel_pending_now_cases) (auto simp: job_wf_def release_lease_def)

section \<open>Properties of cancellation\<close>

text \<open>Cancelling is a total function of the row's state: a terminal row and an already requested
  cancellation are reported and left alone, a leased or running row is marked and its worker's token
  raised, and a waiting row is cancelled at once with its lease fields cleared.  The dirty ledger is
  reported and never changed.\<close>

theorem request_cancel_table:
  "request_cancel job dirty tok = (case j_state job of
      Cancelled \<Rightarrow> (Inr AlreadyCancelled, job, tok)
    | CancelRequested \<Rightarrow> (Inr AlreadyRequested, job, tok)
    | Leased \<Rightarrow> (Inr (CancelNoted True), job\<lparr>j_state := CancelRequested\<rparr>, True)
    | Running \<Rightarrow> (Inr (CancelNoted True), job\<lparr>j_state := CancelRequested\<rparr>, True)
    | Pending \<Rightarrow> (Inr (CancelDone (length dirty)), release_lease (job\<lparr>j_state := Cancelled\<rparr>), tok)
    | RetryWait \<Rightarrow> (Inr (CancelDone (length dirty)), release_lease (job\<lparr>j_state := Cancelled\<rparr>), tok)
    | s \<Rightarrow> (Inr (CancelTerminal s), job, tok))"
  by (cases "j_state job") (simp_all add: request_cancel_by_state)

end
