(* ===== verification/QueueRecover.thy ===== *)
theory QueueRecover
  imports QueueLease
begin

text \<open>
  Lease recovery after a crash: \<^verbatim>\<open>graph-queue/src/recover.rs\<close>.  The ledger of publications is
  a \<open>BTreeMap\<close> ordered by \<open>(project, generation, lane)\<close>; its lemmas come from the
  \<open>ordered_map\<close> interface.  \<open>reclaim_expired\<close> returns an expired row to \<open>Pending\<close> and
  claims it at once for the new owner.
\<close>

section \<open>Publication identities\<close>

datatype lane = Live | Checkpoint

fun lane_str :: "lane \<Rightarrow> string" where
  "lane_str Live = ''live''"
| "lane_str Checkpoint = ''checkpoint''"

text \<open>The derived order compares the variants in declaration order.\<close>

instantiation lane :: linorder
begin

definition less_eq_lane :: "lane \<Rightarrow> lane \<Rightarrow> bool" where
  "less_eq_lane a b \<longleftrightarrow> a = Live \<or> b = Checkpoint"

definition less_lane :: "lane \<Rightarrow> lane \<Rightarrow> bool" where
  "less_lane a b \<longleftrightarrow> a = Live \<and> b = Checkpoint"

instance
proof
  fix x y z :: lane
  show "x < y \<longleftrightarrow> x \<le> y \<and> \<not> y \<le> x"
    by (cases x; cases y) (simp_all add: less_eq_lane_def less_lane_def)
  show "x \<le> x" by (cases x) (simp_all add: less_eq_lane_def)
  show "x \<le> y \<Longrightarrow> y \<le> z \<Longrightarrow> x \<le> z"
    by (cases x; cases y) (simp_all add: less_eq_lane_def)
  show "x \<le> y \<Longrightarrow> y \<le> x \<Longrightarrow> x = y"
    by (cases x; cases y) (simp_all add: less_eq_lane_def)
  show "x \<le> y \<or> y \<le> x" by (cases x; cases y) (simp_all add: less_eq_lane_def)
qed

end

datatype publication_key =
  PublicationKey (pk_project_id: string) (pk_generation_id: string) (pk_lane: lane)

definition pk_tuple :: "publication_key \<Rightarrow> string \<times> string \<times> lane" where
  "pk_tuple k = (pk_project_id k, pk_generation_id k, pk_lane k)"

lemma pk_tuple_inj [simp]: "pk_tuple a = pk_tuple b \<longleftrightarrow> a = b"
  by (cases a; cases b) (simp add: pk_tuple_def)

text \<open>The derived order of the struct is the lexicographic order of its fields.\<close>

instantiation publication_key :: linorder
begin

definition less_eq_publication_key :: "publication_key \<Rightarrow> publication_key \<Rightarrow> bool" where
  "less_eq_publication_key a b \<longleftrightarrow> pk_tuple a \<le> pk_tuple b"

definition less_publication_key :: "publication_key \<Rightarrow> publication_key \<Rightarrow> bool" where
  "less_publication_key a b \<longleftrightarrow> pk_tuple a < pk_tuple b"

instance
proof
  fix x y z :: publication_key
  show "x < y \<longleftrightarrow> x \<le> y \<and> \<not> y \<le> x"
    unfolding less_eq_publication_key_def less_publication_key_def by (rule less_le_not_le)
  show "x \<le> x" by (simp add: less_eq_publication_key_def)
  show "x \<le> y \<Longrightarrow> y \<le> z \<Longrightarrow> x \<le> z"
    unfolding less_eq_publication_key_def by (rule order_trans)
  show "x \<le> y \<Longrightarrow> y \<le> x \<Longrightarrow> x = y"
    unfolding less_eq_publication_key_def by (simp add: order_antisym_conv)
  show "x \<le> y \<or> y \<le> x" unfolding less_eq_publication_key_def by (rule linear)
qed

end

type_synonym publication_ledger = "(publication_key, string) btree_map"

definition ledger_new :: publication_ledger where "ledger_new = []"

definition ledger_contains :: "publication_ledger \<Rightarrow> publication_key \<Rightarrow> bool" where
  "ledger_contains ledger key \<longleftrightarrow> bt_get ledger key \<noteq> None"

definition ledger_record ::
  "publication_ledger \<Rightarrow> publication_key \<Rightarrow> string \<Rightarrow> bool \<times> publication_ledger" where
  "ledger_record ledger key revision_id =
     (if bt_get ledger key \<noteq> None then (False, ledger)
      else (True, bt_insert key revision_id ledger))"

definition ledger_len :: "publication_ledger \<Rightarrow> usize" where
  "ledger_len ledger = length ledger"

definition ledger_revision :: "publication_ledger \<Rightarrow> publication_key \<Rightarrow> string option" where
  "ledger_revision ledger key = bt_get ledger key"

definition needs_publication :: "publication_ledger \<Rightarrow> publication_key \<Rightarrow> bool" where
  "needs_publication ledger key \<longleftrightarrow> \<not> ledger_contains ledger key"

text \<open>A recovery replay: a list of publications recorded one after another.\<close>

definition ledger_replay ::
  "publication_ledger \<Rightarrow> (publication_key \<times> string) list \<Rightarrow> publication_ledger" where
  "ledger_replay ledger evs = foldl (\<lambda>l (k, r). snd (ledger_record l k r)) ledger evs"

lemma ledger_replay_insert:
  "ledger_replay ledger evs =
     foldl (\<lambda>m (k, v). if bt_get m k = None then bt_insert k v m else m) ledger evs"
  unfolding ledger_replay_def by (rule foldl_cong) (auto simp: ledger_record_def)

section \<open>Reclaiming expired leases\<close>

datatype reclaim_outcome = Reclaimed lease string i64 | NotReclaimable string

fun is_reclaimed :: "reclaim_outcome \<Rightarrow> bool" where
  "is_reclaimed (Reclaimed _ _ _) = True"
| "is_reclaimed (NotReclaimable _) = False"

definition is_reclaimable :: "job_record \<Rightarrow> i64 \<Rightarrow> bool" where
  "is_reclaimable job now =
     (if \<not> holds_lease (j_state job) then False
      else (case j_lease_until job of Some until \<Rightarrow> until \<le> now | None \<Rightarrow> True))"

definition reclaim_refusal_reason :: "job_record \<Rightarrow> i64 \<Rightarrow> string option" where
  "reclaim_refusal_reason job now =
     (if is_terminal (j_state job) then Some REASON_TERMINAL_STATE
      else if \<not> holds_lease (j_state job) then Some REASON_NOT_ELIGIBLE
      else if \<not> is_reclaimable job now then Some REASON_LEASE_NOT_EXPIRED
      else None)"

definition reclaim_expired ::
  "job_record \<Rightarrow> i64 \<Rightarrow> string \<Rightarrow> i64 \<Rightarrow> reclaim_outcome result \<times> job_record" where
  "reclaim_expired job now new_owner lease_ms =
     (case reclaim_refusal_reason job now of
        Some reason \<Rightarrow> (Inr (NotReclaimable reason), job)
      | None \<Rightarrow>
          let previous_owner = (case j_lease_owner job of Some w \<Rightarrow> w | None \<Rightarrow> []);
              previous_fence = j_fence job;
              job' = release_lease (job\<lparr>j_state := Pending, j_ready_at := now\<rparr>)
          in (case claim job' new_owner now lease_ms of
                (Inl e, job'') \<Rightarrow> (Inl e, job'')
              | (Inr (Claimed lease), job'') \<Rightarrow>
                  (Inr (Reclaimed lease previous_owner previous_fence), job'')
              | (Inr (NotEligible state), job'') \<Rightarrow>
                  (Inr (NotReclaimable REASON_NOT_ELIGIBLE), job'')))"

lemma reclaim_refusal_None:
  "reclaim_refusal_reason job now = None \<longleftrightarrow>
     holds_lease (j_state job) \<and> (\<forall>u. j_lease_until job = Some u \<longrightarrow> u \<le> now)"
  by (cases "j_state job") (auto simp: reclaim_refusal_reason_def is_reclaimable_def split: option.splits)

lemma reclaim_cases [consumes 1, case_names reclaimed released unchanged]:
  assumes "reclaim_expired job now owner ms = (r, job')"
  obtains l where
      "r = Inr (Reclaimed l (case j_lease_owner job of Some w \<Rightarrow> w | None \<Rightarrow> []) (j_fence job))"
      and "holds_lease (j_state job)" and "\<forall>u. j_lease_until job = Some u \<longrightarrow> u \<le> now"
      and "owner \<noteq> []" and "0 \<le> j_fence job" and "in_i64 (j_fence job + 1)"
      and "l_fence l = j_fence job + 1" and "l_owner l = owner" and "l_job_id l = j_id job"
      and "l_lease_until l = i64_saturating_add now (clamp_duration ms MAX_LEASE_MS)"
      and "job' = job\<lparr>j_state := Leased, j_ready_at := now, j_fence := j_fence job + 1,
              j_attempt := u32_saturating_add (j_attempt job) 1,
              j_lease_owner := Some owner, j_lease_until := Some (l_lease_until l)\<rparr>"
    | e where "r = Inl e" and "holds_lease (j_state job)"
      and "job' = release_lease (job\<lparr>j_state := Pending, j_ready_at := now\<rparr>)"
    | reason where "r = Inr (NotReclaimable reason)" and "job' = job"
proof (cases "reclaim_refusal_reason job now")
  case (Some reason)
  with assms show ?thesis by (intro that(3)) (auto simp: reclaim_expired_def)
next
  case None
  then have live: "holds_lease (j_state job)" "\<forall>u. j_lease_until job = Some u \<longrightarrow> u \<le> now"
    by (simp_all add: reclaim_refusal_None)
  let ?job = "release_lease (job\<lparr>j_state := Pending, j_ready_at := now\<rparr>)"
  have claimable: "is_claimable_at ?job now" by (simp add: is_claimable_at_def)
  obtain c job'' where c: "claim ?job owner now ms = (c, job'')" by fastforce
  from c show ?thesis
  proof (cases rule: claim_cases)
    case (claimed l)
    then show ?thesis
      using assms None live c
      by (intro that(1) [of l]) (auto simp: reclaim_expired_def Let_def release_lease_def)
  next
    case unchanged
    then obtain e where "c = Inl e"
      using c claimable by (auto simp: claim_def Let_def split: if_splits sum.splits)
    then show ?thesis
      using assms None live c unchanged
      by (intro that(2) [of e]) (auto simp: reclaim_expired_def Let_def)
  qed
qed

lemma reclaim_wf: "reclaim_expired job now owner ms = (r, job') \<Longrightarrow> job_wf job \<Longrightarrow> job_wf job'"
  by (erule reclaim_cases) (auto simp: job_wf_def release_lease_def)

section \<open>Properties of recovery\<close>

text \<open>A crashed worker's row is taken over exactly when it holds an expired lease, the new owner
  is named and the fence can rise: the outcome reports the previous owner and fence, and the row is
  leased to the new owner under the next fence.\<close>

theorem reclaim_grants_iff:
  "(\<exists>l. reclaim_expired job now owner ms = (Inr (Reclaimed l w f), job') \<and> l_fence l = f + 1) \<longleftrightarrow>
     holds_lease (j_state job) \<and> (case j_lease_until job of None \<Rightarrow> True | Some u \<Rightarrow> u \<le> now) \<and>
     owner \<noteq> [] \<and> 0 \<le> j_fence job \<and> in_i64 (j_fence job + 1) \<and>
     w = (case j_lease_owner job of Some o' \<Rightarrow> o' | None \<Rightarrow> []) \<and> f = j_fence job \<and>
     job' = job\<lparr>j_state := Leased, j_ready_at := now, j_fence := j_fence job + 1,
        j_attempt := u32_saturating_add (j_attempt job) 1, j_lease_owner := Some owner,
        j_lease_until := Some (i64_saturating_add now (clamp_duration ms MAX_LEASE_MS))\<rparr>"
  (is "?lhs \<longleftrightarrow> ?rhs")
proof
  assume ?lhs
  then obtain l where "reclaim_expired job now owner ms = (Inr (Reclaimed l w f), job')" by blast
  then show ?rhs by (cases rule: reclaim_cases) (auto split: option.splits)
next
  assume r: ?rhs
  let ?job = "release_lease (job\<lparr>j_state := Pending, j_ready_at := now\<rparr>)"
  have None: "reclaim_refusal_reason job now = None"
    using r by (auto simp: reclaim_refusal_None split: option.splits)
  have "fst (claim ?job owner now ms) = Inr (Claimed \<lparr>l_job_id = j_id job,
      l_fence = j_fence job + 1, l_owner = owner,
      l_lease_until = i64_saturating_add now (clamp_duration ms MAX_LEASE_MS)\<rparr>)"
    using r by (simp add: claim_succeeds_iff)
  then obtain l job'' where "claim ?job owner now ms = (Inr (Claimed l), job'')"
    by (metis prod.collapse)
  with None r have c: "reclaim_expired job now owner ms = (Inr (Reclaimed l w f), job'')"
    by (simp add: reclaim_expired_def)
  then have "l_fence l = f + 1 \<and> job'' = job'"
    using r by (cases rule: reclaim_cases) auto
  with c show ?lhs by blast
qed

text \<open>A takeover that fails midway does not leave the dead owner's lease behind: the row waits as
  \<open>PENDING\<close> with no owner, ready now, and the fence unchanged.\<close>

theorem reclaim_failure_releases:
  assumes "reclaim_expired job now owner ms = (Inl e, job')"
  shows "job' = job\<lparr>j_state := Pending, j_ready_at := now, j_lease_owner := None,
    j_lease_until := None\<rparr> \<and> is_claimable_at job' now"
  using assms
  by (cases rule: reclaim_cases) (auto simp: release_lease_def is_claimable_at_def)

theorem reclaim_failure_releases_witness:
  "let job = (job_record_new ''j'' ''s'' Repair ''x'' 0 1 0)\<lparr>j_state := Running, j_fence := 2,
         j_lease_owner := Some ''w'', j_lease_until := Some 10\<rparr>
   in is_claimable_at (snd (reclaim_expired job 11 [] 5)) 11"
proof -
  define job where "job = (job_record_new ''j'' ''s'' Repair ''x'' 0 1 0)\<lparr>j_state := Running,
     j_fence := 2, j_lease_owner := Some ''w'', j_lease_until := Some 10\<rparr>"
  have "\<exists>e job'. reclaim_expired job 11 [] 5 = (Inl e, job')"
    by (simp add: reclaim_expired_def reclaim_refusal_reason_def is_reclaimable_def claim_def
        job_def job_record_new_def Let_def)
  then obtain e job' where no: "reclaim_expired job 11 [] 5 = (Inl e, job')" by blast
  have "is_claimable_at (snd (reclaim_expired job 11 [] 5)) 11"
    unfolding no snd_conv by (rule conjunct2 [OF reclaim_failure_releases [OF no]])
  then show ?thesis by (simp only: Let_def job_def)
qed

text \<open>Replaying publications after a crash is idempotent: for each key the first recorded revision
  wins, an already recorded one is kept, and replaying the same list again changes nothing.\<close>

theorem ledger_replay_first_wins:
  "ledger_revision (ledger_replay ledger evs) key =
     (case ledger_revision ledger key of Some r \<Rightarrow> Some r | None \<Rightarrow> map_of evs key) \<and>
   ledger_replay (ledger_replay ledger evs) evs = ledger_replay ledger evs"
proof -
  have first: "bt_get (ledger_replay l xs) k =
      (case bt_get l k of Some r \<Rightarrow> Some r | None \<Rightarrow> map_of xs k)" for l xs k
    unfolding ledger_replay_insert by (rule bt.first_insert_wins)
  have again: "ledger_replay l xs = l" if "\<forall>(k, v) \<in> set xs. bt_get l k \<noteq> None" for l xs
    using that by (induction xs) (auto simp: ledger_replay_insert)
  have "\<forall>(k, v) \<in> set evs. bt_get (ledger_replay ledger evs) k \<noteq> None"
    by (auto simp: first split: option.splits dest: weak_map_of_SomeI)
  with first again show ?thesis by (simp add: ledger_revision_def)
qed

end
