(* ===== verification/QueueMachine.thy ===== *)
theory QueueMachine
  imports Machines QueueAck QueueCancel QueueRecover
begin

text \<open>
  The life of one job row: every entry point of \<^verbatim>\<open>claim.rs\<close>, \<^verbatim>\<open>heartbeat.rs\<close>, \<^verbatim>\<open>ack.rs\<close>,
  \<^verbatim>\<open>cancel.rs\<close> and \<^verbatim>\<open>recover.rs\<close> as an event, called with any arguments and at any time of
  the caller's clock.  The row machine is a \<open>fenced_machine\<close>, and its runs follow the frozen
  transition table.
\<close>

datatype job_event =
    EvClaim string i64 i64
  | EvStart lease i64
  | EvHeartbeat lease i64 i64
  | EvCommit result_commit i64
  | EvRequestCancel dirty_ledger cancel_token
  | EvAcknowledgeCancel dirty_ledger
  | EvCancelPendingNow dirty_ledger
  | EvReclaim i64 string i64

inductive job_step :: "job_record \<Rightarrow> job_event \<Rightarrow> job_record \<Rightarrow> bool" where
  step_claim: "claim job owner now ms = (r, job') \<Longrightarrow> job_step job (EvClaim owner now ms) job'"
| step_start: "start_running job lease now = (r, job') \<Longrightarrow> job_step job (EvStart lease now) job'"
| step_heartbeat: "heartbeat job lease now ext = (r, job') \<Longrightarrow>
     job_step job (EvHeartbeat lease now ext) job'"
| step_commit: "commit_result job c now = (r, job') \<Longrightarrow> job_step job (EvCommit c now) job'"
| step_request: "request_cancel job dirty tok = (r, job', tok') \<Longrightarrow>
     job_step job (EvRequestCancel dirty tok) job'"
| step_ack_cancel: "acknowledge_cancel job dirty = (r, job') \<Longrightarrow>
     job_step job (EvAcknowledgeCancel dirty) job'"
| step_cancel_now: "cancel_pending_now job dirty = (r, job') \<Longrightarrow>
     job_step job (EvCancelPendingNow dirty) job'"
| step_reclaim: "reclaim_expired job now owner ms = (r, job') \<Longrightarrow>
     job_step job (EvReclaim now owner ms) job'"

declare job_step.intros [step_intro]

inductive_cases job_stepE: "job_step job ev job'"

text \<open>The lease an event grants, and the fence under which it is accepted.\<close>

definition granted :: "job_record \<Rightarrow> job_event \<Rightarrow> lease option" where
  "granted job ev = (case ev of
      EvClaim owner now ms \<Rightarrow>
        (case fst (claim job owner now ms) of Inr (Claimed l) \<Rightarrow> Some l | _ \<Rightarrow> None)
    | EvReclaim now owner ms \<Rightarrow>
        (case fst (reclaim_expired job now owner ms) of Inr (Reclaimed l _ _) \<Rightarrow> Some l | _ \<Rightarrow> None)
    | _ \<Rightarrow> None)"

definition accepted_fence :: "job_record \<Rightarrow> job_event \<Rightarrow> i64 option" where
  "accepted_fence job ev = (case ev of
      EvStart lease now \<Rightarrow>
        (case fst (start_running job lease now) of Inr _ \<Rightarrow> Some (l_fence lease) | Inl _ \<Rightarrow> None)
    | EvHeartbeat lease now ext \<Rightarrow>
        (case fst (heartbeat job lease now ext) of Inr (Renewed _) \<Rightarrow> Some (l_fence lease) | _ \<Rightarrow> None)
    | EvCommit c now \<Rightarrow>
        (case fst (commit_result job c now) of Inr (Accepted _ _) \<Rightarrow> Some (rc_fence c) | _ \<Rightarrow> None)
    | _ \<Rightarrow> None)"

lemma granted_simps [simp]:
  "granted job (EvClaim owner now ms) = Some l \<longleftrightarrow> fst (claim job owner now ms) = Inr (Claimed l)"
  "granted job (EvReclaim now owner ms) = Some l \<longleftrightarrow>
     (\<exists>w f. fst (reclaim_expired job now owner ms) = Inr (Reclaimed l w f))"
  "granted job (EvStart le now) = None" "granted job (EvHeartbeat le now ext) = None"
  "granted job (EvCommit c now) = None" "granted job (EvRequestCancel d tok) = None"
  "granted job (EvAcknowledgeCancel d) = None" "granted job (EvCancelPendingNow d) = None"
  by (auto simp: granted_def split: sum.splits claim_outcome.splits reclaim_outcome.splits)

lemma accepted_fence_simps [simp]:
  "accepted_fence job (EvStart lease now) = Some f \<longleftrightarrow>
     fst (start_running job lease now) = Inr () \<and> f = l_fence lease"
  "accepted_fence job (EvHeartbeat lease now ext) = Some f \<longleftrightarrow>
     (\<exists>d. fst (heartbeat job lease now ext) = Inr (Renewed d)) \<and> f = l_fence lease"
  "accepted_fence job (EvCommit c now) = Some f \<longleftrightarrow>
     (\<exists>g b. fst (commit_result job c now) = Inr (Accepted g b)) \<and> f = rc_fence c"
  by (auto simp: accepted_fence_def
      split: sum.splits heartbeat_outcome.splits commit_decision.splits)

lemma job_step_wf: "job_step job ev job' \<Longrightarrow> job_wf job \<Longrightarrow> job_wf job'"
  by (induction rule: job_step.induct)
    (simp_all add: claim_wf start_running_wf heartbeat_wf commit_wf request_cancel_wf
      acknowledge_cancel_wf cancel_pending_now_wf reclaim_wf)

lemma job_step_granted:
  assumes "job_step job ev job'" and "granted job ev = Some l"
  shows "j_fence job' = j_fence job + 1 \<and> l_fence l = j_fence job' \<and>
    j_lease_owner job' = Some (l_owner l) \<and> j_state job' = Leased \<and>
    j_lease_until job' = Some (l_lease_until l) \<and>
    j_attempt job' = u32_saturating_add (j_attempt job) 1"
  using assms
proof (induction rule: job_step.induct)
  case (step_claim job owner now ms r job')
  from step_claim(1) show ?case
    by (cases rule: claim_cases) (use step_claim in \<open>simp_all del: not_None_eq\<close>)
next
  case (step_reclaim job now owner ms r job')
  from step_reclaim(1) show ?case
    by (cases rule: reclaim_cases) (use step_reclaim in auto)
qed simp_all

lemma job_step_not_granted:
  assumes "job_step job ev job'" and "granted job ev = None"
  shows "j_fence job' = j_fence job \<and> j_attempt job' = j_attempt job \<and>
    (j_lease_owner job = None \<longrightarrow> j_lease_owner job' = None)"
  using assms
proof (induction rule: job_step.induct)
  case (step_claim job owner now ms r job')
  then have "\<forall>l. r \<noteq> Inr (Claimed l)"
    by (metis fst_conv granted_simps(1) option.distinct(1))
  with step_claim claim_unchanged show ?case by blast
next
  case (step_reclaim job now owner ms r job')
  then have no: "r \<noteq> Inr (Reclaimed l w f)" for l w f
    by (metis fst_conv granted_simps(2) option.distinct(1))
  from step_reclaim(1) show ?case
    by (cases rule: reclaim_cases) (use no in auto)
qed (auto elim!: start_running_cases heartbeat_cases commit_cases request_cancel_cases
      acknowledge_cancel_cases cancel_pending_now_cases)

lemma accepted_fence_current:
  assumes "accepted_fence job ev = Some f" shows "f = j_fence job"
proof (cases ev)
  case (EvStart lease now)
  obtain r job' where eq: "start_running job lease now = (r, job')" by fastforce
  then show ?thesis
    by (cases rule: start_running_cases) (use eq EvStart assms in \<open>auto simp: live_owner_def\<close>)
next
  case (EvHeartbeat lease now ext)
  obtain r job' where eq: "heartbeat job lease now ext = (r, job')" by fastforce
  then show ?thesis
    by (cases rule: heartbeat_cases) (use eq EvHeartbeat assms in \<open>auto simp: live_owner_def\<close>)
next
  case (EvCommit c now)
  obtain r job' where eq: "commit_result job c now = (r, job')" by fastforce
  then show ?thesis
    by (cases rule: commit_cases) (use eq EvCommit assms in \<open>auto simp: live_owner_def\<close>)
qed (use assms in \<open>auto simp: accepted_fence_def\<close>)

lemma accepted_has_owner:
  assumes "accepted_fence job ev = Some f" shows "j_lease_owner job \<noteq> None"
proof (cases ev)
  case (EvStart lease now)
  obtain r job' where eq: "start_running job lease now = (r, job')" by fastforce
  then show ?thesis
    by (cases rule: start_running_cases) (use eq EvStart assms in \<open>auto simp: live_owner_def\<close>)
next
  case (EvHeartbeat lease now ext)
  obtain r job' where eq: "heartbeat job lease now ext = (r, job')" by fastforce
  then show ?thesis
    by (cases rule: heartbeat_cases) (use eq EvHeartbeat assms in \<open>auto simp: live_owner_def\<close>)
next
  case (EvCommit c now)
  obtain r job' where eq: "commit_result job c now = (r, job')" by fastforce
  then show ?thesis
    by (cases rule: commit_cases) (use eq EvCommit assms in \<open>auto simp: live_owner_def\<close>)
qed (use assms in \<open>auto simp: accepted_fence_def\<close>)

interpretation job: fenced_machine job_step job_wf j_fence "\<lambda>s e. granted s e \<noteq> None" accepted_fence
proof unfold_locales
  fix s e t assume "job_step s e t" "job_wf s" then show "job_wf t" by (rule job_step_wf)
next
  fix s e t assume step: "job_step s e t" and "granted s e \<noteq> None"
  then obtain l where "granted s e = Some l" by blast
  with job_step_granted [OF step] show "j_fence t = j_fence s + 1" by simp
next
  fix s e t assume "job_step s e t" "\<not> granted s e \<noteq> None"
  then show "j_fence t = j_fence s" using job_step_not_granted by simp
next
  fix s e f assume "accepted_fence s e = Some f" then show "f = j_fence s"
    by (rule accepted_fence_current)
qed

section \<open>Runs follow the table\<close>

text \<open>The move a call may make: its source, its target and every step between them are rows of the table.\<close>

inductive call_move :: "job_state \<Rightarrow> job_event \<Rightarrow> job_state \<Rightarrow> bool" where
  move_stay: "call_move s ev s"
| move_claim: "transition_allowed s Leased \<Longrightarrow> call_move s (EvClaim owner now ms) Leased"
| move_start: "transition_allowed s Running \<Longrightarrow> call_move s (EvStart lease now) Running"
| move_commit: "transition_allowed s Succeeded \<Longrightarrow> call_move s (EvCommit c now) Succeeded"
| move_request: "holds_lease s \<Longrightarrow> transition_allowed s CancelRequested \<Longrightarrow>
     call_move s (EvRequestCancel dirty tok) CancelRequested"
| move_cancel: "s \<in> {Pending, RetryWait} \<Longrightarrow> transition_allowed s CancelRequested \<Longrightarrow>
     transition_allowed CancelRequested Cancelled \<Longrightarrow> call_move s (EvRequestCancel dirty tok) Cancelled"
| move_acknowledge: "transition_allowed s Cancelled \<Longrightarrow> call_move s (EvAcknowledgeCancel dirty) Cancelled"
| move_cancel_now: "s \<in> {Pending, RetryWait} \<Longrightarrow> transition_allowed s CancelRequested \<Longrightarrow>
     transition_allowed CancelRequested Cancelled \<Longrightarrow> call_move s (EvCancelPendingNow dirty) Cancelled"
| move_takeover: "holds_lease s \<Longrightarrow> transition_allowed s Pending \<Longrightarrow> transition_allowed Pending Leased \<Longrightarrow>
     call_move s (EvReclaim now owner ms) Leased"
| move_release: "holds_lease s \<Longrightarrow> transition_allowed s Pending \<Longrightarrow> call_move s (EvReclaim now owner ms) Pending"

inductive_simps call_move_iff:
  "call_move s (EvClaim owner now ms) t" "call_move s (EvStart lease now) t" "call_move s (EvCommit c now) t"
  "call_move s (EvHeartbeat lease now ext) t" "call_move s (EvRequestCancel dirty tok) t"
  "call_move s (EvAcknowledgeCancel dirty) t" "call_move s (EvCancelPendingNow dirty) t"
  "call_move s (EvReclaim now owner ms) t"

lemma holds_lease_moves:
  "holds_lease s \<Longrightarrow> transition_allowed s CancelRequested \<and> transition_allowed s Pending"
  by (cases s) auto

lemma job_step_moves: "job_step job ev job' \<Longrightarrow> call_move (j_state job) ev (j_state job')"
  by (induction rule: job_step.induct)
    (auto elim!: claim_cases start_running_cases heartbeat_cases commit_cases request_cancel_cases
      acknowledge_cancel_cases cancel_pending_now_cases reclaim_cases
      simp: call_move_iff dest: holds_lease_moves)

lemma terminal_absorbing: "job_step job ev job' \<Longrightarrow> is_terminal (j_state job) \<Longrightarrow> job' = job"
  by (induction rule: job_step.induct)
    (auto elim!: claim_cases start_running_cases heartbeat_cases commit_cases request_cancel_cases
      acknowledge_cancel_cases cancel_pending_now_cases reclaim_cases
      dest: holds_lease_not_terminal)

section \<open>Runs as computations\<close>

fun job_apply :: "job_record \<Rightarrow> job_event \<Rightarrow> job_record" where
  "job_apply job (EvClaim owner now ms) = snd (claim job owner now ms)"
| "job_apply job (EvStart lease now) = snd (start_running job lease now)"
| "job_apply job (EvHeartbeat lease now ext) = snd (heartbeat job lease now ext)"
| "job_apply job (EvCommit c now) = snd (commit_result job c now)"
| "job_apply job (EvRequestCancel dirty tok) = fst (snd (request_cancel job dirty tok))"
| "job_apply job (EvAcknowledgeCancel dirty) = snd (acknowledge_cancel job dirty)"
| "job_apply job (EvCancelPendingNow dirty) = snd (cancel_pending_now job dirty)"
| "job_apply job (EvReclaim now owner ms) = snd (reclaim_expired job now owner ms)"

lemma job_step_iff: "job_step job ev job' \<longleftrightarrow> job' = job_apply job ev"
proof
  show "job_step job ev job' \<Longrightarrow> job' = job_apply job ev"
    by (induction rule: job_step.induct) simp_all
next
  show "job' = job_apply job ev \<Longrightarrow> job_step job ev job'"
    by (cases ev) (auto intro: step_intro prod.collapse [symmetric] simp: prod_eq_iff)
qed

lemma job_trace_iff: "trace job_step job es job' \<longleftrightarrow> job' = foldl job_apply job es"
  by (induction es arbitrary: job) (auto simp: trace_Cons_iff job_step_iff)

text \<open>The number of leases a run grants.\<close>

fun grant_count :: "job_record \<Rightarrow> job_event list \<Rightarrow> nat" where
  "grant_count job [] = 0"
| "grant_count job (ev # evs) =
     (if granted job ev = None then 0 else 1) + grant_count (job_apply job ev) evs"

lemma run_grants:
  assumes "trace job_step job es job'" and "job_wf job" and "j_attempt job \<le> u32_max"
  shows "j_fence job' = j_fence job + int (grant_count job es) \<and>
    j_attempt job' = min u32_max (j_attempt job + grant_count job es)"
  using assms
proof (induction rule: trace.induct)
  case (trace_cons job ev job1 es job')
  have wf: "job_wf job1" and next_row: "job_apply job ev = job1"
    using trace_cons job_step_wf by (simp_all add: job_step_iff)
  show ?case
  proof (cases "granted job ev")
    case None
    with trace_cons job_step_not_granted [OF trace_cons.hyps(1) None] wf next_row
    show ?thesis by simp
  next
    case (Some l)
    note g = job_step_granted [OF trace_cons.hyps(1) Some]
    then have "j_attempt job1 \<le> u32_max" by simp
    with trace_cons wf have "j_fence job' = j_fence job1 + int (grant_count job1 es) \<and>
      j_attempt job' = min u32_max (j_attempt job1 + grant_count job1 es)" by simp
    with g Some next_row trace_cons.prems show ?thesis
      by (auto simp: u32_saturating_add_def min_def)
  qed
qed simp

text \<open>Only a grant gives a row an owner.\<close>

lemma no_grant_no_owner:
  "trace job_step job es job' \<Longrightarrow> grant_count job es = 0 \<Longrightarrow> j_lease_owner job = None \<Longrightarrow>
     j_lease_owner job' = None"
proof (induction rule: trace.induct)
  case (trace_cons s e t es u)
  then have "granted s e = None" "grant_count t es = 0"
    by (auto simp: job_step_iff split: if_splits)
  with trace_cons job_step_not_granted [OF trace_cons.hyps(1)] show ?case by simp
qed simp

lemma terminal_run: "trace job_step job es job' \<Longrightarrow> is_terminal (j_state job) \<Longrightarrow> job' = job"
  by (induction rule: trace.induct) (auto dest: terminal_absorbing)

lemma terminal_accepts_nothing: "is_terminal (j_state job) \<Longrightarrow> accepted_fence job ev = None"
proof (rule ccontr)
  assume t: "is_terminal (j_state job)" and "accepted_fence job ev \<noteq> None"
  then obtain f where f: "accepted_fence job ev = Some f" by blast
  then have "\<exists>lease now. ev = EvStart lease now \<and> fst (start_running job lease now) = Inr () \<or>
      (\<exists>ext d. ev = EvHeartbeat lease now ext \<and> fst (heartbeat job lease now ext) = Inr (Renewed d)) \<or>
      (\<exists>c g b. ev = EvCommit c now \<and> fst (commit_result job c now) = Inr (Accepted g b))"
    by (cases ev) (auto simp: accepted_fence_def split: sum.splits heartbeat_outcome.splits
        commit_decision.splits)
  then show False
    using t by (auto simp: start_running_def ensure_transition_def heartbeat_def
        heartbeat_refusal_reason_def commit_result_def split: sum.splits if_splits)
qed

text \<open>The equations that evaluate a call on a concrete row.\<close>

lemmas row_eval =
  job_record_new_def claim_def is_claimable_at_def next_fence_def ensure_valid_fence_def
  i64_checked_add_def in_i64_def i64_min_def i64_max_def clamp_duration_def MAX_LEASE_MS_def
  i64_saturating_add_def u32_saturating_add_def u32_max_def reclaim_expired_def
  reclaim_refusal_reason_def is_reclaimable_def release_lease_def start_running_def
  ensure_live_owner_def commit_result_def lease_restore_def remains_dirty_def granted_def
  accepted_fence_def Let_def

section \<open>Properties of a job's life\<close>

text \<open>C1: Once a row has been granted to a new owner, nothing an earlier owner presents is ever
  accepted again: along every run of the row, each start, heartbeat or commit that is accepted
  after a grant carries a fence strictly above every fence the row had before that grant.\<close>

theorem superseded_lease_never_accepted:
  assumes "job_wf job" and "trace job_step job before s" and "job_step s ev t"
    and "granted s ev = Some l" and "trace job_step t after u" and "accepted_fence u ev' = Some f"
  shows "j_fence job < f"
  using assms by (intro job.superseded_forever [of job before s ev t after u ev' f]) auto

theorem superseded_lease_never_accepted_witness:
  "let job = job_record_new ''j'' ''s'' ParseBatch ''p'' 0 1 0;
       held = foldl job_apply job [EvClaim ''w1'' 0 10];
       taken = job_apply held (EvReclaim 20 ''w2'' 10);
       l2 = \<lparr>l_job_id = ''j'', l_fence = 2, l_owner = ''w2'', l_lease_until = 30\<rparr>
   in accepted_fence taken (EvStart l2 25) = Some 2 \<and> j_fence held < 2"
proof -
  define job where "job = job_record_new ''j'' ''s'' ParseBatch ''p'' 0 1 0"
  define held where "held = foldl job_apply job [EvClaim ''w1'' 0 10]"
  define l2 where "l2 = \<lparr>l_job_id = ''j'', l_fence = 2, l_owner = ''w2'', l_lease_until = 30\<rparr>"
  have wf: "job_wf held"
    by (simp add: held_def job_def row_eval job_wf_def)
  have grant: "granted held (EvReclaim 20 ''w2'' 10) = Some l2"
    by (simp add: held_def job_def l2_def row_eval)
  have ok: "accepted_fence (job_apply held (EvReclaim 20 ''w2'' 10)) (EvStart l2 25) = Some 2"
    by (simp add: held_def job_def l2_def row_eval)
  have "j_fence held < 2"
    using superseded_lease_never_accepted [OF wf trace_nil _ grant trace_nil ok]
    by (simp add: job_step_iff)
  with ok show ?thesis by (simp add: Let_def held_def job_def l2_def)
qed

text \<open>C2: From the row an enqueue creates, every sequence of calls with any arguments and clock
  readings keeps the row well formed, and the row counts honestly: the fence is the number of
  leases granted and the attempt counter is that number, saturating at \<open>u32::MAX\<close>.\<close>

theorem row_counts_grants:
  assumes "trace job_step (job_record_new i s k sc p t now) es job"
  shows "job_wf job \<and>
    j_fence job = int (grant_count (job_record_new i s k sc p t now) es) \<and>
    j_attempt job = min u32_max (grant_count (job_record_new i s k sc p t now) es)"
  using job.trace_inv [OF assms job_wf_new] run_grants [OF assms job_wf_new]
  by (simp add: job_record_new_def)

theorem row_counts_grants_witness:
  "job_wf (foldl job_apply (job_record_new ''j'' ''s'' Repair ''x'' 0 1 0)
     [EvClaim ''a'' 0 10, EvReclaim 20 ''b'' 10, EvReclaim 25 ''c'' 10])"
  using row_counts_grants [of "''j''" "''s''" Repair "''x''" 0 1 0
      "[EvClaim ''a'' 0 10, EvReclaim 20 ''b'' 10, EvReclaim 25 ''c'' 10]"]
  by (simp only: job_trace_iff)

text \<open>C3: The detailed operations refine the frozen transition table, call by call: along every sequence
  of calls each call leaves the state of the row alone or makes the one move it is for, a claim to
  \<open>LEASED\<close>, a start to \<open>RUNNING\<close>, a commit to \<open>SUCCEEDED\<close>, a cancellation through \<open>CANCEL_REQUESTED\<close> and a
  takeover through \<open>PENDING\<close>, and every step of such a move is a row of the table; a heartbeat never
  moves it.\<close>

theorem run_refines_table:
  assumes "trace job_step job es job'"
  shows "trace call_move (j_state job) es (j_state job')"
  using assms
proof (induction rule: trace.induct)
  case (trace_cons job ev job1 es job')
  from trace.trace_cons [OF job_step_moves [OF trace_cons.hyps(1)] trace_cons.IH] show ?case .
qed (rule trace.trace_nil)

theorem run_refines_table_witness:
  "trace call_move Pending [EvClaim ''w'' 0 10, EvRequestCancel [] False, EvAcknowledgeCancel []] Cancelled"
proof -
  define row where "row = job_record_new ''j'' ''s'' Repair ''x'' 0 1 0"
  define es where "es = [EvClaim ''w'' 0 10, EvRequestCancel [] False, EvAcknowledgeCancel []]"
  have "j_state (foldl job_apply row es) = Cancelled" "j_state row = Pending"
    unfolding row_def es_def
    by (simp_all add: row_eval request_cancel_def acknowledge_cancel_def)
  with run_refines_table [of row es "foldl job_apply row es"] show ?thesis
    by (simp add: job_trace_iff es_def)
qed

text \<open>A committed row is final.  After an accepted commit the row is \<open>SUCCEEDED\<close> with its lease
  released, no later call changes it, and no later start, heartbeat or commit is accepted, so a
  result is committed at most once.\<close>

theorem commit_is_final:
  assumes "commit_result job c now = (Inr (Accepted g b), done')" and "trace job_step done' es job'"
  shows "job' = done' \<and> j_state job' = Succeeded \<and> j_lease_owner job' = None \<and>
    accepted_fence job' ev = None"
proof -
  from assms(1) have fin: "j_state done' = Succeeded \<and> j_lease_owner done' = None"
    by (cases rule: commit_cases) auto
  then have "job' = done'" using assms(2) by (auto dest: terminal_run)
  with fin show ?thesis by (simp add: terminal_accepts_nothing)
qed

theorem commit_is_final_witness:
  "let job = foldl job_apply (job_record_new ''j'' ''s'' Repair ''x'' 0 1 0)
         [EvClaim ''w'' 0 10,
          EvStart \<lparr>l_job_id = ''j'', l_fence = 1, l_owner = ''w'', l_lease_until = 10\<rparr> 1];
       c = \<lparr>rc_job_id = ''j'', rc_fence = 1, rc_owner = ''w'', rc_analyzed_generation = 3,
             rc_desired_generation = 4\<rparr>
   in fst (commit_result job c 5) = Inr (Accepted 3 True) \<and>
      accepted_fence (job_apply (snd (commit_result job c 5)) (EvClaim ''v'' 9 9)) (EvCommit c 5) = None"
proof -
  define job where "job = foldl job_apply (job_record_new ''j'' ''s'' Repair ''x'' 0 1 0)
     [EvClaim ''w'' 0 10,
      EvStart \<lparr>l_job_id = ''j'', l_fence = 1, l_owner = ''w'', l_lease_until = 10\<rparr> 1]"
  define c where "c = \<lparr>rc_job_id = ''j'', rc_fence = 1, rc_owner = ''w'',
     rc_analyzed_generation = 3, rc_desired_generation = 4\<rparr>"
  have ok: "fst (commit_result job c 5) = Inr (Accepted 3 True)"
    by (simp add: job_def c_def row_eval)
  then have "commit_result job c 5 = (Inr (Accepted 3 True), snd (commit_result job c 5))"
    by (metis prod.collapse)
  then have "accepted_fence (job_apply (snd (commit_result job c 5)) (EvClaim ''v'' 9 9))
      (EvCommit c 5) = None"
    using commit_is_final [of job c 5 3 True "snd (commit_result job c 5)" "[EvClaim ''v'' 9 9]"
        "job_apply (snd (commit_result job c 5)) (EvClaim ''v'' 9 9)" "EvCommit c 5"]
    by (simp only: job_trace_iff foldl_Cons foldl_Nil)
  with ok show ?thesis unfolding Let_def job_def c_def by (rule conjI)
qed

text \<open>A requested cancellation is completed by its worker alone: while a row is in
  \<open>CANCEL_REQUESTED\<close> every call leaves it untouched, except the acknowledgement, which moves it to
  \<open>CANCELLED\<close> and releases the lease.\<close>

theorem cancel_requested_waits:
  assumes "job_step job ev job'" and "j_state job = CancelRequested"
  shows "job' = (case ev of
      EvAcknowledgeCancel dirty \<Rightarrow> release_lease (job\<lparr>j_state := Cancelled\<rparr>) | _ \<Rightarrow> job)"
  using assms
  by (induction rule: job_step.induct)
    (auto elim!: claim_cases start_running_cases heartbeat_cases commit_cases request_cancel_cases
      acknowledge_cancel_cases cancel_pending_now_cases reclaim_cases simp: acknowledge_cancel_def)

theorem cancel_requested_waits_witness:
  "job_apply ((job_record_new ''j'' ''s'' Repair ''x'' 0 1 0)\<lparr>j_state := CancelRequested\<rparr>)
     (EvReclaim 9 ''w'' 9) =
   (job_record_new ''j'' ''s'' Repair ''x'' 0 1 0)\<lparr>j_state := CancelRequested\<rparr>"
  by (subst cancel_requested_waits
      [of "(job_record_new ''j'' ''s'' Repair ''x'' 0 1 0)\<lparr>j_state := CancelRequested\<rparr>"
        "EvReclaim 9 ''w'' 9"])
    (simp_all add: job_step_iff)

end
