(* ===== verification/QueueEnqueue.thy ===== *)
theory QueueEnqueue
  imports Machines QueueCore
begin

text \<open>
  Idempotent work intents: \<^verbatim>\<open>graph-queue/src/enqueue.rs\<close>.  \<open>pending_index\<close> mirrors the pending
  rows and the running scopes by dedup key.  The lemmas show that every row sits under its own
  dedup key, that an accepted intent is covered by exactly one pending row, and when two intents
  share a key.
\<close>

section \<open>Requests and their dedup keys\<close>

definition DEDUP_SEPARATOR :: char where "DEDUP_SEPARATOR = CHR 0x1F"

definition dedup_key :: "string \<Rightarrow> job_kind \<Rightarrow> string \<Rightarrow> string" where
  "dedup_key solution_id kind scope_key =
     solution_id @ DEDUP_SEPARATOR # job_kind_str kind @ DEDUP_SEPARATOR # scope_key"

record enqueue_request =
  er_job_id :: string
  er_solution_id :: string
  er_kind :: job_kind
  er_scope_key :: string
  er_priority :: i32
  er_target_event_seq :: i64
  er_ready_at :: i64

definition enqueue_request_new ::
  "string \<Rightarrow> string \<Rightarrow> job_kind \<Rightarrow> string \<Rightarrow> i64 \<Rightarrow> i64 \<Rightarrow> enqueue_request" where
  "enqueue_request_new job_id solution_id kind scope_key target_event_seq ready_at =
     \<lparr>er_job_id = job_id, er_solution_id = solution_id, er_kind = kind, er_scope_key = scope_key,
      er_priority = 0, er_target_event_seq = target_event_seq, er_ready_at = ready_at\<rparr>"

definition er_with_priority :: "enqueue_request \<Rightarrow> i32 \<Rightarrow> enqueue_request" where
  "er_with_priority r p = r\<lparr>er_priority := p\<rparr>"

definition er_dedup_key :: "enqueue_request \<Rightarrow> string" where
  "er_dedup_key r = dedup_key (er_solution_id r) (er_kind r) (er_scope_key r)"

definition er_validate :: "enqueue_request \<Rightarrow> unit result" where
  "er_validate r =
     (if er_solution_id r = [] \<or> er_scope_key r = [] then
        Inl (fail ValidationError ''a work intent needs a solution id and a non-empty scope''
          [(''actual'', er_scope_key r), (''solution_id'', er_solution_id r)])
      else if er_target_event_seq r < 0 then
        Inl (fail ValidationError ''a work intent target event sequence must not be negative''
          [(''actual'', show_int (er_target_event_seq r))])
      else Inr ())"

datatype enqueue_decision =
  Created string | Coalesced string i64 | Deferred string string

fun decision_job_id :: "enqueue_decision \<Rightarrow> string" where
  "decision_job_id (Created job_id) = job_id"
| "decision_job_id (Coalesced job_id _) = job_id"
| "decision_job_id (Deferred _ job_id) = job_id"

fun created_a_row :: "enqueue_decision \<Rightarrow> bool" where
  "created_a_row (Created _) = True"
| "created_a_row (Deferred _ _) = True"
| "created_a_row (Coalesced _ _) = False"

section \<open>The pending index\<close>

record pending_index =
  pi_pending :: "(string, job_record) btree_map"
  pi_running :: "(string, string) btree_map"

definition pending_index_new :: pending_index where
  "pending_index_new = \<lparr>pi_pending = [], pi_running = []\<rparr>"

definition index_len :: "pending_index \<Rightarrow> usize" where
  "index_len idx = length (pi_pending idx)"

definition index_is_empty :: "pending_index \<Rightarrow> bool" where
  "index_is_empty idx \<longleftrightarrow> pi_pending idx = []"

definition index_pending :: "pending_index \<Rightarrow> string \<Rightarrow> job_record option" where
  "index_pending idx key = bt_get (pi_pending idx) key"

definition pending_rows :: "pending_index \<Rightarrow> job_record list" where
  "pending_rows idx = map snd (pi_pending idx)"

definition mark_started ::
  "pending_index \<Rightarrow> string \<Rightarrow> string \<Rightarrow> job_record option \<times> pending_index" where
  "mark_started idx key job_id =
     (case bt_get (pi_pending idx) key of
        None \<Rightarrow> (None, idx)
      | Some row \<Rightarrow>
          (Some row, idx\<lparr>pi_pending := bt_remove key (pi_pending idx),
                         pi_running := bt_insert key job_id (pi_running idx)\<rparr>))"

definition mark_finished :: "pending_index \<Rightarrow> string \<Rightarrow> pending_index" where
  "mark_finished idx key = idx\<lparr>pi_running := bt_remove key (pi_running idx)\<rparr>"

definition index_running :: "pending_index \<Rightarrow> string \<Rightarrow> string option" where
  "index_running idx key = bt_get (pi_running idx) key"

definition coalesce :: "job_record \<Rightarrow> enqueue_request \<Rightarrow> job_record" where
  "coalesce existing r = existing\<lparr>
     j_target_event_seq := max (j_target_event_seq existing) (er_target_event_seq r),
     j_priority := max (j_priority existing) (er_priority r),
     j_ready_at := min (j_ready_at existing) (er_ready_at r)\<rparr>"

definition enqueue ::
  "pending_index \<Rightarrow> enqueue_request \<Rightarrow> enqueue_decision result \<times> pending_index" where
  "enqueue idx r =
     (case er_validate r of
        Inl e \<Rightarrow> (Inl e, idx)
      | Inr _ \<Rightarrow>
          let key = er_dedup_key r
          in (case bt_get (pi_pending idx) key of
                Some existing \<Rightarrow>
                  let row = coalesce existing r
                  in (Inr (Coalesced (j_id row) (j_target_event_seq row)),
                      idx\<lparr>pi_pending := bt_insert key row (pi_pending idx)\<rparr>)
              | None \<Rightarrow>
                  let job = (job_record_new (er_job_id r) (er_solution_id r) (er_kind r)
                        (er_scope_key r) (er_priority r) (er_target_event_seq r) (er_ready_at r))
                        \<lparr>j_priority := er_priority r\<rparr>;
                      decision = (case bt_get (pi_running idx) key of
                          Some running_job_id \<Rightarrow> Deferred running_job_id (j_id job)
                        | None \<Rightarrow> Created (j_id job))
                  in (Inr decision, idx\<lparr>pi_pending := bt_insert key job (pi_pending idx)\<rparr>)))"

section \<open>Keys\<close>

lemma append_sep_eq:
  "c \<notin> set a \<Longrightarrow> c \<notin> set b \<Longrightarrow> a @ c # r = b @ c # s \<longleftrightarrow> a = b \<and> r = s"
proof (induction a arbitrary: b)
  case Nil
  then show ?case by (cases b) auto
next
  case (Cons x a)
  then show ?case by (cases b) auto
qed

lemma kind_str_no_separator: "DEDUP_SEPARATOR \<notin> set (job_kind_str k)"
  by (cases k) (simp_all add: DEDUP_SEPARATOR_def)

lemma job_kind_str_inject: "job_kind_str a = job_kind_str b \<longleftrightarrow> a = b"
  by (cases a; cases b) simp_all

lemma dedup_key_eq:
  assumes "DEDUP_SEPARATOR \<notin> set s" and "DEDUP_SEPARATOR \<notin> set s'"
  shows "dedup_key s k sc = dedup_key s' k' sc' \<longleftrightarrow> s = s' \<and> k = k' \<and> sc = sc'"
  unfolding dedup_key_def
  by (simp add: append_sep_eq [OF assms] append_sep_eq [OF kind_str_no_separator kind_str_no_separator]
      job_kind_str_inject)

section \<open>The index invariant\<close>

definition pending_row_wf :: "string \<Rightarrow> job_record \<Rightarrow> bool" where
  "pending_row_wf key row \<longleftrightarrow>
     dedup_key (j_solution_id row) (j_kind row) (j_scope_key row) = key \<and>
     j_solution_id row \<noteq> [] \<and> j_scope_key row \<noteq> [] \<and> 0 \<le> j_target_event_seq row \<and>
     j_state row = Pending \<and> j_fence row = 0 \<and> j_attempt row = 0 \<and>
     j_lease_owner row = None \<and> j_lease_until row = None"

definition index_wf :: "pending_index \<Rightarrow> bool" where
  "index_wf idx \<longleftrightarrow> bt_wf (pi_pending idx) \<and> bt_wf (pi_running idx) \<and>
     (\<forall>key row. bt_get (pi_pending idx) key = Some row \<longrightarrow> pending_row_wf key row)"

datatype index_event =
  IdxEnqueue enqueue_request | IdxStarted string string | IdxFinished string

fun index_apply :: "pending_index \<Rightarrow> index_event \<Rightarrow> pending_index" where
  "index_apply idx (IdxEnqueue r) = snd (enqueue idx r)"
| "index_apply idx (IdxStarted key job_id) = snd (mark_started idx key job_id)"
| "index_apply idx (IdxFinished key) = mark_finished idx key"

lemma index_wf_new: "index_wf pending_index_new"
  by (simp add: index_wf_def pending_index_new_def)

lemma er_validate_ok:
  "er_validate r = Inr u \<longleftrightarrow>
     er_solution_id r \<noteq> [] \<and> er_scope_key r \<noteq> [] \<and> 0 \<le> er_target_event_seq r"
  by (auto simp: er_validate_def)

text \<open>The row an accepted request leaves under its key.\<close>

definition enqueued_row :: "job_record option \<Rightarrow> enqueue_request \<Rightarrow> job_record" where
  "enqueued_row old r = (case old of
      Some existing \<Rightarrow> coalesce existing r
    | None \<Rightarrow> job_record_new (er_job_id r) (er_solution_id r) (er_kind r) (er_scope_key r)
        (er_priority r) (er_target_event_seq r) (er_ready_at r))"

lemma enqueue_effect:
  assumes "enqueue idx r = (Inr d, idx')"
  shows "er_solution_id r \<noteq> [] \<and> er_scope_key r \<noteq> [] \<and> 0 \<le> er_target_event_seq r"
    and "idx' = idx\<lparr>pi_pending := bt_insert (er_dedup_key r)
        (enqueued_row (index_pending idx (er_dedup_key r)) r) (pi_pending idx)\<rparr>"
    and "decision_job_id d = j_id (enqueued_row (index_pending idx (er_dedup_key r)) r)"
proof -
  have v: "er_validate r = Inr ()"
    using assms by (cases "er_validate r") (auto simp: enqueue_def)
  then show "er_solution_id r \<noteq> [] \<and> er_scope_key r \<noteq> [] \<and> 0 \<le> er_target_event_seq r"
    by (simp add: er_validate_ok)
  show "idx' = idx\<lparr>pi_pending := bt_insert (er_dedup_key r)
        (enqueued_row (index_pending idx (er_dedup_key r)) r) (pi_pending idx)\<rparr>"
    and "decision_job_id d = j_id (enqueued_row (index_pending idx (er_dedup_key r)) r)"
    using assms v
    by (auto simp: enqueue_def Let_def index_pending_def enqueued_row_def job_record_new_def
        split: option.splits)
qed

lemma enqueue_refused: "enqueue idx r = (Inl e, idx') \<Longrightarrow> idx' = idx"
  by (auto simp: enqueue_def Let_def split: sum.splits option.splits)

lemma enqueued_row_wf:
  assumes "er_solution_id r \<noteq> [] \<and> er_scope_key r \<noteq> [] \<and> 0 \<le> er_target_event_seq r"
    and "\<forall>row. old = Some row \<longrightarrow> pending_row_wf (er_dedup_key r) row"
  shows "pending_row_wf (er_dedup_key r) (enqueued_row old r)"
  using assms
  by (cases old)
    (auto simp: pending_row_wf_def enqueued_row_def coalesce_def job_record_new_def er_dedup_key_def)

lemma enqueue_wf: "index_wf idx \<Longrightarrow> index_wf (snd (enqueue idx r))"
proof (cases "enqueue idx r")
  case (Pair res idx')
  assume wf: "index_wf idx"
  show ?thesis
  proof (cases res)
    case (Inl e)
    with Pair wf enqueue_refused show ?thesis by fastforce
  next
    case (Inr d)
    note eff = enqueue_effect [OF Pair [unfolded Inr]]
    have "pending_row_wf (er_dedup_key r)
        (enqueued_row (index_pending idx (er_dedup_key r)) r)"
      using eff(1) wf by (intro enqueued_row_wf) (auto simp: index_wf_def index_pending_def)
    then show ?thesis
      using Pair eff(2) wf by (auto simp: index_wf_def split: if_splits)
  qed
qed

lemma mark_started_wf: "index_wf idx \<Longrightarrow> index_wf (snd (mark_started idx key job_id))"
  by (auto simp: mark_started_def index_wf_def split: option.splits if_splits)

lemma mark_finished_wf: "index_wf idx \<Longrightarrow> index_wf (mark_finished idx key)"
  by (simp add: mark_finished_def index_wf_def)

interpretation index: state_machine "\<lambda>s e t. t = index_apply s e" index_wf
proof
  fix s t :: pending_index and e
  assume "t = index_apply s e" and "index_wf s"
  then show "index_wf t"
    by (cases e) (simp_all add: enqueue_wf mark_started_wf mark_finished_wf)
qed

text \<open>Rows are found under their keys, and no two rows share one.\<close>

lemma bt_row_get: "bt_wf m \<Longrightarrow> (k, v) \<in> set m \<Longrightarrow> bt_get m k = Some v"
  by (simp add: bt_wf_def bt_get_def strict_sorted_iff)

lemma index_rows_distinct:
  assumes "index_wf idx" and "row \<in> set (pending_rows idx)"
  shows "index_pending idx (dedup_key (j_solution_id row) (j_kind row) (j_scope_key row)) = Some row"
proof -
  obtain k where "(k, row) \<in> set (pi_pending idx)" using assms(2) by (auto simp: pending_rows_def)
  with assms(1) have "bt_get (pi_pending idx) k = Some row"
    by (simp add: index_wf_def bt_row_get)
  moreover from this assms(1) have "pending_row_wf k row" by (simp add: index_wf_def)
  ultimately show ?thesis by (simp add: index_pending_def pending_row_wf_def)
qed

section \<open>Properties of enqueueing\<close>

text \<open>C12: An accepted intent is covered by the one pending row under its dedup key: that row belongs
  to the same solution, kind and scope unless a solution id holds the separator of the key (lemma
  \<open>dedup_key_collision\<close>), reaches at least the requested event, has at least the requested priority and is
  ready no later; every other row and the running scopes are untouched,
  and the index grows by one exactly when the key was free.\<close>

theorem enqueue_covers:
  assumes "enqueue idx r = (Inr d, idx')" and "index_wf idx"
  shows "(\<exists>row. index_pending idx' = (index_pending idx)(er_dedup_key r \<mapsto> row) \<and>
       decision_job_id d = j_id row \<and>
       dedup_key (j_solution_id row) (j_kind row) (j_scope_key row) = er_dedup_key r \<and>
       (DEDUP_SEPARATOR \<notin> set (er_solution_id r) \<and> DEDUP_SEPARATOR \<notin> set (j_solution_id row) \<longrightarrow>
          j_solution_id row = er_solution_id r \<and> j_kind row = er_kind r \<and> j_scope_key row = er_scope_key r) \<and>
       er_target_event_seq r \<le> j_target_event_seq row \<and> er_priority r \<le> j_priority row \<and>
       j_ready_at row \<le> er_ready_at r) \<and>
     pi_running idx' = pi_running idx \<and>
     index_len idx' = (if index_pending idx (er_dedup_key r) = None
       then index_len idx + 1 else index_len idx)"
proof (intro conjI)
  let ?row = "enqueued_row (index_pending idx (er_dedup_key r)) r"
  note eff = enqueue_effect [OF assms(1)]
  have "pending_row_wf (er_dedup_key r) ?row"
    using eff(1) assms(2) by (intro enqueued_row_wf) (auto simp: index_wf_def index_pending_def)
  moreover have "er_target_event_seq r \<le> j_target_event_seq ?row \<and> er_priority r \<le> j_priority ?row
      \<and> j_ready_at ?row \<le> er_ready_at r"
    by (simp add: enqueued_row_def coalesce_def job_record_new_def split: option.splits)
  moreover have "index_pending idx' = (index_pending idx)(er_dedup_key r \<mapsto> ?row)"
    using eff(2) by (auto simp: index_pending_def)
  ultimately show "\<exists>row. index_pending idx' = (index_pending idx)(er_dedup_key r \<mapsto> row) \<and>
       decision_job_id d = j_id row \<and>
       dedup_key (j_solution_id row) (j_kind row) (j_scope_key row) = er_dedup_key r \<and>
       (DEDUP_SEPARATOR \<notin> set (er_solution_id r) \<and> DEDUP_SEPARATOR \<notin> set (j_solution_id row) \<longrightarrow>
          j_solution_id row = er_solution_id r \<and> j_kind row = er_kind r \<and> j_scope_key row = er_scope_key r) \<and>
       er_target_event_seq r \<le> j_target_event_seq row \<and> er_priority r \<le> j_priority row \<and>
       j_ready_at row \<le> er_ready_at r"
    using eff(3)
    by (intro exI [of _ ?row]) (auto simp: pending_row_wf_def er_dedup_key_def dedup_key_eq)
  show "pi_running idx' = pi_running idx"
    using eff(2) by simp
  show "index_len idx' = (if index_pending idx (er_dedup_key r) = None
       then index_len idx + 1 else index_len idx)"
    using eff(2) assms(2) bt.length_ins [of "pi_pending idx"]
    by (simp add: index_len_def index_pending_def index_wf_def)
qed

theorem enqueue_covers_witness:
  "let r = enqueue_request_new ''j1'' ''s'' ParseBatch ''p'' 5 0;
       r2 = enqueue_request_new ''j2'' ''s'' ParseBatch ''p'' 9 0;
       idx = snd (enqueue pending_index_new r)
   in fst (enqueue idx r2) = Inr (Coalesced ''j1'' 9) \<and> index_len (snd (enqueue idx r2)) = 1"
proof -
  define r where "r = enqueue_request_new ''j1'' ''s'' ParseBatch ''p'' 5 0"
  define r2 where "r2 = enqueue_request_new ''j2'' ''s'' ParseBatch ''p'' 9 0"
  define idx where "idx = snd (enqueue pending_index_new r)"
  have wf: "index_wf idx" unfolding idx_def by (intro enqueue_wf index_wf_new)
  have d: "fst (enqueue idx r2) = Inr (Coalesced ''j1'' 9)"
    unfolding idx_def r_def r2_def by code_simp
  have len: "index_len idx = 1" and some: "index_pending idx (er_dedup_key r2) \<noteq> None"
    unfolding idx_def r_def r2_def by code_simp+
  from d have "enqueue idx r2 = (Inr (Coalesced ''j1'' 9), snd (enqueue idx r2))"
    by (metis prod.collapse)
  from enqueue_covers [OF this wf] some len d
  show ?thesis by (simp add: Let_def idx_def r_def r2_def)
qed

text \<open>Two intents share a dedup key only if they ask for the same work, as long as no solution id
  holds the separator byte.\<close>

theorem dedup_key_injective:
  assumes "DEDUP_SEPARATOR \<notin> set (er_solution_id a)" and "DEDUP_SEPARATOR \<notin> set (er_solution_id b)"
  shows "er_dedup_key a = er_dedup_key b \<longleftrightarrow>
    er_solution_id a = er_solution_id b \<and> er_kind a = er_kind b \<and> er_scope_key a = er_scope_key b"
  using assms by (simp add: er_dedup_key_def dedup_key_eq)

theorem dedup_key_injective_witness:
  "er_dedup_key (enqueue_request_new ''j'' ''sol'' ParseBatch ''a'' 0 0) \<noteq>
   er_dedup_key (enqueue_request_new ''j'' ''sol'' ParseBatch ''b'' 0 0)"
  using dedup_key_injective [of "enqueue_request_new ''j'' ''sol'' ParseBatch ''a'' 0 0"
      "enqueue_request_new ''j'' ''sol'' ParseBatch ''b'' 0 0"]
  by (simp add: enqueue_request_new_def DEDUP_SEPARATOR_def)

text \<open>
  Without that condition keys collide: the separator is not validated, so an intent of another
  solution can be folded into this one's row.
\<close>

lemma dedup_key_collision:
  "dedup_key ''a'' ParseBatch (''b'' @ DEDUP_SEPARATOR # ''ParseBatch'' @ DEDUP_SEPARATOR # ''c'') =
   dedup_key (''a'' @ DEDUP_SEPARATOR # ''ParseBatch'' @ DEDUP_SEPARATOR # ''b'') ParseBatch ''c''"
  by (simp add: dedup_key_def)

text \<open>Along every run of enqueues, starts and finishes from the empty index, each pending row is
  found under the key of its own work, so no two rows ask for the same work, and every pending row
  is an unclaimed \<open>PENDING\<close> row that was never leased.\<close>

theorem index_rows_unique:
  assumes "trace (\<lambda>s e t. t = index_apply s e) pending_index_new evs idx"
    and "row \<in> set (pending_rows idx)"
  shows "index_pending idx (dedup_key (j_solution_id row) (j_kind row) (j_scope_key row)) = Some row \<and>
    j_state row = Pending \<and> j_fence row = 0 \<and> j_lease_owner row = None"
proof -
  have wf: "index_wf idx" using assms(1) index_wf_new by (rule index.trace_inv)
  note found = index_rows_distinct [OF wf assms(2)]
  then have "pending_row_wf (dedup_key (j_solution_id row) (j_kind row) (j_scope_key row)) row"
    using wf by (simp add: index_wf_def index_pending_def)
  with found show ?thesis by (simp add: pending_row_wf_def)
qed

theorem index_rows_unique_witness:
  "index_pending (index_apply pending_index_new
      (IdxEnqueue (enqueue_request_new ''j'' ''s'' Repair ''p'' 1 0)))
     (dedup_key ''s'' Repair ''p'') =
   Some (job_record_new ''j'' ''s'' Repair ''p'' 0 1 0)"
proof -
  define idx where "idx = index_apply pending_index_new
    (IdxEnqueue (enqueue_request_new ''j'' ''s'' Repair ''p'' 1 0))"
  have "trace (\<lambda>s e t. t = index_apply s e) pending_index_new
      [IdxEnqueue (enqueue_request_new ''j'' ''s'' Repair ''p'' 1 0)] idx"
    by (simp add: trace_Cons_iff idx_def)
  moreover have "pending_rows idx = [job_record_new ''j'' ''s'' Repair ''p'' 0 1 0]"
    by (simp add: idx_def pending_rows_def enqueue_def er_validate_def enqueue_request_new_def
        pending_index_new_def Let_def job_record_new_def)
  ultimately have "index_pending idx (dedup_key ''s'' Repair ''p'') =
      Some (job_record_new ''j'' ''s'' Repair ''p'' 0 1 0)"
    using index_rows_unique [of _ idx "job_record_new ''j'' ''s'' Repair ''p'' 0 1 0"]
    by (simp add: job_record_new_def)
  then show ?thesis by (simp only: idx_def)
qed

end
