(* ===== verification/QueueSchedule.thy ===== *)
theory QueueSchedule
  imports QueueCore
begin

text \<open>
  Priority scheduling with bounded aging: \<^verbatim>\<open>graph-queue/src/schedule.rs\<close>.  The comparison
  function satisfies the laws of \<open>rust_ord\<close> at every instant, so the selected job is a least
  ready candidate and does not depend on the order of the input.  Subtraction on \<open>i64\<close> wraps,
  as in the release profile; the bounds name the inputs where it is exact.
\<close>

definition PRIORITY_VERIFICATION :: i32 where "PRIORITY_VERIFICATION = 300"
definition PRIORITY_INTERACTIVE :: i32 where "PRIORITY_INTERACTIVE = 200"
definition PRIORITY_INVENTORY :: i32 where "PRIORITY_INVENTORY = 100"
definition PRIORITY_MAINTENANCE :: i32 where "PRIORITY_MAINTENANCE = 0"
definition AGING_INTERVAL_MS :: i64 where "AGING_INTERVAL_MS = 1000"
definition MAX_AGING_BONUS :: i64 where "MAX_AGING_BONUS = 500"

lemmas priority_defs =
  PRIORITY_VERIFICATION_def PRIORITY_INTERACTIVE_def PRIORITY_INVENTORY_def PRIORITY_MAINTENANCE_def

fun base_priority :: "job_kind \<Rightarrow> i32" where
  "base_priority VerifyCheckpoint = PRIORITY_VERIFICATION"
| "base_priority CheckpointExport = PRIORITY_VERIFICATION"
| "base_priority ParseBatch = PRIORITY_INTERACTIVE"
| "base_priority ResolveAffected = PRIORITY_INTERACTIVE"
| "base_priority PublishProject = PRIORITY_INTERACTIVE"
| "base_priority InventoryScan = PRIORITY_INVENTORY"
| "base_priority Repair = PRIORITY_INVENTORY"
| "base_priority PublishCatalog = PRIORITY_INVENTORY"
| "base_priority SnapshotGc = PRIORITY_MAINTENANCE"

record candidate =
  c_job_id :: string
  c_kind :: job_kind
  c_priority :: i32
  c_ready_at :: i64
  c_created_at :: i64

definition candidate_of_kind :: "string \<Rightarrow> job_kind \<Rightarrow> i64 \<Rightarrow> i64 \<Rightarrow> candidate" where
  "candidate_of_kind job_id kind ready_at created_at =
     \<lparr>c_job_id = job_id, c_kind = kind, c_priority = base_priority kind,
      c_ready_at = ready_at, c_created_at = created_at\<rparr>"

definition is_ready_at :: "candidate \<Rightarrow> i64 \<Rightarrow> bool" where
  "is_ready_at c now \<longleftrightarrow> c_ready_at c \<le> now"

definition aging_bonus :: "i64 \<Rightarrow> i64 \<Rightarrow> i64" where
  "aging_bonus created_at now =
     (if now \<le> created_at then 0
      else min (i64_div (i64_wrapping_sub now created_at) AGING_INTERVAL_MS) MAX_AGING_BONUS)"

definition effective_priority :: "candidate \<Rightarrow> i64 \<Rightarrow> i64" where
  "effective_priority c now = c_priority c + aging_bonus (c_created_at c) now"

definition candidate_cmp :: "i64 \<Rightarrow> candidate \<Rightarrow> candidate \<Rightarrow> ordering" where
  "candidate_cmp now a b =
     then_with (then_with (then_with
       (cmp (effective_priority b now) (effective_priority a now))
       (cmp (c_ready_at a) (c_ready_at b)))
       (cmp (c_created_at a) (c_created_at b)))
       (cmp (c_job_id a) (c_job_id b))"

definition schedule_order :: "candidate list \<Rightarrow> i64 \<Rightarrow> candidate list" where
  "schedule_order candidates now =
     sort_by (candidate_cmp now) (filter (\<lambda>c. is_ready_at c now) candidates)"

definition select_next :: "candidate list \<Rightarrow> i64 \<Rightarrow> candidate option" where
  "select_next candidates now =
     (case schedule_order candidates now of [] \<Rightarrow> None | c # _ \<Rightarrow> Some c)"

section \<open>The comparison is an order\<close>

text \<open>The comparison orders by this key, lexicographically.\<close>

definition candidate_key :: "i64 \<Rightarrow> candidate \<Rightarrow> i64 \<times> i64 \<times> i64 \<times> string" where
  "candidate_key now c = (- effective_priority c now, c_ready_at c, c_created_at c, c_job_id c)"

lemma candidate_cmp_key: "candidate_cmp now a b = cmp (candidate_key now a) (candidate_key now b)"
  by (auto simp: candidate_cmp_def candidate_key_def cmp_def then_with_def less_prod_def')

interpretation schedule: rust_ord "candidate_cmp now" for now
  by unfold_locales
    (simp_all only: candidate_cmp_key natural.ord_refl natural.ord_swap [symmetric],
     rule natural.ord_trans)

lemma candidate_cmp_Equal: "candidate_cmp now a b = Equal \<Longrightarrow> c_job_id a = c_job_id b"
  by (auto simp: candidate_cmp_key candidate_key_def cmp_def split: if_splits)

lemma candidate_cmp_not_Greater:
  "candidate_cmp now a b \<noteq> Greater \<Longrightarrow> effective_priority b now \<le> effective_priority a now"
  by (auto simp: candidate_cmp_key candidate_key_def cmp_def less_prod_def' split: if_splits)

lemma aging_bonus_exact:
  assumes "0 \<le> created_at" and "0 \<le> now" and "now \<le> i64_max"
  shows "aging_bonus created_at now =
    (if now \<le> created_at then 0 else min ((now - created_at) div 1000) 500)"
proof -
  have "in_i64 (now - created_at)" if "created_at < now"
    using that assms by (simp add: in_i64_def i64_min_def i64_max_def)
  then show ?thesis
    by (simp add: aging_bonus_def AGING_INTERVAL_MS_def MAX_AGING_BONUS_def
        i64_wrapping_sub_exact i64_div_nonneg)
qed

lemma select_next_Some:
  assumes "select_next cs now = Some c"
  shows "c \<in> set cs" and "is_ready_at c now"
    and "d \<in> set cs \<Longrightarrow> is_ready_at d now \<Longrightarrow> candidate_cmp now c d \<noteq> Greater"
proof -
  obtain rest where ord: "sort_by (candidate_cmp now) (filter (\<lambda>c. is_ready_at c now) cs) = c # rest"
    using assms by (auto simp: select_next_def schedule_order_def split: list.splits)
  have "c \<in> set (sort_by (candidate_cmp now) (filter (\<lambda>c. is_ready_at c now) cs))"
    unfolding ord by simp
  then show "c \<in> set cs" and "is_ready_at c now" by auto
  show "candidate_cmp now c d \<noteq> Greater" if "d \<in> set cs" "is_ready_at d now"
    using schedule.sort_by_head_least [OF ord] that by simp
qed

section \<open>Properties of the scheduler\<close>

text \<open>C13: The scheduler never starts a job before its ready time, returns no job only when none is
  ready, and the job it returns has the highest effective priority among the ready ones, ties going
  to the earlier ready time, then the earlier creation, then the smaller id.\<close>

theorem select_next_optimal:
  "case select_next cs now of
     None \<Rightarrow> \<not> list_ex (\<lambda>c. is_ready_at c now) cs
   | Some c \<Rightarrow> c \<in> set cs \<and> c_ready_at c \<le> now \<and>
       list_all (\<lambda>d.
         (- effective_priority c now, c_ready_at c, c_created_at c, c_job_id c) \<le>
         (- effective_priority d now, c_ready_at d, c_created_at d, c_job_id d))
         (filter (\<lambda>d. is_ready_at d now) cs)"
proof (cases "select_next cs now")
  case None
  then have "filter (\<lambda>c. is_ready_at c now) cs = []"
    by (auto simp: select_next_def schedule_order_def split: list.splits)
  with None show ?thesis by (auto simp: list_ex_iff filter_empty_conv)
next
  case (Some c)
  have "candidate_key now c \<le> candidate_key now d" if "d \<in> set cs" "is_ready_at d now" for d
    using select_next_Some(3) [OF Some that]
    by (auto simp: candidate_cmp_key cmp_def split: if_splits)
  with Some select_next_Some(1,2) [OF Some] show ?thesis
    by (auto simp: list_all_iff is_ready_at_def candidate_key_def)
qed

text \<open>The choice depends on the set of candidates only: presenting the same candidates, with
  distinct job ids, in any other order selects the same job.\<close>

theorem select_next_order_independent:
  assumes "mset cs = mset ds" and "distinct (map c_job_id cs)"
  shows "select_next cs now = select_next ds now"
proof -
  let ?ready = "filter (\<lambda>c. is_ready_at c now)"
  have "sort_by (candidate_cmp now) (?ready cs) = sort_by (candidate_cmp now) (?ready ds)"
  proof (rule schedule.sort_by_permutation)
    show "mset (?ready cs) = mset (?ready ds)" using assms(1) by simp
    show "\<forall>x \<in> set (?ready cs). \<forall>y \<in> set (?ready cs). candidate_cmp now x y = Equal \<longrightarrow> x = y"
      using assms(2) candidate_cmp_Equal [of now] by (auto simp: distinct_map inj_on_def)
  qed
  then show ?thesis by (simp add: select_next_def schedule_order_def)
qed

theorem select_next_order_independent_witness:
  "let a = candidate_of_kind ''a'' SnapshotGc 0 0; b = candidate_of_kind ''b'' ParseBatch 0 0
   in select_next [a, b] 10 = select_next [b, a] 10"
  using select_next_order_independent
    [of "[candidate_of_kind ''a'' SnapshotGc 0 0, candidate_of_kind ''b'' ParseBatch 0 0]"
      "[candidate_of_kind ''b'' ParseBatch 0 0, candidate_of_kind ''a'' SnapshotGc 0 0]" 10]
  by (simp add: Let_def candidate_of_kind_def add_mset_commute)

text \<open>Aging is bounded but strong enough against starvation: a job of any kind that has waited
  500 seconds outranks every job of any kind that has waited less than 200 seconds.\<close>

theorem aged_job_outranks:
  assumes "0 \<le> c_created_at old" and "0 \<le> c_created_at new" and "now \<le> i64_max"
    and "c_created_at old + 500000 \<le> now" and "now < c_created_at new + 200000"
    and "c_priority old = base_priority (c_kind old)" and "c_priority new = base_priority (c_kind new)"
  shows "candidate_cmp now old new = Less"
proof -
  have base: "0 \<le> base_priority k \<and> base_priority k \<le> 300" for k
    by (cases k) (simp_all add: priority_defs)
  have "0 \<le> now" using assms(1,4) by linarith
  have "500 \<le> (now - c_created_at old) div 1000" using assms(4) by linarith
  then have "aging_bonus (c_created_at old) now = 500"
    using assms \<open>0 \<le> now\<close> by (simp add: aging_bonus_exact)
  moreover have "aging_bonus (c_created_at new) now < 200"
    using assms \<open>0 \<le> now\<close> by (auto simp: aging_bonus_exact)
  ultimately have "effective_priority new now < effective_priority old now"
    using base [of "c_kind old"] base [of "c_kind new"] assms(6,7)
    by (simp add: effective_priority_def)
  then show ?thesis
    by (simp add: candidate_cmp_key candidate_key_def cmp_def)
qed

theorem aged_job_outranks_witness:
  "candidate_cmp 500000 (candidate_of_kind ''gc'' SnapshotGc 0 0)
     (candidate_of_kind ''v'' VerifyCheckpoint 400000 400000) = Less"
  by (rule aged_job_outranks) (simp_all add: candidate_of_kind_def i64_max_def)

end
