(* ===== verification/QueueRetry.thy ===== *)
theory QueueRetry
  imports QueueCore "HOL-Library.Word"
begin

unbundle bit_operations_syntax

text \<open>
  Classified retry with bounded backoff: \<^verbatim>\<open>graph-queue/src/retry.rs\<close>.  Delays are \<open>u64\<close>
  milliseconds; the jitter mixer works on 64-bit words.  The lemmas give the closed form of the
  curve and its bounds.
\<close>

definition MAX_TRANSIENT_ATTEMPTS :: u32 where "MAX_TRANSIENT_ATTEMPTS = 5"
definition BASE_BACKOFF_MS :: u64 where "BASE_BACKOFF_MS = 250"
definition MAX_BACKOFF_MS :: u64 where "MAX_BACKOFF_MS = 10000"
definition MAX_JITTER_MS :: u64 where "MAX_JITTER_MS = 250"

lemmas backoff_defs = BASE_BACKOFF_MS_def MAX_BACKOFF_MS_def MAX_JITTER_MS_def

datatype failure_class = TransientIo | TransientLock | UnsupportedSyntax | Permanent

fun is_transient :: "failure_class \<Rightarrow> bool" where
  "is_transient TransientIo = True"
| "is_transient TransientLock = True"
| "is_transient _ = False"

fun needs_new_input :: "failure_class \<Rightarrow> bool" where
  "needs_new_input UnsupportedSyntax = True"
| "needs_new_input _ = False"

fun failure_reason :: "failure_class \<Rightarrow> string" where
  "failure_reason TransientIo = ''transient_io''"
| "failure_reason TransientLock = ''transient_lock''"
| "failure_reason UnsupportedSyntax = ''unsupported_syntax''"
| "failure_reason Permanent = ''permanent''"

fun classify_error_code :: "error_code \<Rightarrow> failure_class" where
  "classify_error_code NotReady = TransientLock"
| "classify_error_code RateLimited = TransientLock"
| "classify_error_code Conflict = TransientLock"
| "classify_error_code WorktreeBusy = TransientLock"
| "classify_error_code ShuttingDown = TransientLock"
| "classify_error_code _ = Permanent"

section \<open>The backoff curve\<close>

record backoff_policy =
  bp_base_ms :: u64
  bp_cap_ms :: u64
  bp_jitter_ms :: u64

definition backoff_new :: "u64 \<Rightarrow> u64 \<Rightarrow> u64 \<Rightarrow> backoff_policy" where
  "backoff_new base_ms cap_ms jitter_ms =
     \<lparr>bp_base_ms =
        (if base_ms < 1 then BASE_BACKOFF_MS
         else if base_ms > MAX_BACKOFF_MS then MAX_BACKOFF_MS else base_ms),
      bp_cap_ms = (if cap_ms < 1 \<or> cap_ms > MAX_BACKOFF_MS then MAX_BACKOFF_MS else cap_ms),
      bp_jitter_ms = (if jitter_ms > MAX_JITTER_MS then MAX_JITTER_MS else jitter_ms)\<rparr>"

definition documented_default :: backoff_policy where
  "documented_default = backoff_new BASE_BACKOFF_MS MAX_BACKOFF_MS MAX_JITTER_MS"

text \<open>The shift is by at most 32 on a 128-bit value, so it never drops a bit of a \<open>u64\<close>.\<close>

definition exponential_ms :: "backoff_policy \<Rightarrow> u32 \<Rightarrow> u64" where
  "exponential_ms p attempt =
     (if attempt < 1 then (if bp_base_ms p < bp_cap_ms p then bp_base_ms p else bp_cap_ms p)
      else
        let shift = (if attempt > 32 then 32 else attempt - 1);
            scaled = push_bit shift (bp_base_ms p)
        in if scaled > bp_cap_ms p then bp_cap_ms p else scaled)"

definition noise :: "64 word \<Rightarrow> 64 word" where
  "noise seed =
     (let x = seed * 6364136223846793005 + 1442695040888963407;
          x = x XOR drop_bit 33 x;
          x = x * 0xff51afd7ed558ccd;
          x = x XOR drop_bit 29 x
      in x)"

definition delay_ms :: "backoff_policy \<Rightarrow> u32 \<Rightarrow> 64 word \<Rightarrow> u64" where
  "delay_ms p attempt jitter_seed =
     (let exponential = exponential_ms p attempt;
          base = (if exponential < bp_cap_ms p then exponential else bp_cap_ms p)
      in if bp_jitter_ms p = 0 then base
         else u64_saturating_add base (unat (noise jitter_seed) mod (bp_jitter_ms p + 1)))"

datatype retry_decision = Retry u64 u32 | GiveUp string bool

fun is_retry :: "retry_decision \<Rightarrow> bool" where
  "is_retry (Retry _ _) = True"
| "is_retry (GiveUp _ _) = False"

fun decision_delay_ms :: "retry_decision \<Rightarrow> u64 option" where
  "decision_delay_ms (Retry delay _) = Some delay"
| "decision_delay_ms (GiveUp _ _) = None"

definition decide :: "failure_class \<Rightarrow> u32 \<Rightarrow> backoff_policy \<Rightarrow> 64 word \<Rightarrow> retry_decision" where
  "decide cl attempt policy jitter_seed =
     (if \<not> is_transient cl then GiveUp (failure_reason cl) (needs_new_input cl)
      else if attempt = 0 \<or> attempt \<ge> MAX_TRANSIENT_ATTEMPTS then GiveUp (failure_reason cl) False
      else Retry (delay_ms policy attempt jitter_seed) attempt)"

section \<open>Bounds\<close>

text \<open>What every policy built by the constructor satisfies.\<close>

definition backoff_wf :: "backoff_policy \<Rightarrow> bool" where
  "backoff_wf p \<longleftrightarrow> 1 \<le> bp_base_ms p \<and> bp_base_ms p \<le> MAX_BACKOFF_MS \<and>
     1 \<le> bp_cap_ms p \<and> bp_cap_ms p \<le> MAX_BACKOFF_MS \<and> bp_jitter_ms p \<le> MAX_JITTER_MS"

lemma backoff_new_wf: "backoff_wf (backoff_new b c j)"
  by (auto simp: backoff_wf_def backoff_new_def backoff_defs)

lemma exponential_closed_form:
  "1 \<le> a \<Longrightarrow> a \<le> 32 \<Longrightarrow> exponential_ms p a = min (bp_base_ms p * 2 ^ (a - 1)) (bp_cap_ms p)"
  by (auto simp: exponential_ms_def Let_def push_bit_eq_mult)

lemma exponential_le_cap: "exponential_ms p a \<le> bp_cap_ms p"
  by (auto simp: exponential_ms_def Let_def)

lemma exponential_mono: "a \<le> b \<Longrightarrow> exponential_ms p a \<le> exponential_ms p b"
proof -
  define sh where "sh x = (if x > 32 then 32 else x - 1)" for x :: nat
  have eq: "exponential_ms p x = min (bp_base_ms p * 2 ^ sh x) (bp_cap_ms p)" for x
    by (auto simp: exponential_ms_def Let_def sh_def push_bit_eq_mult)
  assume "a \<le> b"
  then have "sh a \<le> sh b" by (auto simp: sh_def)
  then have "bp_base_ms p * 2 ^ sh a \<le> bp_base_ms p * 2 ^ sh b"
    by (intro mult_le_mono2 power_increasing) auto
  then show ?thesis unfolding eq by linarith
qed

lemma jitter_le: "n mod Suc j \<le> j" for n j :: nat
  using mod_less_divisor [of "Suc j" n] by simp

lemma delay_eq:
  assumes "backoff_wf p"
  shows "delay_ms p a seed = exponential_ms p a + unat (noise seed) mod Suc (bp_jitter_ms p)"
proof -
  have cap: "exponential_ms p a \<le> bp_cap_ms p" by (rule exponential_le_cap)
  have "unat (noise seed) mod Suc (bp_jitter_ms p) \<le> bp_jitter_ms p" by (rule jitter_le)
  with cap have "exponential_ms p a + unat (noise seed) mod Suc (bp_jitter_ms p)
      \<le> bp_cap_ms p + bp_jitter_ms p" by (rule add_mono)
  also have "\<dots> \<le> u64_max"
    using assms by (simp add: backoff_wf_def backoff_defs u64_max_def)
  finally have "exponential_ms p a + unat (noise seed) mod Suc (bp_jitter_ms p) \<le> u64_max" .
  then show ?thesis
    using cap by (auto simp: delay_ms_def Let_def u64_saturating_add_exact)
qed

lemma delay_bounds:
  assumes "backoff_wf p"
  shows "exponential_ms p a \<le> delay_ms p a seed"
    and "delay_ms p a seed \<le> bp_cap_ms p + bp_jitter_ms p"
  unfolding delay_eq [OF assms]
  by (simp, rule add_mono [OF exponential_le_cap jitter_le])

section \<open>Properties of retries\<close>

text \<open>A failure is retried exactly when it is transient and this is one of the first four
  attempts; a retry keeps the attempt number and waits the delay of the curve.  An error code
  counts as transient exactly when the error model marks it retryable.\<close>

theorem retry_exactly_when:
  "(is_retry (decide cl attempt p seed) \<longleftrightarrow> is_transient cl \<and> 1 \<le> attempt \<and> attempt \<le> 4) \<and>
   (decide cl attempt p seed = Retry d n \<longleftrightarrow>
      is_transient cl \<and> 1 \<le> attempt \<and> attempt \<le> 4 \<and> n = attempt \<and>
      d = delay_ms p attempt seed) \<and>
   (is_transient (classify_error_code code) \<longleftrightarrow> default_retryable code)"
proof (intro conjI)
  show "is_transient (classify_error_code code) \<longleftrightarrow> default_retryable code"
    by (cases code) simp_all
qed (auto simp: decide_def MAX_TRANSIENT_ATTEMPTS_def)

text \<open>For every policy the constructor builds, the waiting time of an attempt is at least one
  millisecond, at least the exponential delay, never above the policy's cap plus its jitter, and the
  exponential part never decreases with the attempt number.\<close>

theorem backoff_bounds:
  assumes "p = backoff_new base_ms cap_ms jitter_ms" and "a \<le> b"
  shows "1 \<le> delay_ms p a seed \<and> exponential_ms p a \<le> delay_ms p a seed \<and>
    delay_ms p a seed \<le> bp_cap_ms p + bp_jitter_ms p \<and>
    delay_ms p a seed \<le> MAX_BACKOFF_MS + MAX_JITTER_MS \<and>
    exponential_ms p a \<le> exponential_ms p b"
proof -
  have wf: "backoff_wf p" using assms(1) backoff_new_wf by simp
  note b = delay_bounds [OF wf, of a seed]
  have "bp_base_ms p \<le> bp_base_ms p * 2 ^ n" for n by simp
  then have "1 \<le> exponential_ms p a"
    using wf by (auto simp: exponential_ms_def Let_def push_bit_eq_mult backoff_wf_def)
  with b wf exponential_mono [OF assms(2), of p] show ?thesis
    by (auto simp: backoff_wf_def)
qed

theorem backoff_bounds_witness:
  "delay_ms (backoff_new 250 10000 250) 3 0 \<le> 10250 \<and>
   exponential_ms (backoff_new 250 10000 250) 3 \<le> exponential_ms (backoff_new 250 10000 250) 4"
  using backoff_bounds [of "backoff_new 250 10000 250" 250 10000 250 3 4 0]
  by (simp add: backoff_defs)

text \<open>
  The cap bounds the exponential part alone: with jitter, a single delay of the documented policy
  exceeds its ceiling.
\<close>

lemma delay_above_cap: "MAX_BACKOFF_MS < delay_ms documented_default 10 1"
proof -
  have "unat (noise 1) mod 251 \<noteq> 0" by (simp add: noise_def Let_def)
  moreover have "exponential_ms documented_default 10 = 10000"
    by (simp add: exponential_ms_def documented_default_def backoff_new_def backoff_defs Let_def
        push_bit_eq_mult)
  moreover have "bp_jitter_ms documented_default = 250" and "backoff_wf documented_default"
    by (simp_all add: documented_default_def backoff_new_wf) (simp add: backoff_new_def backoff_defs)
  ultimately show ?thesis by (simp add: delay_eq backoff_defs)
qed

end
