(* ===== verification/QueueBudget.thy ===== *)
theory QueueBudget
  imports Machines Errors
begin

text \<open>
  Worker, batch and in-flight caps: \<^verbatim>\<open>graph-queue/src/budget.rs\<close>, with the two configuration
  constants it takes from \<^verbatim>\<open>graph-core/src/config.rs\<close>.  A batch is a record with its items and
  its byte total; offers and drains are the events of a \<open>state_machine\<close> whose invariant bounds
  both.
\<close>

definition MAX_PARSER_BATCH_FILES :: usize where "MAX_PARSER_BATCH_FILES = 64"
definition MAX_PARSER_BATCH_BYTES :: u64 where "MAX_PARSER_BATCH_BYTES = 16 * 1024 * 1024"
definition MIN_WORKERS :: usize where "MIN_WORKERS = 1"
definition MAX_WORKERS :: usize where "MAX_WORKERS = 4"
definition HARD_MAX_BATCH_FILES :: usize where "HARD_MAX_BATCH_FILES = MAX_PARSER_BATCH_FILES"
definition HARD_MAX_BATCH_BYTES :: u64 where "HARD_MAX_BATCH_BYTES = MAX_PARSER_BATCH_BYTES"
definition MAX_IN_FLIGHT_BATCHES :: usize where "MAX_IN_FLIGHT_BATCHES = 4"

lemmas budget_defs =
  MAX_PARSER_BATCH_FILES_def MAX_PARSER_BATCH_BYTES_def MIN_WORKERS_def MAX_WORKERS_def
  HARD_MAX_BATCH_FILES_def HARD_MAX_BATCH_BYTES_def MAX_IN_FLIGHT_BATCHES_def

definition worker_count :: "usize \<Rightarrow> usize" where
  "worker_count logical_cpus =
     (let available = logical_cpus - 1
      in if available < MIN_WORKERS then MIN_WORKERS
         else if available > MAX_WORKERS then MAX_WORKERS else available)"

definition configured_worker_count :: "usize \<Rightarrow> usize" where
  "configured_worker_count requested =
     (if requested < MIN_WORKERS then MIN_WORKERS
      else if requested > MAX_WORKERS then MAX_WORKERS else requested)"

record batch_limits =
  bl_max_files :: usize
  bl_max_bytes :: u64

definition batch_limits_new :: "usize \<Rightarrow> u64 \<Rightarrow> batch_limits" where
  "batch_limits_new max_files max_bytes =
     \<lparr>bl_max_files =
        (if max_files < 1 then 1
         else if max_files > HARD_MAX_BATCH_FILES then HARD_MAX_BATCH_FILES else max_files),
      bl_max_bytes =
        (if max_bytes < 1 then 1
         else if max_bytes > HARD_MAX_BATCH_BYTES then HARD_MAX_BATCH_BYTES else max_bytes)\<rparr>"

definition batch_limits_default :: batch_limits where
  "batch_limits_default = batch_limits_new HARD_MAX_BATCH_FILES HARD_MAX_BATCH_BYTES"

record batch_item =
  bi_portable_path :: string
  bi_bytes :: u64

datatype input_class = InputAccepted | InputOversized u64

definition classify_input :: "u64 \<Rightarrow> batch_limits \<Rightarrow> input_class" where
  "classify_input bytes limits =
     (if bytes > bl_max_bytes limits then InputOversized (bl_max_bytes limits) else InputAccepted)"

datatype batch_cap = CapFiles | CapBytes

datatype admission =
  Admitted | RejectedOversized string u64 u64 | RejectedFull batch_cap

record parser_batch =
  pb_limits :: batch_limits
  pb_items :: "batch_item list"
  pb_total_bytes :: u64

definition parser_batch_new :: "batch_limits \<Rightarrow> parser_batch" where
  "parser_batch_new limits = \<lparr>pb_limits = limits, pb_items = [], pb_total_bytes = 0\<rparr>"

definition remaining_files :: "parser_batch \<Rightarrow> usize" where
  "remaining_files b = bl_max_files (pb_limits b) - length (pb_items b)"

definition remaining_bytes :: "parser_batch \<Rightarrow> u64" where
  "remaining_bytes b = bl_max_bytes (pb_limits b) - pb_total_bytes b"

definition cap_reached :: "parser_batch \<Rightarrow> batch_cap option" where
  "cap_reached b =
     (if length (pb_items b) \<ge> bl_max_files (pb_limits b) then Some CapFiles
      else if pb_total_bytes b \<ge> bl_max_bytes (pb_limits b) then Some CapBytes
      else None)"

definition admit :: "parser_batch \<Rightarrow> batch_item \<Rightarrow> admission \<times> parser_batch" where
  "admit b item =
     (case classify_input (bi_bytes item) (pb_limits b) of
        InputOversized limit \<Rightarrow>
          (RejectedOversized (bi_portable_path item) (bi_bytes item) limit, b)
      | InputAccepted \<Rightarrow>
          (case cap_reached b of
             Some cap \<Rightarrow> (RejectedFull cap, b)
           | None \<Rightarrow>
               (Admitted, b\<lparr>pb_total_bytes := u64_saturating_add (pb_total_bytes b) (bi_bytes item),
                            pb_items := pb_items b @ [item]\<rparr>)))"

definition drain :: "parser_batch \<Rightarrow> batch_item list \<times> parser_batch" where
  "drain b = (pb_items b, b\<lparr>pb_total_bytes := 0, pb_items := []\<rparr>)"

record in_flight_batches =
  if_limit :: usize
  if_active :: usize

definition in_flight_new :: "usize \<Rightarrow> in_flight_batches" where
  "in_flight_new workers =
     (let bounded = configured_worker_count workers
      in \<lparr>if_limit = (if bounded > MAX_IN_FLIGHT_BATCHES then MAX_IN_FLIGHT_BATCHES else bounded),
          if_active = 0\<rparr>)"

definition acquire :: "in_flight_batches \<Rightarrow> bool \<times> in_flight_batches" where
  "acquire t =
     (if if_active t \<ge> if_limit t then (False, t)
      else (True, t\<lparr>if_active := if_active t + 1\<rparr>))"

definition release :: "in_flight_batches \<Rightarrow> in_flight_batches" where
  "release t = t\<lparr>if_active := if_active t - 1\<rparr>"

section \<open>Invariants\<close>

definition limits_wf :: "batch_limits \<Rightarrow> bool" where
  "limits_wf l \<longleftrightarrow> 1 \<le> bl_max_files l \<and> bl_max_files l \<le> HARD_MAX_BATCH_FILES \<and>
     1 \<le> bl_max_bytes l \<and> bl_max_bytes l \<le> HARD_MAX_BATCH_BYTES"

text \<open>
  The byte cap is checked before an item is added, not after, so a batch may overshoot it by
  less than one more item of admissible size.
\<close>

definition batch_wf :: "parser_batch \<Rightarrow> bool" where
  "batch_wf b \<longleftrightarrow> limits_wf (pb_limits b) \<and>
     length (pb_items b) \<le> bl_max_files (pb_limits b) \<and>
     pb_total_bytes b = sum_list (map bi_bytes (pb_items b)) \<and>
     (\<forall>item \<in> set (pb_items b). bi_bytes item \<le> bl_max_bytes (pb_limits b)) \<and>
     pb_total_bytes b < 2 * bl_max_bytes (pb_limits b)"

datatype batch_event = BatchAdmit batch_item | BatchDrain

fun batch_apply :: "parser_batch \<Rightarrow> batch_event \<Rightarrow> parser_batch" where
  "batch_apply b (BatchAdmit item) = snd (admit b item)"
| "batch_apply b BatchDrain = snd (drain b)"

lemma limits_wf_new: "limits_wf (batch_limits_new f n)"
  by (auto simp: limits_wf_def batch_limits_new_def budget_defs)

lemma batch_wf_new: "batch_wf (parser_batch_new (batch_limits_new f n))"
  using limits_wf_new [of f n] by (auto simp: batch_wf_def parser_batch_new_def limits_wf_def)

lemma admit_cases [consumes 1, case_names admitted oversized full]:
  assumes "admit b item = (a, b')"
  obtains "a = Admitted" and "bi_bytes item \<le> bl_max_bytes (pb_limits b)"
      and "length (pb_items b) < bl_max_files (pb_limits b)"
      and "pb_total_bytes b < bl_max_bytes (pb_limits b)"
      and "b' = b\<lparr>pb_total_bytes := u64_saturating_add (pb_total_bytes b) (bi_bytes item),
                  pb_items := pb_items b @ [item]\<rparr>"
    | "a = RejectedOversized (bi_portable_path item) (bi_bytes item) (bl_max_bytes (pb_limits b))"
      and "bl_max_bytes (pb_limits b) < bi_bytes item" and "b' = b"
    | cap where "a = RejectedFull cap" and "cap_reached b = Some cap" and "b' = b"
proof (cases "bl_max_bytes (pb_limits b) < bi_bytes item")
  case True
  then show thesis using assms by (intro that(2)) (auto simp: admit_def classify_input_def)
next
  case fits: False
  show thesis
  proof (cases "cap_reached b")
    case None
    then show thesis
      using assms fits
      by (intro that(1)) (auto simp: admit_def classify_input_def cap_reached_def split: if_splits)
  next
    case (Some cap)
    then show thesis
      using assms fits by (intro that(3)) (auto simp: admit_def classify_input_def)
  qed
qed

lemma admit_wf: "admit b item = (a, b') \<Longrightarrow> batch_wf b \<Longrightarrow> batch_wf b'"
proof (erule admit_cases)
  assume wf: "batch_wf b"
    and fits: "bi_bytes item \<le> bl_max_bytes (pb_limits b)"
      "length (pb_items b) < bl_max_files (pb_limits b)"
      "pb_total_bytes b < bl_max_bytes (pb_limits b)"
    and b': "b' = b\<lparr>pb_total_bytes := u64_saturating_add (pb_total_bytes b) (bi_bytes item),
                  pb_items := pb_items b @ [item]\<rparr>"
  have "bl_max_bytes (pb_limits b) \<le> 16777216"
    using wf by (simp add: batch_wf_def limits_wf_def budget_defs)
  then have "u64_saturating_add (pb_total_bytes b) (bi_bytes item) = pb_total_bytes b + bi_bytes item"
    using fits by (intro u64_saturating_add_exact) (simp add: u64_max_def)
  then show "batch_wf b'"
    using wf fits b' by (auto simp: batch_wf_def)
qed auto

lemma drain_wf: "batch_wf b \<Longrightarrow> batch_wf (snd (drain b))"
  by (auto simp: batch_wf_def drain_def limits_wf_def)

interpretation batch: state_machine "\<lambda>s e t. t = batch_apply s e" batch_wf
proof
  fix s t :: parser_batch and e
  assume "t = batch_apply s e" and "batch_wf s"
  then show "batch_wf t"
    by (cases e) (auto simp: drain_wf intro: admit_wf prod.collapse [symmetric])
qed

datatype slot_event = SlotAcquire | SlotRelease

fun slot_apply :: "in_flight_batches \<Rightarrow> slot_event \<Rightarrow> in_flight_batches" where
  "slot_apply t SlotAcquire = snd (acquire t)"
| "slot_apply t SlotRelease = release t"

definition slots_wf :: "in_flight_batches \<Rightarrow> bool" where
  "slots_wf t \<longleftrightarrow> 1 \<le> if_limit t \<and> if_limit t \<le> MAX_IN_FLIGHT_BATCHES \<and> if_active t \<le> if_limit t"

lemma slots_wf_new: "slots_wf (in_flight_new w)"
  by (auto simp: slots_wf_def in_flight_new_def configured_worker_count_def Let_def budget_defs)

interpretation slots: state_machine "\<lambda>s e t. t = slot_apply s e" slots_wf
proof
  fix s t :: in_flight_batches and e
  assume "t = slot_apply s e" and "slots_wf s"
  then show "slots_wf t"
    by (cases e) (auto simp: slots_wf_def acquire_def release_def)
qed

section \<open>Properties of the budget\<close>

text \<open>Whatever is offered and drained, a batch stays within its caps: at most the file cap (64 at
  most), never an item above the byte cap, a byte total that is exactly the sum of its items, and
  that sum below twice the byte cap (16 MiB at most).\<close>

theorem batch_stays_bounded:
  assumes "trace (\<lambda>s e t. t = batch_apply s e) (parser_batch_new (batch_limits_new f n)) evs b"
  shows "batch_wf b \<and> length (pb_items b) \<le> 64 \<and>
    pb_total_bytes b = sum_list (map bi_bytes (pb_items b)) \<and>
    pb_total_bytes b < 2 * bl_max_bytes (pb_limits b) \<and> bl_max_bytes (pb_limits b) \<le> 16777216"
proof -
  have "batch_wf b" using assms batch_wf_new by (rule batch.trace_inv)
  then show ?thesis by (auto simp: batch_wf_def limits_wf_def budget_defs)
qed

theorem batch_stays_bounded_witness:
  "pb_total_bytes (batch_apply (parser_batch_new (batch_limits_new 2 10))
      (BatchAdmit \<lparr>bi_portable_path = ''a'', bi_bytes = 9\<rparr>)) < 20"
  using batch_stays_bounded [of 2 10 "[BatchAdmit \<lparr>bi_portable_path = ''a'', bi_bytes = 9\<rparr>]"
      "batch_apply (parser_batch_new (batch_limits_new 2 10))
        (BatchAdmit \<lparr>bi_portable_path = ''a'', bi_bytes = 9\<rparr>)"]
  by (simp add: trace_Cons_iff admit_def classify_input_def cap_reached_def parser_batch_new_def
      batch_limits_new_def budget_defs u64_saturating_add_def u64_max_def)

text \<open>Offering an item either stores it at the end of the batch, or leaves the batch as it was and
  says why: too large for any batch, or a cap already reached.  An item is stored exactly when it
  fits the byte cap by itself and neither cap was reached before.\<close>

theorem admit_effect:
  "admit b item = (Admitted, b') \<longleftrightarrow>
     bi_bytes item \<le> bl_max_bytes (pb_limits b) \<and>
     length (pb_items b) < bl_max_files (pb_limits b) \<and>
     pb_total_bytes b < bl_max_bytes (pb_limits b) \<and>
     b' = b\<lparr>pb_total_bytes := u64_saturating_add (pb_total_bytes b) (bi_bytes item),
            pb_items := pb_items b @ [item]\<rparr>"
proof (cases "admit b item")
  case (Pair a b'')
  from Pair show ?thesis
    by (cases rule: admit_cases)
      (use Pair in \<open>auto simp: cap_reached_def split: if_splits\<close>)
qed

text \<open>
  The byte cap is tested before the item is added, so a batch can end above it.
\<close>

lemma byte_cap_overshoot:
  "let b = parser_batch_new (batch_limits_new 2 10);
       b = snd (admit b \<lparr>bi_portable_path = ''a'', bi_bytes = 9\<rparr>)
   in fst (admit b \<lparr>bi_portable_path = ''b'', bi_bytes = 9\<rparr>) = Admitted \<and>
      pb_total_bytes (snd (admit b \<lparr>bi_portable_path = ''b'', bi_bytes = 9\<rparr>)) = 18"
  by (simp add: admit_def classify_input_def cap_reached_def parser_batch_new_def
      batch_limits_new_def budget_defs u64_saturating_add_def u64_max_def)

text \<open>Along every run of acquisitions and releases at most four batches are in flight, and never
  more than the tracker's own limit.\<close>

theorem in_flight_bounded:
  assumes "trace (\<lambda>s e t. t = slot_apply s e) (in_flight_new workers) evs t"
  shows "if_active t \<le> if_limit t \<and> if_limit t \<le> 4 \<and> 1 \<le> if_limit t"
proof -
  have "slots_wf t" using assms slots_wf_new by (rule slots.trace_inv)
  then show ?thesis by (simp add: slots_wf_def budget_defs)
qed

theorem in_flight_bounded_witness:
  "if_active (foldl slot_apply (in_flight_new 9) [SlotAcquire, SlotAcquire]) \<le> 4"
  using in_flight_bounded [of 9 "[SlotAcquire, SlotAcquire]"
      "foldl slot_apply (in_flight_new 9) [SlotAcquire, SlotAcquire]"]
  by (simp add: trace_Cons_iff)

end
