(* ===== verification/QueuePressure.thy ===== *)
theory QueuePressure
  imports Machines
begin

text \<open>
  High-water handling of dirty paths: \<^verbatim>\<open>graph-queue/src/pressure.rs\<close>.  The lemmas say that a
  noted path is held in memory, was handed out by \<open>take\<close>, or is covered by a full-scan
  requirement that only an acknowledgement clears.
\<close>

definition HIGH_WATER_DISTINCT_DIRTY_PATHS :: usize where
  "HIGH_WATER_DISTINCT_DIRTY_PATHS = 10000"

datatype pressure_decision =
  Normal usize | HighWater bool | Coalesced

fun pressure_coalesced :: "pressure_decision \<Rightarrow> bool" where
  "pressure_coalesced (HighWater _) = True"
| "pressure_coalesced Coalesced = True"
| "pressure_coalesced (Normal _) = False"

record pressure_batch =
  pt_full_scan_required :: bool
  pt_paths :: "string list"
  pt_overflow_events :: u64
  pt_observed_hints :: u64

record dirty_pressure =
  dp_high_water :: usize
  dp_distinct :: "string btree_set"
  dp_full_scan_required :: bool
  dp_overflow_events :: u64
  dp_observed_hints :: u64

definition pressure_new :: "usize \<Rightarrow> dirty_pressure" where
  "pressure_new high_water =
     \<lparr>dp_high_water = (if high_water < 1 then 1 else high_water), dp_distinct = [],
      dp_full_scan_required = False, dp_overflow_events = 0, dp_observed_hints = 0\<rparr>"

definition pressure_default :: dirty_pressure where
  "pressure_default = pressure_new HIGH_WATER_DISTINCT_DIRTY_PATHS"

definition memory_is_bounded :: "dirty_pressure \<Rightarrow> bool" where
  "memory_is_bounded p \<longleftrightarrow> length (dp_distinct p) \<le> dp_high_water p"

definition is_accounted_for :: "dirty_pressure \<Rightarrow> bool" where
  "is_accounted_for p \<longleftrightarrow>
     dp_full_scan_required p \<or> length (dp_distinct p) = dp_observed_hints p \<or>
     dp_overflow_events p = 0 \<and> length (dp_distinct p) \<le> dp_observed_hints p"

definition pressure_note :: "dirty_pressure \<Rightarrow> string \<Rightarrow> pressure_decision \<times> dirty_pressure" where
  "pressure_note p portable_path =
     (let p = p\<lparr>dp_observed_hints := u64_saturating_add (dp_observed_hints p) 1\<rparr>
      in if dp_full_scan_required p then (Coalesced, p)
         else
           let p = p\<lparr>dp_distinct := bs_insert portable_path (dp_distinct p)\<rparr>
           in if length (dp_distinct p) \<ge> dp_high_water p
              then (HighWater True,
                    p\<lparr>dp_full_scan_required := True,
                      dp_overflow_events := u64_saturating_add (dp_overflow_events p) 1,
                      dp_distinct := []\<rparr>)
              else (Normal (length (dp_distinct p)), p))"

definition pressure_take :: "dirty_pressure \<Rightarrow> pressure_batch \<times> dirty_pressure" where
  "pressure_take p =
     (\<lparr>pt_full_scan_required = dp_full_scan_required p, pt_paths = dp_distinct p,
       pt_overflow_events = dp_overflow_events p, pt_observed_hints = dp_observed_hints p\<rparr>,
      p\<lparr>dp_distinct := []\<rparr>)"

definition acknowledge_full_scan :: "dirty_pressure \<Rightarrow> dirty_pressure" where
  "acknowledge_full_scan p =
     p\<lparr>dp_full_scan_required := False, dp_overflow_events := 0, dp_observed_hints := 0,
       dp_distinct := []\<rparr>"

section \<open>The tracker as a machine\<close>

datatype pressure_event = PressureNote string | PressureTake | PressureAck

fun pressure_apply :: "dirty_pressure \<Rightarrow> pressure_event \<Rightarrow> dirty_pressure" where
  "pressure_apply p (PressureNote path) = snd (pressure_note p path)"
| "pressure_apply p PressureTake = snd (pressure_take p)"
| "pressure_apply p PressureAck = acknowledge_full_scan p"

definition pressure_wf :: "dirty_pressure \<Rightarrow> bool" where
  "pressure_wf p \<longleftrightarrow> 1 \<le> dp_high_water p \<and> sorted_wrt (<) (dp_distinct p) \<and>
     length (dp_distinct p) < dp_high_water p \<and>
     (dp_full_scan_required p \<longrightarrow> dp_distinct p = []) \<and>
     (dp_full_scan_required p \<longleftrightarrow> 0 < dp_overflow_events p) \<and>
     (dp_high_water p \<le> u64_max \<longrightarrow> length (dp_distinct p) \<le> dp_observed_hints p)"

abbreviation pressure_step :: "dirty_pressure \<Rightarrow> pressure_event \<Rightarrow> dirty_pressure \<Rightarrow> bool" where
  "pressure_step p e q \<equiv> q = pressure_apply p e"

lemma pressure_wf_new: "pressure_wf (pressure_new n)"
  by (simp add: pressure_wf_def pressure_new_def)

lemma saturating_succ: "u64_saturating_add n (Suc 0) = (if n < u64_max then Suc n else u64_max)"
  by (auto simp: u64_saturating_add_def min_def)

lemma pressure_note_wf: "pressure_wf p \<Longrightarrow> pressure_wf (snd (pressure_note p path))"
  by (auto simp: pressure_wf_def pressure_note_def Let_def saturating_succ length_bs_insert u64_max_def)

lemma pressure_apply_wf: "pressure_wf p \<Longrightarrow> pressure_wf (pressure_apply p e)"
proof (cases e)
  case (PressureNote path)
  then show "pressure_wf p \<Longrightarrow> ?thesis" by (simp add: pressure_note_wf)
qed (auto simp: pressure_take_def acknowledge_full_scan_def pressure_wf_def)

interpretation pressure: state_machine pressure_step pressure_wf
  by unfold_locales (simp add: pressure_apply_wf)

interpretation full_scan: sticky_requirement pressure_step
  "\<lambda>p. if dp_full_scan_required p then Some () else None" "\<lambda>e. e = PressureAck"
proof
  fix p q :: dirty_pressure and e r
  assume "pressure_step p e q" and "e \<noteq> PressureAck"
    and "(if dp_full_scan_required p then Some () else None) = Some r"
  then show "(if dp_full_scan_required q then Some () else None) = Some r"
    by (cases e) (auto simp: pressure_note_def pressure_take_def Let_def split: if_splits)
qed

section \<open>What became of each path\<close>

primrec noted :: "pressure_event list \<Rightarrow> string set" where
  "noted [] = {}"
| "noted (e # es) = (case e of PressureNote path \<Rightarrow> insert path (noted es) | _ \<Rightarrow> noted es)"

text \<open>The paths handed out by the takes of a run.\<close>

primrec taken :: "dirty_pressure \<Rightarrow> pressure_event list \<Rightarrow> string set" where
  "taken p [] = {}"
| "taken p (e # es) =
     (case e of PressureTake \<Rightarrow> set (pt_paths (fst (pressure_take p))) | _ \<Rightarrow> {}) \<union>
     taken (pressure_apply p e) es"

lemma pressure_note_keeps:
  "\<not> dp_full_scan_required (snd (pressure_note p path)) \<Longrightarrow>
     set (dp_distinct (snd (pressure_note p path))) = insert path (set (dp_distinct p))"
  by (auto simp: pressure_note_def Let_def split: if_splits)

lemma run_accounts:
  assumes "trace pressure_step p es q" and "PressureAck \<notin> set es" and "\<not> dp_full_scan_required q"
  shows "noted es \<union> set (dp_distinct p) \<subseteq> taken p es \<union> set (dp_distinct q)"
  using assms
proof (induction rule: trace.induct)
  case (trace_cons p e p' es q)
  then have tail: "noted es \<union> set (dp_distinct p') \<subseteq> taken p' es \<union> set (dp_distinct q)" by simp
  have "\<not> dp_full_scan_required p'"
  proof
    assume "dp_full_scan_required p'"
    moreover have "list_all (\<lambda>e. e \<noteq> PressureAck) es"
      using trace_cons.prems by (auto simp: list_all_iff)
    ultimately show False
      using full_scan.sticky_trace [OF trace_cons.hyps(2), of "()"] trace_cons.prems by simp
  qed
  then show ?case
    using tail trace_cons.hyps(1) trace_cons.prems pressure_note_keeps
    by (cases e) (auto simp: pressure_take_def)
qed simp

section \<open>Properties of the pressure tracker\<close>

text \<open>C11: No dirty path is lost.  Between acknowledgements, at every moment a full scan is required or
  every path noted since the start has been handed out by a take or is still held.\<close>

theorem no_noted_path_lost:
  assumes "trace pressure_step (pressure_new high_water) es p" and "PressureAck \<notin> set es"
  shows "dp_full_scan_required p \<or>
    noted es \<subseteq> taken (pressure_new high_water) es \<union> set (dp_distinct p)"
  using run_accounts [OF assms] by blast

theorem no_noted_path_lost_witness:
  "noted [PressureNote ''a'', PressureTake, PressureNote ''b''] \<subseteq>
     taken (pressure_new 5) [PressureNote ''a'', PressureTake, PressureNote ''b''] \<union>
     set (dp_distinct (foldl pressure_apply (pressure_new 5)
       [PressureNote ''a'', PressureTake, PressureNote ''b'']))"
proof -
  define p where "p = foldl pressure_apply (pressure_new 5)
    [PressureNote ''a'', PressureTake, PressureNote ''b'']"
  have "trace pressure_step (pressure_new 5) [PressureNote ''a'', PressureTake, PressureNote ''b''] p"
    by (simp add: trace_Cons_iff p_def)
  from no_noted_path_lost [OF this]
  have "dp_full_scan_required p \<or>
    noted [PressureNote ''a'', PressureTake, PressureNote ''b''] \<subseteq>
     taken (pressure_new 5) [PressureNote ''a'', PressureTake, PressureNote ''b''] \<union> set (dp_distinct p)"
    by simp
  moreover have "\<not> dp_full_scan_required p"
    by (simp add: p_def pressure_note_def pressure_take_def pressure_new_def Let_def bs_insert_def)
  ultimately show ?thesis by (simp only: p_def) simp
qed

text \<open>Memory stays bounded and coalescing is honest: along every run fewer paths than the high-water
  mark are held, none while a full scan is required, and the tracker's own accounting predicate
  holds.\<close>

theorem pressure_bounded:
  assumes "trace pressure_step (pressure_new high_water) es p" and "high_water \<le> u64_max"
  shows "length (dp_distinct p) < dp_high_water p \<and> memory_is_bounded p \<and>
    (dp_full_scan_required p \<longrightarrow> dp_distinct p = []) \<and> is_accounted_for p"
proof -
  have wf: "pressure_wf p" using assms(1) pressure_wf_new by (rule pressure.trace_inv)
  have high: "dp_high_water p = dp_high_water (pressure_new high_water)"
    using assms(1)
  proof (induction rule: trace.induct)
    case (trace_cons p e q es r)
    then show ?case
      by (cases e) (auto simp: pressure_note_def pressure_take_def acknowledge_full_scan_def Let_def)
  qed simp
  have "dp_high_water p \<le> u64_max"
    using assms(2) by (simp add: high pressure_new_def u64_max_def)
  with wf show ?thesis
    by (auto simp: pressure_wf_def memory_is_bounded_def is_accounted_for_def)
qed

theorem pressure_bounded_witness:
  "dp_distinct (foldl pressure_apply (pressure_new 2) [PressureNote ''a'', PressureNote ''b'']) = []"
proof -
  define p where "p = foldl pressure_apply (pressure_new 2) [PressureNote ''a'', PressureNote ''b'']"
  have "trace pressure_step (pressure_new 2) [PressureNote ''a'', PressureNote ''b''] p"
    by (simp add: trace_Cons_iff p_def)
  then have "dp_full_scan_required p \<longrightarrow> dp_distinct p = []"
    using pressure_bounded [of 2 "[PressureNote ''a'', PressureNote ''b'']" p]
    by (simp add: u64_max_def)
  moreover have "dp_full_scan_required p"
    by (simp add: p_def pressure_note_def pressure_new_def Let_def bs_insert_def)
  ultimately show ?thesis by (simp add: p_def)
qed

end
