(* ===== verification/QueueBarrier.thy ===== *)
theory QueueBarrier
  imports QueueCore "HOL-Library.Word"
begin

unbundle bit_operations_syntax

text \<open>
  The bounded freshness barrier: \<^verbatim>\<open>graph-queue/src/barrier.rs\<close>.  A decision reads an
  observation and returns \<open>Verified\<close> or \<open>TimedOut\<close>; the snapshot id is an FNV-1a digest over
  64-bit words.
\<close>

definition DEFAULT_WAIT_TIMEOUT_MS :: i64 where "DEFAULT_WAIT_TIMEOUT_MS = 30000"
definition MAX_WAIT_TIMEOUT_MS :: i64 where "MAX_WAIT_TIMEOUT_MS = 600000"
definition DEFAULT_VERIFICATION_WINDOW_MS :: i64 where "DEFAULT_VERIFICATION_WINDOW_MS = 250"
definition REASON_WORKTREE_BUSY :: string where
  "REASON_WORKTREE_BUSY = ''WORKTREE_BUSY''"
definition REASON_PUBLICATION_UNAVAILABLE :: string where
  "REASON_PUBLICATION_UNAVAILABLE = ''publication_unavailable''"
definition REASON_CATALOG_NOT_VERIFIED :: string where
  "REASON_CATALOG_NOT_VERIFIED = ''catalog_not_verified''"
definition REASON_FINGERPRINT_CHANGED :: string where
  "REASON_FINGERPRINT_CHANGED = ''fingerprint_changed''"
definition REASON_TIMEOUT_OUT_OF_RANGE :: string where
  "REASON_TIMEOUT_OUT_OF_RANGE = ''timeout_out_of_range''"
definition REASON_EMPTY_SCOPE :: string where
  "REASON_EMPTY_SCOPE = ''empty_scope''"

lemmas barrier_reason_defs =
  REASON_WORKTREE_BUSY_def REASON_PUBLICATION_UNAVAILABLE_def REASON_CATALOG_NOT_VERIFIED_def
  REASON_FINGERPRINT_CHANGED_def

record barrier_request =
  br_target_event_seq :: i64
  br_required_scopes :: "string list"
  br_require_publication :: bool
  br_timeout_ms :: i64

definition barrier_request_new :: "i64 \<Rightarrow> string list \<Rightarrow> bool \<Rightarrow> barrier_request result" where
  "barrier_request_new target_event_seq required_scopes require_publication =
     (if target_event_seq < 0 then
        Inl (fail ValidationError ''a barrier target event sequence must not be negative''
          [(''rule'', REASON_TIMEOUT_OUT_OF_RANGE), (''actual'', show_int target_event_seq)])
      else if required_scopes = [] then
        Inl (fail ValidationError ''a barrier must name at least one required scope''
          [(''rule'', REASON_EMPTY_SCOPE)])
      else
        Inr \<lparr>br_target_event_seq = target_event_seq, br_required_scopes = required_scopes,
             br_require_publication = require_publication,
             br_timeout_ms = DEFAULT_WAIT_TIMEOUT_MS\<rparr>)"

definition with_timeout_ms :: "barrier_request \<Rightarrow> i64 \<Rightarrow> barrier_request result" where
  "with_timeout_ms request timeout_ms =
     (if \<not> (0 \<le> timeout_ms \<and> timeout_ms \<le> MAX_WAIT_TIMEOUT_MS) then
        Inl (fail ValidationError ''the barrier wait must be inside the supported bound''
          [(''rule'', REASON_TIMEOUT_OUT_OF_RANGE),
           (''expected'', show_int MAX_WAIT_TIMEOUT_MS), (''actual'', show_int timeout_ms)])
      else Inr (request\<lparr>br_timeout_ms := timeout_ms\<rparr>))"

record scope_progress =
  sp_scope :: string
  sp_indexed_event_seq :: i64

record publication_state =
  pub_available :: bool
  pub_catalog_verified :: bool

definition publication_is_ready :: "publication_state \<Rightarrow> bool" where
  "publication_is_ready s \<longleftrightarrow> pub_available s \<and> pub_catalog_verified s"

record verification_window =
  vw_before :: string
  vw_after :: string

definition is_stable :: "verification_window \<Rightarrow> bool" where
  "is_stable w \<longleftrightarrow> vw_before w = vw_after w"

record barrier_observation =
  bo_scopes :: "scope_progress list"
  bo_publication :: publication_state
  bo_pending_job_ids :: "string list"

definition covers :: "barrier_observation \<Rightarrow> barrier_request \<Rightarrow> bool" where
  "covers observation request \<longleftrightarrow>
     list_all (\<lambda>required.
       list_ex (\<lambda>progress. sp_scope progress = required \<and>
           sp_indexed_event_seq progress \<ge> br_target_event_seq request) (bo_scopes observation))
       (br_required_scopes request)"

record verified_snapshot =
  vs_verified_at :: i64
  vs_snapshot_id :: string
  vs_target_event_seq :: i64
  vs_fingerprint :: string

datatype barrier_outcome =
  Verified verified_snapshot
| TimedOut "string list" string i64 i64

fun is_verified :: "barrier_outcome \<Rightarrow> bool" where
  "is_verified (Verified _) = True"
| "is_verified (TimedOut _ _ _ _) = False"

section \<open>The snapshot id\<close>

definition FNV_PRIME :: "64 word" where "FNV_PRIME = 0x00000100000001b3"
definition FNV_OFFSET :: "64 word" where "FNV_OFFSET = 0xcbf29ce484222325"

definition fnv_byte :: "64 word \<Rightarrow> char \<Rightarrow> 64 word" where
  "fnv_byte hash byte = (hash XOR of_nat (of_char byte)) * FNV_PRIME"

definition fnv_part :: "64 word \<Rightarrow> string \<Rightarrow> 64 word" where
  "fnv_part hash part = foldl fnv_byte ((hash XOR of_nat (length part)) * FNV_PRIME) part"

definition digest :: "string list \<Rightarrow> string" where
  "digest parts = hex_digits 16 (unat (foldl fnv_part FNV_OFFSET parts))"

text \<open>\<open>sort_unstable\<close> of strings, then \<open>dedup\<close> of neighbours.\<close>

definition snapshot_id :: "barrier_request \<Rightarrow> verification_window \<Rightarrow> string" where
  "snapshot_id request window =
     ''snap-'' @ digest (vw_after window # remdups_adj (sort (br_required_scopes request)))"

section \<open>The decision\<close>

definition barrier_refusal_reason ::
  "barrier_request \<Rightarrow> barrier_observation \<Rightarrow> verification_window \<Rightarrow> string" where
  "barrier_refusal_reason request observation window =
     (if \<not> is_stable window then REASON_FINGERPRINT_CHANGED
      else if br_require_publication request \<and> \<not> pub_available (bo_publication observation) then
        REASON_PUBLICATION_UNAVAILABLE
      else if \<not> pub_catalog_verified (bo_publication observation) then
        REASON_CATALOG_NOT_VERIFIED
      else REASON_WORKTREE_BUSY)"

definition evaluate ::
  "barrier_request \<Rightarrow> barrier_observation \<Rightarrow> verification_window \<Rightarrow> i64 \<Rightarrow> i64 \<Rightarrow>
     barrier_outcome result" where
  "evaluate request observation window now waited_ms =
     (let waited_ms = clamp_duration waited_ms (br_timeout_ms request)
      in if covers observation request \<and>
            (\<not> br_require_publication request \<or> pub_available (bo_publication observation)) \<and>
            pub_catalog_verified (bo_publication observation) \<and> is_stable window
         then Inr (Verified
           \<lparr>vs_verified_at = now, vs_snapshot_id = snapshot_id request window,
            vs_target_event_seq = br_target_event_seq request, vs_fingerprint = vw_after window\<rparr>)
         else Inr (TimedOut (bo_pending_job_ids observation)
           (barrier_refusal_reason request observation window)
           (br_target_event_seq request) waited_ms))"

definition may_poll_again :: "barrier_request \<Rightarrow> i64 \<Rightarrow> bool" where
  "may_poll_again request waited_ms \<longleftrightarrow> waited_ms < br_timeout_ms request"

definition is_new_generation_after :: "verified_snapshot \<Rightarrow> i64 \<Rightarrow> bool" where
  "is_new_generation_after snapshot observed_at \<longleftrightarrow> observed_at > vs_verified_at snapshot"

lemma covers_iff:
  "covers observation request \<longleftrightarrow>
     (\<forall>required \<in> set (br_required_scopes request). \<exists>progress \<in> set (bo_scopes observation).
        sp_scope progress = required \<and> br_target_event_seq request \<le> sp_indexed_event_seq progress)"
  by (simp add: covers_def list_all_iff list_ex_iff)

text \<open>A sorted list without adjacent repetitions is determined by its set.\<close>

lemma snapshot_id_scopes:
  "set (br_required_scopes r) = set (br_required_scopes r') \<Longrightarrow> vw_after w = vw_after w' \<Longrightarrow>
     snapshot_id r w = snapshot_id r' w'"
  by (simp add: snapshot_id_def sort_dedup)

section \<open>Properties of the barrier\<close>

text \<open>Freshness is never faked: a barrier succeeds exactly when every required scope is indexed to
  the target, publication is available where required, the catalog is verified and the fingerprint
  did not move; the snapshot then carries that target and fingerprint.\<close>

theorem barrier_verified_iff:
  "evaluate request observation window now waited = Inr (Verified snapshot) \<longleftrightarrow>
     set (br_required_scopes request) \<subseteq>
       {sp_scope p |p. p \<in> set (bo_scopes observation) \<and>
          br_target_event_seq request \<le> sp_indexed_event_seq p} \<and>
     (if br_require_publication request then pub_available (bo_publication observation) else True) \<and>
     pub_catalog_verified (bo_publication observation) \<and> vw_before window = vw_after window \<and>
     snapshot = \<lparr>vs_verified_at = now, vs_snapshot_id = snapshot_id request window,
       vs_target_event_seq = br_target_event_seq request, vs_fingerprint = vw_after window\<rparr>"
proof -
  have "covers observation request \<longleftrightarrow> set (br_required_scopes request) \<subseteq>
       {sp_scope p |p. p \<in> set (bo_scopes observation) \<and>
          br_target_event_seq request \<le> sp_indexed_event_seq p}"
    by (auto simp: covers_iff)
  then show ?thesis by (auto simp: evaluate_def Let_def is_stable_def)
qed

text \<open>A barrier that does not succeed reports the pending jobs, a waiting time inside the bound, and
  the most important reason: a moved fingerprint first, then a missing publication, then an unverified
  catalog, and otherwise work still outstanding on a required scope.\<close>

theorem barrier_timeout_reason:
  assumes "evaluate request observation window now waited = Inr (TimedOut jobs reason target w)"
    and "0 \<le> br_timeout_ms request"
  shows "jobs = bo_pending_job_ids observation \<and> target = br_target_event_seq request \<and>
    0 \<le> w \<and> w \<le> br_timeout_ms request \<and>
    reason = (if \<not> is_stable window then ''fingerprint_changed''
      else if br_require_publication request \<and> \<not> pub_available (bo_publication observation)
        then ''publication_unavailable''
      else if \<not> pub_catalog_verified (bo_publication observation) then ''catalog_not_verified''
      else ''WORKTREE_BUSY'') \<and>
    (reason = ''WORKTREE_BUSY'' \<longleftrightarrow> is_stable window \<and>
      (\<not> br_require_publication request \<or> pub_available (bo_publication observation)) \<and>
      pub_catalog_verified (bo_publication observation) \<and> \<not> covers observation request)"
  using assms clamp_duration_bounds [OF assms(2), of waited]
  by (auto simp: evaluate_def Let_def barrier_refusal_reason_def barrier_reason_defs split: if_splits)

theorem barrier_timeout_reason_witness:
  "let request = \<lparr>br_target_event_seq = 5, br_required_scopes = [''p''],
         br_require_publication = False, br_timeout_ms = 100\<rparr>;
       observation = \<lparr>bo_scopes = [\<lparr>sp_scope = ''p'', sp_indexed_event_seq = 4\<rparr>],
         bo_publication = \<lparr>pub_available = False, pub_catalog_verified = True\<rparr>,
         bo_pending_job_ids = [''j'']\<rparr>;
       window = \<lparr>vw_before = ''f'', vw_after = ''f''\<rparr>
   in evaluate request observation window 9 500 = Inr (TimedOut [''j''] ''WORKTREE_BUSY'' 5 100) \<and>
      \<not> covers observation request"
proof -
  define request where "request = \<lparr>br_target_event_seq = 5, br_required_scopes = [''p''],
    br_require_publication = False, br_timeout_ms = 100\<rparr>"
  define observation where "observation = \<lparr>bo_scopes = [\<lparr>sp_scope = ''p'', sp_indexed_event_seq = 4\<rparr>],
    bo_publication = \<lparr>pub_available = False, pub_catalog_verified = True\<rparr>,
    bo_pending_job_ids = [''j'']\<rparr>"
  define window where "window = \<lparr>vw_before = ''f'', vw_after = ''f''\<rparr>"
  have out: "evaluate request observation window 9 500 = Inr (TimedOut [''j''] ''WORKTREE_BUSY'' 5 100)"
    by (simp add: evaluate_def Let_def covers_def is_stable_def barrier_refusal_reason_def
        barrier_reason_defs clamp_duration_def request_def observation_def window_def)
  have "0 \<le> br_timeout_ms request" by (simp add: request_def)
  from barrier_timeout_reason [OF out this] have "\<not> covers observation request" by blast
  with out show ?thesis unfolding Let_def request_def observation_def window_def by (rule conjI)
qed

text \<open>The snapshot id does not depend on the order or repetition in which the scopes were named.\<close>

theorem snapshot_id_order_independent:
  assumes "set (br_required_scopes r) = set (br_required_scopes r')" and "vw_after w = vw_after w'"
  shows "snapshot_id r w = snapshot_id r' w'"
  using assms by (rule snapshot_id_scopes)

theorem snapshot_id_order_independent_witness:
  "snapshot_id \<lparr>br_target_event_seq = 5, br_required_scopes = [''a'', ''b''],
       br_require_publication = False, br_timeout_ms = 1\<rparr> \<lparr>vw_before = ''f'', vw_after = ''f''\<rparr> =
   snapshot_id \<lparr>br_target_event_seq = 5, br_required_scopes = [''b'', ''a'', ''b''],
       br_require_publication = False, br_timeout_ms = 1\<rparr> \<lparr>vw_before = ''f'', vw_after = ''f''\<rparr>"
  by (rule snapshot_id_order_independent) auto

text \<open>The id does not depend on the target sequence either, so two barriers can share one.\<close>

lemma snapshot_id_ignores_target:
  "snapshot_id (r\<lparr>br_target_event_seq := t\<rparr>) w = snapshot_id r w"
  by (simp add: snapshot_id_def)

end
