(* ===== verification/WatchPath.thy ===== *)
theory WatchPath
  imports Errors
begin

text \<open>
  Portable relative paths: \<^verbatim>\<open>graph-watch/src/lib.rs\<close>.  \<open>windows\<close> stands for
  \<open>cfg!(windows)\<close>.  The locale \<open>canonical_form\<close> states what a canonicaliser promises its
  clients; the modules that classify paths all read them through it.
\<close>

section \<open>Panics\<close>

text \<open>
  The value of a call that may panic (an out-of-range slice, a split inside a UTF-8 sequence).
\<close>

datatype 'a run = Return 'a | Panic

fun bind_run :: "'a run \<Rightarrow> ('a \<Rightarrow> 'b run) \<Rightarrow> 'b run" where
  "bind_run (Return a) f = f a"
| "bind_run Panic f = Panic"

section \<open>Canonicalisation\<close>

definition unify_separators :: "string \<Rightarrow> string" where
  "unify_separators value = map (\<lambda>c. if c = CHR 0x5C then CHR ''/'' else c) value"

definition has_absolute_prefix :: "string \<Rightarrow> bool" where
  "has_absolute_prefix unified \<longleftrightarrow>
     starts_with unified ''/'' \<or>
     (2 \<le> length unified \<and> is_ascii_alphabetic (unified ! 0) \<and> unified ! 1 = CHR '':'')"

fun collect_segments :: "string \<Rightarrow> string list \<Rightarrow> string list \<Rightarrow> string list result" where
  "collect_segments value segments [] = Inr segments"
| "collect_segments value segments (segment # rest) =
     (if segment = [] then
        Inl (fail ValidationError ''a watched path must not contain an empty segment''
          [(''path'', value)])
      else if segment = ''.'' \<or> segment = ''..'' then
        Inl (fail ValidationError ''a watched path must not contain a relative traversal segment''
          [(''path'', value)])
      else collect_segments value (segments @ [segment]) rest)"

definition portable_relative_path :: "string \<Rightarrow> string result" where
  "portable_relative_path value =
     (if value = [] then
        Inl (axiom_error_new ValidationError ''a watched path must not be empty'')
      else if CHR 0x00 \<in> set value then
        Inl (fail ValidationError ''a watched path must not contain a NUL byte'' [(''path'', value)])
      else
        let unified = unify_separators value
        in if has_absolute_prefix unified then
             Inl (fail ValidationError ''a watched path must be relative to the bound project root''
               [(''path'', value)])
           else
             (case collect_segments value [] (split_on CHR ''/'' unified) of
                Inl e \<Rightarrow> Inl e
              | Inr segments \<Rightarrow> Inr (join_with CHR ''/'' segments)))"

definition is_portable_relative_path :: "string \<Rightarrow> bool" where
  "is_portable_relative_path value =
     (case portable_relative_path value of Inl _ \<Rightarrow> False | Inr _ \<Rightarrow> True)"

definition same_path :: "bool \<Rightarrow> string \<Rightarrow> string \<Rightarrow> bool" where
  "same_path windows lhs rhs = (if windows then eq_ignore_ascii_case lhs rhs else lhs = rhs)"

section \<open>What a canonical path is\<close>

definition plain_segment :: "string \<Rightarrow> bool" where
  "plain_segment s \<longleftrightarrow> s \<noteq> [] \<and> s \<noteq> ''.'' \<and> s \<noteq> ''..''"

lemma collect_segments_ok:
  "collect_segments v acc ss = Inr r \<longleftrightarrow> list_all plain_segment ss \<and> r = acc @ ss"
  by (induction v acc ss rule: collect_segments.induct) (auto simp: plain_segment_def)

lemma portable_ok:
  "portable_relative_path v = Inr p \<longleftrightarrow>
     v \<noteq> [] \<and> CHR 0x00 \<notin> set v \<and> \<not> has_absolute_prefix (unify_separators v) \<and>
     list_all plain_segment (split_on CHR ''/'' (unify_separators v)) \<and> p = unify_separators v"
  by (auto simp: portable_relative_path_def Let_def collect_segments_ok split: sum.splits if_splits)
    (metis collect_segments_ok append_Nil sum.simps(4) join_split Inl_Inr_False)+

lemma unify_idem [simp]: "unify_separators (unify_separators v) = unify_separators v"
  by (simp add: unify_separators_def)

lemma unify_Nil [simp]: "unify_separators v = [] \<longleftrightarrow> v = []"
  by (simp add: unify_separators_def)

lemma unify_chars: "c \<in> set (unify_separators v) \<Longrightarrow> c \<in> set v \<or> c = CHR ''/''"
  by (auto simp: unify_separators_def split: if_splits)

lemma portable_idem: "portable_relative_path v = Inr p \<Longrightarrow> portable_relative_path p = Inr p"
  using unify_chars [of "CHR 0x00" v] by (auto simp: portable_ok)

lemma portable_segments:
  "portable_relative_path v = Inr p \<Longrightarrow> list_all plain_segment (split_on CHR ''/'' p)"
  by (simp add: portable_ok)

lemma portable_error_code: "portable_relative_path v = Inl e \<Longrightarrow> ae_code e = ValidationError"
proof -
  have "ae_code e = ValidationError" if "collect_segments v acc ss = Inl e" for acc ss
    using that by (induction v acc ss rule: collect_segments.induct) (auto split: if_splits)
  then show "portable_relative_path v = Inl e \<Longrightarrow> ?thesis"
    by (auto simp: portable_relative_path_def Let_def split: if_splits sum.splits)
qed

lemma same_path_refl [simp]: "same_path windows p p"
  by (simp add: same_path_def)

lemma same_path_sym: "same_path windows p q \<longleftrightarrow> same_path windows q p"
  by (auto simp: same_path_def eq_ignore_ascii_case_def)

lemma same_path_trans: "same_path windows p q \<Longrightarrow> same_path windows q r \<Longrightarrow> same_path windows p r"
  by (auto simp: same_path_def eq_ignore_ascii_case_def split: if_splits)

lemma same_path_length: "same_path windows p q \<Longrightarrow> length p = length q"
  by (auto simp: same_path_def eq_ignore_ascii_case_length split: if_splits)

section \<open>Reading a path through its canonical form\<close>

locale canonical_form =
  fixes canon :: "'p \<Rightarrow> 'e + 'p"
  assumes canon_idem: "canon v = Inr p \<Longrightarrow> canon p = Inr p"
begin

text \<open>A client that looks at its argument only through \<open>canon\<close> treats all spellings alike.\<close>

lemma through_canon:
  assumes "\<And>x. f x = (case canon x of Inl e \<Rightarrow> g e | Inr p \<Rightarrow> h p)" and "canon v = Inr p"
  shows "f v = f p"
  using assms canon_idem by simp

lemma canon_range: "canon v = Inr p \<Longrightarrow> canon w = Inr q \<Longrightarrow> canon p = canon q \<Longrightarrow> p = q"
  using canon_idem by fastforce

end

interpretation portable: canonical_form portable_relative_path
  by unfold_locales (rule portable_idem)

section \<open>Properties of portable paths\<close>

text \<open>An accepted path cannot leave the project: it is not empty, holds no NUL byte and no
  backslash, does not start at a root or a drive, and none of its segments is empty, \<open>.\<close> or
  \<open>..\<close>; it is its own canonical form, and equals the given spelling up to the separators.\<close>

theorem portable_path_is_contained:
  assumes "portable_relative_path value = Inr p"
  shows "p \<noteq> [] \<and> CHR 0x00 \<notin> set p \<and> CHR 0x5C \<notin> set p \<and> \<not> has_absolute_prefix p \<and>
    list_all (\<lambda>s. s \<noteq> [] \<and> s \<noteq> ''.'' \<and> s \<noteq> ''..'') (split_on CHR ''/'' p) \<and>
    portable_relative_path p = Inr p \<and> p = unify_separators value"
proof -
  have idem: "portable_relative_path p = Inr p" by (rule portable_idem [OF assms])
  have p: "p = unify_separators value" using assms unfolding portable_ok by blast
  have u: "unify_separators p = p" unfolding p by (rule unify_idem)
  have "p \<noteq> [] \<and> CHR 0x00 \<notin> set p \<and> \<not> has_absolute_prefix p \<and>
      list_all plain_segment (split_on CHR ''/'' p)"
    using idem unfolding portable_ok u by blast
  moreover have "plain_segment = (\<lambda>s. s \<noteq> [] \<and> s \<noteq> ''.'' \<and> s \<noteq> ''..'')"
    by (rule ext) (simp add: plain_segment_def)
  moreover have "CHR 0x5C \<notin> set p" unfolding p unify_separators_def by auto
  ultimately show ?thesis using idem p by metis
qed

theorem portable_path_is_contained_witness:
  "portable_relative_path (''src'' @ CHR 0x5C # ''a.rs'') = Inr ''src/a.rs'' \<and>
   \<not> has_absolute_prefix ''src/a.rs''"
proof -
  have ok: "portable_relative_path (''src'' @ CHR 0x5C # ''a.rs'') = Inr ''src/a.rs''" by code_simp
  have "\<not> has_absolute_prefix ''src/a.rs''"
    using portable_path_is_contained [OF ok] by blast
  with ok show ?thesis by (rule conjI)
qed

end
