(* ===== verification/WatchIgnore.thy ===== *)
theory WatchIgnore
  imports WatchPath
begin

text \<open>
  Generated-output and build-directory exclusions: \<^verbatim>\<open>graph-watch/src/ignore.rs\<close>.  The rule
  tables are association lists; a classification is the first rule that matches.
\<close>

datatype ignore_reason =
  GeneratedGraphData | BuildOutput | DependencyCache | VersionControlMetadata | StagingArea
| QueueState | DatabaseFile | LogFile | EditorTemporaryFile | BackupArtifact | CredentialStore

fun ignore_reason_str :: "ignore_reason \<Rightarrow> string" where
  "ignore_reason_str GeneratedGraphData = ''generated_graph_data''"
| "ignore_reason_str BuildOutput = ''build_output''"
| "ignore_reason_str DependencyCache = ''dependency_cache''"
| "ignore_reason_str VersionControlMetadata = ''version_control_metadata''"
| "ignore_reason_str StagingArea = ''staging_area''"
| "ignore_reason_str QueueState = ''queue_state''"
| "ignore_reason_str DatabaseFile = ''database_file''"
| "ignore_reason_str LogFile = ''log_file''"
| "ignore_reason_str EditorTemporaryFile = ''editor_temporary_file''"
| "ignore_reason_str BackupArtifact = ''backup_artifact''"
| "ignore_reason_str CredentialStore = ''credential_store''"

definition EXCLUDED_ANY_DEPTH :: "(string \<times> ignore_reason) list" where
  "EXCLUDED_ANY_DEPTH =
     [(''bin'', BuildOutput), (''obj'', BuildOutput), (''node_modules'', DependencyCache),
      (''.git'', VersionControlMetadata)]"

definition EXCLUDED_PROJECT_ROOT :: "(string \<times> ignore_reason) list" where
  "EXCLUDED_PROJECT_ROOT =
     [(''.staging'', StagingArea), (''queue'', QueueState), (''leases'', QueueState),
      (''locks'', QueueState), (''logs'', LogFile), (''backups'', BackupArtifact),
      (''temp'', StagingArea), (''credentials'', CredentialStore)]"

definition EXCLUDED_EXTENSIONS :: "(string \<times> ignore_reason) list" where
  "EXCLUDED_EXTENSIONS =
     [(''db'', DatabaseFile), (''db-wal'', DatabaseFile), (''db-shm'', DatabaseFile),
      (''sqlite'', DatabaseFile), (''sqlite3'', DatabaseFile), (''wal'', DatabaseFile),
      (''shm'', DatabaseFile), (''log'', LogFile), (''swp'', EditorTemporaryFile),
      (''tmp'', EditorTemporaryFile), (''orig'', EditorTemporaryFile),
      (''rej'', EditorTemporaryFile)]"

definition DEFAULT_GRAPH_OUTPUT_ROOT :: string where
  "DEFAULT_GRAPH_OUTPUT_ROOT = ''live''"

datatype ignore_decision = Tracked | Ignored ignore_reason string

fun is_tracked :: "ignore_decision \<Rightarrow> bool" where
  "is_tracked Tracked = True"
| "is_tracked (Ignored _ _) = False"

fun ignore_decision_reason :: "ignore_decision \<Rightarrow> ignore_reason option" where
  "ignore_decision_reason Tracked = None"
| "ignore_decision_reason (Ignored reason _) = Some reason"

record ignore_policy =
  ip_graph_output_root :: string
  ip_additional_roots :: "string list"

definition ignore_policy_new :: "string \<Rightarrow> ignore_policy" where
  "ignore_policy_new graph_output_root =
     \<lparr>ip_graph_output_root = graph_output_root, ip_additional_roots = []\<rparr>"

definition ignore_policy_default :: ignore_policy where
  "ignore_policy_default = ignore_policy_new DEFAULT_GRAPH_OUTPUT_ROOT"

definition with_additional_root :: "ignore_policy \<Rightarrow> string \<Rightarrow> ignore_policy" where
  "with_additional_root policy root =
     policy\<lparr>ip_additional_roots := ip_additional_roots policy @ [root]\<rparr>"

text \<open>The loops over a rule table, and over the directory segments and a table.\<close>

fun match_table :: "(string \<Rightarrow> bool) \<Rightarrow> (string \<times> ignore_reason) list \<Rightarrow> ignore_reason option" where
  "match_table matches [] = None"
| "match_table matches ((name, reason) # table) =
     (if matches name then Some reason else match_table matches table)"

fun match_segments :: "bool \<Rightarrow> string list \<Rightarrow> ignore_reason option" where
  "match_segments windows [] = None"
| "match_segments windows (segment # segments) =
     (case match_table (same_path windows segment) EXCLUDED_ANY_DEPTH of
        Some reason \<Rightarrow> Some reason
      | None \<Rightarrow> match_segments windows segments)"

text \<open>The decision on the segments of a canonical path.\<close>

definition classify_segments :: "bool \<Rightarrow> ignore_policy \<Rightarrow> string list \<Rightarrow> ignore_decision" where
  "classify_segments windows policy segments =
     (let first = hd segments; final = last segments in
      if same_path windows first (ip_graph_output_root policy) then
        Ignored GeneratedGraphData ''policy.graph-output-root''
      else if list_ex (same_path windows first) (ip_additional_roots policy) then
        Ignored GeneratedGraphData ''policy.additional-root''
      else
        case match_table (same_path windows first) EXCLUDED_PROJECT_ROOT of
          Some reason \<Rightarrow> Ignored reason ''policy.project-root-directory''
        | None \<Rightarrow>
            case match_segments windows (butlast segments) of
              Some reason \<Rightarrow> Ignored reason ''policy.any-depth-directory''
            | None \<Rightarrow>
                case (case rsplit_once CHR ''.'' final of
                        None \<Rightarrow> None
                      | Some (_, extension) \<Rightarrow>
                          match_table (eq_ignore_ascii_case extension) EXCLUDED_EXTENSIONS) of
                  Some reason \<Rightarrow> Ignored reason ''policy.extension''
                | None \<Rightarrow>
                    if starts_with final ''~$'' \<or>
                       (starts_with final ''.'' \<and> ends_with final ''.swp'') then
                      Ignored EditorTemporaryFile ''policy.editor-temporary-name''
                    else if ends_with final ''.tmp'' \<or> str_contains final ''.tmp.'' then
                      Ignored EditorTemporaryFile ''policy.atomic-replace-scratch''
                    else Tracked)"

definition ignore_classify :: "bool \<Rightarrow> ignore_policy \<Rightarrow> string \<Rightarrow> ignore_decision result" where
  "ignore_classify windows policy path =
     (case portable_relative_path path of
        Inl e \<Rightarrow> Inl e
      | Inr path \<Rightarrow> Inr (classify_segments windows policy (split_on CHR ''/'' path)))"

section \<open>Lemmas\<close>

lemma match_table_Some:
  "match_table m t = Some r \<Longrightarrow> \<exists>n. (n, r) \<in> set t \<and> m n"
  by (induction m t rule: match_table.induct) (auto split: if_splits)

lemma match_table_None: "match_table m t = None \<longleftrightarrow> (\<forall>(n, r) \<in> set t. \<not> m n)"
  by (induction m t rule: match_table.induct) auto

lemma match_segments_None:
  "match_segments w ss = None \<longleftrightarrow>
     (\<forall>s \<in> set ss. \<forall>(n, r) \<in> set EXCLUDED_ANY_DEPTH. \<not> same_path w s n)"
proof (induction w ss rule: match_segments.induct)
  case (2 w s ss)
  show ?case
  proof (cases "match_table (same_path w s) EXCLUDED_ANY_DEPTH")
    case None
    show ?thesis using 2 None None [unfolded match_table_None] by simp
  next
    case (Some r)
    then show ?thesis using match_table_Some [OF Some] by auto
  qed
qed simp

lemma ignore_classify_canonical:
  "portable_relative_path v = Inr p \<Longrightarrow> ignore_classify w policy v = ignore_classify w policy p"
  by (rule portable.through_canon [where g = Inl]) (auto simp: ignore_classify_def)

lemma ignore_classify_of_canonical:
  "portable_relative_path p = Inr p \<Longrightarrow>
     ignore_classify w policy p = Inr (classify_segments w policy (split_on CHR ''/'' p))"
  by (simp add: ignore_classify_def)

text \<open>Segments of a path never contain the separator, so a rule that does never applies.\<close>

lemma first_segment_no_sep:
  assumes "same_path windows (hd (split_on c p)) root"
    and "\<And>a b. ascii_lower a = ascii_lower b \<Longrightarrow> b = c \<Longrightarrow> a = c"
  shows "c \<notin> set root"
proof
  assume "c \<in> set root"
  have "c \<notin> set (hd (split_on c p))" by (rule split_on_no_sep [of _ c p]) simp
  moreover have "c \<in> set (hd (split_on c p))"
  proof (cases windows)
    case True
    then have eq: "map ascii_lower (hd (split_on c p)) = map ascii_lower root"
      using assms(1) by (simp add: same_path_def eq_ignore_ascii_case_def to_ascii_lowercase_def)
    have "ascii_lower c \<in> set (map ascii_lower root)" using \<open>c \<in> set root\<close> by simp
    then obtain a where "a \<in> set (hd (split_on c p))" and "ascii_lower a = ascii_lower c"
      unfolding eq [symmetric] by auto
    then show ?thesis using assms(2) by metis
  qed (use assms(1) \<open>c \<in> set root\<close> in \<open>simp add: same_path_def\<close>)
  ultimately show False by contradiction
qed

lemma ascii_lower_slash: "ascii_lower a = ascii_lower CHR ''/'' \<Longrightarrow> a = CHR ''/''"
proof -
  have "ascii_lower CHR ''/'' = CHR ''/''" by code_simp
  moreover have "ascii_lower a = a \<or> 97 \<le> (of_char (ascii_lower a) :: nat)"
    by (auto simp: ascii_lower_def less_eq_char_def)
  ultimately show "ascii_lower a = ascii_lower CHR ''/'' \<Longrightarrow> ?thesis" by auto
qed

lemma root_with_separator_never_matches:
  "CHR ''/'' \<in> set root \<Longrightarrow> \<not> same_path windows (hd (split_on CHR ''/'' p)) root"
  using first_segment_no_sep ascii_lower_slash by blast

section \<open>Properties of the exclusions\<close>

text \<open>The graph engine never requeues its own output: whatever spelling a path arrives in, if its
  first segment is the output root or an additional root it is excluded as generated data.\<close>

theorem generated_output_never_tracked:
  assumes "portable_relative_path path = Inr p"
    and "list_ex (same_path windows (hd (split_on CHR ''/'' p)))
      (ip_graph_output_root policy # ip_additional_roots policy)"
  shows "\<exists>rule. ignore_classify windows policy path = Inr (Ignored GeneratedGraphData rule)"
proof -
  have "ignore_classify windows policy path = ignore_classify windows policy p"
    by (rule ignore_classify_canonical [OF assms(1)])
  also have "\<dots> = Inr (classify_segments windows policy (split_on CHR ''/'' p))"
    by (rule ignore_classify_of_canonical [OF portable_idem [OF assms(1)]])
  finally show ?thesis
    using assms(2) by (auto simp: classify_segments_def Let_def)
qed

theorem generated_output_never_tracked_witness:
  "\<exists>rule. ignore_classify False ignore_policy_default (''live'' @ CHR 0x5C # ''graph.json'') =
     Inr (Ignored GeneratedGraphData rule)"
proof (rule generated_output_never_tracked)
  show "portable_relative_path (''live'' @ CHR 0x5C # ''graph.json'') = Inr ''live/graph.json''"
    by code_simp
  show "list_ex (same_path False (hd (split_on CHR ''/'' ''live/graph.json'')))
      (ip_graph_output_root ignore_policy_default # ip_additional_roots ignore_policy_default)"
    by code_simp
qed

text \<open>A tracked path lies under no excluded directory: no segment above the file names a build,
  dependency or Git directory, the first segment names no directory the engine owns, and the file's
  extension is not in the excluded table.\<close>

theorem tracked_path_avoids_rules:
  assumes "ignore_classify windows policy path = Inr Tracked"
  shows "\<exists>segments. segments \<noteq> [] \<and> portable_relative_path path = Inr (join_with CHR ''/'' segments) \<and>
    list_all (\<lambda>s. list_all (\<lambda>(name, reason). \<not> same_path windows s name) EXCLUDED_ANY_DEPTH)
      (butlast segments) \<and>
    list_all (\<lambda>(name, reason). \<not> same_path windows (hd segments) name) EXCLUDED_PROJECT_ROOT \<and>
    (case rsplit_once CHR ''.'' (last segments) of None \<Rightarrow> True | Some (stem, extension) \<Rightarrow>
       list_all (\<lambda>(name, reason). \<not> eq_ignore_ascii_case extension name) EXCLUDED_EXTENSIONS)"
proof -
  obtain p where p: "portable_relative_path path = Inr p"
    and t: "classify_segments windows policy (split_on CHR ''/'' p) = Tracked"
    using assms by (auto simp: ignore_classify_def split: sum.splits)
  have "list_all (\<lambda>s. list_all (\<lambda>(name, reason). \<not> same_path windows s name) EXCLUDED_ANY_DEPTH)
      (butlast (split_on CHR ''/'' p))"
    using t match_segments_None [of windows "butlast (split_on CHR ''/'' p)"]
    by (auto simp: classify_segments_def Let_def list_all_iff split: if_splits option.splits)
  moreover have "list_all (\<lambda>(name, reason). \<not> same_path windows (hd (split_on CHR ''/'' p)) name)
      EXCLUDED_PROJECT_ROOT"
    using t match_table_None [of "same_path windows (hd (split_on CHR ''/'' p))" EXCLUDED_PROJECT_ROOT]
    by (auto simp: classify_segments_def Let_def list_all_iff split: if_splits option.splits)
  moreover have "case rsplit_once CHR ''.'' (last (split_on CHR ''/'' p)) of None \<Rightarrow> True
     | Some (stem, extension) \<Rightarrow>
       list_all (\<lambda>(name, reason). \<not> eq_ignore_ascii_case extension name) EXCLUDED_EXTENSIONS"
  proof (cases "rsplit_once CHR ''.'' (last (split_on CHR ''/'' p))")
    case (Some se)
    then show ?thesis
      using t match_table_None [of "eq_ignore_ascii_case (snd se)" EXCLUDED_EXTENSIONS]
      by (cases se)
        (auto simp: classify_segments_def Let_def list_all_iff split: if_splits option.splits)
  qed simp
  ultimately show ?thesis
    using p by (intro exI [of _ "split_on CHR ''/'' p"]) simp
qed

theorem tracked_path_avoids_rules_witness:
  "\<exists>segments. segments \<noteq> [] \<and>
     portable_relative_path ''src/main.rs'' = Inr (join_with CHR ''/'' segments)"
proof -
  have "ignore_classify False ignore_policy_default ''src/main.rs'' = Inr Tracked" by code_simp
  from tracked_path_avoids_rules [OF this] show ?thesis by blast
qed

text \<open>
  A root is compared with the first segment only, so a configured root of more than one segment
  excludes nothing.
\<close>

lemma nested_root_excludes_nothing:
  assumes "CHR ''/'' \<in> set root"
  shows "ignore_classify windows (with_additional_root policy root) path =
    ignore_classify windows policy path"
  using root_with_separator_never_matches [OF assms, of windows]
  by (auto simp: ignore_classify_def classify_segments_def with_additional_root_def Let_def
      split: sum.splits)

end
