(* ===== verification/WatchConfig.thy ===== *)
theory WatchConfig
  imports WatchIgnore
begin

text \<open>
  Configuration inputs and their invalidation scope: \<^verbatim>\<open>graph-watch/src/config_invalidation.rs\<close>
  with \<open>content_digest\<close> of \<^verbatim>\<open>graph-watch/src/inventory.rs\<close>.  SHA-256 is the argument
  \<open>sha256\<close>, from bytes to bytes.
\<close>

datatype config_kind =
  ProjectManifest | SolutionFile | PackageManifest | PackageLock | TypeScriptConfig
| SharedBuildConfig | Annotation | RouteConfig

fun config_kind_str :: "config_kind \<Rightarrow> string" where
  "config_kind_str ProjectManifest = ''project_manifest''"
| "config_kind_str SolutionFile = ''solution_file''"
| "config_kind_str PackageManifest = ''package_manifest''"
| "config_kind_str PackageLock = ''package_lock''"
| "config_kind_str TypeScriptConfig = ''typescript_config''"
| "config_kind_str SharedBuildConfig = ''shared_build_config''"
| "config_kind_str Annotation = ''annotation''"
| "config_kind_str RouteConfig = ''route_config''"

datatype invalidation_scope = ScopeProject | ScopeSolution | ScopeNone

record invalidation =
  iv_path :: string
  iv_kind :: "config_kind option"
  iv_scope :: invalidation_scope
  iv_fingerprint :: "string option"

text \<open>The rules on the segments of a canonical path.\<close>

definition config_segments :: "string list \<Rightarrow> config_kind option" where
  "config_segments segments =
     (let lower = to_ascii_lowercase (last segments) in
      if list_ex (\<lambda>segment. eq_ignore_ascii_case segment ''annotations'') (butlast segments) then
        Some Annotation
      else if lower \<in> set [''directory.build.props'', ''directory.build.targets''] then
        Some SharedBuildConfig
      else if lower \<in> set [''directory.packages.props'', ''nuget.config'', ''packages.lock.json''] then
        Some PackageLock
      else if ends_with lower ''.sln'' \<or> ends_with lower ''.slnx'' \<or> ends_with lower ''.slnf'' then
        Some SolutionFile
      else if ends_with lower ''.csproj'' \<or> ends_with lower ''.fsproj'' \<or> ends_with lower ''.vbproj'' then
        Some ProjectManifest
      else if lower \<in> set [''package.json'', ''pyproject.toml'', ''package-lock.json'',
          ''pnpm-lock.yaml'', ''yarn.lock'', ''bun.lockb''] then
        (if str_contains lower ''lock'' then Some PackageLock else Some PackageManifest)
      else if lower = ''tsconfig.json'' \<or> lower = ''jsconfig.json'' \<or>
          (starts_with lower ''tsconfig.'' \<and> ends_with lower ''.json'') then
        Some TypeScriptConfig
      else if lower \<in> set [''routes.json'', ''endpoints.json''] then Some RouteConfig
      else None)"

definition config_classify :: "string \<Rightarrow> config_kind option" where
  "config_classify path =
     (case portable_relative_path path of
        Inl _ \<Rightarrow> None
      | Inr path \<Rightarrow> config_segments (split_on CHR ''/'' path))"

fun scope_of :: "config_kind \<Rightarrow> invalidation_scope" where
  "scope_of SolutionFile = ScopeSolution"
| "scope_of SharedBuildConfig = ScopeSolution"
| "scope_of ProjectManifest = ScopeProject"
| "scope_of PackageManifest = ScopeProject"
| "scope_of PackageLock = ScopeProject"
| "scope_of TypeScriptConfig = ScopeProject"
| "scope_of Annotation = ScopeProject"
| "scope_of RouteConfig = ScopeProject"

definition content_digest :: "(string \<Rightarrow> string) \<Rightarrow> string \<Rightarrow> string" where
  "content_digest sha256 bytes = concat (map (\<lambda>b. hex_digits 2 (of_char b)) (sha256 bytes))"

definition fingerprint_changed :: "string option \<Rightarrow> string \<Rightarrow> bool" where
  "fingerprint_changed previous current =
     (case previous of Some previous \<Rightarrow> previous \<noteq> current | None \<Rightarrow> True)"

definition invalidate ::
  "bool \<Rightarrow> (string \<Rightarrow> string) \<Rightarrow> string \<Rightarrow> string \<Rightarrow> ignore_policy \<Rightarrow> invalidation result" where
  "invalidate windows sha256 path content ignore =
     (case portable_relative_path path of
        Inl e \<Rightarrow> Inl e
      | Inr path \<Rightarrow>
          case ignore_classify windows ignore path of
            Inl e \<Rightarrow> Inl e
          | Inr decision \<Rightarrow>
              if \<not> is_tracked decision then
                Inr \<lparr>iv_path = path, iv_kind = None, iv_scope = ScopeNone, iv_fingerprint = None\<rparr>
              else
                case config_classify path of
                  Some kind \<Rightarrow>
                    Inr \<lparr>iv_path = path, iv_kind = Some kind, iv_scope = scope_of kind,
                         iv_fingerprint = Some (content_digest sha256 content)\<rparr>
                | None \<Rightarrow>
                    Inr \<lparr>iv_path = path, iv_kind = None, iv_scope = ScopeNone,
                         iv_fingerprint = None\<rparr>)"

lemma invalidate_canonical:
  "portable_relative_path v = Inr p \<Longrightarrow> invalidate w h v c ig = invalidate w h p c ig"
  by (rule portable.through_canon [where g = Inl]) (auto simp: invalidate_def)

text \<open>Two hexadecimal digits determine a byte, so the digest determines the hash.\<close>

lemma content_digest_inject: "content_digest h a = content_digest h b \<longleftrightarrow> h a = h b"
proof -
  have byte: "hex_digits 2 (of_char x) = hex_digits 2 (of_char y) \<Longrightarrow> x = y" for x y :: char
    using hex_digits_inj [of "of_char x" 2 "of_char y"] by simp
  have "concat (map (\<lambda>b. hex_digits 2 (of_char b)) xs) = concat (map (\<lambda>b. hex_digits 2 (of_char b)) ys)
      \<Longrightarrow> xs = ys" for xs ys :: string
  proof (induction xs arbitrary: ys)
    case Nil
    then show ?case by (cases ys) (auto dest: arg_cong [where f = length])
  next
    case (Cons x xs)
    then obtain y ys' where ys: "ys = y # ys'"
      by (cases ys) (auto dest: arg_cong [where f = length])
    with Cons.prems have "hex_digits 2 (of_char x) = hex_digits 2 (of_char y) \<and>
        concat (map (\<lambda>b. hex_digits 2 (of_char b)) xs) = concat (map (\<lambda>b. hex_digits 2 (of_char b)) ys')"
      by (simp del: hex_digits.simps)
    with ys Cons.IH byte show ?case by blast
  qed
  then show ?thesis by (auto simp: content_digest_def)
qed

section \<open>Properties of the invalidation\<close>

text \<open>A touched configuration file widens the scope exactly when it is tracked and a configuration
  input: then the change carries the kind, its scope and the content's fingerprint, otherwise nothing
  is invalidated; and a stored fingerprint counts as changed exactly when the hash of the content
  differs.\<close>

theorem invalidation_exact:
  assumes "invalidate windows sha256 path content ignore = Inr iv"
  shows "iv_scope iv = (case iv_kind iv of None \<Rightarrow> ScopeNone | Some kind \<Rightarrow> scope_of kind) \<and>
    iv_fingerprint iv = map_option (\<lambda>kind. content_digest sha256 content) (iv_kind iv) \<and>
    iv_kind iv = (if ignore_classify windows ignore path = Inr Tracked then config_classify path
      else None) \<and>
    (fingerprint_changed (Some (content_digest sha256 old)) (content_digest sha256 content) \<longleftrightarrow>
       sha256 old \<noteq> sha256 content)"
proof -
  obtain p where p: "portable_relative_path path = Inr p"
    using assms by (auto simp: invalidate_def split: sum.splits)
  have same: "ignore_classify windows ignore path = ignore_classify windows ignore p"
    "config_classify path = config_classify p"
    using ignore_classify_canonical [OF p] portable_idem [OF p] p
    by (simp_all add: config_classify_def)
  have tracked: "d = Tracked" if "is_tracked d" for d using that by (cases d) simp_all
  show ?thesis
    using assms p same
    by (auto simp: invalidate_def content_digest_inject fingerprint_changed_def
        split: sum.splits option.splits if_splits dest: tracked)
qed

theorem invalidation_exact_witness:
  "iv_scope \<lparr>iv_path = ''App.sln'', iv_kind = Some SolutionFile, iv_scope = ScopeSolution,
     iv_fingerprint = Some ''61''\<rparr> = scope_of SolutionFile \<and>
   invalidate False (\<lambda>bytes. bytes) ''App.sln'' ''a'' ignore_policy_default =
     Inr \<lparr>iv_path = ''App.sln'', iv_kind = Some SolutionFile, iv_scope = ScopeSolution,
       iv_fingerprint = Some ''61''\<rparr>"
proof -
  have ok: "invalidate False (\<lambda>bytes. bytes) ''App.sln'' ''a'' ignore_policy_default =
     Inr \<lparr>iv_path = ''App.sln'', iv_kind = Some SolutionFile, iv_scope = ScopeSolution,
       iv_fingerprint = Some ''61''\<rparr>"
    by code_simp
  with invalidation_exact [OF ok] show ?thesis by simp
qed

end
