(* ===== verification/WatchDirty.thy ===== *)
theory WatchDirty
  imports Machines Errors
begin

text \<open>
  Monotonic dirty generations: \<^verbatim>\<open>graph-watch/src/dirty.rs\<close>.  The state is a pair of counters;
  the lemmas say that neither ever decreases and that an acknowledgement of an older generation
  leaves the project dirty.
\<close>

definition MAX_GENERATION :: u64 where "MAX_GENERATION = nat i64_max"

datatype ack_outcome = Applied u64 | Superseded u64 u64

fun is_applied :: "ack_outcome \<Rightarrow> bool" where
  "is_applied (Applied _) = True"
| "is_applied (Superseded _ _) = False"

record dirty_generations =
  dg_desired :: u64
  dg_indexed :: u64

definition dirty_new :: dirty_generations where
  "dirty_new = \<lparr>dg_desired = 0, dg_indexed = 0\<rparr>"

definition is_dirty :: "dirty_generations \<Rightarrow> bool" where
  "is_dirty g \<longleftrightarrow> dg_desired g > dg_indexed g"

definition mark_dirty_many ::
  "dirty_generations \<Rightarrow> u64 \<Rightarrow> u64 result \<times> dirty_generations" where
  "mark_dirty_many g n =
     (if n = 0 then
        (Inl (axiom_error_new ValidationError ''a dirty generation must advance by at least one''), g)
      else
        case (case u64_checked_add (dg_desired g) n of
                Some succ \<Rightarrow> if succ \<le> MAX_GENERATION then Some succ else None
              | None \<Rightarrow> None) of
          Some succ \<Rightarrow> (Inr succ, g\<lparr>dg_desired := succ\<rparr>)
        | None \<Rightarrow>
            (Inl (fail Conflict ''the dirty generation counter is exhausted''
               [(''desired_generation'', show_nat (dg_desired g))]), g))"

definition mark_dirty :: "dirty_generations \<Rightarrow> u64 result \<times> dirty_generations" where
  "mark_dirty g = mark_dirty_many g 1"

definition dirty_acknowledge ::
  "dirty_generations \<Rightarrow> u64 \<Rightarrow> ack_outcome result \<times> dirty_generations" where
  "dirty_acknowledge g analyzed =
     (if analyzed = 0 \<or> analyzed > dg_desired g then
        (Inl (fail ValidationError ''an acknowledged generation must be one this project issued''
           [(''analyzed_generation'', show_nat analyzed),
            (''desired_generation'', show_nat (dg_desired g))]), g)
      else if analyzed = dg_desired g then
        (Inr (Applied analyzed), g\<lparr>dg_indexed := analyzed\<rparr>)
      else (Inr (Superseded (dg_desired g) analyzed), g))"

section \<open>The counters as a machine\<close>

datatype dirty_event = MarkDirty u64 | Acknowledge u64

fun dirty_apply :: "dirty_generations \<Rightarrow> dirty_event \<Rightarrow> dirty_generations" where
  "dirty_apply g (MarkDirty n) = snd (mark_dirty_many g n)"
| "dirty_apply g (Acknowledge n) = snd (dirty_acknowledge g n)"

definition dirty_wf :: "dirty_generations \<Rightarrow> bool" where
  "dirty_wf g \<longleftrightarrow> dg_indexed g \<le> dg_desired g \<and> dg_desired g \<le> MAX_GENERATION"

abbreviation dirty_step where "dirty_step g e h \<equiv> h = dirty_apply g e"

lemma mark_dirty_many_cases [consumes 1, case_names zero marked exhausted]:
  assumes "mark_dirty_many g n = (r, g')"
  obtains "n = 0" and "g' = g" and "\<exists>e. r = Inl e \<and> ae_code e = ValidationError"
    | "0 < n" and "dg_desired g + n \<le> MAX_GENERATION" and "r = Inr (dg_desired g + n)"
      and "g' = g\<lparr>dg_desired := dg_desired g + n\<rparr>"
    | "0 < n" and "dg_desired g + n > MAX_GENERATION" and "g' = g"
      and "\<exists>e. r = Inl e \<and> ae_code e = Conflict"
proof -
  have big: "MAX_GENERATION \<le> u64_max"
    by (simp add: MAX_GENERATION_def i64_max_def u64_max_def)
  consider "n = 0" | "0 < n" "dg_desired g + n \<le> MAX_GENERATION"
    | "0 < n" "dg_desired g + n > MAX_GENERATION" by linarith
  then show thesis
  proof cases
    case 1
    then show thesis using assms by (intro that(1)) (auto simp: mark_dirty_many_def)
  next
    case 2
    then show thesis using assms big
      by (intro that(2)) (auto simp: mark_dirty_many_def u64_checked_add_def)
  next
    case 3
    then show thesis using assms
      by (intro that(3)) (auto simp: mark_dirty_many_def u64_checked_add_def split: if_splits)
  qed
qed

lemma dirty_apply_wf: "dirty_wf g \<Longrightarrow> dirty_wf (dirty_apply g e)"
proof (cases e)
  case (MarkDirty n)
  obtain r g' where "mark_dirty_many g n = (r, g')" by fastforce
  with MarkDirty show "dirty_wf g \<Longrightarrow> ?thesis"
    by (auto elim!: mark_dirty_many_cases simp: dirty_wf_def)
qed (auto simp: dirty_wf_def dirty_acknowledge_def)

lemma dirty_apply_mono:
  assumes "dirty_wf g"
  shows "dg_desired g \<le> dg_desired (dirty_apply g e) \<and> dg_indexed g \<le> dg_indexed (dirty_apply g e)"
proof (cases e)
  case (MarkDirty n)
  obtain r g' where "mark_dirty_many g n = (r, g')" by fastforce
  with MarkDirty show ?thesis by (auto elim!: mark_dirty_many_cases)
qed (use assms in \<open>auto simp: dirty_wf_def dirty_acknowledge_def\<close>)

interpretation dirty: state_machine dirty_step dirty_wf
  by unfold_locales (simp add: dirty_apply_wf)

lemma dirty_trace_mono:
  assumes "trace dirty_step g es h" and "dirty_wf g"
  shows "dg_desired g \<le> dg_desired h \<and> dg_indexed g \<le> dg_indexed h"
  using assms
proof (induction rule: trace.induct)
  case (trace_cons g e g' es h)
  then have "dirty_wf g'" by (simp add: dirty_apply_wf)
  with trace_cons dirty_apply_mono [of g e] show ?case by fastforce
qed simp

section \<open>Properties of the generations\<close>

text \<open>An edit made during an analysis is never lost: if the generation a job analyses is followed by
  another change before it is acknowledged, then whatever else happens in between, acknowledging it is
  reported as superseded, changes nothing and leaves the project dirty.\<close>

theorem late_edit_is_never_lost:
  assumes "dirty_wf g" and "0 < dg_desired g" and "trace dirty_step g es h"
    and "dg_desired g < dg_desired h" and "list_all (\<lambda>e. e \<noteq> Acknowledge (dg_desired h)) es"
  shows "dirty_acknowledge h (dg_desired g) = (Inr (Superseded (dg_desired h) (dg_desired g)), h) \<and>
    is_dirty h"
proof
  show "dirty_acknowledge h (dg_desired g) = (Inr (Superseded (dg_desired h) (dg_desired g)), h)"
    using assms(2,4) by (simp add: dirty_acknowledge_def)
  have "dg_indexed h < D" if "trace dirty_step g es h" "list_all (\<lambda>e. e \<noteq> Acknowledge D) es"
    "dg_indexed g < D" "dirty_wf g" "dg_desired h \<le> D" for D
    using that
  proof (induction rule: trace.induct)
    case (trace_cons g e g' es h)
    have wf: "dirty_wf g'" using trace_cons by (simp add: dirty_apply_wf)
    have "dg_desired g \<le> D"
      using dirty_apply_mono [OF trace_cons.prems(3), of e] dirty_trace_mono [OF trace_cons.hyps(2) wf]
        trace_cons by simp
    then have "dg_indexed g' < D"
    proof (cases e)
      case (MarkDirty n)
      obtain r g'' where "mark_dirty_many g n = (r, g'')" by fastforce
      with MarkDirty trace_cons show ?thesis by (auto elim!: mark_dirty_many_cases)
    next
      case (Acknowledge n)
      then show ?thesis
        using trace_cons \<open>dg_desired g \<le> D\<close> by (auto simp: dirty_acknowledge_def)
    qed
    with trace_cons wf show ?case by simp
  qed simp
  from this [OF assms(3,5)] assms(1,4) show "is_dirty h"
    by (simp add: is_dirty_def dirty_wf_def)
qed

theorem late_edit_is_never_lost_witness:
  "let g = dirty_apply dirty_new (MarkDirty 1); h = dirty_apply g (MarkDirty 1)
   in fst (dirty_acknowledge h 1) = Inr (Superseded 2 1) \<and> is_dirty h"
proof -
  define g where "g = dirty_apply dirty_new (MarkDirty 1)"
  define h where "h = dirty_apply g (MarkDirty 1)"
  have g: "g = \<lparr>dg_desired = 1, dg_indexed = 0\<rparr>"
    by (simp add: g_def mark_dirty_many_def dirty_new_def u64_checked_add_def u64_max_def
        MAX_GENERATION_def i64_max_def)
  have h: "h = \<lparr>dg_desired = 2, dg_indexed = 0\<rparr>"
    by (simp add: h_def g mark_dirty_many_def u64_checked_add_def u64_max_def
        MAX_GENERATION_def i64_max_def)
  have "dirty_wf g" by (simp add: g dirty_wf_def MAX_GENERATION_def i64_max_def)
  moreover have "trace dirty_step g [MarkDirty 1] h" by (simp add: trace_Cons_iff h_def)
  ultimately have "fst (dirty_acknowledge h 1) = Inr (Superseded 2 1) \<and> is_dirty h"
    using late_edit_is_never_lost [of g "[MarkDirty 1]" h] by (simp add: g h)
  then show ?thesis by (simp only: Let_def g_def h_def)
qed

end
