(* ===== verification/WatchDebounce.thy ===== *)
theory WatchDebounce
  imports WatchPath Machines
begin

text \<open>
  Debounce with a hard maximum wait: \<^verbatim>\<open>graph-watch/src/debounce.rs\<close>.  An \<open>Instant\<close> is a
  number of nanoseconds up to \<open>INSTANT_MAX\<close>, the largest the operating system represents;
  \<open>checked_add\<close> beyond it is \<open>None\<close>.
\<close>

type_synonym instant = nat
type_synonym duration = nat

definition INSTANT_MAX :: instant where
  "INSTANT_MAX = 9223372036854775807999999999"

definition from_millis :: "u64 \<Rightarrow> duration" where
  "from_millis ms = ms * 1000000"

definition instant_checked_add :: "instant \<Rightarrow> duration \<Rightarrow> instant option" where
  "instant_checked_add t d = (if t + d \<le> INSTANT_MAX then Some (t + d) else None)"

definition MAX_DEBOUNCED_PATHS :: usize where "MAX_DEBOUNCED_PATHS = 65536"
definition DEFAULT_MAX_DEBOUNCE_MS :: u64 where "DEFAULT_MAX_DEBOUNCE_MS = 3000"
definition DEFAULT_DEBOUNCE_MS :: u64 where "DEFAULT_DEBOUNCE_MS = 750"

record debounce_policy =
  dbp_debounce :: duration
  dbp_max_debounce :: duration

definition debounce_policy_default :: debounce_policy where
  "debounce_policy_default =
     \<lparr>dbp_debounce = from_millis DEFAULT_DEBOUNCE_MS,
      dbp_max_debounce = from_millis DEFAULT_MAX_DEBOUNCE_MS\<rparr>"

definition debounce_policy_new :: "u64 \<Rightarrow> u64 \<Rightarrow> debounce_policy result" where
  "debounce_policy_new debounce_ms max_debounce_ms =
     (if debounce_ms = 0 \<or> max_debounce_ms = 0 then
        Inl (fail ConfigInvalid ''debounce bounds must be positive''
          [(''debounce_ms'', show_nat debounce_ms), (''max_debounce_ms'', show_nat max_debounce_ms)])
      else if max_debounce_ms < debounce_ms then
        Inl (fail ConfigInvalid
          ''the maximum debounce wait must not be shorter than the quiet period''
          [(''debounce_ms'', show_nat debounce_ms), (''max_debounce_ms'', show_nat max_debounce_ms)])
      else
        Inr \<lparr>dbp_debounce = from_millis debounce_ms,
             dbp_max_debounce = from_millis max_debounce_ms\<rparr>)"

datatype flush_trigger = QuietPeriod | MaximumWait

record debounced_batch =
  bb_paths :: "string list"
  bb_trigger :: flush_trigger

record debouncer =
  db_policy :: debounce_policy
  db_pending :: "string btree_set"
  db_first_pending_at :: "instant option"
  db_last_hint_at :: "instant option"

definition debouncer_new :: "debounce_policy \<Rightarrow> debouncer" where
  "debouncer_new policy =
     \<lparr>db_policy = policy, db_pending = [], db_first_pending_at = None, db_last_hint_at = None\<rparr>"

definition debounce_note :: "debouncer \<Rightarrow> string \<Rightarrow> instant \<Rightarrow> unit result \<times> debouncer" where
  "debounce_note d path now =
     (case portable_relative_path path of
        Inl e \<Rightarrow> (Inl e, d)
      | Inr path \<Rightarrow>
          if path \<notin> set (db_pending d) \<and> length (db_pending d) \<ge> MAX_DEBOUNCED_PATHS then
            (Inl (fail ValidationError ''debounce buffer exceeded its bound; a full scan is required''
               [(''limit'', show_nat MAX_DEBOUNCED_PATHS)]), d)
          else
            let d = (if db_pending d = [] then d\<lparr>db_first_pending_at := Some now\<rparr> else d)
            in (Inr (), d\<lparr>db_pending := bs_insert path (db_pending d), db_last_hint_at := Some now\<rparr>))"

definition next_deadline :: "debouncer \<Rightarrow> instant option" where
  "next_deadline d =
     (if db_pending d = [] then None
      else
        case Option.bind (db_last_hint_at d) (\<lambda>t. instant_checked_add t (dbp_debounce (db_policy d))) of
          None \<Rightarrow> None
        | Some quiet \<Rightarrow>
            (case Option.bind (db_first_pending_at d)
               (\<lambda>t. instant_checked_add t (dbp_max_debounce (db_policy d))) of
               None \<Rightarrow> None
             | Some maximum \<Rightarrow> Some (if quiet < maximum then quiet else maximum)))"

definition flush :: "debouncer \<Rightarrow> flush_trigger \<Rightarrow> debounced_batch option \<times> debouncer" where
  "flush d trigger =
     (if db_pending d = [] then (None, d)
      else (Some \<lparr>bb_paths = db_pending d, bb_trigger = trigger\<rparr>,
            d\<lparr>db_pending := [], db_first_pending_at := None, db_last_hint_at := None\<rparr>))"

definition debounce_take :: "debouncer \<Rightarrow> instant \<Rightarrow> debounced_batch option \<times> debouncer" where
  "debounce_take d now =
     (case next_deadline d of
        None \<Rightarrow> (None, d)
      | Some deadline \<Rightarrow>
          if now < deadline then (None, d)
          else
            let maximum = Option.bind (db_first_pending_at d)
                  (\<lambda>first. instant_checked_add first (dbp_max_debounce (db_policy d)));
                trigger = (case maximum of
                    Some maximum \<Rightarrow> if now \<ge> maximum then MaximumWait else QuietPeriod
                  | None \<Rightarrow> QuietPeriod)
            in flush d trigger)"

definition flush_now :: "debouncer \<Rightarrow> debounced_batch option \<times> debouncer" where
  "flush_now d = flush d MaximumWait"

section \<open>The debouncer as a machine\<close>

datatype debounce_event = DebounceNote string instant | DebounceTake instant | DebounceFlush

fun debounce_apply :: "debouncer \<Rightarrow> debounce_event \<Rightarrow> debouncer" where
  "debounce_apply d (DebounceNote path now) = snd (debounce_note d path now)"
| "debounce_apply d (DebounceTake now) = snd (debounce_take d now)"
| "debounce_apply d DebounceFlush = snd (flush_now d)"

abbreviation debounce_step where "debounce_step d e d' \<equiv> d' = debounce_apply d e"

text \<open>Pending paths are sorted, bounded, canonical, and carry both instants.\<close>

definition debounce_wf :: "debouncer \<Rightarrow> bool" where
  "debounce_wf d \<longleftrightarrow>
     sorted_wrt (<) (db_pending d) \<and> length (db_pending d) \<le> MAX_DEBOUNCED_PATHS \<and>
     list_all (\<lambda>path. portable_relative_path path = Inr path) (db_pending d) \<and>
     (db_pending d = [] \<longleftrightarrow> db_first_pending_at d = None) \<and>
     (db_first_pending_at d = None \<longleftrightarrow> db_last_hint_at d = None)"

lemma debouncer_new_wf: "debounce_wf (debouncer_new p)"
  by (simp add: debounce_wf_def debouncer_new_def)

lemma bs_insert_not_Nil [simp]: "bs_insert k s \<noteq> []"
  by (metis empty_iff empty_set insertI1 set_bs_insert)

lemma debounce_note_wf: "debounce_wf d \<Longrightarrow> debounce_wf (snd (debounce_note d path now))"
proof (cases "portable_relative_path path")
  case (Inr p)
  moreover have "portable_relative_path p = Inr p" by (rule portable_idem [OF Inr])
  ultimately show "debounce_wf d \<Longrightarrow> ?thesis"
    by (auto simp: debounce_note_def debounce_wf_def Let_def length_bs_insert list_all_iff)
qed (simp add: debounce_note_def)

lemma flush_wf: "debounce_wf d \<Longrightarrow> debounce_wf (snd (flush d trigger))"
  by (auto simp: flush_def debounce_wf_def)

lemma debounce_take_wf: "debounce_wf d \<Longrightarrow> debounce_wf (snd (debounce_take d now))"
  by (auto simp: debounce_take_def Let_def flush_wf split: option.splits)

interpretation debounce: state_machine debounce_step debounce_wf
proof
  fix d d' :: debouncer and e
  assume "debounce_step d e d'" and "debounce_wf d"
  then show "debounce_wf d'"
    by (cases e) (simp_all add: debounce_note_wf debounce_take_wf flush_now_def flush_wf)
qed

lemma flush_releases:
  "db_pending d \<noteq> [] \<Longrightarrow>
     flush d trigger = (Some \<lparr>bb_paths = db_pending d, bb_trigger = trigger\<rparr>,
       d\<lparr>db_pending := [], db_first_pending_at := None, db_last_hint_at := None\<rparr>)"
  by (simp add: flush_def)

text \<open>Notes keep the first instant, so the deadline never moves past first plus maximum.\<close>

lemma debounce_note_first:
  "db_first_pending_at d = Some first \<Longrightarrow> db_pending d \<noteq> [] \<Longrightarrow>
     db_first_pending_at (snd (debounce_note d path now)) = Some first \<and>
     db_pending (snd (debounce_note d path now)) \<noteq> [] \<and>
     db_policy (snd (debounce_note d path now)) = db_policy d"
  by (auto simp: debounce_note_def Let_def split: sum.splits)

lemma next_deadline_bound:
  assumes "next_deadline d = Some t" and "db_first_pending_at d = Some first"
  shows "t \<le> first + dbp_max_debounce (db_policy d)"
  using assms
  by (auto simp: next_deadline_def instant_checked_add_def Option.bind_eq_Some_conv
      split: if_splits option.splits)

section \<open>Properties of the debouncer\<close>

text \<open>Notes whose instants are not after \<open>now\<close>.\<close>

fun note_before :: "instant \<Rightarrow> debounce_event \<Rightarrow> bool" where
  "note_before now (DebounceNote path t) \<longleftrightarrow> t \<le> now"
| "note_before now _ = False"

lemma notes_keep_pending:
  assumes "trace debounce_step d es d'" and "list_all (note_before now) es"
    and "db_first_pending_at d = Some first" and "p \<in> set (db_pending d)"
    and "db_last_hint_at d = Some lst" and "lst \<le> now"
  shows "db_first_pending_at d' = Some first \<and> p \<in> set (db_pending d') \<and>
    db_policy d' = db_policy d \<and> (\<exists>lst. db_last_hint_at d' = Some lst \<and> lst \<le> now)"
  using assms
proof (induction arbitrary: lst rule: trace.induct)
  case (trace_cons d e d1 es d')
  then obtain path t where e: "e = DebounceNote path t" and t: "t \<le> now" by (cases e) auto
  have "db_pending d \<noteq> []" using trace_cons.prems(3) by auto
  then have "db_first_pending_at d1 = Some first \<and> p \<in> set (db_pending d1) \<and>
      db_policy d1 = db_policy d \<and> (db_last_hint_at d1 = Some t \<or> db_last_hint_at d1 = Some lst)"
    using trace_cons e by (auto simp: debounce_note_def Let_def split: sum.splits)
  then show ?case using trace_cons t by auto
qed simp

text \<open>A path waits at most the maximum: however many further hints arrive, once the oldest pending
  path has waited \<open>max_debounce\<close> the next take releases the whole batch, that path included, and the
  debouncer is idle again.\<close>

theorem debounce_maximum_wait:
  assumes "debounce_wf d" and "p \<in> set (db_pending d)" and "db_first_pending_at d = Some first"
    and "db_last_hint_at d = Some lst" and "lst \<le> now"
    and "trace debounce_step d es d'" and "list_all (note_before now) es"
    and "first + dbp_max_debounce (db_policy d) \<le> now"
    and "now + dbp_debounce (db_policy d) \<le> INSTANT_MAX"
  shows "\<exists>batch idle. debounce_take d' now = (Some batch, idle) \<and> p \<in> set (bb_paths batch) \<and>
    set (bb_paths batch) = set (db_pending d') \<and> bb_trigger batch = MaximumWait \<and>
    db_pending idle = [] \<and> db_first_pending_at idle = None"
proof -
  from notes_keep_pending [OF assms(6,7,3,2,4,5)]
  obtain lst' where n: "db_first_pending_at d' = Some first" "p \<in> set (db_pending d')"
    "db_policy d' = db_policy d" "db_last_hint_at d' = Some lst'" "lst' \<le> now"
    by blast
  then have pending: "db_pending d' \<noteq> []" by auto
  have quiet: "instant_checked_add lst' (dbp_debounce (db_policy d)) \<noteq> None"
    and maximum: "instant_checked_add first (dbp_max_debounce (db_policy d)) =
      Some (first + dbp_max_debounce (db_policy d))"
    using n(5) assms(8,9) by (simp_all add: instant_checked_add_def)
  then obtain t where deadline: "next_deadline d' = Some t"
    using n pending by (auto simp: next_deadline_def)
  have "t \<le> first + dbp_max_debounce (db_policy d)"
    using next_deadline_bound [OF deadline n(1)] n(3) by simp
  then have "\<not> now < t" using assms(8) by simp
  then have "debounce_take d' now = flush d' MaximumWait"
    using deadline n(1,3) maximum assms(8) by (simp add: debounce_take_def)
  then show ?thesis
    using flush_releases [OF pending, of MaximumWait] n(2) by simp
qed

theorem debounce_maximum_wait_witness:
  "let d = debounce_apply (debouncer_new \<lparr>dbp_debounce = 5, dbp_max_debounce = 8\<rparr>)
         (DebounceNote ''a'' 0);
       d' = debounce_apply d (DebounceNote ''b'' 7)
   in \<exists>batch idle. debounce_take d' 8 = (Some batch, idle) \<and> ''a'' \<in> set (bb_paths batch)"
proof -
  define d where "d = debounce_apply (debouncer_new \<lparr>dbp_debounce = 5, dbp_max_debounce = 8\<rparr>)
    (DebounceNote ''a'' 0)"
  define d' where "d' = debounce_apply d (DebounceNote ''b'' 7)"
  have "portable_relative_path ''a'' = Inr ''a''" by code_simp
  then have d: "d = \<lparr>db_policy = \<lparr>dbp_debounce = 5, dbp_max_debounce = 8\<rparr>, db_pending = [''a''],
      db_first_pending_at = Some 0, db_last_hint_at = Some 0\<rparr>"
    by (simp add: d_def debounce_note_def debouncer_new_def bs_insert_def MAX_DEBOUNCED_PATHS_def)
  have "debounce_wf d" unfolding d_def
    by (simp add: debounce_note_wf debouncer_new_wf)
  moreover have "trace debounce_step d [DebounceNote ''b'' 7] d'" by (simp add: trace_Cons_iff d'_def)
  ultimately have "\<exists>batch idle. debounce_take d' 8 = (Some batch, idle) \<and> ''a'' \<in> set (bb_paths batch)"
    using debounce_maximum_wait [of d "''a''" 0 0 8 "[DebounceNote ''b'' 7]" d']
    by (auto simp: d INSTANT_MAX_def)
  then show ?thesis by (simp only: Let_def d_def d'_def)
qed

end
