(* ===== verification/WatchNormalize.thy ===== *)
theory WatchNormalize
  imports WatchPath
begin

text \<open>
  Reduction of one backend flush to actionable hints: \<^verbatim>\<open>graph-watch/src/normalize.rs\<close>.  The
  first loop sorts the hints into groups, the second pairs rename destinations with origins.
\<close>

definition MAX_HINTS_PER_BATCH :: usize where "MAX_HINTS_PER_BATCH = 4096"

datatype raw_kind =
  KindCreated | KindModified | KindRemoved | KindRenamedFrom | KindRenamedTo | KindOther

fun raw_kind_debug :: "raw_kind \<Rightarrow> string" where
  "raw_kind_debug KindCreated = ''Created''"
| "raw_kind_debug KindModified = ''Modified''"
| "raw_kind_debug KindRemoved = ''Removed''"
| "raw_kind_debug KindRenamedFrom = ''RenamedFrom''"
| "raw_kind_debug KindRenamedTo = ''RenamedTo''"
| "raw_kind_debug KindOther = ''Other''"

record raw_hint =
  rh_path :: string
  rh_kind :: raw_kind

datatype file_action = Upsert | Remove

record normalized_hint =
  nh_action :: file_action
  nh_path :: string
  nh_origin :: "string option"
  nh_case_only_rename :: bool

record normalization_outcome =
  no_hints :: "normalized_hint list"
  no_unmatched_renames_from :: "string list"
  no_dropped :: usize

text \<open>The vectors the first loop fills.\<close>

record hint_groups =
  hg_removals :: "string list"
  hg_upserts :: "string list"
  hg_rename_origins :: "string list"
  hg_pending_renames_to :: "string list"
  hg_dropped :: usize

fun group_hint :: "hint_groups \<Rightarrow> string \<Rightarrow> raw_kind \<Rightarrow> hint_groups" where
  "group_hint g path KindCreated = g\<lparr>hg_upserts := hg_upserts g @ [path]\<rparr>"
| "group_hint g path KindModified = g\<lparr>hg_upserts := hg_upserts g @ [path]\<rparr>"
| "group_hint g path KindRemoved = g\<lparr>hg_removals := hg_removals g @ [path]\<rparr>"
| "group_hint g path KindRenamedFrom =
     g\<lparr>hg_removals := hg_removals g @ [path], hg_rename_origins := hg_rename_origins g @ [path]\<rparr>"
| "group_hint g path KindRenamedTo =
     g\<lparr>hg_pending_renames_to := hg_pending_renames_to g @ [path]\<rparr>"
| "group_hint g path KindOther = g\<lparr>hg_dropped := hg_dropped g + 1\<rparr>"

fun group_hints :: "hint_groups \<Rightarrow> raw_hint list \<Rightarrow> hint_groups result" where
  "group_hints g [] = Inr g"
| "group_hints g (hint # hints) =
     (case portable_relative_path (rh_path hint) of
        Inl e \<Rightarrow>
          Inl (with_detail (with_detail e ''hint_kind'' (raw_kind_debug (rh_kind hint)))
            ''hint_path'' (rh_path hint))
      | Inr path \<Rightarrow> group_hints (group_hint g path (rh_kind hint)) hints)"

definition rename_origin ::
  "bool \<Rightarrow> string list \<Rightarrow> string list \<Rightarrow> string \<Rightarrow> string option" where
  "rename_origin windows origins used path =
     (case find (\<lambda>candidate. candidate \<notin> set used \<and> same_path windows candidate path) origins of
        Some candidate \<Rightarrow> Some candidate
      | None \<Rightarrow> find (\<lambda>candidate. candidate \<notin> set used) origins)"

fun pair_renames ::
  "bool \<Rightarrow> string list \<Rightarrow> string list \<Rightarrow> string list \<Rightarrow> normalized_hint list \<times> string list" where
  "pair_renames windows origins used [] = ([], used)"
| "pair_renames windows origins used (path # rest) =
     (let origin = rename_origin windows origins used path;
          case_only = (case origin of
              None \<Rightarrow> False | Some o' \<Rightarrow> o' \<noteq> path \<and> same_path windows o' path);
          used = (case origin of None \<Rightarrow> used | Some o' \<Rightarrow> used @ [o']);
          (hints, used) = pair_renames windows origins used rest
      in (\<lparr>nh_action = Upsert, nh_path = path, nh_origin = origin,
           nh_case_only_rename = case_only\<rparr> # hints, used))"

abbreviation plain_hint :: "file_action \<Rightarrow> string \<Rightarrow> normalized_hint" where
  "plain_hint action path \<equiv>
     \<lparr>nh_action = action, nh_path = path, nh_origin = None, nh_case_only_rename = False\<rparr>"

definition no_groups :: hint_groups where
  "no_groups = \<lparr>hg_removals = [], hg_upserts = [], hg_rename_origins = [],
     hg_pending_renames_to = [], hg_dropped = 0\<rparr>"

definition normalize :: "bool \<Rightarrow> raw_hint list \<Rightarrow> normalization_outcome result" where
  "normalize windows hints =
     (if length hints > MAX_HINTS_PER_BATCH then
        Inl (fail ValidationError
          ''one watcher flush reported more hints than the bounded batch allows''
          [(''hints'', show_nat (length hints)), (''limit'', show_nat MAX_HINTS_PER_BATCH)])
      else
        case group_hints no_groups hints of
          Inl e \<Rightarrow> Inl e
        | Inr g \<Rightarrow>
            let (paired, used) =
                  pair_renames windows (hg_rename_origins g) [] (hg_pending_renames_to g)
            in Inr
              \<lparr>no_hints = map (plain_hint Remove) (hg_removals g)
                 @ map (plain_hint Upsert) (hg_upserts g) @ paired,
               no_unmatched_renames_from =
                 filter (\<lambda>origin. origin \<notin> set used) (hg_rename_origins g),
               no_dropped = hg_dropped g\<rparr>)"

section \<open>The grouping loop\<close>

definition paths_of :: "(raw_kind \<Rightarrow> bool) \<Rightarrow> raw_hint list \<Rightarrow> string list" where
  "paths_of p hints = map (unify_separators \<circ> rh_path) (filter (p \<circ> rh_kind) hints)"

lemma paths_of_simps [simp]:
  "paths_of p [] = []"
  "paths_of p (h # hs) = (if p (rh_kind h) then [unify_separators (rh_path h)] else []) @ paths_of p hs"
  by (simp_all add: paths_of_def)

lemma group_hints_ok:
  "group_hints g hints = Inr g' \<longleftrightarrow>
     list_all (\<lambda>h. is_portable_relative_path (rh_path h)) hints \<and>
     g' = \<lparr>hg_removals = hg_removals g @ paths_of (\<lambda>k. k \<in> {KindRemoved, KindRenamedFrom}) hints,
       hg_upserts = hg_upserts g @ paths_of (\<lambda>k. k \<in> {KindCreated, KindModified}) hints,
       hg_rename_origins = hg_rename_origins g @ paths_of (\<lambda>k. k = KindRenamedFrom) hints,
       hg_pending_renames_to = hg_pending_renames_to g @ paths_of (\<lambda>k. k = KindRenamedTo) hints,
       hg_dropped = hg_dropped g + length (paths_of (\<lambda>k. k = KindOther) hints)\<rparr>"
proof (induction g hints rule: group_hints.induct)
  case (2 g hint hints)
  show ?case
  proof (cases "portable_relative_path (rh_path hint)")
    case (Inr path)
    then have "path = unify_separators (rh_path hint)" by (simp add: portable_ok)
    with Inr 2 show ?thesis
      by (cases "rh_kind hint") (auto simp: is_portable_relative_path_def)
  qed (simp add: is_portable_relative_path_def)
qed auto

section \<open>The pairing loop\<close>

lemma rename_origin_Some:
  "rename_origin w origins used path = Some o' \<Longrightarrow> o' \<in> set origins \<and> o' \<notin> set used"
  by (auto simp: rename_origin_def find_Some_iff split: option.splits)

lemma rename_origin_None:
  "rename_origin w origins used path = None \<longleftrightarrow> set origins \<subseteq> set used"
  by (fastforce simp: rename_origin_def find_None_iff find_Some_iff split: option.splits)

lemma snd_pair_renames:
  "snd (pair_renames w origins used (path # rest)) =
     snd (pair_renames w origins
       (case rename_origin w origins used path of None \<Rightarrow> used | Some o' \<Rightarrow> used @ [o']) rest)"
  by (simp add: Let_def split: prod.splits)

lemma pair_renames_paths: "map nh_path (fst (pair_renames w origins used tos)) = tos"
  by (induction w origins used tos rule: pair_renames.induct) (auto simp: Let_def split: prod.splits)

lemma pair_renames_upserts: "h \<in> set (fst (pair_renames w origins used tos)) \<Longrightarrow> nh_action h = Upsert"
  by (induction w origins used tos rule: pair_renames.induct) (auto simp: Let_def split: prod.splits)

lemma length_pair_renames: "length (fst (pair_renames w origins used tos)) = length tos"
  by (metis length_map pair_renames_paths)

text \<open>Every destination consumes one origin while any is left.\<close>

lemma pair_renames_used:
  assumes "set used \<subseteq> set origins" and "distinct used"
  shows "set (snd (pair_renames w origins used tos)) \<subseteq> set origins \<and>
     distinct (snd (pair_renames w origins used tos)) \<and>
     length (snd (pair_renames w origins used tos)) =
       min (length used + length tos) (card (set origins))"
  using assms
proof (induction tos arbitrary: used)
  case Nil
  then have "length used \<le> card (set origins)"
    by (metis List.finite_set card_mono distinct_card)
  with Nil show ?case by simp
next
  case (Cons path rest)
  show ?case
  proof (cases "rename_origin w origins used path")
    case None
    then have "set used = set origins" using Cons.prems by (simp add: rename_origin_None subset_antisym)
    then have "length used = card (set origins)" using Cons.prems by (metis distinct_card)
    with None Cons show ?thesis by (simp add: snd_pair_renames del: pair_renames.simps)
  next
    case (Some o')
    then have fresh: "o' \<in> set origins" "o' \<notin> set used" by (auto dest: rename_origin_Some)
    then have "set (used @ [o']) \<subseteq> set origins" "distinct (used @ [o'])" using Cons.prems by auto
    with Some Cons.IH [of "used @ [o']"] show ?thesis
      by (simp add: snd_pair_renames del: pair_renames.simps)
  qed
qed

section \<open>Outcomes\<close>

lemma normalize_ok:
  assumes "normalize windows hints = Inr n"
  obtains paired used where
      "pair_renames windows (paths_of (\<lambda>k. k = KindRenamedFrom) hints) []
         (paths_of (\<lambda>k. k = KindRenamedTo) hints) = (paired, used)"
    and "no_hints n = map (plain_hint Remove) (paths_of (\<lambda>k. k \<in> {KindRemoved, KindRenamedFrom}) hints)
         @ map (plain_hint Upsert) (paths_of (\<lambda>k. k \<in> {KindCreated, KindModified}) hints) @ paired"
    and "no_unmatched_renames_from n =
         filter (\<lambda>origin. origin \<notin> set used) (paths_of (\<lambda>k. k = KindRenamedFrom) hints)"
    and "no_dropped n = length (paths_of (\<lambda>k. k = KindOther) hints)"
    and "length hints \<le> MAX_HINTS_PER_BATCH"
proof -
  from assms obtain g where g: "group_hints no_groups hints = Inr g"
    and small: "length hints \<le> MAX_HINTS_PER_BATCH"
    by (auto simp: normalize_def split: if_splits sum.splits)
  obtain paired used where pu: "pair_renames windows (hg_rename_origins g) []
      (hg_pending_renames_to g) = (paired, used)" by fastforce
  from g have "g = \<lparr>hg_removals = paths_of (\<lambda>k. k \<in> {KindRemoved, KindRenamedFrom}) hints,
       hg_upserts = paths_of (\<lambda>k. k \<in> {KindCreated, KindModified}) hints,
       hg_rename_origins = paths_of (\<lambda>k. k = KindRenamedFrom) hints,
       hg_pending_renames_to = paths_of (\<lambda>k. k = KindRenamedTo) hints,
       hg_dropped = length (paths_of (\<lambda>k. k = KindOther) hints)\<rparr>"
    by (simp add: group_hints_ok no_groups_def)
  then show thesis
    using that assms g small pu by (auto simp: normalize_def)
qed

lemma normalize_total:
  assumes "list_all (\<lambda>h. is_portable_relative_path (rh_path h)) hints"
    and "length hints \<le> MAX_HINTS_PER_BATCH"
  shows "\<exists>n. normalize windows hints = Inr n"
proof -
  from assms(1) obtain g where "group_hints no_groups hints = Inr g"
    using group_hints_ok [of no_groups hints] by blast
  with assms(2) show ?thesis by (simp add: normalize_def split: prod.splits)
qed

lemma hint_kinds_partition:
  "length (paths_of (\<lambda>k. k \<in> {KindRemoved, KindRenamedFrom}) hints) +
   length (paths_of (\<lambda>k. k \<in> {KindCreated, KindModified}) hints) +
   length (paths_of (\<lambda>k. k = KindRenamedTo) hints) +
   length (paths_of (\<lambda>k. k = KindOther) hints) = length hints"
proof (induction hints)
  case (Cons h hints)
  then show ?case by (cases "rh_kind h") simp_all
qed simp

lemma normalize_length:
  assumes "normalize windows hints = Inr n"
  shows "length (no_hints n) + no_dropped n = length hints"
  using assms
proof (rule normalize_ok)
  fix paired used
  assume "pair_renames windows (paths_of (\<lambda>k. k = KindRenamedFrom) hints) []
         (paths_of (\<lambda>k. k = KindRenamedTo) hints) = (paired, used)"
    and n: "no_hints n = map (plain_hint Remove) (paths_of (\<lambda>k. k \<in> {KindRemoved, KindRenamedFrom}) hints)
         @ map (plain_hint Upsert) (paths_of (\<lambda>k. k \<in> {KindCreated, KindModified}) hints) @ paired"
    and d: "no_dropped n = length (paths_of (\<lambda>k. k = KindOther) hints)"
  then have "length paired = length (paths_of (\<lambda>k. k = KindRenamedTo) hints)"
    using length_pair_renames by (metis fst_conv)
  then show ?thesis using hint_kinds_partition [of hints] n d by simp
qed

section \<open>Properties of normalization\<close>

text \<open>Normalization drops nothing and orders safely: every raw hint becomes exactly one action or is
  counted as dropped, all removals come before all upserts, the removed paths are those removed or
  renamed away, and the upserted paths those created, modified or renamed to.\<close>

theorem normalize_conserves_hints:
  assumes "normalize windows hints = Inr n"
  shows "length (no_hints n) + no_dropped n = length hints \<and>
    no_hints n = filter (\<lambda>h. nh_action h = Remove) (no_hints n) @
      filter (\<lambda>h. nh_action h = Upsert) (no_hints n) \<and>
    map nh_path (filter (\<lambda>h. nh_action h = Remove) (no_hints n)) =
      paths_of (\<lambda>k. k \<in> {KindRemoved, KindRenamedFrom}) hints \<and>
    map nh_path (filter (\<lambda>h. nh_action h = Upsert) (no_hints n)) =
      paths_of (\<lambda>k. k \<in> {KindCreated, KindModified}) hints @ paths_of (\<lambda>k. k = KindRenamedTo) hints"
  using assms
proof (rule normalize_ok)
  fix paired used
  assume pu: "pair_renames windows (paths_of (\<lambda>k. k = KindRenamedFrom) hints) []
         (paths_of (\<lambda>k. k = KindRenamedTo) hints) = (paired, used)"
    and n: "no_hints n = map (plain_hint Remove) (paths_of (\<lambda>k. k \<in> {KindRemoved, KindRenamedFrom}) hints)
         @ map (plain_hint Upsert) (paths_of (\<lambda>k. k \<in> {KindCreated, KindModified}) hints) @ paired"
  have up: "\<forall>h \<in> set paired. nh_action h = Upsert"
    and paths: "map nh_path paired = paths_of (\<lambda>k. k = KindRenamedTo) hints"
    using pair_renames_upserts [of _ windows "paths_of (\<lambda>k. k = KindRenamedFrom) hints" "[]"
        "paths_of (\<lambda>k. k = KindRenamedTo) hints"]
      pair_renames_paths [of windows "paths_of (\<lambda>k. k = KindRenamedFrom) hints" "[]"
        "paths_of (\<lambda>k. k = KindRenamedTo) hints"] pu by simp_all
  have "length (no_hints n) + no_dropped n = length hints" by (rule normalize_length [OF assms])
  moreover have "filter (\<lambda>h. nh_action h = Remove) paired = []" "filter (\<lambda>h. nh_action h = Upsert) paired = paired"
    using up by (auto simp: filter_empty_conv)
  ultimately show ?thesis using n paths by (simp add: filter_map comp_def)
qed

theorem normalize_conserves_hints_witness:
  "case normalize False [\<lparr>rh_path = ''b'', rh_kind = KindCreated\<rparr>,
      \<lparr>rh_path = ''a'', rh_kind = KindRemoved\<rparr>] of
     Inl _ \<Rightarrow> False | Inr n \<Rightarrow> length (no_hints n) + no_dropped n = 2"
proof -
  have "\<exists>n. normalize False [\<lparr>rh_path = ''b'', rh_kind = KindCreated\<rparr>,
      \<lparr>rh_path = ''a'', rh_kind = KindRemoved\<rparr>] = Inr n"
    by (simp add: normalize_def MAX_HINTS_PER_BATCH_def portable_relative_path_def Let_def
        unify_separators_def has_absolute_prefix_def starts_with_def no_groups_def)
  then obtain n where n: "normalize False [\<lparr>rh_path = ''b'', rh_kind = KindCreated\<rparr>,
      \<lparr>rh_path = ''a'', rh_kind = KindRemoved\<rparr>] = Inr n" by blast
  from normalize_conserves_hints [OF n] n show ?thesis by simp
qed

text \<open>A flush is reported as complete exactly when it names at least as many rename destinations as
  distinct rename origins; otherwise some origin is listed as unmatched, and every listed one was
  renamed away in this flush.\<close>

theorem unmatched_renames_exact:
  assumes "normalize windows hints = Inr n"
  shows "(no_unmatched_renames_from n = [] \<longleftrightarrow>
      card (set (paths_of (\<lambda>k. k = KindRenamedFrom) hints)) \<le>
        length (paths_of (\<lambda>k. k = KindRenamedTo) hints)) \<and>
    set (no_unmatched_renames_from n) \<subseteq> set (paths_of (\<lambda>k. k = KindRenamedFrom) hints)"
  using assms
proof (rule normalize_ok)
  let ?from = "paths_of (\<lambda>k. k = KindRenamedFrom) hints"
  let ?to = "paths_of (\<lambda>k. k = KindRenamedTo) hints"
  fix paired used
  assume pu: "pair_renames windows ?from [] ?to = (paired, used)"
    and un: "no_unmatched_renames_from n = filter (\<lambda>origin. origin \<notin> set used) ?from"
  have u: "set used \<subseteq> set ?from" "distinct used" "length used = min (length ?to) (card (set ?from))"
    using pair_renames_used [of "[]" ?from windows ?to] pu by simp_all
  have "no_unmatched_renames_from n = [] \<longleftrightarrow> set used = set ?from"
    using u(1) un by (auto simp: filter_empty_conv)
  also have "\<dots> \<longleftrightarrow> card (set used) = card (set ?from)"
    using u(1) by (metis List.finite_set card_subset_eq)
  also have "\<dots> \<longleftrightarrow> card (set ?from) \<le> length ?to"
    unfolding distinct_card [OF u(2)] u(3) by linarith
  finally show ?thesis using un by auto
qed

theorem unmatched_renames_exact_witness:
  "case normalize False [\<lparr>rh_path = ''a'', rh_kind = KindRenamedFrom\<rparr>] of
     Inl _ \<Rightarrow> False | Inr n \<Rightarrow> no_unmatched_renames_from n \<noteq> []"
proof -
  have "\<exists>n. normalize False [\<lparr>rh_path = ''a'', rh_kind = KindRenamedFrom\<rparr>] = Inr n"
    by (simp add: normalize_def MAX_HINTS_PER_BATCH_def portable_relative_path_def Let_def
        unify_separators_def has_absolute_prefix_def starts_with_def no_groups_def)
  then obtain n where n: "normalize False [\<lparr>rh_path = ''a'', rh_kind = KindRenamedFrom\<rparr>] = Inr n"
    by blast
  from unmatched_renames_exact [OF n] n show ?thesis by simp
qed

end
