(* ===== verification/WatchRecovery.thy ===== *)
theory WatchRecovery
  imports WatchNormalize Machines
begin

text \<open>
  The sticky full-scan requirement: \<^verbatim>\<open>graph-watch/src/recovery.rs\<close>, as an instance of
  \<open>sticky_requirement\<close> over the calls of a \<open>RecoveryState\<close>.
\<close>

datatype full_scan_reason =
  ScanOverflow | ScanReconnect | ScanBranchChange | ScanBackendSwitch | ScanBufferOverflow

fun full_scan_reason_str :: "full_scan_reason \<Rightarrow> string" where
  "full_scan_reason_str ScanOverflow = ''backend_overflow''"
| "full_scan_reason_str ScanReconnect = ''backend_reconnect''"
| "full_scan_reason_str ScanBranchChange = ''branch_change''"
| "full_scan_reason_str ScanBackendSwitch = ''backend_switch''"
| "full_scan_reason_str ScanBufferOverflow = ''buffer_overflow''"

datatype backend_event =
  Hints "raw_hint list" | Overflow u64 | Disconnected | Reconnected | BranchChanged string
| BackendSwitched

datatype recovery_decision = ApplyHints "normalized_hint list" | RunFullScan full_scan_reason

fun decision_requires_full_scan :: "recovery_decision \<Rightarrow> bool" where
  "decision_requires_full_scan (RunFullScan _) = True"
| "decision_requires_full_scan (ApplyHints _) = False"

record recovery_state =
  rs_full_scan_required :: "full_scan_reason option"
  rs_epoch :: "string option"

definition recovery_new :: recovery_state where
  "recovery_new = \<lparr>rs_full_scan_required = None, rs_epoch = None\<rparr>"

definition requires_full_scan :: "recovery_state \<Rightarrow> bool" where
  "requires_full_scan s \<longleftrightarrow> rs_full_scan_required s \<noteq> None"

definition require_full_scan ::
  "recovery_state \<Rightarrow> full_scan_reason \<Rightarrow> full_scan_reason \<times> recovery_state" where
  "require_full_scan s reason =
     (case rs_full_scan_required s of
        Some existing \<Rightarrow> (existing, s)
      | None \<Rightarrow> (reason, s\<lparr>rs_full_scan_required := Some reason\<rparr>))"

definition acknowledge_scan :: "recovery_state \<Rightarrow> recovery_state" where
  "acknowledge_scan s = s\<lparr>rs_full_scan_required := None\<rparr>"

definition observe_epoch :: "recovery_state \<Rightarrow> string \<Rightarrow> bool \<times> recovery_state" where
  "observe_epoch s epoch =
     (case rs_epoch s of
        Some previous \<Rightarrow>
          if previous = epoch then (False, s) else (True, s\<lparr>rs_epoch := Some epoch\<rparr>)
      | None \<Rightarrow> (False, s\<lparr>rs_epoch := Some epoch\<rparr>))"

definition scan_for ::
  "recovery_state \<Rightarrow> full_scan_reason \<Rightarrow> recovery_decision result \<times> recovery_state" where
  "scan_for s reason = (case require_full_scan s reason of (r, s') \<Rightarrow> (Inr (RunFullScan r), s'))"

fun absorb ::
  "bool \<Rightarrow> recovery_state \<Rightarrow> backend_event \<Rightarrow> recovery_decision result \<times> recovery_state" where
  "absorb windows s (Hints hints) =
     (case normalize windows hints of
        Inl e \<Rightarrow> (Inl e, s)
      | Inr normalized \<Rightarrow>
          (case rs_full_scan_required s of
             Some existing \<Rightarrow> (Inr (RunFullScan existing), s)
           | None \<Rightarrow> (Inr (ApplyHints (no_hints normalized)), s)))"
| "absorb windows s (Overflow dropped) = scan_for s ScanOverflow"
| "absorb windows s Disconnected = scan_for s ScanReconnect"
| "absorb windows s Reconnected = scan_for s ScanReconnect"
| "absorb windows s BackendSwitched = scan_for s ScanBackendSwitch"
| "absorb windows s (BranchChanged epoch) =
     scan_for (snd (observe_epoch s epoch)) ScanBranchChange"

section \<open>The calls as events\<close>

datatype recovery_event =
  Absorb backend_event | Require full_scan_reason | ObserveEpoch string | AcknowledgeScan

fun recovery_apply :: "bool \<Rightarrow> recovery_state \<Rightarrow> recovery_event \<Rightarrow> recovery_state" where
  "recovery_apply w s (Absorb e) = snd (absorb w s e)"
| "recovery_apply w s (Require r) = snd (require_full_scan s r)"
| "recovery_apply w s (ObserveEpoch e) = snd (observe_epoch s e)"
| "recovery_apply w s AcknowledgeScan = acknowledge_scan s"

abbreviation recovery_step ::
  "bool \<Rightarrow> recovery_state \<Rightarrow> recovery_event \<Rightarrow> recovery_state \<Rightarrow> bool" where
  "recovery_step w s e t \<equiv> t = recovery_apply w s e"

lemma require_full_scan_fields [simp]:
  "rs_full_scan_required (snd (require_full_scan s r)) =
     Some (case rs_full_scan_required s of Some x \<Rightarrow> x | None \<Rightarrow> r)"
  "fst (require_full_scan s r) = (case rs_full_scan_required s of Some x \<Rightarrow> x | None \<Rightarrow> r)"
  "rs_epoch (snd (require_full_scan s r)) = rs_epoch s"
  by (auto simp: require_full_scan_def split: option.splits)

lemma observe_epoch_fields [simp]:
  "rs_full_scan_required (snd (observe_epoch s e)) = rs_full_scan_required s"
  "rs_epoch (snd (observe_epoch s e)) = Some e"
  by (auto simp: observe_epoch_def split: option.splits)

lemma scan_for_fields [simp]:
  "snd (scan_for s r) = snd (require_full_scan s r)"
  "fst (scan_for s r) = Inr (RunFullScan (fst (require_full_scan s r)))"
  by (simp_all add: scan_for_def split_beta)

lemma absorb_keeps:
  "rs_full_scan_required s = Some r \<Longrightarrow> rs_full_scan_required (snd (absorb w s e)) = Some r"
  by (cases e) (auto split: sum.splits option.splits)

text \<open>While a scan is outstanding no event yields hints to apply.\<close>

lemma absorb_withholds:
  "rs_full_scan_required s = Some r \<Longrightarrow> fst (absorb w s e) = Inr d \<Longrightarrow> d = RunFullScan r"
  by (cases e) (auto split: sum.splits option.splits)

lemma absorb_loss:
  "\<not> (\<exists>hints. e = Hints hints) \<Longrightarrow> requires_full_scan (snd (absorb w s e))"
  by (cases e) (auto simp: requires_full_scan_def)

interpretation recovery: sticky_requirement "recovery_step w" rs_full_scan_required
  "\<lambda>e. e = AcknowledgeScan" for w
proof
  fix s t :: recovery_state and e r
  assume "recovery_step w s e t" and "e \<noteq> AcknowledgeScan" and "rs_full_scan_required s = Some r"
  then show "rs_full_scan_required t = Some r"
    by (cases e) (simp_all add: absorb_keeps)
qed

section \<open>Properties of recovery\<close>

text \<open>C32: A loss of events is never forgotten: after any event other than a flush of hints a full scan is
  required, and along every run without an acknowledgement it stays required with the first reason,
  while no event yields hints to apply.\<close>

theorem loss_requires_scan_until_acknowledged:
  assumes "\<not> (\<exists>hints. e = Hints hints)" and "trace (recovery_step w) (snd (absorb w s e)) es t"
    and "AcknowledgeScan \<notin> set es"
  shows "\<exists>reason. rs_full_scan_required (snd (absorb w s e)) = Some reason \<and>
    rs_full_scan_required t = Some reason \<and>
    (\<forall>e' d. fst (absorb w t e') = Inr d \<longrightarrow> d = RunFullScan reason)"
proof -
  obtain reason where r: "rs_full_scan_required (snd (absorb w s e)) = Some reason"
    using absorb_loss [OF assms(1), of w s] by (auto simp: requires_full_scan_def)
  have "list_all (\<lambda>e. e \<noteq> AcknowledgeScan) es" using assms(3) by (auto simp: list_all_iff)
  from recovery.sticky_trace [OF assms(2) this r] have t: "rs_full_scan_required t = Some reason" .
  with r absorb_withholds [OF t] show ?thesis by blast
qed

theorem loss_requires_scan_until_acknowledged_witness:
  "fst (absorb False (recovery_apply False (snd (absorb False recovery_new (Overflow 7)))
     (Absorb Reconnected)) (Hints [])) = Inr (RunFullScan ScanOverflow)"
proof -
  let ?s = "recovery_apply False (snd (absorb False recovery_new (Overflow 7))) (Absorb Reconnected)"
  have "trace (recovery_step False) (snd (absorb False recovery_new (Overflow 7))) [Absorb Reconnected] ?s"
    by (simp add: trace_Cons_iff)
  from loss_requires_scan_until_acknowledged [OF _ this]
  obtain reason where "rs_full_scan_required (snd (absorb False recovery_new (Overflow 7))) = Some reason"
    and w: "\<forall>e' d. fst (absorb False ?s e') = Inr d \<longrightarrow> d = RunFullScan reason" by auto
  then have "reason = ScanOverflow" by (simp add: recovery_new_def)
  moreover have "\<exists>d. fst (absorb False ?s (Hints [])) = Inr d"
    by (simp add: normalize_def MAX_HINTS_PER_BATCH_def no_groups_def recovery_new_def)
  ultimately show ?thesis using w by blast
qed

end
