(* ===== verification/WatchInput.thy ===== *)
theory WatchInput
  imports WatchPath
begin

text \<open>
  Secret files and symlink escapes: \<^verbatim>\<open>graph-watch/src/input_policy.rs\<close>.  \<open>str::split_at\<close>
  panics inside a UTF-8 sequence, so the containment test and the decision have values in
  \<open>run\<close>.
\<close>

datatype watched_entry = EntryFile | ResolvedSymlink string | UnresolvedSymlink

definition SECRET_FILE_NAMES :: "string list" where
  "SECRET_FILE_NAMES =
     [''.env'', ''credentials'', ''credentials.json'', ''secrets.json'', ''id_rsa'',
      ''id_ed25519'', ''.npmrc'', ''.pypirc'', ''.netrc'']"

definition SECRET_EXTENSIONS :: "string list" where
  "SECRET_EXTENSIONS = [''pfx'', ''p12'', ''key'', ''pem'', ''kdbx'']"

definition SECRET_DIRECTORIES :: "string list" where
  "SECRET_DIRECTORIES = [''.secrets'', ''secrets'', ''credentials'']"

datatype input_skip =
  Secret string | SymlinkEscape "string option" | SymlinkUnresolved | SymlinkDisallowed

datatype input_decision = Parsable | Skipped input_skip

fun is_parsable :: "input_decision \<Rightarrow> bool" where
  "is_parsable Parsable = True"
| "is_parsable (Skipped _) = False"

fun decision_skip :: "input_decision \<Rightarrow> input_skip option" where
  "decision_skip Parsable = None"
| "decision_skip (Skipped reason) = Some reason"

record input_policy =
  np_project_root :: string
  np_follow_symlinks :: bool

definition input_policy_new :: "string \<Rightarrow> input_policy" where
  "input_policy_new project_root =
     \<lparr>np_project_root = project_root, np_follow_symlinks = True\<rparr>"

definition without_symlinks :: "input_policy \<Rightarrow> input_policy" where
  "without_symlinks policy = policy\<lparr>np_follow_symlinks := False\<rparr>"

section \<open>Containment in the project root\<close>

definition is_char_boundary :: "string \<Rightarrow> nat \<Rightarrow> bool" where
  "is_char_boundary s i \<longleftrightarrow>
     i = 0 \<or> i = length s \<or> (i < length s \<and> \<not> (CHR 0x80 \<le> s ! i \<and> s ! i < CHR 0xC0))"

definition str_split_at :: "string \<Rightarrow> nat \<Rightarrow> (string \<times> string) run" where
  "str_split_at s mid = (if is_char_boundary s mid then Return (take mid s, drop mid s) else Panic)"

definition trim_trailing_slashes :: "string \<Rightarrow> string" where
  "trim_trailing_slashes s = rev (dropWhile (\<lambda>c. c = CHR ''/'') (rev s))"

definition is_within_root :: "bool \<Rightarrow> string \<Rightarrow> string \<Rightarrow> bool run" where
  "is_within_root windows root candidate =
     (let root = unify_separators root;
          candidate = unify_separators candidate;
          root = trim_trailing_slashes root
      in if root = [] then Return False
         else if length candidate \<le> length root then Return (same_path windows candidate root)
         else
           bind_run (str_split_at candidate (length root)) (\<lambda>(prefix, rest).
             Return (same_path windows prefix root \<and> starts_with rest ''/'')))"

section \<open>Secrets\<close>

definition names_secret :: "string list \<Rightarrow> string \<Rightarrow> string option" where
  "names_secret names s = find (\<lambda>name. eq_ignore_ascii_case s name) names"

definition secret_segments :: "string list \<Rightarrow> input_skip option" where
  "secret_segments segments =
     (case find (\<lambda>segment. list_ex (\<lambda>name. eq_ignore_ascii_case name segment) SECRET_DIRECTORIES)
        (butlast segments) of
        Some segment \<Rightarrow> Some (Secret segment)
      | None \<Rightarrow>
          let final = last segments in
          case names_secret SECRET_FILE_NAMES final of
            Some name \<Rightarrow> Some (Secret name)
          | None \<Rightarrow>
              case rsplit_once CHR ''.'' final of
                None \<Rightarrow> None
              | Some (stem, extension) \<Rightarrow>
                  if list_ex (\<lambda>name. eq_ignore_ascii_case extension name) SECRET_EXTENSIONS then
                    Some (Secret (to_ascii_lowercase extension))
                  else if eq_ignore_ascii_case stem ''.env'' then Some (Secret ''.env'')
                  else None)"

definition secret_skip :: "string \<Rightarrow> input_skip option" where
  "secret_skip path = secret_segments (split_on CHR ''/'' path)"

section \<open>The decision\<close>

fun decide_entry :: "bool \<Rightarrow> input_policy \<Rightarrow> watched_entry \<Rightarrow> input_decision run" where
  "decide_entry windows policy EntryFile = Return Parsable"
| "decide_entry windows policy UnresolvedSymlink = Return (Skipped SymlinkUnresolved)"
| "decide_entry windows policy (ResolvedSymlink target) =
     (if \<not> np_follow_symlinks policy then Return (Skipped SymlinkDisallowed)
      else
        bind_run (is_within_root windows (np_project_root policy) target) (\<lambda>within.
          if within then Return Parsable else Return (Skipped (SymlinkEscape (Some target)))))"

definition input_decide ::
  "bool \<Rightarrow> input_policy \<Rightarrow> string \<Rightarrow> watched_entry \<Rightarrow> input_decision result run" where
  "input_decide windows policy path entry =
     (case portable_relative_path path of
        Inl e \<Rightarrow> Return (Inl e)
      | Inr path \<Rightarrow>
          (case secret_skip path of
             Some skip \<Rightarrow> Return (Inr (Skipped skip))
           | None \<Rightarrow>
               bind_run (decide_entry windows policy entry) (\<lambda>decision. Return (Inr decision))))"

section \<open>Lemmas\<close>

lemma within_root_lexical:
  assumes "is_within_root windows root candidate = Return True"
  shows "\<exists>rest. (rest = [] \<or> hd rest = CHR ''/'') \<and> trim_trailing_slashes (unify_separators root) \<noteq> []
     \<and> same_path windows (take (length (trim_trailing_slashes (unify_separators root)))
            (unify_separators candidate)) (trim_trailing_slashes (unify_separators root))
     \<and> unify_separators candidate =
         take (length (trim_trailing_slashes (unify_separators root))) (unify_separators candidate) @ rest"
proof -
  let ?r = "trim_trailing_slashes (unify_separators root)"
  let ?c = "unify_separators candidate"
  have r: "?r \<noteq> []" using assms by (auto simp: is_within_root_def)
  show ?thesis
  proof (cases "length ?c \<le> length ?r")
    case True
    then have "same_path windows ?c ?r" using assms r by (simp add: is_within_root_def Let_def)
    with True r show ?thesis by (intro exI [of _ "[]"]) simp
  next
    case False
    then have "same_path windows (take (length ?r) ?c) ?r \<and> starts_with (drop (length ?r) ?c) ''/''"
      using assms r by (simp add: is_within_root_def Let_def str_split_at_def split: if_splits)
    moreover from this have "hd (drop (length ?r) ?c) = CHR ''/''"
      by (cases "drop (length ?r) ?c") (simp_all add: starts_with_def)
    ultimately show ?thesis using r by (intro exI [of _ "drop (length ?r) ?c"]) simp
  qed
qed

lemma is_within_root_ascii:
  assumes "\<forall>c \<in> set candidate. c < CHR 0x80"
  shows "is_within_root windows root candidate \<noteq> Panic"
proof -
  have "unify_separators candidate ! i < CHR 0x80" if "i < length (unify_separators candidate)" for i
    using that assms by (auto simp: unify_separators_def less_char_def)
  then have "is_char_boundary (unify_separators candidate) i"
    if "i < length (unify_separators candidate)" for i
    using that unfolding is_char_boundary_def by (meson leD)
  then show ?thesis
    by (auto simp: is_within_root_def Let_def str_split_at_def)
qed

lemma secret_skip_not_parsable:
  "portable_relative_path path = Inr p \<Longrightarrow> secret_skip p = Some s \<Longrightarrow>
     input_decide windows policy path entry = Return (Inr (Skipped s))"
  by (simp add: input_decide_def)

lemma input_decide_canonical:
  "portable_relative_path v = Inr p \<Longrightarrow>
     input_decide windows policy v entry = input_decide windows policy p entry"
  by (rule portable.through_canon [where g = "\<lambda>e. Return (Inl e)"]) (auto simp: input_decide_def)

section \<open>Properties of the input policy\<close>

text \<open>A symlink is followed only inside the project: when a resolved target is parsable, links are
  enabled and the target is the root itself or continues it with a separator.\<close>

theorem followed_symlink_stays_inside:
  assumes "input_decide windows policy path (ResolvedSymlink target) = Return (Inr Parsable)"
  shows "np_follow_symlinks policy \<and>
    (\<exists>prefix rest. unify_separators target = prefix @ rest \<and>
       same_path windows prefix (trim_trailing_slashes (unify_separators (np_project_root policy))) \<and>
       prefix \<noteq> [] \<and> (rest = [] \<or> hd rest = CHR ''/''))"
proof -
  have follow: "np_follow_symlinks policy"
    and "is_within_root windows (np_project_root policy) target = Return True"
    using assms
    by (auto simp: input_decide_def elim!: bind_run.elims
        split: sum.splits option.splits if_splits)
  from within_root_lexical [OF this(2)]
  obtain rest where r: "rest = [] \<or> hd rest = CHR ''/''"
    "trim_trailing_slashes (unify_separators (np_project_root policy)) \<noteq> []"
    "same_path windows (take (length (trim_trailing_slashes (unify_separators (np_project_root policy))))
       (unify_separators target)) (trim_trailing_slashes (unify_separators (np_project_root policy)))"
    "unify_separators target =
       take (length (trim_trailing_slashes (unify_separators (np_project_root policy))))
         (unify_separators target) @ rest"
    by blast
  moreover have "take (length (trim_trailing_slashes (unify_separators (np_project_root policy))))
       (unify_separators target) \<noteq> []"
    using r(2) same_path_length [OF r(3)] by (metis length_0_conv)
  ultimately show ?thesis using follow by blast
qed

theorem followed_symlink_stays_inside_witness:
  "np_follow_symlinks (input_policy_new ''/p'') \<and>
   input_decide False (input_policy_new ''/p'') ''a'' (ResolvedSymlink ''/p/b'') =
     Return (Inr Parsable)"
proof -
  have ok: "input_decide False (input_policy_new ''/p'') ''a'' (ResolvedSymlink ''/p/b'') =
     Return (Inr Parsable)" by code_simp
  with followed_symlink_stays_inside [OF ok] show ?thesis by simp
qed

text \<open>A secret is never parsed: whatever entry is observed, a path under a secret directory, with a
  secret name or with a secret extension is skipped, and the skip does not depend on the entry, the
  policy or the spelling of the path.\<close>

theorem secret_never_parsed:
  assumes "portable_relative_path path = Inr p" and "secret_skip p = Some s"
  shows "input_decide windows policy path entry = Return (Inr (Skipped s)) \<and>
    (\<exists>matched. s = Secret matched)"
proof
  show "input_decide windows policy path entry = Return (Inr (Skipped s))"
    using assms by (rule secret_skip_not_parsable)
  show "\<exists>matched. s = Secret matched"
    using assms(2)
    by (auto simp: secret_skip_def secret_segments_def Let_def split: option.splits if_splits)
qed

theorem secret_never_parsed_witness:
  "input_decide True (input_policy_new ''C:/p'') ''certs/SERVER.PEM'' EntryFile =
     Return (Inr (Skipped (Secret ''pem'')))"
proof -
  have "portable_relative_path ''certs/SERVER.PEM'' = Inr ''certs/SERVER.PEM''"
    and "secret_skip ''certs/SERVER.PEM'' = Some (Secret ''pem'')" by code_simp+
  from secret_never_parsed [OF this] show ?thesis by blast
qed

text \<open>
  Only the last extension of a dotted name is looked at, so \<open>.env.production.local\<close> is parsed.
\<close>

lemma layered_env_file_parsed:
  "input_decide False (input_policy_new ''/p'') ''.env.production'' EntryFile =
     Return (Inr (Skipped (Secret ''.env''))) \<and>
   input_decide False (input_policy_new ''/p'') ''.env.production.local'' EntryFile =
     Return (Inr Parsable)"
  by code_simp

text \<open>
  The containment test splits the target at the length of the root in bytes; when that falls
  inside a multi-byte character the call panics.
\<close>

lemma containment_test_panics:
  "input_decide False (input_policy_new ''/p'') ''link''
     (ResolvedSymlink [CHR ''/'', CHR 0xC3, CHR 0xA9]) = Panic"
  by code_simp

end
