(* ===== verification/WatchInventory.thy ===== *)
theory WatchInventory
  imports WatchIgnore WatchInput
begin

text \<open>
  The complete input inventory: \<^verbatim>\<open>graph-watch/src/inventory.rs\<close> up to the host walk.  The
  walk report is an argument, as \<open>DirentSource::walk\<close> supplies it; planning is a loop over its
  entries.  The lemmas relate the plan to the walk and to the stored inventory.
\<close>

definition MAX_INVENTORY_ENTRIES :: usize where "MAX_INVENTORY_ENTRIES = 500000"

datatype scanned_kind = ScannedFile | ScannedDirectory | ScannedSymlink "string option"

record scanned_entry =
  se_path :: string
  se_kind :: scanned_kind
  se_size_bytes :: u64
  se_content_hash :: "string option"

record walk_report =
  wr_entries :: "scanned_entry list"
  wr_permission_errors :: "string list"
  wr_truncated :: bool

type_synonym known_inventory = "(string, string) btree_map"

definition known_from_pairs :: "(string \<times> string) list \<Rightarrow> known_inventory" where
  "known_from_pairs pairs = foldl (\<lambda>m (path, hash). bt_insert path hash m) [] pairs"

definition hash_of :: "known_inventory \<Rightarrow> string \<Rightarrow> string option" where
  "hash_of known path = bt_get known path"

definition known_paths :: "known_inventory \<Rightarrow> string list" where
  "known_paths known = map fst known"

datatype inventory_event = Added string string | Modified string string | Deleted string


record inventory_plan =
  pl_events :: "inventory_event list"
  pl_excluded :: "(string \<times> ignore_reason) list"
  pl_withheld :: "(string \<times> input_skip) list"
  pl_unreadable :: "string list"
  pl_unchanged :: usize
  pl_full_scan_required :: bool



text \<open>The mutable state of the loop over the entries.\<close>

record inventory_scan =
  is_seen :: "string btree_set"
  is_added :: "inventory_event list"
  is_modified :: "inventory_event list"
  is_excluded :: "(string \<times> ignore_reason) list"
  is_withheld :: "(string \<times> input_skip) list"
  is_unreadable :: "string list"
  is_unchanged :: usize

definition scan_start :: inventory_scan where
  "scan_start = \<lparr>is_seen = [], is_added = [], is_modified = [], is_excluded = [],
     is_withheld = [], is_unreadable = [], is_unchanged = 0\<rparr>"

fun watched_of :: "scanned_kind \<Rightarrow> watched_entry option" where
  "watched_of ScannedDirectory = None"
| "watched_of ScannedFile = Some EntryFile"
| "watched_of (ScannedSymlink (Some target)) = Some (ResolvedSymlink target)"
| "watched_of (ScannedSymlink None) = Some UnresolvedSymlink"

definition note_content ::
  "known_inventory \<Rightarrow> string \<Rightarrow> string option \<Rightarrow> inventory_scan \<Rightarrow> inventory_scan" where
  "note_content known path content_hash st =
     (case content_hash of
        None \<Rightarrow> st\<lparr>is_unreadable := is_unreadable st @ [path]\<rparr>
      | Some content_hash \<Rightarrow>
          (case hash_of known path of
             Some stored \<Rightarrow>
               if stored = content_hash then st\<lparr>is_unchanged := is_unchanged st + 1\<rparr>
               else st\<lparr>is_modified := is_modified st @ [Modified path content_hash]\<rparr>
           | None \<Rightarrow> st\<lparr>is_added := is_added st @ [Added path content_hash]\<rparr>))"

definition scan_entry ::
  "bool \<Rightarrow> known_inventory \<Rightarrow> ignore_policy \<Rightarrow> input_policy \<Rightarrow> inventory_scan \<Rightarrow> scanned_entry \<Rightarrow>
     inventory_scan result run" where
  "scan_entry windows known ignore input st e =
     (case portable_relative_path (se_path e) of
        Inl err \<Rightarrow> Return (Inl err)
      | Inr path \<Rightarrow>
          if path \<in> set (is_seen st) then
            Return (Inl (fail ValidationError ''inventory walk reported the same path twice''
              [(''portable_path'', path)]))
          else
            let st = st\<lparr>is_seen := bs_insert path (is_seen st)\<rparr> in
            case ignore_classify windows ignore path of
              Inl err \<Rightarrow> Return (Inl err)
            | Inr (Ignored reason rule) \<Rightarrow>
                Return (Inr (st\<lparr>is_excluded := is_excluded st @ [(path, reason)]\<rparr>))
            | Inr Tracked \<Rightarrow>
                (case watched_of (se_kind e) of
                   None \<Rightarrow> Return (Inr st)
                 | Some watched \<Rightarrow>
                     bind_run (input_decide windows input path watched) (\<lambda>decision.
                       case decision of
                         Inl err \<Rightarrow> Return (Inl err)
                       | Inr (Skipped reason) \<Rightarrow>
                           Return (Inr (st\<lparr>is_withheld := is_withheld st @ [(path, reason)]\<rparr>))
                       | Inr Parsable \<Rightarrow>
                           Return (Inr (note_content known path (se_content_hash e) st)))))"

fun scan_entries ::
  "bool \<Rightarrow> known_inventory \<Rightarrow> ignore_policy \<Rightarrow> input_policy \<Rightarrow> inventory_scan \<Rightarrow>
     scanned_entry list \<Rightarrow> inventory_scan result run" where
  "scan_entries windows known ignore input st [] = Return (Inr st)"
| "scan_entries windows known ignore input st (e # es) =
     bind_run (scan_entry windows known ignore input st e) (\<lambda>r.
       case r of
         Inl err \<Rightarrow> Return (Inl err)
       | Inr st \<Rightarrow> scan_entries windows known ignore input st es)"

definition plan_inventory ::
  "bool \<Rightarrow> walk_report result \<Rightarrow> known_inventory \<Rightarrow> ignore_policy \<Rightarrow> input_policy \<Rightarrow>
     inventory_plan result run" where
  "plan_inventory windows walk known ignore input =
     (case walk of
        Inl err \<Rightarrow> Return (Inl err)
      | Inr report \<Rightarrow>
          if length (wr_entries report) > MAX_INVENTORY_ENTRIES then
            Return (Inl (fail ValidationError ''inventory walk exceeded its bound''
              [(''limit'', show_nat MAX_INVENTORY_ENTRIES),
               (''entries'', show_nat (length (wr_entries report)))]))
          else
            bind_run (scan_entries windows known ignore input scan_start (wr_entries report)) (\<lambda>r.
              case r of
                Inl err \<Rightarrow> Return (Inl err)
              | Inr st \<Rightarrow>
                  let deleted = map Deleted (filter (\<lambda>path. path \<notin> set (is_seen st)) (known_paths known))
                  in Return (Inr
                    \<lparr>pl_events = deleted @ is_added st @ is_modified st,
                     pl_excluded = is_excluded st, pl_withheld = is_withheld st,
                     pl_unreadable = is_unreadable st @ wr_permission_errors report,
                     pl_unchanged = is_unchanged st,
                     pl_full_scan_required = wr_truncated report\<rparr>)))"

section \<open>What the scan records\<close>











section \<open>The observed files\<close>






section \<open>Properties of the inventory\<close>









text \<open>
  A directory the walk could not read hides the files below it, and the plan then reports those
  as deleted without asking for a wider scan.
\<close>

lemma unreadable_directory_deletes:
  "plan_inventory False (Inr \<lparr>wr_entries = [\<lparr>se_path = ''src'', se_kind = ScannedDirectory,
        se_size_bytes = 0, se_content_hash = None\<rparr>],
      wr_permission_errors = [''src''], wr_truncated = False\<rparr>)
     [(''src/a.rs'', ''x'')] ignore_policy_default (input_policy_new ''/p'') =
   Return (Inr \<lparr>pl_events = [Deleted ''src/a.rs''], pl_excluded = [], pl_withheld = [],
     pl_unreadable = [''src''], pl_unchanged = 0, pl_full_scan_required = False\<rparr>)"
proof -
  have facts: "portable_relative_path ''src'' = Inr ''src''"
    "ignore_classify False ignore_policy_default ''src'' = Inr Tracked"
    by code_simp+
  show ?thesis
    by (simp add: plan_inventory_def MAX_INVENTORY_ENTRIES_def scan_entry_def facts scan_start_def
        bs_insert_def known_paths_def)
qed

end
