(* ===== verification/WatchPoll.thy ===== *)
theory WatchPoll
  imports WatchNormalize Machines
begin

text \<open>
  The polling fallback and the backend policy: \<^verbatim>\<open>graph-watch/src/poll.rs\<close>, with the native
  support report and the drain bound of \<^verbatim>\<open>graph-watch/src/native.rs\<close>.  The snapshot is an
  argument, as \<open>SnapshotSource::snapshot\<close> supplies it.
\<close>

datatype native_support = Supported | Unsupported string

fun is_supported :: "native_support \<Rightarrow> bool" where
  "is_supported Supported = True"
| "is_supported (Unsupported _) = False"

fun support_reason :: "native_support \<Rightarrow> string option" where
  "support_reason Supported = None"
| "support_reason (Unsupported reason) = Some reason"

definition MAX_DRAIN_HINTS :: usize where "MAX_DRAIN_HINTS = 4096"

datatype backend_kind = Native | Polling

fun backend_kind_str :: "backend_kind \<Rightarrow> string" where
  "backend_kind_str Native = ''native''"
| "backend_kind_str Polling = ''polling''"

datatype backend_policy = PreferNative | RequireNative | ForcePolling

fun backend_policy_str :: "backend_policy \<Rightarrow> string" where
  "backend_policy_str PreferNative = ''prefer_native''"
| "backend_policy_str RequireNative = ''require_native''"
| "backend_policy_str ForcePolling = ''force_polling''"

definition backend_policy_parse :: "string \<Rightarrow> backend_policy result" where
  "backend_policy_parse value =
     (if value = ''prefer_native'' then Inr PreferNative
      else if value = ''require_native'' then Inr RequireNative
      else if value = ''force_polling'' then Inr ForcePolling
      else Inl (fail ConfigInvalid ''unknown watcher backend policy'' [(''policy'', value)]))"

record backend_decision =
  bd_kind :: backend_kind
  bd_reason :: "string option"

definition is_native :: "backend_decision \<Rightarrow> bool" where
  "is_native d \<longleftrightarrow> bd_kind d = Native"

definition support_reason_or_default :: "native_support \<Rightarrow> string" where
  "support_reason_or_default support =
     (case support_reason support of
        Some reason \<Rightarrow> reason
      | None \<Rightarrow> ''the host offers no native recursive backend'')"

fun select_backend :: "backend_policy \<Rightarrow> native_support \<Rightarrow> backend_decision result" where
  "select_backend ForcePolling support =
     Inr \<lparr>bd_kind = Polling, bd_reason = Some ''polling was forced by configuration''\<rparr>"
| "select_backend PreferNative support =
     (if is_supported support then Inr \<lparr>bd_kind = Native, bd_reason = None\<rparr>
      else Inr \<lparr>bd_kind = Polling, bd_reason = Some (support_reason_or_default support)\<rparr>)"
| "select_backend RequireNative support =
     (if is_supported support then Inr \<lparr>bd_kind = Native, bd_reason = None\<rparr>
      else Inl (fail NotReady ''native filesystem events are required by policy but unavailable''
        [(''reason'', support_reason_or_default support)]))"

section \<open>Polling\<close>

record file_stamp =
  fs_size_bytes :: u64
  fs_modified_ns :: int

record poll_outcome =
  po_hints :: "raw_hint list"
  po_first_scan :: bool

record polling_watcher =
  pw_previous :: "(string, file_stamp) btree_map"
  pw_initialized :: bool

definition polling_new :: polling_watcher where
  "polling_new = \<lparr>pw_previous = [], pw_initialized = False\<rparr>"

text \<open>The loop that collects a snapshot into a map, refusing a repeated path.\<close>

fun collect_snapshot ::
  "(string, file_stamp) btree_map \<Rightarrow> (string \<times> file_stamp) list \<Rightarrow>
     (string, file_stamp) btree_map result" where
  "collect_snapshot current [] = Inr current"
| "collect_snapshot current ((path, stamp) # rest) =
     (case portable_relative_path path of
        Inl e \<Rightarrow> Inl e
      | Inr path \<Rightarrow>
          if bt_get current path \<noteq> None then
            Inl (fail ValidationError ''the snapshot source reported the same path twice''
              [(''portable_path'', path)])
          else collect_snapshot (bt_insert path stamp current) rest)"

definition changed_hints ::
  "(string, file_stamp) btree_map \<Rightarrow> (string, file_stamp) btree_map \<Rightarrow> raw_hint list" where
  "changed_hints previous current =
     concat (map (\<lambda>(path, stamp).
       case bt_get previous path of
         Some old \<Rightarrow> if old = stamp then [] else [\<lparr>rh_path = path, rh_kind = KindModified\<rparr>]
       | None \<Rightarrow> [\<lparr>rh_path = path, rh_kind = KindCreated\<rparr>]) current)"

definition removed_hints ::
  "(string, file_stamp) btree_map \<Rightarrow> (string, file_stamp) btree_map \<Rightarrow> raw_hint list" where
  "removed_hints previous current =
     map (\<lambda>path. \<lparr>rh_path = path, rh_kind = KindRemoved\<rparr>)
       (filter (\<lambda>path. bt_get current path = None) (map fst previous))"

definition poll ::
  "polling_watcher \<Rightarrow> (string \<times> file_stamp) list result \<Rightarrow> poll_outcome result \<times> polling_watcher" where
  "poll watcher snapshot =
     (case snapshot of
        Inl e \<Rightarrow> (Inl e, watcher)
      | Inr snapshot \<Rightarrow>
          case collect_snapshot [] snapshot of
            Inl e \<Rightarrow> (Inl e, watcher)
          | Inr current \<Rightarrow>
              let first_scan = \<not> pw_initialized watcher;
                  hints = (if \<not> first_scan
                    then changed_hints (pw_previous watcher) current @
                      removed_hints (pw_previous watcher) current
                    else [])
              in (Inr \<lparr>po_hints = hints, po_first_scan = first_scan\<rparr>,
                  \<lparr>pw_previous = current, pw_initialized = True\<rparr>))"

text \<open>The stored snapshot is a map of canonical paths, empty before the first poll.\<close>

definition poll_wf :: "polling_watcher \<Rightarrow> bool" where
  "poll_wf w \<longleftrightarrow> bt_wf (pw_previous w) \<and> (\<not> pw_initialized w \<longrightarrow> pw_previous w = []) \<and>
     list_all (\<lambda>(p, stamp). portable_relative_path p = Inr p) (pw_previous w)"

lemma bt_insert_all: "list_all P m \<Longrightarrow> P (k, v) \<Longrightarrow> list_all P (bt_insert k v m)"
  by (induction k v m rule: bt_insert.induct) auto

lemma collect_snapshot_canonical:
  "collect_snapshot m xs = Inr m' \<Longrightarrow> list_all (\<lambda>(p, stamp). portable_relative_path p = Inr p) m \<Longrightarrow>
     list_all (\<lambda>(p, stamp). portable_relative_path p = Inr p) m'"
  by (induction m xs rule: collect_snapshot.induct)
    (auto simp: bt_insert_all portable_idem split: sum.splits if_splits)

lemma collect_snapshot_wf:
  "collect_snapshot m xs = Inr m' \<Longrightarrow> bt_wf m \<Longrightarrow> bt_wf m'"
  by (induction m xs rule: collect_snapshot.induct) (auto split: sum.splits if_splits)

lemma collect_snapshot_get:
  assumes "collect_snapshot m xs = Inr m'"
  shows "bt_get m' p = Some st \<longleftrightarrow>
     bt_get m p = Some st \<or> (\<exists>q. (q, st) \<in> set xs \<and> portable_relative_path q = Inr p)"
  using assms
proof (induction m xs rule: collect_snapshot.induct)
  case (2 current path stamp rest)
  then obtain p' where p': "portable_relative_path path = Inr p'" "bt_get current p' = None"
    "collect_snapshot (bt_insert p' stamp current) rest = Inr m'"
    by (auto split: sum.splits if_splits)
  with 2 show ?case by auto
qed simp

interpretation polling: state_machine "\<lambda>w snapshot w'. w' = snd (poll w snapshot)" poll_wf
  by unfold_locales
    (auto simp: poll_def poll_wf_def Let_def collect_snapshot_wf collect_snapshot_canonical
      split: sum.splits)

lemma polling_new_wf: "poll_wf polling_new"
  by (simp add: poll_wf_def polling_new_def bt_wf_def)

lemma bt_get_mem: "bt_wf m \<Longrightarrow> bt_get m p = Some v \<longleftrightarrow> (p, v) \<in> set m"
  by (simp add: bt_get_def bt_wf_def strict_sorted_iff)

lemma changed_hints_iff:
  assumes "bt_wf current"
  shows "\<lparr>rh_path = p, rh_kind = k\<rparr> \<in> set (changed_hints previous current) \<longleftrightarrow>
     (\<exists>stamp. bt_get current p = Some stamp \<and>
        (k = KindCreated \<and> bt_get previous p = None \<or>
         k = KindModified \<and> bt_get previous p \<noteq> None \<and> bt_get previous p \<noteq> Some stamp))"
proof -
  have "\<lparr>rh_path = p, rh_kind = k\<rparr> \<in> set (case bt_get previous path of
         Some old \<Rightarrow> if old = stamp then [] else [\<lparr>rh_path = path, rh_kind = KindModified\<rparr>]
       | None \<Rightarrow> [\<lparr>rh_path = path, rh_kind = KindCreated\<rparr>]) \<longleftrightarrow>
      path = p \<and> (k = KindCreated \<and> bt_get previous p = None \<or>
         k = KindModified \<and> bt_get previous p \<noteq> None \<and> bt_get previous p \<noteq> Some stamp)"
    for path stamp
    by (auto split: option.splits)
  then show ?thesis
    unfolding changed_hints_def bt_get_mem [OF assms] by auto
qed

lemma removed_hints_iff:
  "\<lparr>rh_path = p, rh_kind = k\<rparr> \<in> set (removed_hints previous current) \<longleftrightarrow>
     k = KindRemoved \<and> bt_get previous p \<noteq> None \<and> bt_get current p = None"
  using bt_keys_get [of p previous] by (auto simp: removed_hints_def)

text \<open>A poll speaks of canonical paths only, and never of renames.\<close>

lemma poll_hints_canonical:
  assumes "poll_wf w" and "poll w snapshot = (Inr out, w')" and "h \<in> set (po_hints out)"
  shows "portable_relative_path (rh_path h) = Inr (rh_path h) \<and>
    rh_kind h \<in> {KindCreated, KindModified, KindRemoved}"
proof -
  from assms(2) obtain current xs where c: "collect_snapshot [] xs = Inr current"
    and eq: "po_hints out = (if pw_initialized w then changed_hints (pw_previous w) current @
      removed_hints (pw_previous w) current else [])"
    by (auto simp: poll_def Let_def split: sum.splits)
  from eq have out: "set (po_hints out) \<subseteq> set (changed_hints (pw_previous w) current) \<union>
      set (removed_hints (pw_previous w) current)"
    by (auto split: if_splits)
  have "list_all (\<lambda>(p, stamp). portable_relative_path p = Inr p) current"
    using collect_snapshot_canonical [OF c] by simp
  with assms(1,3) out show ?thesis
    by (fastforce simp: poll_wf_def changed_hints_def removed_hints_def list_all_iff
        split: option.splits if_splits)
qed

section \<open>Properties of polling\<close>

text \<open>Polling misses nothing: after the first poll, each successful poll reports exactly the
  difference between the previous snapshot and this one: a path is reported created, modified or
  removed precisely when it appeared, changed its stamp or disappeared.\<close>

theorem poll_reports_difference:
  assumes "poll_wf w" and "pw_initialized w" and "poll w (Inr snapshot) = (Inr out, w')"
  shows "\<not> po_first_scan out \<and>
    (\<lparr>rh_path = p, rh_kind = k\<rparr> \<in> set (po_hints out) \<longleftrightarrow>
       (case (bt_get (pw_previous w) p, bt_get (pw_previous w') p) of
          (None, Some _) \<Rightarrow> k = KindCreated
        | (Some old, Some new) \<Rightarrow> k = KindModified \<and> old \<noteq> new
        | (Some _, None) \<Rightarrow> k = KindRemoved
        | (None, None) \<Rightarrow> False)) \<and>
    (bt_get (pw_previous w') p = Some stamp \<longleftrightarrow>
       (p, stamp) \<in> {(q', st) |q q' st. (q, st) \<in> set snapshot \<and> portable_relative_path q = Inr q'})"
proof -
  from assms(2,3) obtain current where c: "collect_snapshot [] snapshot = Inr current"
    and w': "w' = \<lparr>pw_previous = current, pw_initialized = True\<rparr>"
    and out: "out = \<lparr>po_hints = changed_hints (pw_previous w) current @
      removed_hints (pw_previous w) current, po_first_scan = False\<rparr>"
    by (auto simp: poll_def Let_def split: sum.splits)
  have "bt_wf current" using collect_snapshot_wf [OF c] by simp
  then have hints: "\<lparr>rh_path = p, rh_kind = k\<rparr> \<in> set (po_hints out) \<longleftrightarrow>
       (case (bt_get (pw_previous w) p, bt_get current p) of
          (None, Some _) \<Rightarrow> k = KindCreated
        | (Some old, Some new) \<Rightarrow> k = KindModified \<and> old \<noteq> new
        | (Some _, None) \<Rightarrow> k = KindRemoved
        | (None, None) \<Rightarrow> False)"
    by (auto simp: out changed_hints_iff removed_hints_iff split: option.splits)
  have "bt_get current p = Some stamp \<longleftrightarrow>
      (\<exists>q. (q, stamp) \<in> set snapshot \<and> portable_relative_path q = Inr p)"
    using collect_snapshot_get [OF c, of p stamp] by simp
  then show ?thesis using hints w' out by auto
qed

theorem poll_reports_difference_witness:
  "let st = \<lparr>fs_size_bytes = 1, fs_modified_ns = 5\<rparr>;
       w = snd (poll polling_new (Inr [(''a'', st)]))
   in case poll w (Inr [(''b'', st)]) of
        (Inr out, _) \<Rightarrow> \<lparr>rh_path = ''a'', rh_kind = KindRemoved\<rparr> \<in> set (po_hints out)
      | _ \<Rightarrow> False"
proof -
  define st where "st = \<lparr>fs_size_bytes = 1, fs_modified_ns = 5\<rparr>"
  define w where "w = snd (poll polling_new (Inr [(''a'', st)]))"
  have ab: "portable_relative_path ''a'' = Inr ''a''" "portable_relative_path ''b'' = Inr ''b''"
    by code_simp+
  have w: "w = \<lparr>pw_previous = [(''a'', st)], pw_initialized = True\<rparr>"
    by (simp add: w_def poll_def polling_new_def ab)
  define r where "r = poll w (Inr [(''b'', st)])"
  obtain out w' where out: "r = (Inr out, w')" and w': "pw_previous w' = [(''b'', st)]"
    by (simp add: r_def poll_def w ab)
  have "poll_wf w" by (simp add: w poll_wf_def bt_wf_def ab)
  from poll_reports_difference [OF this _ out [unfolded r_def], of "''a''" KindRemoved st]
  have "\<lparr>rh_path = ''a'', rh_kind = KindRemoved\<rparr> \<in> set (po_hints out)"
    by (simp add: w w' bt_get_def)
  with out show ?thesis by (simp add: Let_def r_def w_def st_def)
qed

end
