(* ===== verification/WatchReconcile.thy ===== *)
theory WatchReconcile
  imports WatchRecovery WatchInventory WatchPoll
begin

text \<open>
  Bounded hint reconciliation: \<^verbatim>\<open>graph-watch/src/reconcile.rs\<close>.  The state is the sticky
  recovery state, the two policies, the bound backend and the accounting of the last batch.
  A probe is a record with its two answers.
\<close>

definition MAX_RECONCILE_HINTS :: usize where "MAX_RECONCILE_HINTS = MAX_HINTS_PER_BATCH"

datatype reconcile_trigger =
  TriggerBackendEvent | TriggerUnpairedRename | TriggerSaveAllBurst | TriggerUntrackedInput
| TriggerCaseOnlyRename | TriggerSymlinkBoundary | TriggerFirstPoll

fun reconcile_trigger_str :: "reconcile_trigger \<Rightarrow> string" where
  "reconcile_trigger_str TriggerBackendEvent = ''backend_event''"
| "reconcile_trigger_str TriggerUnpairedRename = ''unpaired_rename''"
| "reconcile_trigger_str TriggerSaveAllBurst = ''save_all_burst''"
| "reconcile_trigger_str TriggerUntrackedInput = ''untracked_input''"
| "reconcile_trigger_str TriggerCaseOnlyRename = ''case_only_rename''"
| "reconcile_trigger_str TriggerSymlinkBoundary = ''symlink_boundary''"
| "reconcile_trigger_str TriggerFirstPoll = ''first_poll''"

record scan_request =
  sr_reason :: full_scan_reason
  sr_trigger :: reconcile_trigger
  sr_widened_by :: "string list"

record bounded_rescan =
  bn_paths :: "string list"
  bn_trigger :: reconcile_trigger

datatype reconcile_outcome =
  Apply "normalized_hint list" | Bounded bounded_rescan | FullScan scan_request

fun is_apply :: "reconcile_outcome \<Rightarrow> bool" where
  "is_apply (Apply _) = True"
| "is_apply (Bounded _) = False"
| "is_apply (FullScan _) = False"

fun applied :: "reconcile_outcome \<Rightarrow> normalized_hint list" where
  "applied (Apply hints) = hints"
| "applied (Bounded _) = []"
| "applied (FullScan _) = []"

fun outcome_bounded :: "reconcile_outcome \<Rightarrow> bounded_rescan option" where
  "outcome_bounded (Bounded rescan) = Some rescan"
| "outcome_bounded (Apply _) = None"
| "outcome_bounded (FullScan _) = None"

fun outcome_scan :: "reconcile_outcome \<Rightarrow> scan_request option" where
  "outcome_scan (FullScan request) = Some request"
| "outcome_scan (Apply _) = None"
| "outcome_scan (Bounded _) = None"

record reconcile_probe =
  pr_classify_entry :: "string \<Rightarrow> watched_entry"
  pr_native_support :: native_support

definition file_probe :: "native_support \<Rightarrow> reconcile_probe" where
  "file_probe support = \<lparr>pr_classify_entry = (\<lambda>path. EntryFile), pr_native_support = support\<rparr>"

record reconcile_accounting =
  ac_excluded :: usize
  ac_withheld :: usize
  ac_dropped :: usize

definition accounting_zero :: reconcile_accounting where
  "accounting_zero = \<lparr>ac_excluded = 0, ac_withheld = 0, ac_dropped = 0\<rparr>"

definition accounting_total :: "reconcile_accounting \<Rightarrow> usize" where
  "accounting_total a = ac_excluded a + ac_withheld a + ac_dropped a"

record reconciler =
  rc_recovery :: recovery_state
  rc_ignore :: ignore_policy
  rc_input :: input_policy
  rc_backend :: "backend_decision option"
  rc_accounting :: reconcile_accounting

definition reconciler_new :: "ignore_policy \<Rightarrow> input_policy \<Rightarrow> reconciler" where
  "reconciler_new ignore input =
     \<lparr>rc_recovery = recovery_new, rc_ignore = ignore, rc_input = input, rc_backend = None,
      rc_accounting = accounting_zero\<rparr>"

definition reconciler_with_defaults :: "string \<Rightarrow> reconciler" where
  "reconciler_with_defaults project_root =
     reconciler_new ignore_policy_default (input_policy_new project_root)"

definition uses_native_events :: "reconciler \<Rightarrow> bool" where
  "uses_native_events r = (case rc_backend r of Some d \<Rightarrow> is_native d | None \<Rightarrow> False)"

definition reconciler_acknowledge_scan :: "reconciler \<Rightarrow> reconciler" where
  "reconciler_acknowledge_scan r = r\<lparr>rc_recovery := acknowledge_scan (rc_recovery r)\<rparr>"

definition reconciler_require_full_scan ::
  "reconciler \<Rightarrow> full_scan_reason \<Rightarrow> full_scan_reason \<times> reconciler" where
  "reconciler_require_full_scan r reason =
     (case require_full_scan (rc_recovery r) reason of
        (persisted, recovery) \<Rightarrow> (persisted, r\<lparr>rc_recovery := recovery\<rparr>))"

definition bind_backend ::
  "reconciler \<Rightarrow> backend_policy \<Rightarrow> reconcile_probe \<Rightarrow> backend_decision result \<times> reconciler" where
  "bind_backend r policy probe =
     (case select_backend policy (pr_native_support probe) of
        Inl e \<Rightarrow> (Inl e, r)
      | Inr decision \<Rightarrow> (Inr decision, r\<lparr>rc_backend := Some decision\<rparr>))"

definition is_bounded_batch :: "usize \<Rightarrow> bool" where
  "is_bounded_batch n \<longleftrightarrow> n \<le> MAX_RECONCILE_HINTS \<and> n \<le> MAX_DRAIN_HINTS"

fun is_symlink_boundary :: "input_skip \<Rightarrow> bool" where
  "is_symlink_boundary (SymlinkEscape _) = True"
| "is_symlink_boundary SymlinkUnresolved = True"
| "is_symlink_boundary SymlinkDisallowed = True"
| "is_symlink_boundary (Secret _) = False"

definition request_scan ::
  "reconciler \<Rightarrow> reconcile_trigger \<Rightarrow> full_scan_reason \<Rightarrow> string list \<Rightarrow>
     reconcile_outcome \<times> reconciler" where
  "request_scan r trigger reason widened_by =
     (case require_full_scan (rc_recovery r) reason of
        (persisted, recovery) \<Rightarrow>
          (FullScan \<lparr>sr_reason = persisted, sr_trigger = trigger, sr_widened_by = widened_by\<rparr>,
           r\<lparr>rc_recovery := recovery\<rparr>))"

section \<open>The loop over the normalized hints\<close>

record hint_scan =
  hs_apply :: "normalized_hint list"
  hs_untracked :: "string list"
  hs_boundary :: "string list"
  hs_case_only :: "string list"
  hs_accounting :: reconcile_accounting

definition exclude_hint :: "hint_scan \<Rightarrow> hint_scan" where
  "exclude_hint st = st\<lparr>hs_accounting :=
     (hs_accounting st)\<lparr>ac_excluded := ac_excluded (hs_accounting st) + 1\<rparr>\<rparr>"

definition withhold_hint :: "string \<Rightarrow> input_skip \<Rightarrow> hint_scan \<Rightarrow> hint_scan" where
  "withhold_hint path reason st =
     (let st = st\<lparr>hs_accounting :=
            (hs_accounting st)\<lparr>ac_withheld := ac_withheld (hs_accounting st) + 1\<rparr>\<rparr>
      in if is_symlink_boundary reason then st\<lparr>hs_boundary := hs_boundary st @ [path]\<rparr> else st)"

definition accept_hint :: "known_inventory \<Rightarrow> normalized_hint \<Rightarrow> hint_scan \<Rightarrow> hint_scan" where
  "accept_hint known hint st =
     (let path = nh_path hint;
          st = (if nh_case_only_rename hint then st\<lparr>hs_case_only := hs_case_only st @ [path]\<rparr> else st);
          st = (if nh_action hint = Upsert \<and> hash_of known path = None
                then st\<lparr>hs_untracked := hs_untracked st @ [path]\<rparr> else st)
      in st\<lparr>hs_apply := hs_apply st @ [hint]\<rparr>)"

fun scan_hints ::
  "bool \<Rightarrow> ignore_policy \<Rightarrow> input_policy \<Rightarrow> known_inventory \<Rightarrow> reconcile_probe \<Rightarrow> hint_scan \<Rightarrow>
     normalized_hint list \<Rightarrow> unit result run \<times> hint_scan" where
  "scan_hints windows ignore input known probe st [] = (Return (Inr ()), st)"
| "scan_hints windows ignore input known probe st (hint # hints) =
     (case ignore_classify windows ignore (nh_path hint) of
        Inl e \<Rightarrow> (Return (Inl e), st)
      | Inr (Ignored reason rule) \<Rightarrow>
          scan_hints windows ignore input known probe (exclude_hint st) hints
      | Inr Tracked \<Rightarrow>
          (case input_decide windows input (nh_path hint) (pr_classify_entry probe (nh_path hint)) of
             Panic \<Rightarrow> (Panic, st)
           | Return (Inl e) \<Rightarrow> (Return (Inl e), st)
           | Return (Inr (Skipped reason)) \<Rightarrow>
               scan_hints windows ignore input known probe
                 (withhold_hint (nh_path hint) reason st) hints
           | Return (Inr Parsable) \<Rightarrow>
               scan_hints windows ignore input known probe (accept_hint known hint st) hints))"

text \<open>\<open>paths.retain(|path| seen.insert(path.clone()))\<close> keeps first occurrences.\<close>

fun retain_first :: "string set \<Rightarrow> string list \<Rightarrow> string list" where
  "retain_first seen [] = []"
| "retain_first seen (path # paths) =
     (if path \<in> seen then retain_first seen paths
      else path # retain_first (insert path seen) paths)"

definition collect_trigger ::
  "(reconcile_trigger \<times> string list) list \<Rightarrow> reconcile_trigger option \<times> string list" where
  "collect_trigger observations =
     foldl (\<lambda>(trigger, paths) (candidate, observed).
         if observed = [] then (trigger, paths)
         else ((case trigger of None \<Rightarrow> Some candidate | Some t \<Rightarrow> Some t), paths @ observed))
       (None, []) observations"

definition decide_scan :: "hint_scan \<Rightarrow> reconcile_outcome" where
  "decide_scan st =
     (if hs_apply st = [] then Apply []
      else
        case collect_trigger
          [(TriggerCaseOnlyRename, hs_case_only st), (TriggerSymlinkBoundary, hs_boundary st),
           (TriggerUntrackedInput, hs_untracked st)] of
          (Some trigger, paths) \<Rightarrow>
            Bounded \<lparr>bn_paths = retain_first {} paths, bn_trigger = trigger\<rparr>
        | (None, _) \<Rightarrow> Apply (hs_apply st))"

definition scan_init :: "reconcile_accounting \<Rightarrow> hint_scan" where
  "scan_init accounting = \<lparr>hs_apply = [], hs_untracked = [], hs_boundary = [], hs_case_only = [],
     hs_accounting = accounting\<rparr>"

section \<open>The decision\<close>

definition reconcile ::
  "bool \<Rightarrow> reconciler \<Rightarrow> raw_hint list \<Rightarrow> bool \<Rightarrow> known_inventory \<Rightarrow> reconcile_probe \<Rightarrow>
     reconcile_outcome result run \<times> reconciler" where
  "reconcile windows r hints overflowed known probe =
     (let r = r\<lparr>rc_accounting := accounting_zero\<rparr> in
      if overflowed then
        (case request_scan r TriggerBackendEvent ScanOverflow [] of (out, r) \<Rightarrow> (Return (Inr out), r))
      else if \<not> is_bounded_batch (length hints) then
        (case request_scan r TriggerSaveAllBurst ScanBufferOverflow [] of
           (out, r) \<Rightarrow> (Return (Inr out), r))
      else
        case absorb windows (rc_recovery r) (Hints hints) of
          (Inl e, recovery) \<Rightarrow> (Return (Inl e), r\<lparr>rc_recovery := recovery\<rparr>)
        | (Inr (RunFullScan reason), recovery) \<Rightarrow>
            (case request_scan (r\<lparr>rc_recovery := recovery\<rparr>) TriggerBackendEvent reason [] of
               (out, r) \<Rightarrow> (Return (Inr out), r))
        | (Inr (ApplyHints applicable), recovery) \<Rightarrow>
            let r = r\<lparr>rc_recovery := recovery\<rparr> in
            case normalize windows hints of
              Inl e \<Rightarrow> (Return (Inl e), r)
            | Inr normalized \<Rightarrow>
                let r = r\<lparr>rc_accounting := (rc_accounting r)\<lparr>ac_dropped := no_dropped normalized\<rparr>\<rparr> in
                if no_unmatched_renames_from normalized \<noteq> [] then
                  (case request_scan r TriggerUnpairedRename ScanOverflow
                      (no_unmatched_renames_from normalized) of
                     (out, r) \<Rightarrow> (Return (Inr out), r))
                else
                  case scan_hints windows (rc_ignore r) (rc_input r) known probe
                      (scan_init (rc_accounting r)) (no_hints normalized) of
                    (Panic, st) \<Rightarrow> (Panic, r\<lparr>rc_accounting := hs_accounting st\<rparr>)
                  | (Return (Inl e), st) \<Rightarrow>
                      (Return (Inl e), r\<lparr>rc_accounting := hs_accounting st\<rparr>)
                  | (Return (Inr _), st) \<Rightarrow>
                      (Return (Inr (decide_scan st)), r\<lparr>rc_accounting := hs_accounting st\<rparr>))"

definition reconcile_poll ::
  "bool \<Rightarrow> reconciler \<Rightarrow> poll_outcome \<Rightarrow> known_inventory \<Rightarrow> reconcile_probe \<Rightarrow>
     reconcile_outcome result run \<times> reconciler" where
  "reconcile_poll windows r outcome known probe =
     (if po_first_scan outcome then
        (case request_scan r TriggerFirstPoll ScanBackendSwitch [] of (out, r) \<Rightarrow> (Return (Inr out), r))
      else reconcile windows r (po_hints outcome) False known probe)"

section \<open>What the loop collects\<close>

text \<open>The hint passes both policies, or is a symlink the input policy refuses.\<close>

definition admitted_hint ::
  "bool \<Rightarrow> ignore_policy \<Rightarrow> input_policy \<Rightarrow> reconcile_probe \<Rightarrow> normalized_hint \<Rightarrow> bool" where
  "admitted_hint windows ignore input probe h \<longleftrightarrow>
     ignore_classify windows ignore (nh_path h) = Inr Tracked \<and>
     input_decide windows input (nh_path h) (pr_classify_entry probe (nh_path h)) =
       Return (Inr Parsable)"

definition boundary_hint ::
  "bool \<Rightarrow> ignore_policy \<Rightarrow> input_policy \<Rightarrow> reconcile_probe \<Rightarrow> normalized_hint \<Rightarrow> bool" where
  "boundary_hint windows ignore input probe h \<longleftrightarrow>
     ignore_classify windows ignore (nh_path h) = Inr Tracked \<and>
     (case input_decide windows input (nh_path h) (pr_classify_entry probe (nh_path h)) of
        Return (Inr (Skipped reason)) \<Rightarrow> is_symlink_boundary reason
      | _ \<Rightarrow> False)"

definition untracked_hint :: "known_inventory \<Rightarrow> normalized_hint \<Rightarrow> bool" where
  "untracked_hint known h \<longleftrightarrow> nh_action h = Upsert \<and> hash_of known (nh_path h) = None"

lemma scan_hints_collects:
  assumes "scan_hints w ig ip known probe st hs = (Return (Inr u), st')"
  shows "hs_apply st' = hs_apply st @ filter (admitted_hint w ig ip probe) hs \<and>
     hs_boundary st' = hs_boundary st @ map nh_path (filter (boundary_hint w ig ip probe) hs) \<and>
     hs_case_only st' = hs_case_only st @
       map nh_path (filter (\<lambda>h. admitted_hint w ig ip probe h \<and> nh_case_only_rename h) hs) \<and>
     hs_untracked st' = hs_untracked st @
       map nh_path (filter (\<lambda>h. admitted_hint w ig ip probe h \<and> untracked_hint known h) hs) \<and>
     ac_dropped (hs_accounting st') = ac_dropped (hs_accounting st) \<and>
     ac_excluded (hs_accounting st') + ac_withheld (hs_accounting st') + length (hs_apply st') =
       ac_excluded (hs_accounting st) + ac_withheld (hs_accounting st) + length (hs_apply st)
         + length hs"
  using assms
proof (induction hs arbitrary: st)
  case (Cons h hs)
  note rec = Cons.prems [simplified]
  have fields [simp]:
    "hs_apply (exclude_hint st) = hs_apply st" "hs_boundary (exclude_hint st) = hs_boundary st"
    "hs_case_only (exclude_hint st) = hs_case_only st"
    "hs_untracked (exclude_hint st) = hs_untracked st"
    "ac_dropped (hs_accounting (exclude_hint st)) = ac_dropped (hs_accounting st)"
    "ac_excluded (hs_accounting (exclude_hint st)) = Suc (ac_excluded (hs_accounting st))"
    "ac_withheld (hs_accounting (exclude_hint st)) = ac_withheld (hs_accounting st)"
    by (simp_all add: exclude_hint_def)
  show ?case
  proof (cases "ignore_classify w ig (nh_path h)")
    case (Inl e)
    with rec show ?thesis by simp
  next
    case (Inr d)
    show ?thesis
    proof (cases d)
      case (Ignored reason rule)
      with rec Inr have "scan_hints w ig ip known probe (exclude_hint st) hs = (Return (Inr u), st')"
        by simp
      from Cons.IH [OF this] Inr Ignored show ?thesis
        by (auto simp: admitted_hint_def boundary_hint_def)
    next
      case Tracked
      show ?thesis
      proof (cases "input_decide w ip (nh_path h) (pr_classify_entry probe (nh_path h))")
        case Panic
        with rec Inr Tracked show ?thesis by simp
      next
        case (Return r)
        show ?thesis
        proof (cases r)
          case (Inl e)
          with rec Inr Tracked Return show ?thesis by simp
        next
          case r: (Inr d')
          show ?thesis
          proof (cases d')
            case Parsable
            with rec Inr Tracked Return r
            have "scan_hints w ig ip known probe (accept_hint known h st) hs = (Return (Inr u), st')"
              by simp
            from Cons.IH [OF this] Inr Tracked Return r Parsable show ?thesis
              by (auto simp: admitted_hint_def boundary_hint_def untracked_hint_def accept_hint_def
                  Let_def)
          next
            case (Skipped reason)
            with rec Inr Tracked Return r
            have "scan_hints w ig ip known probe (withhold_hint (nh_path h) reason st) hs =
                (Return (Inr u), st')"
              by simp
            from Cons.IH [OF this] Inr Tracked Return r Skipped show ?thesis
              by (auto simp: admitted_hint_def boundary_hint_def withhold_hint_def Let_def)
          qed
        qed
      qed
    qed
  qed
qed simp

lemma set_retain_first: "set (retain_first seen xs) = set xs - seen"
  by (induction seen xs rule: retain_first.induct) auto

lemma distinct_retain_first: "distinct (retain_first seen xs)"
  by (induction seen xs rule: retain_first.induct) (auto simp: set_retain_first)

lemma collect_trigger_three:
  "collect_trigger [(a, x), (b, y), (c, z)] =
     ((if x \<noteq> [] then Some a else if y \<noteq> [] then Some b else if z \<noteq> [] then Some c else None),
      x @ y @ z)"
  by (simp add: collect_trigger_def)

lemma decide_scan_cases [consumes 1, case_names nothing bounded applies]:
  assumes "decide_scan st = out"
  obtains "hs_apply st = []" and "out = Apply []"
    | t where "hs_apply st \<noteq> []"
      and "hs_case_only st \<noteq> [] \<or> hs_boundary st \<noteq> [] \<or> hs_untracked st \<noteq> []"
      and "out = Bounded \<lparr>bn_paths =
          retain_first {} (hs_case_only st @ hs_boundary st @ hs_untracked st), bn_trigger = t\<rparr>"
    | "hs_apply st \<noteq> []" and "hs_case_only st = []" and "hs_boundary st = []"
      and "hs_untracked st = []" and "out = Apply (hs_apply st)"
proof (cases "hs_apply st = []")
  case True
  then show thesis using assms that(1) by (simp add: decide_scan_def)
next
  case False
  show thesis
  proof (cases "hs_case_only st = [] \<and> hs_boundary st = [] \<and> hs_untracked st = []")
    case True
    then show thesis
      using assms False by (intro that(3)) (auto simp: decide_scan_def collect_trigger_three)
  next
    case some: False
    define t where "t = (if hs_case_only st \<noteq> [] then TriggerCaseOnlyRename
      else if hs_boundary st \<noteq> [] then TriggerSymlinkBoundary else TriggerUntrackedInput)"
    show thesis
      using assms False some
      by (intro that(2) [of t]) (auto simp: decide_scan_def collect_trigger_three t_def)
  qed
qed

text \<open>The ways a batch gets past the scan requests.\<close>

lemma reconcile_applies:
  assumes "reconcile w r hints ov known probe = (Return (Inr out), r')"
    and "\<not> requires_full_scan (rc_recovery r')"
  obtains n st where "\<not> ov" and "is_bounded_batch (length hints)"
    and "normalize w hints = Inr n" and "no_unmatched_renames_from n = []"
    and "scan_hints w (rc_ignore r) (rc_input r) known probe
      (scan_init (accounting_zero\<lparr>ac_dropped := no_dropped n\<rparr>)) (no_hints n) = (Return (Inr ()), st)"
    and "out = decide_scan st" and "rc_accounting r' = hs_accounting st"
    and "rc_recovery r' = rc_recovery r"
  using assms
  by (auto simp: reconcile_def request_scan_def require_full_scan_def requires_full_scan_def Let_def
      split: if_splits sum.splits option.splits prod.splits run.splits recovery_decision.splits)

lemma reconcile_outstanding:
  assumes "rs_full_scan_required (rc_recovery r) = Some reason"
    and "reconcile w r hints ov known probe = (Return (Inr out), r')"
  shows "(\<exists>t ws. out = FullScan \<lparr>sr_reason = reason, sr_trigger = t, sr_widened_by = ws\<rparr>) \<and>
     rs_full_scan_required (rc_recovery r') = Some reason"
  using assms
  by (auto simp: reconcile_def request_scan_def require_full_scan_def Let_def
      split: if_splits sum.splits option.splits prod.splits run.splits recovery_decision.splits)

lemma reconcile_keeps:
  assumes "rs_full_scan_required (rc_recovery r) = Some reason"
  shows "rs_full_scan_required (rc_recovery (snd (reconcile w r hints ov known probe))) = Some reason"
  using assms
  by (auto simp: reconcile_def request_scan_def require_full_scan_def Let_def
      split: if_splits sum.splits option.splits prod.splits run.splits recovery_decision.splits)

text \<open>C8: Only trustworthy hints are applied: when a batch is applied no scan was or becomes required,
  every applied hint comes from the normalized batch, passes the ignore and the input policy, is no
  case-only rename, and upserts only paths the inventory already knows.\<close>

theorem applied_hints_are_trusted:
  assumes "reconcile w r hints overflowed known probe = (Return (Inr (Apply hs)), r')"
  shows "\<not> overflowed \<and> \<not> requires_full_scan (rc_recovery r) \<and> \<not> requires_full_scan (rc_recovery r') \<and>
    (\<exists>n. normalize w hints = Inr n \<and> no_unmatched_renames_from n = [] \<and>
       set hs \<subseteq> {h \<in> set (no_hints n). admitted_hint w (rc_ignore r) (rc_input r) probe h \<and>
         \<not> nh_case_only_rename h \<and> \<not> untracked_hint known h})"
proof -
  have clear: "\<not> requires_full_scan (rc_recovery r)"
  proof
    assume "requires_full_scan (rc_recovery r)"
    then obtain reason where "rs_full_scan_required (rc_recovery r) = Some reason"
      by (auto simp: requires_full_scan_def)
    from reconcile_outstanding [OF this assms] show False by simp
  qed
  have "\<not> requires_full_scan (rc_recovery r')"
    using assms clear
    by (auto simp: reconcile_def request_scan_def require_full_scan_def requires_full_scan_def Let_def
        split: if_splits sum.splits option.splits prod.splits run.splits recovery_decision.splits)
  from reconcile_applies [OF assms this] obtain n st where
    n: "\<not> overflowed" "normalize w hints = Inr n" "no_unmatched_renames_from n = []"
    and st: "scan_hints w (rc_ignore r) (rc_input r) known probe
      (scan_init (accounting_zero\<lparr>ac_dropped := no_dropped n\<rparr>)) (no_hints n) = (Return (Inr ()), st)"
    and out: "Apply hs = decide_scan st" and rec: "rc_recovery r' = rc_recovery r" by blast
  note c = scan_hints_collects [OF st]
  have "set hs \<subseteq> {h \<in> set (no_hints n). admitted_hint w (rc_ignore r) (rc_input r) probe h \<and>
      \<not> nh_case_only_rename h \<and> \<not> untracked_hint known h}"
    using out [symmetric]
  proof (cases rule: decide_scan_cases)
    case applies
    with c show ?thesis by (auto simp: scan_init_def filter_empty_conv)
  qed simp_all
  with n clear rec show ?thesis by auto
qed

theorem applied_hints_are_trusted_witness:
  "let hint = \<lparr>rh_path = ''a.rs'', rh_kind = KindModified\<rparr>
   in reconcile False (reconciler_with_defaults ''/p'') [hint] False [(''a.rs'', ''x'')]
        (file_probe Supported) =
      (Return (Inr (Apply [plain_hint Upsert ''a.rs''])), reconciler_with_defaults ''/p'') \<and>
      \<not> requires_full_scan (rc_recovery (reconciler_with_defaults ''/p''))"
proof -
  have facts: "portable_relative_path ''a.rs'' = Inr ''a.rs''"
    "ignore_classify False ignore_policy_default ''a.rs'' = Inr Tracked"
    "input_decide False (input_policy_new ''/p'') ''a.rs'' EntryFile = Return (Inr Parsable)"
    by code_simp+
  have ok: "reconcile False (reconciler_with_defaults ''/p'')
      [\<lparr>rh_path = ''a.rs'', rh_kind = KindModified\<rparr>] False [(''a.rs'', ''x'')] (file_probe Supported) =
      (Return (Inr (Apply [plain_hint Upsert ''a.rs''])), reconciler_with_defaults ''/p'')"
    by (simp add: reconcile_def Let_def reconciler_with_defaults_def reconciler_new_def recovery_new_def
        is_bounded_batch_def MAX_RECONCILE_HINTS_def MAX_HINTS_PER_BATCH_def MAX_DRAIN_HINTS_def
        normalize_def no_groups_def facts file_probe_def scan_init_def accept_hint_def accounting_zero_def
        decide_scan_def collect_trigger_def hash_of_def bt_get_def)
  with applied_hints_are_trusted [OF ok] show ?thesis by simp
qed

text \<open>Nothing is silently dropped: when a batch is decided without a full scan, every raw hint is
  accounted for: it was dropped as noise, excluded, withheld, or passed both policies; and if the
  outcome is a bounded rescan, it names exactly the case-only renames, the refused symlinks and the
  unknown upserts, each once.\<close>

theorem reconcile_accounts_for_every_hint:
  assumes "reconcile w r hints overflowed known probe = (Return (Inr out), r')"
    and "\<not> requires_full_scan (rc_recovery r')"
  shows "\<exists>n. normalize w hints = Inr n \<and>
    accounting_total (rc_accounting r') +
      length (filter (admitted_hint w (rc_ignore r) (rc_input r) probe) (no_hints n)) = length hints \<and>
    (\<forall>rescan. out = Bounded rescan \<longrightarrow> distinct (bn_paths rescan) \<and>
       set (bn_paths rescan) = nh_path ` {h \<in> set (no_hints n).
         boundary_hint w (rc_ignore r) (rc_input r) probe h \<or>
         (admitted_hint w (rc_ignore r) (rc_input r) probe h \<and>
           (nh_case_only_rename h \<or> untracked_hint known h))})"
proof -
  from reconcile_applies [OF assms] obtain n st where
    n: "normalize w hints = Inr n"
    and st: "scan_hints w (rc_ignore r) (rc_input r) known probe
      (scan_init (accounting_zero\<lparr>ac_dropped := no_dropped n\<rparr>)) (no_hints n) = (Return (Inr ()), st)"
    and out: "decide_scan st = out" and acc: "rc_accounting r' = hs_accounting st" by metis
  note c = scan_hints_collects [OF st]
  have "accounting_total (rc_accounting r') +
      length (filter (admitted_hint w (rc_ignore r) (rc_input r) probe) (no_hints n)) = length hints"
    using c normalize_length [OF n]
    by (auto simp: acc accounting_total_def scan_init_def accounting_zero_def)
  moreover have "distinct (bn_paths rescan) \<and>
       set (bn_paths rescan) = nh_path ` {h \<in> set (no_hints n).
         boundary_hint w (rc_ignore r) (rc_input r) probe h \<or>
         (admitted_hint w (rc_ignore r) (rc_input r) probe h \<and>
           (nh_case_only_rename h \<or> untracked_hint known h))}" if b: "out = Bounded rescan" for rescan
    using out
  proof (cases rule: decide_scan_cases)
    case (bounded t)
    then have paths: "bn_paths rescan =
        retain_first {} (hs_case_only st @ hs_boundary st @ hs_untracked st)" using b by simp
    show ?thesis
      unfolding paths using c by (auto simp: distinct_retain_first set_retain_first scan_init_def)
  qed (simp_all add: b)
  ultimately show ?thesis using n by blast
qed

theorem reconcile_accounts_for_every_hint_witness:
  "let out = reconcile False (reconciler_with_defaults ''/p'')
        [\<lparr>rh_path = ''live/x'', rh_kind = KindModified\<rparr>] False [] (file_probe Supported)
   in fst out = Return (Inr (Apply [])) \<and> accounting_total (rc_accounting (snd out)) = 1"
proof -
  have facts: "portable_relative_path ''live/x'' = Inr ''live/x''"
    "ignore_classify False ignore_policy_default ''live/x'' =
       Inr (Ignored GeneratedGraphData ''policy.graph-output-root'')"
    by code_simp+
  define r' where "r' = (reconciler_with_defaults ''/p'')\<lparr>rc_accounting :=
    \<lparr>ac_excluded = 1, ac_withheld = 0, ac_dropped = 0\<rparr>\<rparr>"
  have ok: "reconcile False (reconciler_with_defaults ''/p'')
      [\<lparr>rh_path = ''live/x'', rh_kind = KindModified\<rparr>] False [] (file_probe Supported) =
      (Return (Inr (Apply [])), r')"
    by (simp add: reconcile_def Let_def reconciler_with_defaults_def reconciler_new_def recovery_new_def
        is_bounded_batch_def MAX_RECONCILE_HINTS_def MAX_HINTS_PER_BATCH_def MAX_DRAIN_HINTS_def
        normalize_def no_groups_def facts scan_init_def exclude_hint_def accounting_zero_def
        decide_scan_def r'_def)
  moreover have "\<not> requires_full_scan (rc_recovery r')"
    by (simp add: r'_def requires_full_scan_def reconciler_with_defaults_def reconciler_new_def
        recovery_new_def)
  ultimately obtain n where n: "normalize False [\<lparr>rh_path = ''live/x'', rh_kind = KindModified\<rparr>] = Inr n"
    and "accounting_total (rc_accounting r') +
      length (filter (admitted_hint False (rc_ignore (reconciler_with_defaults ''/p''))
        (rc_input (reconciler_with_defaults ''/p'')) (file_probe Supported)) (no_hints n)) = 1"
    using reconcile_accounts_for_every_hint [OF ok] by auto
  then have "accounting_total (rc_accounting r') = 1"
    by (simp add: accounting_total_def r'_def)
  with ok show ?thesis by (simp add: Let_def)
qed

text \<open>While a scan is outstanding nothing is applied: every batch that is decided answers with a
  full-scan request carrying the reason first persisted, and the requirement stays, whatever the
  batch, also when it is refused.\<close>

theorem outstanding_scan_blocks_batches:
  assumes "rs_full_scan_required (rc_recovery r) = Some reason"
  shows "rs_full_scan_required (rc_recovery (snd (reconcile w r hints overflowed known probe))) =
      Some reason \<and>
    (\<forall>out. fst (reconcile w r hints overflowed known probe) = Return (Inr out) \<longrightarrow>
       applied out = [] \<and> (\<exists>request. out = FullScan request \<and> sr_reason request = reason))"
  using reconcile_keeps [OF assms] reconcile_outstanding [OF assms]
  by (metis applied.simps(3) prod.collapse scan_request.select_convs(1))

theorem outstanding_scan_blocks_batches_witness:
  "let r = snd (reconciler_require_full_scan (reconciler_with_defaults ''/p'') ScanBranchChange)
   in rs_full_scan_required (rc_recovery (snd (reconcile False r [] False [] (file_probe Supported)))) =
      Some ScanBranchChange"
proof -
  define r where "r = snd (reconciler_require_full_scan (reconciler_with_defaults ''/p'') ScanBranchChange)"
  have "rs_full_scan_required (rc_recovery r) = Some ScanBranchChange"
    by (simp add: r_def reconciler_require_full_scan_def require_full_scan_def
        reconciler_with_defaults_def reconciler_new_def recovery_new_def)
  from outstanding_scan_blocks_batches [OF this] show ?thesis by (simp add: Let_def r_def)
qed

text \<open>
  A batch whose only observable hint is a refused symlink is answered with an empty \<open>Apply\<close>,
  not with a bounded rescan of that path.
\<close>

lemma lone_boundary_is_not_rescanned:
  "fst (reconcile False (reconciler_with_defaults ''/p'')
     [\<lparr>rh_path = ''link'', rh_kind = KindModified\<rparr>] False [(''link'', ''x'')]
     \<lparr>pr_classify_entry = (\<lambda>path. UnresolvedSymlink), pr_native_support = Supported\<rparr>) =
   Return (Inr (Apply []))"
proof -
  have facts: "portable_relative_path ''link'' = Inr ''link''"
    "ignore_classify False ignore_policy_default ''link'' = Inr Tracked"
    "input_decide False (input_policy_new ''/p'') ''link'' UnresolvedSymlink =
       Return (Inr (Skipped SymlinkUnresolved))"
    by code_simp+
  show ?thesis
    by (simp add: reconcile_def Let_def reconciler_with_defaults_def reconciler_new_def recovery_new_def
        is_bounded_batch_def MAX_RECONCILE_HINTS_def MAX_HINTS_PER_BATCH_def MAX_DRAIN_HINTS_def
        normalize_def no_groups_def facts scan_init_def withhold_hint_def accounting_zero_def
        decide_scan_def)
qed

end
