(* ===== verification/GraphIdentity.thy ===== *)
theory GraphIdentity
  imports Prelude "HOL-Library.Word"
begin

unbundle bit_operations_syntax

text \<open>
  Symbol identity, \<^verbatim>\<open>graph-analyze/src/identity.rs\<close>: a declaration key is the FNV-1a digest of a
  length-delimited tuple, and a key that repeats inside one file is replaced by a digest of the
  key and its occurrence.  The tuple encoding is shown injective; the digest, being 64 bits wide,
  is not, so uniqueness of the rewritten keys is stated for tuples on which it is.
\<close>

definition IDENTITY_SCHEME_VERSION :: string where "IDENTITY_SCHEME_VERSION = ''axiom-identity-1''"
definition PART_SEPARATOR :: char where "PART_SEPARATOR = CHR ''|''"
definition OCCURRENCE_MARKER :: string where "OCCURRENCE_MARKER = ''#occurrence''"

fun canonical_loop :: "string \<Rightarrow> nat \<Rightarrow> string list \<Rightarrow> string" where
  "canonical_loop canonical index [] = canonical"
| "canonical_loop canonical index (part # parts) =
     (let canonical = (if index > 0 then canonical @ [PART_SEPARATOR] else canonical)
      in canonical_loop (canonical @ show_nat (length part) @ [CHR '':''] @ part) (index + 1) parts)"

definition canonical_tuple :: "string list \<Rightarrow> string" where
  "canonical_tuple parts = canonical_loop [] 0 parts"

definition IDENTITY_PRIME :: "64 word" where "IDENTITY_PRIME = 0x00000100000001b3"
definition IDENTITY_OFFSET :: "64 word" where "IDENTITY_OFFSET = 0xcbf29ce484222325"

definition identity_digest :: "string list \<Rightarrow> string" where
  "identity_digest parts =
     hex_digits 16 (unat (foldl (\<lambda>hash byte. (hash XOR of_nat (of_char byte)) * IDENTITY_PRIME)
       IDENTITY_OFFSET (canonical_tuple parts)))"

definition declaration_key :: "string \<Rightarrow> string \<Rightarrow> string list \<Rightarrow> string" where
  "declaration_key file kind path = identity_digest ([IDENTITY_SCHEME_VERSION, file, kind] @ path)"

definition anonymous_key :: "string \<Rightarrow> string \<Rightarrow> usize \<Rightarrow> string" where
  "anonymous_key file kind ordinal = declaration_key file kind [''<anonymous>'', show_nat ordinal]"

definition repeated_declaration_key :: "string \<Rightarrow> usize \<Rightarrow> string" where
  "repeated_declaration_key base_key occurrence =
     identity_digest [IDENTITY_SCHEME_VERSION, base_key, OCCURRENCE_MARKER, show_nat occurrence]"

text \<open>The two loops over a file's keys; a \<open>HashMap\<close> is a map, \<open>entry(k).or_insert(0)\<close> its value or 0.\<close>

definition or_insert :: "(string \<rightharpoonup> nat) \<Rightarrow> string \<Rightarrow> nat" where
  "or_insert m key = (case m key of Some n \<Rightarrow> n | None \<Rightarrow> 0)"

fun count_keys :: "(string \<rightharpoonup> nat) \<Rightarrow> string list \<Rightarrow> (string \<rightharpoonup> nat)" where
  "count_keys counts [] = counts"
| "count_keys counts (key # keys) = count_keys (counts(key \<mapsto> or_insert counts key + 1)) keys"

fun unique_loop :: "(string \<rightharpoonup> nat) \<Rightarrow> (string \<rightharpoonup> nat) \<Rightarrow> string list \<Rightarrow> string list" where
  "unique_loop counts seen [] = []"
| "unique_loop counts seen (key # keys) =
     (if or_insert counts key > 1 then
        repeated_declaration_key key (or_insert seen key) #
          unique_loop counts (seen(key \<mapsto> or_insert seen key + 1)) keys
      else key # unique_loop counts seen keys)"

definition unique_declaration_keys :: "string list \<Rightarrow> string list" where
  "unique_declaration_keys base_keys =
     unique_loop (count_keys Map.empty base_keys) Map.empty base_keys"

section \<open>The tuple encoding\<close>

fun encode_parts :: "string list \<Rightarrow> string" where
  "encode_parts [] = []"
| "encode_parts [part] = show_nat (length part) @ CHR '':'' # part"
| "encode_parts (part # p # parts) =
     show_nat (length part) @ CHR '':'' # part @ PART_SEPARATOR # encode_parts (p # parts)"

lemma encode_parts_Cons:
  "encode_parts (part # parts) = show_nat (length part) @ CHR '':'' # part @
     (if parts = [] then [] else PART_SEPARATOR # encode_parts parts)"
  by (cases parts) simp_all

lemma canonical_loop_Suc:
  "canonical_loop acc (Suc i) parts =
     acc @ (if parts = [] then [] else PART_SEPARATOR # encode_parts parts)"
  by (induction parts arbitrary: acc i) (simp_all add: Let_def encode_parts_Cons)

lemma canonical_tuple_eq: "canonical_tuple parts = encode_parts parts"
  by (cases parts) (simp_all add: canonical_tuple_def canonical_loop_Suc Let_def encode_parts_Cons)

lemma encode_parts_inject: "encode_parts ps = encode_parts qs \<Longrightarrow> ps = qs"
proof (induction ps arbitrary: qs)
  case Nil
  then show ?case by (cases qs) (simp_all add: encode_parts_Cons)
next
  case (Cons p ps)
  then obtain q qs' where qs: "qs = q # qs'" by (cases qs) (simp_all add: encode_parts_Cons)
  let ?tail = "\<lambda>xs. if xs = [] then [] else PART_SEPARATOR # encode_parts xs"
  have "show_nat (length p) @ CHR '':'' # p @ ?tail ps =
      show_nat (length q) @ CHR '':'' # q @ ?tail qs'"
    using Cons.prems qs by (simp add: encode_parts_Cons)
  from split_at_first [OF this show_nat_no_colon show_nat_no_colon]
  have "length p = length q" and "p @ ?tail ps = q @ ?tail qs'"
    by (auto dest: show_nat_inject)
  then have "p = q" and "?tail ps = ?tail qs'" by auto
  with Cons.IH qs show ?case by (auto split: if_splits)
qed

section \<open>The occurrence loop\<close>

lemma or_insert_upd [simp]: "or_insert (m(k \<mapsto> n)) j = (if j = k then n else or_insert m j)"
  by (simp add: or_insert_def)

lemma or_insert_empty [simp]: "or_insert Map.empty k = 0"
  by (simp add: or_insert_def)

lemma count_keys_count: "or_insert (count_keys m keys) k = or_insert m k + count_list keys k"
  by (induction keys arbitrary: m) auto

lemma unique_loop_nth:
  "i < length keys \<Longrightarrow> unique_loop counts seen keys ! i =
     (if or_insert counts (keys ! i) > 1
      then repeated_declaration_key (keys ! i)
        (or_insert seen (keys ! i) + count_list (take i keys) (keys ! i))
      else keys ! i)"
proof (induction keys arbitrary: seen i)
  case (Cons key keys)
  then show ?case by (cases i) auto
qed simp

lemma length_unique_loop: "length (unique_loop counts seen keys) = length keys"
  by (induction keys arbitrary: seen) auto

lemma unique_keys_nth:
  "i < length keys \<Longrightarrow> unique_declaration_keys keys ! i =
     (if count_list keys (keys ! i) > 1
      then repeated_declaration_key (keys ! i) (count_list (take i keys) (keys ! i))
      else keys ! i)"
  by (simp add: unique_declaration_keys_def unique_loop_nth count_keys_count)

lemma count_take_less:
  assumes "i < j" and "j < length xs" and "xs ! i = xs ! j"
  shows "count_list (take i xs) (xs ! j) < count_list (take j xs) (xs ! j)"
proof -
  have "take j xs = take i xs @ xs ! i # drop (Suc i) (take j xs)"
    using id_take_nth_drop [of i "take j xs"] assms by (simp add: min_def)
  then have "count_list (take j xs) (xs ! j) =
      count_list (take i xs @ xs ! i # drop (Suc i) (take j xs)) (xs ! j)"
    by simp
  with assms(3) show ?thesis by simp
qed

lemma count_single:
  assumes "i < length xs" and "j < length xs" and "xs ! i = xs ! j" and "\<not> count_list xs (xs ! i) > 1"
  shows "i = j"
proof (rule ccontr)
  have *: "count_list xs (xs ! j) > 1" if "i < j" "j < length xs" "xs ! i = xs ! j" for i j
  proof -
    have "count_list (take j xs) (xs ! j) \<ge> 1" using count_take_less [OF that] by simp
    moreover have "xs = take j xs @ xs ! j # drop (Suc j) xs"
      using id_take_nth_drop [OF that(2)] .
    then have "count_list xs (xs ! j) =
        count_list (take j xs @ xs ! j # drop (Suc j) xs) (xs ! j)"
      by simp
    ultimately show ?thesis by simp
  qed
  assume "i \<noteq> j"
  then consider "i < j" | "j < i" by linarith
  then show False using * [of i j] * [of j i] assms by cases auto
qed

section \<open>Properties of symbol identity\<close>

text \<open>The tuple encoding is unambiguous: two part lists have the same canonical text only when
  they are the same list, whatever separators, digits and colons the parts hold.\<close>

theorem canonical_tuple_injective:
  "canonical_tuple ps = canonical_tuple qs \<longleftrightarrow> ps = qs"
  by (auto simp: canonical_tuple_eq dest: encode_parts_inject)

text \<open>
  The digest of a tuple is 64 bits wide, so unlike the encoding it is not free of collisions:
  two different tuples share a key.
\<close>

lemma digest_collides: "\<exists>ps qs. ps \<noteq> qs \<and> identity_digest ps = identity_digest qs"
proof (rule ccontr)
  assume "\<nexists>ps qs. ps \<noteq> qs \<and> identity_digest ps = identity_digest qs"
  then have "inj identity_digest" by (auto intro: injI)
  moreover have "finite (range identity_digest)"
  proof (rule finite_subset)
    show "range identity_digest \<subseteq> range (\<lambda>w :: 64 word. hex_digits 16 (unat w))"
      by (auto simp: identity_digest_def)
  qed simp
  ultimately have "finite (UNIV :: string list set)" by (rule finite_imageD [rotated])
  then show False by (simp add: infinite_UNIV_listI)
qed

text \<open>The tuples that the rewritten keys are digests of.\<close>

definition occurrence_tuples :: "string list \<Rightarrow> string list set" where
  "occurrence_tuples keys =
     {[IDENTITY_SCHEME_VERSION, key, OCCURRENCE_MARKER, show_nat n] |key n.
        1 < count_list keys key \<and> n < count_list keys key}"

lemma count_take_lt: "i < length keys \<Longrightarrow> count_list (take i keys) (keys ! i) < count_list keys (keys ! i)"
proof -
  assume "i < length keys"
  then have "keys = take i keys @ keys ! i # drop (Suc i) keys" by (rule id_take_nth_drop)
  then have "count_list keys (keys ! i) =
      count_list (take i keys @ keys ! i # drop (Suc i) keys) (keys ! i)" by simp
  then show ?thesis by simp
qed

lemma unique_keys_member:
  assumes "i < length keys" and "1 < count_list keys (keys ! i)"
  shows "unique_declaration_keys keys ! i \<in> identity_digest ` occurrence_tuples keys"
  using assms count_take_lt [OF assms(1)]
  by (auto simp: unique_keys_nth occurrence_tuples_def repeated_declaration_key_def)

text \<open>Rewriting repeated keys makes a file's keys unique: as long as the digest collides neither on
  the occurrence tuples of this file nor with one of its single keys, the keys of all declarations
  are pairwise distinct, overloads included, and a key that occurs once is kept as it is.\<close>

theorem rewritten_keys_are_unique:
  assumes inj: "inj_on identity_digest (occurrence_tuples keys)"
    and single: "\<forall>key. count_list keys key = 1 \<longrightarrow> key \<notin> identity_digest ` occurrence_tuples keys"
  shows "distinct (unique_declaration_keys keys) \<and>
    length (unique_declaration_keys keys) = length keys \<and>
    (\<forall>i < length keys. count_list keys (keys ! i) = 1 \<longrightarrow>
       unique_declaration_keys keys ! i = keys ! i)"
proof (intro conjI allI impI)
  show len: "length (unique_declaration_keys keys) = length keys"
    by (simp add: unique_declaration_keys_def length_unique_loop)
  show kept: "unique_declaration_keys keys ! i = keys ! i"
    if "i < length keys" "count_list keys (keys ! i) = 1" for i
    using that by (simp add: unique_keys_nth)
  have "i = j" if ij: "i < length keys" "j < length keys"
    and same: "unique_declaration_keys keys ! i = unique_declaration_keys keys ! j" for i j
  proof (cases "1 < count_list keys (keys ! i) \<and> 1 < count_list keys (keys ! j)")
    case True
    let ?t = "\<lambda>i. [IDENTITY_SCHEME_VERSION, keys ! i, OCCURRENCE_MARKER,
      show_nat (count_list (take i keys) (keys ! i))]"
    have "?t i \<in> occurrence_tuples keys" "?t j \<in> occurrence_tuples keys"
      using True ij count_take_lt by (auto simp: occurrence_tuples_def)
    moreover have "identity_digest (?t i) = identity_digest (?t j)"
      using same True ij by (simp add: unique_keys_nth repeated_declaration_key_def)
    ultimately have "?t i = ?t j" using inj by (auto dest: inj_onD)
    then have "keys ! i = keys ! j"
      "count_list (take i keys) (keys ! i) = count_list (take j keys) (keys ! j)"
      by (auto dest: show_nat_inject)
    then show ?thesis
      using count_take_less [of i j keys] count_take_less [of j i keys] ij
      by (metis less_irrefl linorder_neqE_nat)
  next
    case False
    have one: "count_list keys (keys ! k) \<ge> 1" if "k < length keys" for k
      using count_take_lt [OF that] by simp
    have "keys ! i = keys ! j"
      using False same one [OF ij(1)] one [OF ij(2)] ij single
        unique_keys_member [OF ij(1)] unique_keys_member [OF ij(2)] kept
      by (metis le_neq_implies_less)
    with False ij show ?thesis using count_single [of i keys j] by auto
  qed
  then show "distinct (unique_declaration_keys keys)"
    unfolding distinct_conv_nth len by blast
qed

text \<open>Texts that differ only in the last byte never collide, because the prime is odd.\<close>

lemma prime_mult_cancel: "a * IDENTITY_PRIME = b * IDENTITY_PRIME \<Longrightarrow> a = b"
proof -
  have inverse: "IDENTITY_PRIME * 0xce965057aff6957b = 1"
    unfolding IDENTITY_PRIME_def by code_simp
  assume "a * IDENTITY_PRIME = b * IDENTITY_PRIME"
  then have "a * (IDENTITY_PRIME * 0xce965057aff6957b) = b * (IDENTITY_PRIME * 0xce965057aff6957b)"
    by (simp only: mult.assoc [symmetric])
  then show "a = b" by (simp only: inverse mult_1_right)
qed

lemma xor_byte_cancel:
  fixes hash :: "64 word"
  assumes "hash XOR of_nat (of_char a) = hash XOR of_nat (of_char b)"
  shows "a = b"
proof -
  from assms have "hash XOR (hash XOR of_nat (of_char a)) = hash XOR (hash XOR of_nat (of_char b))"
    by simp
  then have "of_nat (of_char a) = (of_nat (of_char b) :: 64 word)"
    by (simp flip: xor.assoc)
  then have "unat (of_nat (of_char a) :: 64 word) = unat (of_nat (of_char b) :: 64 word)" by simp
  moreover have "(of_char c :: nat) < 2 ^ 64" for c
    using nat_of_char_less_256 [of c] by (rule less_trans) simp
  ultimately have "(of_char a :: nat) = of_char b" by (simp add: unat_of_nat take_bit_nat_eq_self)
  then show ?thesis by simp
qed

lemma digest_last_byte:
  "identity_digest ps = identity_digest qs \<Longrightarrow> canonical_tuple ps = s @ [a] \<Longrightarrow>
     canonical_tuple qs = s @ [b] \<Longrightarrow> a = b"
proof -
  assume same: "identity_digest ps = identity_digest qs"
    and ends: "canonical_tuple ps = s @ [a]" "canonical_tuple qs = s @ [b]"
  define h where "h = foldl (\<lambda>hash byte. (hash XOR of_nat (of_char byte)) * IDENTITY_PRIME)
     IDENTITY_OFFSET s"
  have bound: "unat (w :: 64 word) < 16 ^ 16" for w
    using unsigned_less [of w, where ?'a = nat] by simp
  from same have "hex_digits 16 (unat ((h XOR of_nat (of_char a)) * IDENTITY_PRIME)) =
      hex_digits 16 (unat ((h XOR of_nat (of_char b)) * IDENTITY_PRIME))"
    by (simp add: identity_digest_def ends h_def)
  then have "unat ((h XOR of_nat (of_char a)) * IDENTITY_PRIME) =
      unat ((h XOR of_nat (of_char b)) * IDENTITY_PRIME)"
    by (rule hex_digits_inj [OF bound bound])
  then have "(h XOR of_nat (of_char a)) * IDENTITY_PRIME = (h XOR of_nat (of_char b)) * IDENTITY_PRIME"
    by (simp only: word_unat_eq_iff)
  then have "h XOR of_nat (of_char a) = h XOR of_nat (of_char b)" by (rule prime_mult_cancel)
  then show "a = b" by (rule xor_byte_cancel)
qed

lemma occurrence_tuples_image:
  "occurrence_tuples keys = (\<lambda>(key, n). [IDENTITY_SCHEME_VERSION, key, OCCURRENCE_MARKER, show_nat n])
     ` {(key, n). 1 < count_list keys key \<and> n < count_list keys key}"
  by (auto simp: occurrence_tuples_def)

lemma show_zero: "show_nat 0 = ''0''"
  by code_simp

lemma show_one: "show_nat (Suc 0) = ''1''"
  by code_simp

theorem rewritten_keys_are_unique_witness:
  "distinct (unique_declaration_keys [''k'', ''x'', ''k''])"
proof -
  let ?t = "\<lambda>c. [IDENTITY_SCHEME_VERSION, ''k'', OCCURRENCE_MARKER, [c]]"
  have tuples: "occurrence_tuples [''k'', ''x'', ''k''] = {?t CHR ''0'', ?t CHR ''1''}"
  proof -
    have "{(key, n). 1 < count_list [''k'', ''x'', ''k''] key \<and> n < count_list [''k'', ''x'', ''k''] key} =
        {(''k'', 0), (''k'', 1)}"
      by (auto split: if_splits)
    then show ?thesis by (simp only: occurrence_tuples_image) (simp add: show_zero show_one)
  qed
  have enc: "canonical_tuple (?t c) = encode_parts [IDENTITY_SCHEME_VERSION, ''k'', OCCURRENCE_MARKER]
      @ [PART_SEPARATOR, CHR ''1'', CHR '':''] @ [c]" for c
    by (simp add: canonical_tuple_eq show_one)
  have "inj_on identity_digest (occurrence_tuples [''k'', ''x'', ''k''])"
    using digest_last_byte [of "?t CHR ''0''" "?t CHR ''1''", OF _ enc [unfolded append_assoc [symmetric]]
        enc [unfolded append_assoc [symmetric]]]
    by (auto simp: tuples inj_on_def)
  moreover have "length (identity_digest ps) = 16" for ps by (simp add: identity_digest_def)
  then have "key \<notin> range identity_digest" if "count_list [''k'', ''x'', ''k''] key = 1" for key
    using that by (auto split: if_splits dest: arg_cong [where f = length])
  ultimately show ?thesis
    using rewritten_keys_are_unique [of "[''k'', ''x'', ''k'']"] by blast
qed

end
