(* ===== verification/GraphIncremental.thy ===== *)
theory GraphIncremental
  imports Machines
begin

text \<open>
  Incremental file replacement, \<^verbatim>\<open>graph-analyze/src/incremental.rs\<close>: the set of file facts a
  re-parse updates one file at a time.  Replacing is skipped when the digest is unchanged, and
  reports exactly which keys left, arrived and stayed; along every run of replacements and removals
  the set is the one a full rebuild over the final inputs builds.
\<close>

record fact_row =
  fr_key :: string
  fr_kind :: string

record file_facts =
  ff_file :: string
  ff_digest :: string
  ff_facts :: "fact_row list"

definition facts_keys :: "file_facts \<Rightarrow> string list" where
  "facts_keys f = remdups_adj (sort (map fr_key (ff_facts f)))"

record replacement =
  rp_file :: string
  rp_replaced :: bool
  rp_skipped :: bool
  rp_removed_keys :: "string list"
  rp_added_keys :: "string list"
  rp_retained_keys :: "string list"
  rp_untouched_files :: "string list"

record removal =
  rm_file :: string
  rm_removed :: bool
  rm_removed_keys :: "string list"
  rm_untouched_files :: "string list"

record analysis_set =
  as_files :: "(string, file_facts) btree_map"

definition analysis_new :: analysis_set where
  "analysis_new = \<lparr>as_files = []\<rparr>"

definition analysis_len :: "analysis_set \<Rightarrow> usize" where
  "analysis_len s = length (as_files s)"

definition analysis_is_empty :: "analysis_set \<Rightarrow> bool" where
  "analysis_is_empty s \<longleftrightarrow> as_files s = []"

definition analysis_file :: "analysis_set \<Rightarrow> string \<Rightarrow> file_facts option" where
  "analysis_file s fname = bt_get (as_files s) fname"

definition analysis_files :: "analysis_set \<Rightarrow> string list" where
  "analysis_files s = map fst (as_files s)"

definition analysis_keys :: "analysis_set \<Rightarrow> string list" where
  "analysis_keys s = bs_collect (concat (map (facts_keys \<circ> snd) (as_files s)))"

definition replace_facts :: "analysis_set \<Rightarrow> file_facts \<Rightarrow> replacement \<times> analysis_set" where
  "replace_facts s facts =
     (let untouched_before = filter (\<lambda>fname. fname \<noteq> ff_file facts) (analysis_files s);
          added = facts_keys facts;
          previous = bt_get (as_files s) (ff_file facts);
          files = bt_remove (ff_file facts) (as_files s);
          finish = (\<lambda>replaced previous_keys.
            (\<lparr>rp_file = ff_file facts, rp_replaced = replaced, rp_skipped = False,
              rp_removed_keys = filter (\<lambda>key. key \<notin> set (bs_collect added)) (bs_collect previous_keys),
              rp_added_keys = filter (\<lambda>key. key \<notin> set (bs_collect previous_keys)) (bs_collect added),
              rp_retained_keys = filter (\<lambda>key. key \<in> set (bs_collect added)) (bs_collect previous_keys),
              rp_untouched_files = untouched_before\<rparr>,
             s\<lparr>as_files := bt_insert (ff_file facts) facts files\<rparr>))
      in case previous of
           Some previous \<Rightarrow>
             if ff_digest previous = ff_digest facts then
               (\<lparr>rp_file = ff_file facts, rp_replaced = True, rp_skipped = True,
                 rp_removed_keys = [], rp_added_keys = [], rp_retained_keys = facts_keys previous,
                 rp_untouched_files = untouched_before\<rparr>,
                s\<lparr>as_files := bt_insert (ff_file facts) previous files\<rparr>)
             else finish True (facts_keys previous)
         | None \<Rightarrow> finish False [])"

definition remove_facts :: "analysis_set \<Rightarrow> string \<Rightarrow> removal \<times> analysis_set" where
  "remove_facts s fname =
     (let untouched = filter (\<lambda>candidate. candidate \<noteq> fname) (analysis_files s);
          files = bt_remove fname (as_files s)
      in case bt_get (as_files s) fname of
           Some previous \<Rightarrow>
             (\<lparr>rm_file = fname, rm_removed = True, rm_removed_keys = facts_keys previous,
               rm_untouched_files = untouched\<rparr>, s\<lparr>as_files := files\<rparr>)
         | None \<Rightarrow>
             (\<lparr>rm_file = fname, rm_removed = False, rm_removed_keys = [],
               rm_untouched_files = untouched\<rparr>, s\<lparr>as_files := files\<rparr>))"

definition from_files :: "file_facts list \<Rightarrow> analysis_set" where
  "from_files files =
     foldl (\<lambda>s facts. s\<lparr>as_files := bt_insert (ff_file facts) facts (as_files s)\<rparr>) analysis_new files"

section \<open>The set as a machine\<close>

datatype analysis_event = ReplaceFacts file_facts | RemoveFacts string

fun analysis_apply :: "analysis_set \<Rightarrow> analysis_event \<Rightarrow> analysis_set" where
  "analysis_apply s (ReplaceFacts facts) = snd (replace_facts s facts)"
| "analysis_apply s (RemoveFacts fname) = snd (remove_facts s fname)"

abbreviation analysis_step where "analysis_step s e s' \<equiv> s' = analysis_apply s e"

definition analysis_wf :: "analysis_set \<Rightarrow> bool" where
  "analysis_wf s \<longleftrightarrow> bt_wf (as_files s) \<and>
     (\<forall>fname facts. bt_get (as_files s) fname = Some facts \<longrightarrow> ff_file facts = fname)"

lemma analysis_new_wf: "analysis_wf analysis_new"
  by (simp add: analysis_wf_def analysis_new_def)

lemma replace_facts_get:
  "bt_get (as_files (snd (replace_facts s facts))) fname =
     (if fname = ff_file facts then
        (case bt_get (as_files s) fname of
           Some previous \<Rightarrow> if ff_digest previous = ff_digest facts then Some previous else Some facts
         | None \<Rightarrow> Some facts)
      else bt_get (as_files s) fname)"
  by (simp add: replace_facts_def Let_def split: option.splits)

lemma remove_facts_get:
  "bt_get (as_files (snd (remove_facts s fname))) j =
     (if j = fname then None else bt_get (as_files s) j)"
  by (simp add: remove_facts_def Let_def split: option.splits)

lemma analysis_apply_wf: "analysis_wf s \<Longrightarrow> analysis_wf (analysis_apply s e)"
proof (cases e)
  case (ReplaceFacts facts)
  assume wf: "analysis_wf s"
  then have "bt_wf (as_files (analysis_apply s e))"
    by (simp add: ReplaceFacts replace_facts_def Let_def analysis_wf_def split: option.splits)
  moreover have "ff_file f = fname" if "bt_get (as_files (analysis_apply s e)) fname = Some f" for fname f
    using that wf
    by (auto simp: ReplaceFacts replace_facts_get analysis_wf_def split: option.splits if_splits)
  ultimately show ?thesis by (simp add: analysis_wf_def)
next
  case (RemoveFacts fname)
  assume "analysis_wf s"
  then show ?thesis
    by (simp add: RemoveFacts remove_facts_def Let_def analysis_wf_def split: option.splits)
qed

interpretation analysis: state_machine analysis_step analysis_wf
  by unfold_locales (simp add: analysis_apply_wf)

lemma from_files_get: "bt_get (as_files (from_files files)) fname = map_of (rev (map (\<lambda>f. (ff_file f, f)) files)) fname"
proof -
  have "bt_get (as_files (foldl (\<lambda>s facts. s\<lparr>as_files := bt_insert (ff_file facts) facts (as_files s)\<rparr>) s files)) fname =
      (case map_of (rev (map (\<lambda>f. (ff_file f, f)) files)) fname of
         Some f \<Rightarrow> Some f | None \<Rightarrow> bt_get (as_files s) fname)" for s
    by (induction files arbitrary: s) (auto simp: map_add_def split: option.splits)
  from this [of analysis_new] show ?thesis
    by (simp add: from_files_def analysis_new_def split: option.splits)
qed

lemma from_files_wf: "bt_wf (as_files (from_files files))"
proof -
  have "bt_wf (as_files s) \<Longrightarrow> bt_wf (as_files
      (foldl (\<lambda>s facts. s\<lparr>as_files := bt_insert (ff_file facts) facts (as_files s)\<rparr>) s files))" for s
    by (induction files arbitrary: s) simp_all
  from this [of analysis_new] show ?thesis by (simp add: from_files_def analysis_new_def)
qed

section \<open>Properties of incremental replacement\<close>

text \<open>The inputs a full rebuild would see: the last facts given for each file not removed since.\<close>

fun final_inputs :: "(string \<rightharpoonup> file_facts) \<Rightarrow> analysis_event list \<Rightarrow> (string \<rightharpoonup> file_facts)" where
  "final_inputs m [] = m"
| "final_inputs m (ReplaceFacts facts # evs) = final_inputs (m(ff_file facts \<mapsto> facts)) evs"
| "final_inputs m (RemoveFacts fname # evs) = final_inputs (m(fname := None)) evs"

fun event_facts :: "analysis_event \<Rightarrow> file_facts set" where
  "event_facts (ReplaceFacts facts) = {facts}"
| "event_facts (RemoveFacts fname) = {}"

lemma run_final_inputs:
  assumes "trace analysis_step s evs s'"
    and "\<forall>f \<in> F. \<forall>g \<in> F. ff_file f = ff_file g \<longrightarrow> ff_digest f = ff_digest g \<longrightarrow> f = g"
    and "\<forall>e \<in> set evs. event_facts e \<subseteq> F"
    and "\<forall>fname f. bt_get (as_files s) fname = Some f \<longrightarrow> f \<in> F \<and> ff_file f = fname"
  shows "bt_get (as_files s') = final_inputs (bt_get (as_files s)) evs"
  using assms
proof (induction rule: trace.induct)
  case (trace_cons s e t es u)
  show ?case
  proof (cases e)
    case (ReplaceFacts facts)
    then have "facts \<in> F" using trace_cons.prems(2) by simp
    then have get: "bt_get (as_files t) = (bt_get (as_files s))(ff_file facts \<mapsto> facts)"
      using trace_cons.hyps(1) trace_cons.prems(1,3) ReplaceFacts
      by (intro ext) (auto simp: replace_facts_get split: option.splits)
    from get have "\<forall>fname f. bt_get (as_files t) fname = Some f \<longrightarrow> f \<in> F \<and> ff_file f = fname"
      using trace_cons.prems(3) \<open>facts \<in> F\<close> by simp
    with trace_cons.IH trace_cons.prems(1,2)
    have "bt_get (as_files u) = final_inputs (bt_get (as_files t)) es" by simp
    with get ReplaceFacts show ?thesis by simp
  next
    case (RemoveFacts fname)
    then have get: "bt_get (as_files t) = (bt_get (as_files s))(fname := None)"
      using trace_cons.hyps(1) by (intro ext) (simp add: remove_facts_get)
    from get have "\<forall>fname f. bt_get (as_files t) fname = Some f \<longrightarrow> f \<in> F \<and> ff_file f = fname"
      using trace_cons.prems(3) by simp
    with trace_cons.IH trace_cons.prems(1,2)
    have "bt_get (as_files u) = final_inputs (bt_get (as_files t)) es" by simp
    with get RemoveFacts show ?thesis by simp
  qed
qed simp

text \<open>C24: Incremental analysis equals a full rebuild: whatever sequence of replacements and removals is
  applied to the empty set, the result is the set built from scratch over the files that remain, each
  with the last facts given for it, as long as an unchanged digest means unchanged facts.\<close>

theorem incremental_equals_rebuild:
  assumes run: "trace analysis_step analysis_new evs s"
    and digests: "\<forall>f \<in> \<Union> (event_facts ` set evs). \<forall>g \<in> \<Union> (event_facts ` set evs).
      ff_file f = ff_file g \<longrightarrow> ff_digest f = ff_digest g \<longrightarrow> f = g"
    and files: "distinct (map ff_file files)"
      "final_inputs Map.empty evs = map_of (map (\<lambda>f. (ff_file f, f)) files)"
  shows "s = from_files files \<and> bt_wf (as_files s)"
proof -
  have "bt_get (as_files s) = final_inputs (bt_get (as_files analysis_new)) evs"
    by (rule run_final_inputs [OF run digests]) (auto simp: analysis_new_def)
  also have "bt_get (as_files analysis_new) = Map.empty"
    by (simp add: analysis_new_def fun_eq_iff)
  also note files(2)
  also have "map_of (map (\<lambda>f. (ff_file f, f)) files) = map_of (rev (map (\<lambda>f. (ff_file f, f)) files))"
    using files(1) by (subst map_of_inject_set) (simp_all add: comp_def rev_map [symmetric])
  finally have "bt_get (as_files s) = bt_get (as_files (from_files files))"
    by (simp add: fun_eq_iff from_files_get)
  moreover have wf: "bt_wf (as_files s)"
    using analysis.trace_inv [OF run analysis_new_wf] by (simp add: analysis_wf_def)
  ultimately have "as_files s = as_files (from_files files)"
    using from_files_wf by (intro bt_ext) (simp_all add: fun_eq_iff)
  with wf show ?thesis by simp
qed

theorem incremental_equals_rebuild_witness:
  "let f = \<lparr>ff_file = ''a'', ff_digest = ''1'', ff_facts = [\<lparr>fr_key = ''k'', fr_kind = ''class''\<rparr>]\<rparr>;
       g = \<lparr>ff_file = ''a'', ff_digest = ''2'', ff_facts = []\<rparr>;
       h = \<lparr>ff_file = ''b'', ff_digest = ''1'', ff_facts = []\<rparr>
   in foldl analysis_apply analysis_new
        [ReplaceFacts h, ReplaceFacts f, ReplaceFacts g, RemoveFacts ''b'', ReplaceFacts h] =
      from_files [g, h]"
proof -
  define f where "f = \<lparr>ff_file = ''a'', ff_digest = ''1'',
    ff_facts = [\<lparr>fr_key = ''k'', fr_kind = ''class''\<rparr>]\<rparr>"
  define g where "g = \<lparr>ff_file = ''a'', ff_digest = ''2'', ff_facts = []\<rparr>"
  define h where "h = \<lparr>ff_file = ''b'', ff_digest = ''1'', ff_facts = []\<rparr>"
  let ?evs = "[ReplaceFacts h, ReplaceFacts f, ReplaceFacts g, RemoveFacts ''b'', ReplaceFacts h]"
  have "trace analysis_step analysis_new ?evs (foldl analysis_apply analysis_new ?evs)"
    by (simp add: trace_Cons_iff)
  from incremental_equals_rebuild [OF this, of "[g, h]"]
  show ?thesis by (simp add: Let_def f_def g_def h_def fun_eq_iff)
qed

text \<open>A replacement touches one file and reports it exactly: the removed keys are those the file had
  and lost, the added ones those it gained, the retained ones those it kept, every other file keeps its
  facts, and an unchanged digest changes nothing at all.\<close>

theorem replacement_reports_exactly:
  assumes "analysis_wf s" and "replace_facts s facts = (rep, s')"
  shows "let keys = (\<lambda>x. case analysis_file x (ff_file facts) of Some f \<Rightarrow> set (facts_keys f) | None \<Rightarrow> {})
    in set (rp_removed_keys rep) = keys s - keys s' \<and> set (rp_added_keys rep) = keys s' - keys s \<and>
       set (rp_retained_keys rep) = keys s \<inter> keys s' \<and>
       set (rp_untouched_files rep) = set (analysis_files s) - {ff_file facts} \<and>
       list_all (\<lambda>fname. analysis_file s' fname = analysis_file s fname) (rp_untouched_files rep) \<and>
       (if rp_skipped rep then s' = s else analysis_file s' (ff_file facts) = Some facts)"
proof -
  have untouched: "rp_untouched_files rep = filter (\<lambda>fname. fname \<noteq> ff_file facts) (analysis_files s)"
    using assms(2) by (auto simp: replace_facts_def Let_def split: option.splits if_splits)
  have get: "analysis_file s' fname = (if fname = ff_file facts then
        (case analysis_file s fname of
           Some previous \<Rightarrow> if ff_digest previous = ff_digest facts then Some previous else Some facts
         | None \<Rightarrow> Some facts)
      else analysis_file s fname)" for fname
    using assms(2) replace_facts_get [of s facts fname] by (simp add: analysis_file_def)
  show ?thesis
  proof (cases "rp_skipped rep")
    case True
    then obtain previous where p: "bt_get (as_files s) (ff_file facts) = Some previous"
      "ff_digest previous = ff_digest facts"
      "rp_removed_keys rep = []" "rp_added_keys rep = []" "rp_retained_keys rep = facts_keys previous"
      using assms(2) by (auto simp: replace_facts_def Let_def split: option.splits if_splits)
    have "as_files s' = as_files s"
    proof (rule bt_ext)
      show "bt_wf (as_files s')"
        using analysis_apply_wf [OF assms(1), of "ReplaceFacts facts"] assms(2)
        by (simp add: analysis_wf_def)
      show "bt_get (as_files s') k = bt_get (as_files s) k" for k
        using get [of k] p by (simp add: analysis_file_def)
    qed (use assms(1) in \<open>simp add: analysis_wf_def\<close>)
    with True p untouched show ?thesis
      by (auto simp: Let_def analysis_file_def list_all_iff)
  next
    case False
    then have "analysis_file s' (ff_file facts) = Some facts"
      using assms(2)
      by (auto simp: replace_facts_def Let_def analysis_file_def split: option.splits if_splits)
    moreover have "set (rp_removed_keys rep) = (case analysis_file s (ff_file facts) of
        Some f \<Rightarrow> set (facts_keys f) | None \<Rightarrow> {}) - set (facts_keys facts) \<and>
      set (rp_added_keys rep) = set (facts_keys facts) - (case analysis_file s (ff_file facts) of
        Some f \<Rightarrow> set (facts_keys f) | None \<Rightarrow> {}) \<and>
      set (rp_retained_keys rep) = (case analysis_file s (ff_file facts) of
        Some f \<Rightarrow> set (facts_keys f) | None \<Rightarrow> {}) \<inter> set (facts_keys facts)"
      using False assms(2)
      by (auto simp: replace_facts_def Let_def analysis_file_def split: option.splits if_splits)
    ultimately show ?thesis
      using False untouched get by (auto simp: Let_def list_all_iff)
  qed
qed

theorem replacement_reports_exactly_witness:
  "let f = \<lparr>ff_file = ''a'', ff_digest = ''1'', ff_facts = [\<lparr>fr_key = ''k'', fr_kind = ''class''\<rparr>]\<rparr>;
       g = \<lparr>ff_file = ''a'', ff_digest = ''2'', ff_facts = []\<rparr>
   in set (rp_removed_keys (fst (replace_facts (from_files [f]) g))) = {''k''}"
proof -
  define f where "f = \<lparr>ff_file = ''a'', ff_digest = ''1'',
    ff_facts = [\<lparr>fr_key = ''k'', fr_kind = ''class''\<rparr>]\<rparr>"
  define g where "g = \<lparr>ff_file = ''a'', ff_digest = ''2'', ff_facts = []\<rparr>"
  have get: "bt_get (as_files (from_files [f])) fname = (if fname = ''a'' then Some f else None)" for fname
    by (simp add: from_files_def f_def analysis_new_def bt_get_def)
  have wf: "analysis_wf (from_files [f])"
    using from_files_wf [of "[f]"] by (simp add: analysis_wf_def get) (simp add: f_def)
  have fg: "ff_file g = ''a''" "ff_digest f \<noteq> ff_digest g" "facts_keys f = [''k'']" "facts_keys g = []"
    by (simp_all add: f_def g_def facts_keys_def)
  have "analysis_file (snd (replace_facts (from_files [f]) g)) ''a'' = Some g"
    using replace_facts_get [of "from_files [f]" g "''a''"] fg by (simp add: analysis_file_def get)
  with replacement_reports_exactly [OF wf, of g "fst (replace_facts (from_files [f]) g)"
      "snd (replace_facts (from_files [f]) g)"]
  have "set (rp_removed_keys (fst (replace_facts (from_files [f]) g))) = {''k''}"
    using fg by (simp add: Let_def analysis_file_def get)
  then show ?thesis by (simp only: Let_def f_def g_def)
qed

end
