(* ===== verification/GraphInvalidation.thy ===== *)
theory GraphInvalidation
  imports GraphIdentity
begin

text \<open>
  Exported-signature invalidation, \<^verbatim>\<open>graph-analyze/src/invalidation.rs\<close>: which files must be
  re-analysed between two signature snapshots, over the reverse dependency index.  The depth-first
  loop of \<open>transitive\<close> is shown to end and to compute the reflexive transitive closure of the
  dependency relation, and the plan to be exactly what that relation asks for.
\<close>

definition REASON_REMOVED_TARGET :: string where
  "REASON_REMOVED_TARGET = ''invalidation-removed-target''"
definition REASON_SIGNATURE_CHANGED :: string where
  "REASON_SIGNATURE_CHANGED = ''invalidation-signature-changed''"

section \<open>Signatures\<close>

record export_signature =
  es_file :: string
  es_fingerprint :: string
  es_exported :: "string list"

definition signature_compute :: "string \<Rightarrow> string list \<Rightarrow> export_signature" where
  "signature_compute path exported =
     (let exported = remdups_adj (sort exported)
      in \<lparr>es_file = path, es_fingerprint = identity_digest exported, es_exported = exported\<rparr>)"

definition signature_matches :: "export_signature \<Rightarrow> export_signature \<Rightarrow> bool" where
  "signature_matches a b \<longleftrightarrow> es_fingerprint a = es_fingerprint b"

record signature_index =
  si_signatures :: "(string, export_signature) btree_map"

definition signature_index_new :: signature_index where
  "signature_index_new = \<lparr>si_signatures = []\<rparr>"

definition signature_insert :: "signature_index \<Rightarrow> export_signature \<Rightarrow> signature_index" where
  "signature_insert index sig = index\<lparr>si_signatures := bt_insert (es_file sig) sig (si_signatures index)\<rparr>"

definition from_signatures :: "export_signature list \<Rightarrow> signature_index" where
  "from_signatures sigs = foldl signature_insert signature_index_new sigs"

definition signature_get :: "signature_index \<Rightarrow> string \<Rightarrow> export_signature option" where
  "signature_get index path = bt_get (si_signatures index) path"

definition signature_files :: "signature_index \<Rightarrow> string list" where
  "signature_files index = map fst (si_signatures index)"

definition signature_contains :: "signature_index \<Rightarrow> string \<Rightarrow> bool" where
  "signature_contains index path \<longleftrightarrow> bt_get (si_signatures index) path \<noteq> None"

section \<open>The reverse dependency index\<close>

record dependency_index =
  di_dependents :: "(string, string btree_set) btree_map"

definition dependency_new :: dependency_index where
  "dependency_new = \<lparr>di_dependents = []\<rparr>"

definition dependency_direct :: "dependency_index \<Rightarrow> string \<Rightarrow> string list" where
  "dependency_direct d target = (case bt_get (di_dependents d) target of Some s \<Rightarrow> s | None \<Rightarrow> [])"

definition dependency_add :: "dependency_index \<Rightarrow> string \<Rightarrow> string \<Rightarrow> dependency_index" where
  "dependency_add d target dependent =
     (let old = (case bt_get (di_dependents d) target of Some s \<Rightarrow> s | None \<Rightarrow> [])
      in d\<lparr>di_dependents := bt_insert target (bs_insert dependent old) (di_dependents d)\<rparr>)"

text \<open>The files the index names as dependents; the loop ends because it can visit no other.\<close>

definition dependency_nodes :: "dependency_index \<Rightarrow> string set" where
  "dependency_nodes d = \<Union> (set ` snd ` set (di_dependents d))"

lemma direct_nodes: "set (dependency_direct d x) \<subseteq> dependency_nodes d"
proof (cases "bt_get (di_dependents d) x")
  case (Some s)
  then have "(x, s) \<in> set (di_dependents d)" by (simp add: bt_get_def map_of_SomeD)
  then have "s \<in> snd ` set (di_dependents d)" by force
  with Some show ?thesis by (auto simp: dependency_direct_def dependency_nodes_def)
qed (simp add: dependency_direct_def)

lemma finite_dependency_nodes [simp]: "finite (dependency_nodes d)"
  by (auto simp: dependency_nodes_def)

text \<open>The queue is a \<open>Vec\<close>: \<open>pop\<close> takes its last element, \<open>push\<close> appends.\<close>

function transitive_loop :: "dependency_index \<Rightarrow> string btree_set \<Rightarrow> string list \<Rightarrow> string btree_set" where
  "transitive_loop d seen queue =
     (if queue = [] then seen
      else
        let current = last queue; queue = butlast queue
        in if current \<in> set seen then transitive_loop d seen queue
           else transitive_loop d (bs_insert current seen) (queue @ dependency_direct d current))"
  by pat_completeness auto
termination
proof (relation "measures [\<lambda>(d, seen, queue). card (dependency_nodes d \<union> set queue - set seen),
    \<lambda>(d, seen, queue). length queue]")
  fix d :: dependency_index and seen queue queue' :: "string list" and current
  assume "queue \<noteq> []" and "current = last queue" and "queue' = butlast queue"
  then have "set queue' \<subseteq> set queue" "length queue' < length queue"
    by (auto dest: in_set_butlastD)
  moreover from this have "card (dependency_nodes d \<union> set queue' - set seen) \<le>
      card (dependency_nodes d \<union> set queue - set seen)"
    by (intro card_mono) auto
  ultimately show "((d, seen, queue'), (d, seen, queue)) \<in> measures [\<lambda>(d, seen, queue).
      card (dependency_nodes d \<union> set queue - set seen), \<lambda>(d, seen, queue). length queue]"
    by auto
next
  fix d :: dependency_index and seen queue queue' :: "string list" and current
  assume "queue \<noteq> []" and "current = last queue" and "queue' = butlast queue"
    and new: "current \<notin> set seen"
  then have "set queue' \<subseteq> set queue" "current \<in> set queue"
    by (auto dest: in_set_butlastD)
  then have "dependency_nodes d \<union> set (queue' @ dependency_direct d current) - set (bs_insert current seen)
      \<subset> dependency_nodes d \<union> set queue - set seen"
    using direct_nodes [of d current] new by auto
  then show "((d, bs_insert current seen, queue' @ dependency_direct d current), (d, seen, queue))
      \<in> measures [\<lambda>(d, seen, queue). card (dependency_nodes d \<union> set queue - set seen),
          \<lambda>(d, seen, queue). length queue]"
    by (auto intro: psubset_card_mono)
qed simp

declare transitive_loop.simps [simp del]

definition transitive :: "dependency_index \<Rightarrow> string list \<Rightarrow> string list" where
  "transitive d roots = filter (\<lambda>path. path \<notin> set roots) (transitive_loop d [] roots)"

section \<open>The plan\<close>

record cleared_edge =
  ce_from :: string
  ce_to :: string

record invalidation_diagnostic =
  id_file :: string
  id_target :: string
  id_reason :: string
  id_message :: string

record invalidation_plan =
  ip_stale_files :: "string list"
  ip_changed_files :: "string list"
  ip_removed_files :: "string list"
  ip_added_files :: "string list"
  ip_cleared_edges :: "cleared_edge list"
  ip_diagnostics :: "invalidation_diagnostic list"

definition plan_is_empty :: "invalidation_plan \<Rightarrow> bool" where
  "plan_is_empty p \<longleftrightarrow> ip_stale_files p = [] \<and> ip_cleared_edges p = [] \<and> ip_diagnostics p = [] \<and>
     ip_added_files p = []"

definition removed_diagnostic :: "string \<Rightarrow> string \<Rightarrow> invalidation_diagnostic" where
  "removed_diagnostic target dependent =
     \<lparr>id_file = dependent, id_target = target, id_reason = REASON_REMOVED_TARGET,
      id_message = dependent @ '' still resolves an edge to '' @ target @
        '', which no longer exists; the edge is cleared and the caller must be re-analysed''\<rparr>"

definition invalidation_plan_of ::
  "signature_index \<Rightarrow> signature_index \<Rightarrow> dependency_index \<Rightarrow> invalidation_plan" where
  "invalidation_plan_of previous current dependencies =
     (let changed = filter (\<lambda>path. case signature_get current path of
              None \<Rightarrow> False
            | Some new \<Rightarrow> (case signature_get previous path of
                None \<Rightarrow> False | Some old \<Rightarrow> \<not> signature_matches new old)) (signature_files previous);
          removed = filter (\<lambda>path. \<not> signature_contains current path) (signature_files previous);
          added = filter (\<lambda>path. \<not> signature_contains previous path) (signature_files current);
          stale = bs_collect (transitive dependencies changed @ transitive dependencies removed);
          stale = filter (\<lambda>path. path \<notin> set (removed @ changed)) stale;
          edges = concat (map (\<lambda>target. map (\<lambda>dependent. \<lparr>ce_from = dependent, ce_to = target\<rparr>)
            (dependency_direct dependencies target)) removed);
          diagnostics = concat (map (\<lambda>target. map (removed_diagnostic target)
            (filter (signature_contains current) (dependency_direct dependencies target))) removed)
      in \<lparr>ip_stale_files = stale, ip_changed_files = changed, ip_removed_files = removed,
          ip_added_files = added,
          ip_cleared_edges = remdups_adj (sort_key (\<lambda>e. (ce_from e, ce_to e)) edges),
          ip_diagnostics = sort_key (\<lambda>x. (id_file x, id_target x)) diagnostics\<rparr>)"

section \<open>The loop computes the closure\<close>

definition depends :: "dependency_index \<Rightarrow> (string \<times> string) set" where
  "depends d = {(target, dependent). dependent \<in> set (dependency_direct d target)}"

lemma closed_reach:
  assumes "(x, y) \<in> (depends d)\<^sup>*" and "x \<in> S"
    and "\<forall>x \<in> S. set (dependency_direct d x) \<subseteq> S \<union> Q"
  shows "y \<in> S \<union> (depends d)\<^sup>* `` Q"
  using assms(1,2)
proof (induction rule: rtrancl_induct)
  case (step y z)
  then consider "y \<in> S" | "y \<in> (depends d)\<^sup>* `` Q" by blast
  then show ?case
  proof cases
    case 1
    then have "z \<in> S \<union> Q" using assms(3) step(2) by (auto simp: depends_def)
    then show ?thesis by auto
  next
    case 2
    then show ?thesis using step(2) by (auto intro: rtrancl_into_rtrancl)
  qed
qed simp

lemma transitive_loop_closure:
  assumes "\<forall>x \<in> set seen. set (dependency_direct d x) \<subseteq> set seen \<union> set queue"
  shows "set (transitive_loop d seen queue) = set seen \<union> (depends d)\<^sup>* `` set queue"
  using assms
proof (induction d seen queue rule: transitive_loop.induct)
  case (1 d seen queue)
  show ?case
  proof (cases "queue = []")
    case True
    then show ?thesis by (simp add: transitive_loop.simps)
  next
    case False
    define c q where "c = last queue" and "q = butlast queue"
    with False have queue: "set queue = insert c (set q)" 
      by (metis append_butlast_last_id list.simps(15) rotate1.simps(2) set_rotate1)
    show ?thesis
    proof (cases "c \<in> set seen")
      case True
      then have closed: "\<forall>x \<in> set seen. set (dependency_direct d x) \<subseteq> set seen \<union> set q"
        using 1(3) queue by auto
      have "set (transitive_loop d seen queue) = set seen \<union> (depends d)\<^sup>* `` set q"
        using 1(1) [OF False c_def q_def True closed] False True
        by (subst transitive_loop.simps) (simp add: c_def q_def Let_def)
      moreover have "(depends d)\<^sup>* `` {c} \<subseteq> set seen \<union> (depends d)\<^sup>* `` set q"
        using closed_reach [OF _ True closed] by auto
      ultimately show ?thesis using queue by (auto simp: Image_iff)
    next
      case new: False
      have closed: "\<forall>x \<in> set (bs_insert c seen). set (dependency_direct d x) \<subseteq>
          set (bs_insert c seen) \<union> set (q @ dependency_direct d c)"
        using 1(3) queue by auto
      have "set (transitive_loop d seen queue) =
          insert c (set seen) \<union> (depends d)\<^sup>* `` (set q \<union> set (dependency_direct d c))"
        using 1(2) [OF False c_def q_def new closed] False new
        by (subst transitive_loop.simps) (simp add: c_def q_def Let_def)
      moreover have "(depends d)\<^sup>* `` {c} = insert c ((depends d)\<^sup>* `` set (dependency_direct d c))"
        by (auto simp: Image_iff depends_def elim: converse_rtranclE
            intro: converse_rtrancl_into_rtrancl)
      ultimately show ?thesis using queue by (auto simp: Image_Un)
    qed
  qed
qed

lemma transitive_loop_sorted:
  "sorted_wrt (<) seen \<Longrightarrow> sorted_wrt (<) (transitive_loop d seen queue)"
  by (induction d seen queue rule: transitive_loop.induct)
    (subst transitive_loop.simps, simp add: Let_def)

lemma set_transitive: "set (transitive d roots) = (depends d)\<^sup>* `` set roots - set roots"
  using transitive_loop_closure [of "[]" d roots] by (auto simp: transitive_def)

lemma bs_collect_sorted [simp]: "sorted_wrt (<) (bs_collect xs)"
  by (simp add: bs_collect_eq)

lemma signature_files_iff: "path \<in> set (signature_files index) \<longleftrightarrow> signature_contains index path"
  using bt_keys_get [of path "si_signatures index"]
  by (simp add: signature_files_def signature_contains_def)

lemma signature_contains_get: "signature_contains index path \<longleftrightarrow> signature_get index path \<noteq> None"
  by (simp add: signature_contains_def signature_get_def)

text \<open>A file's fingerprint changed, seen from two snapshots that both hold it.\<close>

definition signature_changed :: "signature_index \<Rightarrow> signature_index \<Rightarrow> string \<Rightarrow> bool" where
  "signature_changed previous current path \<longleftrightarrow>
     (\<exists>old new. signature_get previous path = Some old \<and> signature_get current path = Some new \<and>
        es_fingerprint old \<noteq> es_fingerprint new)"

lemma plan_changed:
  "set (ip_changed_files (invalidation_plan_of p c d)) = {path. signature_changed p c path}"
proof (rule set_eqI)
  fix path
  show "path \<in> set (ip_changed_files (invalidation_plan_of p c d)) \<longleftrightarrow>
      path \<in> {path. signature_changed p c path}"
    by (cases "signature_get p path"; cases "signature_get c path")
      (auto simp: invalidation_plan_of_def Let_def signature_changed_def signature_matches_def
        signature_files_iff signature_contains_get)
qed

lemma plan_removed:
  "set (ip_removed_files (invalidation_plan_of p c d)) =
     {path. signature_contains p path} - {path. signature_contains c path}"
  by (auto simp: invalidation_plan_of_def Let_def signature_files_iff)

lemma plan_added:
  "set (ip_added_files (invalidation_plan_of p c d)) =
     {path. signature_contains c path} - {path. signature_contains p path}"
  by (auto simp: invalidation_plan_of_def Let_def signature_files_iff)

lemma plan_stale:
  "set (ip_stale_files (invalidation_plan_of p c d)) =
     (depends d)\<^sup>* `` (set (ip_changed_files (invalidation_plan_of p c d)) \<union>
         set (ip_removed_files (invalidation_plan_of p c d))) -
     (set (ip_changed_files (invalidation_plan_of p c d)) \<union>
        set (ip_removed_files (invalidation_plan_of p c d)))"
  by (auto simp: invalidation_plan_of_def Let_def set_transitive)

lemma removed_diagnostic_fields:
  "id_file (removed_diagnostic target dependent) = dependent"
  "id_target (removed_diagnostic target dependent) = target"
  by (simp_all add: removed_diagnostic_def)

section \<open>Properties of invalidation\<close>

text \<open>C22: The plan is exactly what the dependencies ask for: the changed files are those both snapshots
  hold with different fingerprints, the stale ones are all files that depend on a changed or removed
  file, directly or through others, and are not themselves changed or removed, and each is listed once
  and in order.\<close>

theorem stale_files_are_the_closure:
  "set (ip_changed_files (invalidation_plan_of p c d)) = {path. signature_changed p c path} \<and>
   set (ip_removed_files (invalidation_plan_of p c d)) =
     {path. signature_contains p path} - {path. signature_contains c path} \<and>
   set (ip_added_files (invalidation_plan_of p c d)) =
     {path. signature_contains c path} - {path. signature_contains p path} \<and>
   set (ip_stale_files (invalidation_plan_of p c d)) =
     (depends d)\<^sup>* `` ({path. signature_changed p c path} \<union>
       ({path. signature_contains p path} - {path. signature_contains c path})) -
     {path. signature_changed p c path} -
     ({path. signature_contains p path} - {path. signature_contains c path}) \<and>
   sorted_wrt (<) (ip_stale_files (invalidation_plan_of p c d))"
proof -
  have "sorted_wrt (<) (ip_stale_files (invalidation_plan_of p c d))"
    by (simp add: invalidation_plan_of_def Let_def sorted_wrt_filter)
  then show ?thesis
    by (simp add: plan_changed plan_removed plan_added plan_stale) blast
qed

text \<open>Removing a file clears exactly its incoming edges: an edge is cleared when its target is gone
  and its source depends on it directly, and a diagnostic is left for exactly those sources that still
  exist, so no surviving caller loses an edge silently.\<close>

theorem cleared_edges_are_reported:
  "set (ip_cleared_edges (invalidation_plan_of p c d)) =
     {\<lparr>ce_from = dependent, ce_to = target\<rparr> |dependent target.
        signature_contains p target \<and> \<not> signature_contains c target \<and> (target, dependent) \<in> depends d} \<and>
   {(id_file x, id_target x) |x. x \<in> set (ip_diagnostics (invalidation_plan_of p c d))} =
     {(ce_from e, ce_to e) |e. e \<in> set (ip_cleared_edges (invalidation_plan_of p c d)) \<and>
        signature_contains c (ce_from e)} \<and>
   sorted (map (\<lambda>x. (id_file x, id_target x)) (ip_diagnostics (invalidation_plan_of p c d)))"
proof -
  let ?removed = "filter (\<lambda>path. \<not> signature_contains c path) (signature_files p)"
  have edges: "set (ip_cleared_edges (invalidation_plan_of p c d)) =
      (\<Union>target \<in> set ?removed. (\<lambda>dependent. \<lparr>ce_from = dependent, ce_to = target\<rparr>) `
        set (dependency_direct d target))"
    by (simp add: invalidation_plan_of_def Let_def)
  have image: "{(id_file x, id_target x) |x. x \<in> D} = (\<lambda>x. (id_file x, id_target x)) ` D" for D
    by auto
  have diagnostics: "set (ip_diagnostics (invalidation_plan_of p c d)) =
      (\<Union>target \<in> set ?removed. removed_diagnostic target `
        {dependent \<in> set (dependency_direct d target). signature_contains c dependent})"
    by (simp add: invalidation_plan_of_def Let_def)
  have "sorted (map (\<lambda>x. (id_file x, id_target x)) (ip_diagnostics (invalidation_plan_of p c d)))"
    by (simp add: invalidation_plan_of_def Let_def)
  moreover have "{(id_file x, id_target x) |x. x \<in> set (ip_diagnostics (invalidation_plan_of p c d))} =
      {(dependent, target). target \<in> set ?removed \<and> dependent \<in> set (dependency_direct d target) \<and>
        signature_contains c dependent}"
    by (simp only: image diagnostics image_UN image_image removed_diagnostic_fields) auto
  moreover have "{(ce_from e, ce_to e) |e. e \<in> set (ip_cleared_edges (invalidation_plan_of p c d)) \<and>
        signature_contains c (ce_from e)} =
      {(dependent, target). target \<in> set ?removed \<and> dependent \<in> set (dependency_direct d target) \<and>
        signature_contains c dependent}"
    unfolding edges by (auto intro!: exI)
  moreover have "set (ip_cleared_edges (invalidation_plan_of p c d)) =
     {\<lparr>ce_from = dependent, ce_to = target\<rparr> |dependent target.
        signature_contains p target \<and> \<not> signature_contains c target \<and> (target, dependent) \<in> depends d}"
    unfolding edges by (auto simp: signature_files_iff depends_def)
  ultimately show ?thesis by simp
qed

text \<open>
  A dependent that neither snapshot holds is still listed as stale, although no such file can be
  analysed again.
\<close>

lemma stale_may_be_unknown:
  "let p = from_signatures [signature_compute ''a'' [''x'']];
       d = dependency_add dependency_new ''a'' ''gone''
   in ''gone'' \<in> set (ip_stale_files (invalidation_plan_of p signature_index_new d))"
proof -
  define p where "p = from_signatures [signature_compute ''a'' [''x'']]"
  define d where "d = dependency_add dependency_new ''a'' ''gone''"
  have step: "(''a'', ''gone'') \<in> (depends d)\<^sup>*"
    by (rule r_into_rtrancl)
      (simp add: depends_def d_def dependency_direct_def dependency_add_def dependency_new_def bt_get_def)
  have holds: "signature_contains p path \<longleftrightarrow> path = ''a''"
    "\<not> signature_contains signature_index_new path"
    "\<not> signature_changed p signature_index_new path" for path
    by (simp_all add: p_def from_signatures_def signature_contains_def signature_insert_def
        signature_index_new_def signature_compute_def Let_def bt_get_def signature_changed_def
        signature_get_def)
  have "''gone'' \<in> set (ip_stale_files (invalidation_plan_of p signature_index_new d))"
    using step by (auto simp: plan_stale plan_changed plan_removed holds)
  then show ?thesis by (simp only: Let_def p_def d_def)
qed

end
