(* ===== verification/StrText.thy ===== *)
theory StrText
  imports Redact
begin

text \<open>
  The \<open>str\<close> methods that work on characters rather than bytes: \<open>chars\<close> as the list of the
  characters' UTF-8 byte groups, \<open>trim\<close> by Unicode whitespace, \<open>lines\<close>, \<open>split_inclusive\<close> and the
  boundary test of \<open>str::get\<close>.
\<close>

definition continuation :: "char \<Rightarrow> bool" where
  "continuation c \<longleftrightarrow> 128 \<le> (of_char c :: nat) \<and> (of_char c :: nat) < 192"

text \<open>The characters of a valid text: a leading byte and the continuation bytes after it.\<close>

function str_chars :: "string \<Rightarrow> string list" where
  "str_chars [] = []"
| "str_chars (c # cs) = (c # takeWhile continuation cs) # str_chars (dropWhile continuation cs)"
  by pat_completeness auto
termination
  by (relation "measure length") (auto simp: le_imp_less_Suc length_dropWhile_le)

definition is_ws_char :: "string \<Rightarrow> bool" where
  "is_ws_char g \<longleftrightarrow> ws_len g = length g"

definition str_trim_start :: "string \<Rightarrow> string" where
  "str_trim_start s = concat (dropWhile is_ws_char (str_chars s))"

definition str_trim_end :: "string \<Rightarrow> string" where
  "str_trim_end s = concat (rev (dropWhile is_ws_char (rev (str_chars s))))"

definition str_trim :: "string \<Rightarrow> string" where
  "str_trim s = str_trim_end (str_trim_start s)"

text \<open>\<open>lines\<close>: a line feed ends a line, with the carriage return before it.\<close>

definition strip_cr :: "string \<Rightarrow> string" where
  "strip_cr s = (if s \<noteq> [] \<and> last s = CHR 0x0D then butlast s else s)"

definition str_lines :: "string \<Rightarrow> string list" where
  "str_lines s =
     (let ls = split_on CHR 0x0A s
      in map strip_cr (butlast ls) @ (if last ls = [] then [] else [last ls]))"

text \<open>\<open>split_inclusive\<close> at the line feed: every line but the last keeps it.\<close>

definition split_inclusive :: "string \<Rightarrow> string list" where
  "split_inclusive s =
     (let ls = split_on CHR 0x0A s
      in map (\<lambda>l. l @ [CHR 0x0A]) (butlast ls) @ (if last ls = [] then [] else [last ls]))"

text \<open>\<open>str::get\<close> of a range: none unless it lies inside the text on character boundaries.\<close>

definition char_boundary :: "string \<Rightarrow> nat \<Rightarrow> bool" where
  "char_boundary s i \<longleftrightarrow> i = 0 \<or> i = length s \<or> (i < length s \<and> \<not> continuation (s ! i))"

definition str_get :: "string \<Rightarrow> nat \<Rightarrow> nat \<Rightarrow> string option" where
  "str_get s a b =
     (if a \<le> b \<and> char_boundary s a \<and> char_boundary s b then Some (take (b - a) (drop a s)) else None)"

text \<open>
  \<open>str::from_utf8\<close>: the offset of the first byte that does not start a well-formed character, with
  the length of the malformed sequence, none when the text ends inside a character.
\<close>

definition is_cont :: "nat \<Rightarrow> bool" where
  "is_cont b \<longleftrightarrow> 128 \<le> b \<and> b < 192"

fun utf8_second_ok :: "nat \<Rightarrow> nat \<Rightarrow> bool" where
  "utf8_second_ok a b =
     (if a < 224 then is_cont b
      else if a = 224 then 160 \<le> b \<and> b < 192
      else if a = 237 then 128 \<le> b \<and> b < 160
      else if a < 240 then is_cont b
      else if a = 240 then 144 \<le> b \<and> b < 192
      else if a < 244 then is_cont b
      else 128 \<le> b \<and> b < 144)"

definition utf8_width :: "nat \<Rightarrow> nat" where
  "utf8_width a = (if a < 128 then 1 else if 194 \<le> a \<and> a < 224 then 2
     else if 224 \<le> a \<and> a < 240 then 3 else if 240 \<le> a \<and> a < 245 then 4 else 0)"

text \<open>The head of a text: the width of its first character, or the length of what is malformed.\<close>

definition utf8_head :: "nat list \<Rightarrow> nat option + nat" where
  "utf8_head s =
     (let a = hd s; w = utf8_width a
      in if w = 0 then Inl (Some 1)
         else if w = 1 then Inr 1
         else if length s < 2 then Inl None
         else if \<not> utf8_second_ok a (s ! 1) then Inl (Some 1)
         else if w = 2 then Inr 2
         else if length s < 3 then Inl None
         else if \<not> is_cont (s ! 2) then Inl (Some 2)
         else if w = 3 then Inr 3
         else if length s < 4 then Inl None
         else if \<not> is_cont (s ! 3) then Inl (Some 3)
         else Inr 4)"

lemma utf8_head_width: "utf8_head s = Inr w \<Longrightarrow> 0 < w"
  by (auto simp: utf8_head_def Let_def split: if_splits)

function utf8_check :: "nat \<Rightarrow> nat list \<Rightarrow> (nat \<times> nat option) option" where
  "utf8_check at s =
     (if s = [] then None
      else (case utf8_head s of
          Inl bad \<Rightarrow> Some (at, bad)
        | Inr w \<Rightarrow> utf8_check (at + w) (drop w s)))"
  by pat_completeness auto
termination
  by (relation "measure (\<lambda>(at, s). length s)") (auto dest: utf8_head_width)

declare utf8_check.simps [simp del]

definition from_utf8 :: "string \<Rightarrow> (nat \<times> nat option) + string" where
  "from_utf8 bytes =
     (case utf8_check 0 (map of_char bytes) of None \<Rightarrow> Inr bytes | Some bad \<Rightarrow> Inl bad)"

definition utf8_error_display :: "nat \<times> nat option \<Rightarrow> string" where
  "utf8_error_display bad =
     (case snd bad of
        Some n \<Rightarrow> ''invalid utf-8 sequence of '' @ show_nat n @ '' bytes from index '' @ show_nat (fst bad)
      | None \<Rightarrow> ''incomplete utf-8 byte sequence from index '' @ show_nat (fst bad))"

section \<open>Lemmas\<close>

lemma concat_str_chars [simp]: "concat (str_chars s) = s"
  by (induction s rule: str_chars.induct) simp_all

lemma str_chars_Nil_iff [simp]: "str_chars s = [] \<longleftrightarrow> s = []"
  by (cases s) simp_all

lemma concat_split_inclusive [simp]: "concat (split_inclusive s) = s"
proof -
  have "concat (map (\<lambda>l. l @ [CHR 0x0A]) (butlast ls)) @ last ls = join_with CHR 0x0A ls"
    if "ls \<noteq> []" for ls
    using that by (induction "CHR 0x0A" ls rule: join_with.induct) auto
  from this [OF split_on_nonempty, of "CHR 0x0A" s] show ?thesis
    by (auto simp: split_inclusive_def Let_def)
qed

lemma char_boundary_0 [simp]: "char_boundary s 0"
  by (simp add: char_boundary_def)

lemma char_boundary_length [simp]: "char_boundary s (length s)"
  by (simp add: char_boundary_def)

lemma char_boundary_le: "char_boundary s i \<Longrightarrow> i \<le> length s"
  by (auto simp: char_boundary_def)

text \<open>A valid text does not begin inside a character.\<close>

lemma from_utf8_head:
  assumes "from_utf8 bytes = Inr s" and "s \<noteq> []"
  shows "\<not> continuation (hd s)"
proof -
  have "s = bytes" and ok: "utf8_check 0 (map of_char bytes) = None"
    using assms(1) by (auto simp: from_utf8_def split: option.splits)
  with assms(2) have "\<exists>w. utf8_head (map of_char bytes) = Inr w"
    by (subst (asm) utf8_check.simps) (auto split: sum.splits)
  then show ?thesis using assms(2) \<open>s = bytes\<close>
    by (auto simp: utf8_head_def utf8_width_def continuation_def hd_map Let_def split: if_splits)
qed

end
