(* ===== verification/GraphSource.thy ===== *)
theory GraphSource
  imports StrText
begin

text \<open>
  What every analyser module speaks of, \<^verbatim>\<open>graph-analyze/src/lib.rs\<close>: the coverage vocabulary, byte
  spans, diagnostics and the table of line starts; and from \<^verbatim>\<open>adapter.rs\<close> the languages and the
  classification of a path by its extension.  The line table is shown to cut a source exactly where
  splitting at newlines does.
\<close>

section \<open>Languages\<close>

datatype language = CSharp | TypeScript

definition language_all :: "language list" where
  "language_all = [CSharp, TypeScript]"

fun language_str :: "language \<Rightarrow> string" where
  "language_str CSharp = ''csharp''"
| "language_str TypeScript = ''typescript''"

definition language_parse :: "string \<Rightarrow> language option" where
  "language_parse value = find (\<lambda>l. language_str l = value) language_all"

fun language_extensions :: "language \<Rightarrow> string list" where
  "language_extensions CSharp = [''cs'']"
| "language_extensions TypeScript = [''ts'', ''tsx'', ''mts'', ''cts'']"

definition from_path :: "string \<Rightarrow> language option" where
  "from_path path =
     (case rsplit_once CHR ''.'' path of
        None \<Rightarrow> None
      | Some (_, extension) \<Rightarrow>
          find (\<lambda>l. to_ascii_lowercase extension \<in> set (language_extensions l)) language_all)"

text \<open>The derived order of the enum is the order of its constructors.\<close>

fun language_rank :: "language \<Rightarrow> nat" where
  "language_rank CSharp = 0"
| "language_rank TypeScript = 1"

lemma language_rank_inject [simp]: "language_rank a = language_rank b \<longleftrightarrow> a = b"
  by (cases a; cases b) simp_all

instantiation language :: linorder
begin

definition less_eq_language :: "language \<Rightarrow> language \<Rightarrow> bool" where
  "less_eq_language a b \<longleftrightarrow> language_rank a \<le> language_rank b"

definition less_language :: "language \<Rightarrow> language \<Rightarrow> bool" where
  "less_language a b \<longleftrightarrow> language_rank a < language_rank b"

instance
  by standard (auto simp: less_eq_language_def less_language_def)

end

definition REASON_UNKNOWN_LANGUAGE :: string where
  "REASON_UNKNOWN_LANGUAGE = ''unsupported-language''"

record unsupported_language =
  ul_path :: string
  ul_extension :: "string option"

definition unsupported_language_new :: "string \<Rightarrow> unsupported_language" where
  "unsupported_language_new path =
     \<lparr>ul_path = path,
      ul_extension = map_option (\<lambda>(_, extension). to_ascii_lowercase extension)
        (rsplit_once CHR ''.'' path)\<rparr>"

definition unsupported_pattern :: "unsupported_language \<Rightarrow> string" where
  "unsupported_pattern u =
     (case ul_extension u of
        Some extension \<Rightarrow> REASON_UNKNOWN_LANGUAGE @ '':'' @ extension
      | None \<Rightarrow> REASON_UNKNOWN_LANGUAGE @ '':<none>'')"

section \<open>Coverage\<close>

datatype coverage_status = CompleteForProfile | Partial | Unsupported

definition coverage_status_all :: "coverage_status list" where
  "coverage_status_all = [CompleteForProfile, Partial, Unsupported]"

fun coverage_status_str :: "coverage_status \<Rightarrow> string" where
  "coverage_status_str CompleteForProfile = ''complete_for_profile''"
| "coverage_status_str Partial = ''partial''"
| "coverage_status_str Unsupported = ''unsupported''"

definition coverage_status_parse :: "string \<Rightarrow> coverage_status option" where
  "coverage_status_parse value = find (\<lambda>s. coverage_status_str s = value) coverage_status_all"

fun status_claims_completeness :: "coverage_status \<Rightarrow> bool" where
  "status_claims_completeness CompleteForProfile = True"
| "status_claims_completeness _ = False"

record coverage =
  cv_status :: coverage_status
  cv_input_files :: usize
  cv_processed_files :: usize
  cv_unresolved_references :: usize
  cv_unsupported_patterns :: "string list"

definition complete_for_profile :: "usize \<Rightarrow> usize \<Rightarrow> coverage" where
  "complete_for_profile input_files unresolved =
     \<lparr>cv_status = CompleteForProfile, cv_input_files = input_files, cv_processed_files = input_files,
      cv_unresolved_references = unresolved, cv_unsupported_patterns = []\<rparr>"

definition coverage_partial :: "usize \<Rightarrow> usize \<Rightarrow> usize \<Rightarrow> string list \<Rightarrow> coverage" where
  "coverage_partial input_files processed_files unresolved patterns =
     \<lparr>cv_status = Partial, cv_input_files = input_files, cv_processed_files = processed_files,
      cv_unresolved_references = unresolved, cv_unsupported_patterns = patterns\<rparr>"

definition coverage_unsupported_language :: "string \<Rightarrow> coverage" where
  "coverage_unsupported_language path =
     \<lparr>cv_status = Unsupported, cv_input_files = 1, cv_processed_files = 0,
      cv_unresolved_references = 0,
      cv_unsupported_patterns = [unsupported_pattern (unsupported_language_new path)]\<rparr>"

definition claims_completeness :: "coverage \<Rightarrow> bool" where
  "claims_completeness c = status_claims_completeness (cv_status c)"

definition is_consistent :: "coverage \<Rightarrow> bool" where
  "is_consistent c =
     (case cv_status c of
        CompleteForProfile \<Rightarrow>
          cv_processed_files c = cv_input_files c \<and> cv_unsupported_patterns c = []
      | Partial \<Rightarrow> cv_processed_files c < cv_input_files c
      | Unsupported \<Rightarrow> cv_processed_files c = 0)"

section \<open>Spans and diagnostics\<close>

record span =
  sp_start :: usize
  sp_end :: usize

definition span_new :: "usize \<Rightarrow> usize \<Rightarrow> span" where
  "span_new start stop = \<lparr>sp_start = start, sp_end = stop\<rparr>"

definition span_len :: "span \<Rightarrow> usize" where
  "span_len s = sp_end s - sp_start s"

definition span_is_empty :: "span \<Rightarrow> bool" where
  "span_is_empty s \<longleftrightarrow> span_len s = 0"

definition span_slice :: "span \<Rightarrow> string \<Rightarrow> string option" where
  "span_slice s source = str_get source (sp_start s) (sp_end s)"

definition span_line :: "span \<Rightarrow> string \<Rightarrow> usize" where
  "span_line s source =
     (if sp_start s \<le> length source
      then length (filter (\<lambda>c. c = CHR 0x0A) (take (sp_start s) source)) + 1 else 1)"

datatype severity = SeverityError | SeverityWarning

record diagnostic =
  dg_code :: string
  dg_severity :: severity
  dg_message :: string
  dg_span :: span

definition diagnostic_error :: "string \<Rightarrow> string \<Rightarrow> span \<Rightarrow> diagnostic" where
  "diagnostic_error code message at =
     \<lparr>dg_code = code, dg_severity = SeverityError, dg_message = message, dg_span = at\<rparr>"

definition diagnostic_warning :: "string \<Rightarrow> string \<Rightarrow> span \<Rightarrow> diagnostic" where
  "diagnostic_warning code message at =
     \<lparr>dg_code = code, dg_severity = SeverityWarning, dg_message = message, dg_span = at\<rparr>"

section \<open>Lines\<close>

fun line_starts_loop :: "nat \<Rightarrow> usize list \<Rightarrow> string \<Rightarrow> usize list" where
  "line_starts_loop index starts [] = starts"
| "line_starts_loop index starts (byte # bytes) =
     line_starts_loop (index + 1)
       (if byte = CHR 0x0A then starts @ [index + 1] else starts) bytes"

definition line_starts :: "string \<Rightarrow> usize list" where
  "line_starts source = line_starts_loop 0 [0] source"

definition line_span :: "string \<Rightarrow> usize list \<Rightarrow> nat \<Rightarrow> span" where
  "line_span source starts line =
     (if line < length starts then
        (let start = starts ! line;
             stop = min (if line + 1 < length starts then starts ! (line + 1) - 1 else length source)
               (length source)
         in span_new start (max stop start))
      else span_new (length source) (length source))"

section \<open>Lemmas\<close>

lemma coverage_status_parse_str: "coverage_status_parse (coverage_status_str s) = Some s"
  by (cases s) (simp_all add: coverage_status_parse_def coverage_status_all_def)

lemma language_parse_str: "language_parse (language_str l) = Some l"
  by (cases l) (simp_all add: language_parse_def language_all_def)

lemma unsupported_is_consistent:
  "is_consistent (coverage_unsupported_language path)"
  "\<not> claims_completeness (coverage_unsupported_language path)"
  by (simp_all add: coverage_unsupported_language_def is_consistent_def claims_completeness_def)

text \<open>The offsets at which the segments of a separator split begin.\<close>

fun segment_starts :: "nat \<Rightarrow> string list \<Rightarrow> nat list" where
  "segment_starts at [] = []"
| "segment_starts at (seg # segs) = at # segment_starts (at + length seg + 1) segs"

lemma line_starts_loop_append:
  "line_starts_loop i starts bytes = starts @ line_starts_loop i [] bytes"
proof (induction bytes arbitrary: i starts)
  case (Cons b bytes)
  note step = Cons.IH [of "Suc i" "starts @ [Suc i]"] Cons.IH [of "Suc i" "[Suc i]"]
    Cons.IH [of "Suc i" starts]
  show ?case
    by (cases "b = CHR 0x0A") (simp_all add: step)
qed simp

lemma line_starts_segments:
  "i # line_starts_loop i [] source = segment_starts i (split_on CHR 0x0A source)"
proof (induction source arbitrary: i)
  case (Cons b source)
  obtain h t where ht: "split_on CHR 0x0A source = h # t"
    using split_on_nonempty by (meson list.exhaust)
  have one: "line_starts_loop (Suc i) [Suc i] source = Suc i # line_starts_loop (Suc i) [] source"
    using line_starts_loop_append [of "Suc i" "[Suc i]" source] by simp
  from Cons.IH [of "Suc i"] show ?case
    by (cases "b = CHR 0x0A") (simp_all add: one ht)
qed simp

lemma line_starts_eq: "line_starts source = segment_starts 0 (split_on CHR 0x0A source)"
  using line_starts_loop_append [of 0 "[0]" source] line_starts_segments [of 0 source]
  by (simp add: line_starts_def)

lemma length_segment_starts [simp]: "length (segment_starts at segs) = length segs"
  by (induction segs arbitrary: at) simp_all

lemma segment_starts_nth:
  "n < length segs \<Longrightarrow> segment_starts at segs ! n = at + sum_list (map (\<lambda>s. length s + 1) (take n segs))"
  by (induction segs arbitrary: at n) (auto simp: nth_Cons' less_Suc_eq_0_disj gr0_conv_Suc)

text \<open>Where a segment lies in the joined text.\<close>

lemma join_with_split_at:
  assumes "n < length segs"
  obtains before after where "join_with c segs = before @ segs ! n @ after"
    and "length before = sum_list (map (\<lambda>s. length s + 1) (take n segs))"
    and "(if Suc n < length segs then \<exists>rest. after = c # rest else after = [])"
    and "length (filter (\<lambda>x. x = c) before) =
      n + sum_list (map (\<lambda>s. length (filter (\<lambda>x. x = c) s)) (take n segs))"
  using assms
proof (induction segs arbitrary: n thesis)
  case (Cons s segs)
  show ?case
  proof (cases n)
    case 0
    show ?thesis
      by (rule Cons.prems(1) [of "[]" "if segs = [] then [] else c # join_with c segs"])
        (use 0 in \<open>cases segs; simp\<close>)+
  next
    case (Suc m)
    then have "m < length segs" using Cons.prems(2) by simp
    then obtain before after where ih: "join_with c segs = before @ segs ! m @ after"
      "length before = sum_list (map (\<lambda>s. length s + 1) (take m segs))"
      "(if Suc m < length segs then \<exists>rest. after = c # rest else after = [])"
      "length (filter (\<lambda>x. x = c) before) =
        m + sum_list (map (\<lambda>s. length (filter (\<lambda>x. x = c) s)) (take m segs))"
      using Cons.IH by blast
    have "join_with c (s # segs) = s @ c # join_with c segs"
      using \<open>m < length segs\<close> by (cases segs) simp_all
    then show ?thesis
      by (intro Cons.prems(1) [of "s @ c # before" after]) (use ih Suc in simp_all)
  qed
qed simp

lemma split_no_newline:
  "sum_list (map (\<lambda>s. length (filter (\<lambda>x. x = c) s)) (take n (split_on c source))) = 0"
proof -
  have "length (filter (\<lambda>x. x = c) s) = 0" if "s \<in> set (split_on c source)" for s
    using split_on_no_sep [OF that] by (auto simp: filter_empty_conv)
  then show ?thesis by (simp add: sum_list_eq_0_iff) (meson in_set_takeD)
qed

text \<open>The byte range of a line is its segment, and its start is on that line.\<close>

lemma line_span_segment:
  assumes "n < length (split_on CHR 0x0A source)"
  shows "take (span_len (line_span source (line_starts source) n))
      (drop (sp_start (line_span source (line_starts source) n)) source) =
        split_on CHR 0x0A source ! n \<and>
    sp_end (line_span source (line_starts source) n) \<le> length source \<and>
    span_line (line_span source (line_starts source) n) source = n + 1"
proof -
  let ?segs = "split_on CHR 0x0A source"
  obtain before after where split: "source = before @ ?segs ! n @ after"
    and len: "length before = sum_list (map (\<lambda>s. length s + 1) (take n ?segs))"
    and tail: "if Suc n < length ?segs then \<exists>rest. after = CHR 0x0A # rest else after = []"
    and lines: "length (filter (\<lambda>x. x = CHR 0x0A) before) = n"
    using join_with_split_at [OF assms, of "CHR 0x0A"] by (simp add: split_no_newline) metis
  have start: "line_starts source ! n = length before"
    using assms len by (simp add: line_starts_eq segment_starts_nth)
  have "sum_list (map (\<lambda>s. length s + 1) (take (Suc n) ?segs)) = length before + length (?segs ! n) + 1"
    using assms len by (simp add: take_Suc_conv_app_nth)
  then have stop: "(if n + 1 < length (line_starts source) then line_starts source ! (n + 1) - 1
      else length source) = length before + length (?segs ! n)"
    using tail arg_cong [OF split, of length] by (auto simp: line_starts_eq segment_starts_nth)
  have bound: "length before + length (?segs ! n) \<le> length source"
    using arg_cong [OF split, of length] by simp
  have "line_span source (line_starts source) n =
      span_new (length before) (length before + length (?segs ! n))"
    using assms bound unfolding line_span_def Let_def start stop
    by (simp add: line_starts_eq max_def min_def)
  moreover have "take (length (?segs ! n)) (drop (length before) source) = ?segs ! n"
    by (subst split) simp
  moreover have "filter (\<lambda>c. c = CHR 0x0A) (take (length before) source) =
      filter (\<lambda>c. c = CHR 0x0A) before"
    by (subst split) simp
  ultimately show ?thesis
    using lines bound by (simp add: span_new_def span_len_def span_line_def)
qed

text \<open>The line table cuts the source at its newlines: reading the byte range of each line, in
  order, gives exactly the segments between the newlines, every range lies inside the source, and
  the line number of its start is the number of the line.\<close>

theorem line_spans_are_the_lines:
  "map (\<lambda>n. take (span_len (line_span source (line_starts source) n))
       (drop (sp_start (line_span source (line_starts source) n)) source))
     [0..<length (line_starts source)] = split_on CHR 0x0A source \<and>
   list_all (\<lambda>n. sp_end (line_span source (line_starts source) n) \<le> length source \<and>
       span_line (line_span source (line_starts source) n) source = n + 1)
     [0..<length (line_starts source)]"
proof (intro conjI nth_equalityI)
  show "list_all (\<lambda>n. sp_end (line_span source (line_starts source) n) \<le> length source \<and>
       span_line (line_span source (line_starts source) n) source = n + 1)
     [0..<length (line_starts source)]"
    using line_span_segment [of _ source] by (auto simp: list_all_iff line_starts_eq)
qed (use line_span_segment [of _ source] in \<open>auto simp: line_starts_eq\<close>)

end
