(* ===== verification/GraphImports.thy ===== *)
theory GraphImports
  imports GraphSource
begin

text \<open>
  Within-project import resolution, \<^verbatim>\<open>graph-analyze/src/imports.rs\<close>: a literal specifier is
  classified, joined with the importing directory or with the targets of the alias rules, and tried
  against the known files.  A target is resolved only when it is the only candidate.
\<close>

definition REASON_MISSING_TARGET :: string where
  "REASON_MISSING_TARGET = ''unresolved-missing-target''"
definition REASON_AMBIGUOUS_TARGET :: string where
  "REASON_AMBIGUOUS_TARGET = ''unresolved-ambiguous-target''"
definition REASON_NOT_A_LITERAL :: string where
  "REASON_NOT_A_LITERAL = ''unresolved-not-a-literal''"
definition REASON_EXTERNAL_PACKAGE :: string where
  "REASON_EXTERNAL_PACKAGE = ''unresolved-external-package''"
definition REASON_OUTSIDE_PROJECT :: string where
  "REASON_OUTSIDE_PROJECT = ''unresolved-outside-project''"

section \<open>Specifiers and configuration\<close>

datatype specifier_kind = SpecRelative | SpecAlias | SpecExternal | SpecUnsupported

fun specifier_kind_str :: "specifier_kind \<Rightarrow> string" where
  "specifier_kind_str SpecRelative = ''relative''"
| "specifier_kind_str SpecAlias = ''alias''"
| "specifier_kind_str SpecExternal = ''external''"
| "specifier_kind_str SpecUnsupported = ''unsupported''"

record alias_rule =
  al_prefix :: string
  al_targets :: "string btree_set"

definition alias_rule_new :: "string \<Rightarrow> string list \<Rightarrow> alias_rule" where
  "alias_rule_new pre targets = \<lparr>al_prefix = pre, al_targets = bs_collect targets\<rparr>"

definition alias_matches :: "alias_rule \<Rightarrow> string \<Rightarrow> bool" where
  "alias_matches rule specifier \<longleftrightarrow>
     specifier = al_prefix rule \<or>
     (length specifier > length (al_prefix rule) \<and> starts_with specifier (al_prefix rule) \<and>
      specifier ! length (al_prefix rule) = CHR ''/'')"

definition alias_remainder :: "alias_rule \<Rightarrow> string \<Rightarrow> string" where
  "alias_remainder rule specifier =
     (let rest = drop (length (al_prefix rule)) specifier
      in if starts_with rest ''/'' then drop 1 rest else rest)"

record path_config =
  pc_aliases :: "alias_rule list"
  pc_extensions :: "string list"
  pc_index_names :: "string list"

definition path_config_new :: "string list \<Rightarrow> path_config" where
  "path_config_new extensions =
     \<lparr>pc_aliases = [], pc_extensions = extensions, pc_index_names = [''index'']\<rparr>"

definition with_alias :: "path_config \<Rightarrow> alias_rule \<Rightarrow> path_config" where
  "with_alias config rule = config\<lparr>pc_aliases := pc_aliases config @ [rule]\<rparr>"

definition with_index_names :: "path_config \<Rightarrow> string list \<Rightarrow> path_config" where
  "with_index_names config names = config\<lparr>pc_index_names := names\<rparr>"

record import_statement =
  im_file :: string
  im_specifier :: "string option"
  im_span :: span

definition import_literal :: "string \<Rightarrow> string \<Rightarrow> span \<Rightarrow> import_statement" where
  "import_literal path specifier span =
     \<lparr>im_file = path, im_specifier = Some specifier, im_span = span\<rparr>"

definition import_unsupported :: "string \<Rightarrow> span \<Rightarrow> import_statement" where
  "import_unsupported path span = \<lparr>im_file = path, im_specifier = None, im_span = span\<rparr>"

definition statement_kind :: "import_statement \<Rightarrow> path_config \<Rightarrow> specifier_kind" where
  "statement_kind statement config =
     (case im_specifier statement of
        None \<Rightarrow> SpecUnsupported
      | Some specifier \<Rightarrow>
          if specifier = [] then SpecUnsupported
          else if starts_with specifier ''./'' \<or> starts_with specifier ''../'' \<or> specifier = ''.''
          then SpecRelative
          else if list_ex (\<lambda>rule. alias_matches rule specifier) (pc_aliases config) then SpecAlias
          else SpecExternal)"

section \<open>Joining\<close>

fun join_parts :: "string list \<Rightarrow> string list \<Rightarrow> string list option" where
  "join_parts segments [] = Some segments"
| "join_parts segments (part # parts) =
     (if part = [] \<or> part = ''.'' then join_parts segments parts
      else if part = ''..'' then
        (if segments = [] then None else join_parts (butlast segments) parts)
      else join_parts (segments @ [part]) parts)"

definition directory_segments :: "string \<Rightarrow> string list" where
  "directory_segments path =
     (case rsplit_once CHR ''/'' path of
        None \<Rightarrow> []
      | Some (directory, _) \<Rightarrow> split_on CHR ''/'' directory)"

definition join_relative :: "string \<Rightarrow> string \<Rightarrow> string option" where
  "join_relative path specifier =
     map_option (join_with CHR ''/'')
       (join_parts (directory_segments path) (split_on CHR ''/'' specifier))"

text \<open>Joining with an alias target: popping an empty vector does nothing.\<close>

fun join_target_parts :: "string list \<Rightarrow> string list \<Rightarrow> string list" where
  "join_target_parts segments [] = segments"
| "join_target_parts segments (part # parts) =
     (if part = [] \<or> part = ''.'' then join_target_parts segments parts
      else if part = ''..'' then join_target_parts (butlast segments) parts
      else join_target_parts (segments @ [part]) parts)"

definition join_target :: "string \<Rightarrow> string \<Rightarrow> string" where
  "join_target target remainder =
     (let target = rev (dropWhile (\<lambda>c. c = CHR ''/'') (rev target));
          segments = (if target \<noteq> [] then
            filter (\<lambda>part. part \<noteq> [] \<and> part \<noteq> ''.'') (split_on CHR ''/'' target) else [])
      in join_with CHR ''/'' (join_target_parts segments (split_on CHR ''/'' remainder)))"

definition candidates_for :: "string \<Rightarrow> string btree_set \<Rightarrow> path_config \<Rightarrow> string list" where
  "candidates_for joined known config =
     bs_collect (filter (\<lambda>path. path \<in> set known)
       (joined #
        map (\<lambda>extension. joined @ CHR ''.'' # extension) (pc_extensions config) @
        concat (map (\<lambda>index. map (\<lambda>extension. joined @ CHR ''/'' # index @ CHR ''.'' # extension)
          (pc_extensions config)) (pc_index_names config))))"

section \<open>Resolution\<close>

datatype resolution_quality = ExactStatic | InferredStatic

fun resolution_quality_str :: "resolution_quality \<Rightarrow> string" where
  "resolution_quality_str ExactStatic = ''exact_static''"
| "resolution_quality_str InferredStatic = ''inferred_static''"

datatype resolution =
  Resolved string string resolution_quality
| AmbiguousTargets "string list" string
| UnresolvedImport string

fun is_resolved :: "resolution \<Rightarrow> bool" where
  "is_resolved (Resolved _ _ _) = True"
| "is_resolved _ = False"

record resolved_import =
  ri_statement :: import_statement
  ri_kind :: specifier_kind
  ri_resolution :: resolution

fun decide_candidates :: "string list \<Rightarrow> string \<Rightarrow> resolution" where
  "decide_candidates [] rule = UnresolvedImport REASON_MISSING_TARGET"
| "decide_candidates [only] rule = Resolved only rule ExactStatic"
| "decide_candidates many rule = AmbiguousTargets many rule"

definition resolve_import :: "import_statement \<Rightarrow> string btree_set \<Rightarrow> path_config \<Rightarrow> resolved_import" where
  "resolve_import statement known config =
     (let kind = statement_kind statement config;
          specifier = (case im_specifier statement of Some s \<Rightarrow> s | None \<Rightarrow> [])
      in \<lparr>ri_statement = statement, ri_kind = kind, ri_resolution =
          (case kind of
             SpecUnsupported \<Rightarrow> UnresolvedImport REASON_NOT_A_LITERAL
           | SpecExternal \<Rightarrow> UnresolvedImport REASON_EXTERNAL_PACKAGE
           | SpecRelative \<Rightarrow>
               (case join_relative (im_file statement) specifier of
                  None \<Rightarrow> UnresolvedImport REASON_OUTSIDE_PROJECT
                | Some joined \<Rightarrow> decide_candidates (candidates_for joined known config) ''relative'')
           | SpecAlias \<Rightarrow>
               decide_candidates
                 (bs_collect (concat (map (\<lambda>rule. concat (map (\<lambda>target.
                      candidates_for (join_target target (alias_remainder rule specifier)) known config)
                    (al_targets rule)))
                  (filter (\<lambda>rule. alias_matches rule specifier) (pc_aliases config)))))
                 ''alias'')\<rparr>)"

definition resolve_all_imports ::
  "import_statement list \<Rightarrow> string btree_set \<Rightarrow> path_config \<Rightarrow> resolved_import list" where
  "resolve_all_imports statements known config =
     map (\<lambda>statement. resolve_import statement known config) statements"

section \<open>Lemmas\<close>

text \<open>The files a joined path can stand for, and the paths a statement can be joined to.\<close>

definition stands_for :: "path_config \<Rightarrow> string \<Rightarrow> string \<Rightarrow> bool" where
  "stands_for config joined path \<longleftrightarrow> path = joined \<or>
     (\<exists>extension \<in> set (pc_extensions config). path = joined @ ''.'' @ extension \<or>
        (\<exists>index \<in> set (pc_index_names config). path = joined @ ''/'' @ index @ ''.'' @ extension))"

definition joined_paths :: "import_statement \<Rightarrow> path_config \<Rightarrow> string set" where
  "joined_paths statement config =
     (case im_specifier statement of
        None \<Rightarrow> {}
      | Some specifier \<Rightarrow>
          (case statement_kind statement config of
             SpecRelative \<Rightarrow> set_option (join_relative (im_file statement) specifier)
           | SpecAlias \<Rightarrow> {join_target target (alias_remainder rule specifier) |rule target.
               rule \<in> set (pc_aliases config) \<and> alias_matches rule specifier \<and>
               target \<in> set (al_targets rule)}
           | _ \<Rightarrow> {}))"

definition import_targets :: "import_statement \<Rightarrow> string btree_set \<Rightarrow> path_config \<Rightarrow> string set" where
  "import_targets statement known config =
     {path \<in> set known. \<exists>joined \<in> joined_paths statement config. stands_for config joined path}"

lemma set_candidates_for:
  "set (candidates_for joined known config) = {path \<in> set known. stands_for config joined path}"
  by (auto simp: candidates_for_def stands_for_def)

lemma decide_candidates_cases:
  assumes "sorted_wrt (<) cs"
  shows "case decide_candidates cs rule of
     Resolved target r q \<Rightarrow> set cs = {target} \<and> r = rule \<and> q = ExactStatic
   | AmbiguousTargets many r \<Rightarrow> many = cs \<and> 2 \<le> card (set cs) \<and> r = rule
   | UnresolvedImport reason \<Rightarrow> cs = [] \<and> reason = REASON_MISSING_TARGET"
proof -
  have "card (set cs) = length cs"
    using assms by (simp add: distinct_card strict_sorted_iff)
  then show ?thesis by (cases "(cs, rule)" rule: decide_candidates.cases) simp_all
qed

lemma bs_collect_strict [simp]: "sorted_wrt (<) (bs_collect xs)"
  by (simp add: bs_collect_eq)

lemma bs_collect_empty [simp]: "bs_collect xs = [] \<longleftrightarrow> xs = []"
  by (metis bs_collect_set set_empty)

lemma candidates_strict [simp]: "sorted_wrt (<) (candidates_for joined known config)"
  by (simp add: candidates_for_def)

text \<open>How a statement's candidates follow from its kind.\<close>

lemma resolve_relative:
  assumes "statement_kind st config = SpecRelative"
  obtains specifier where "im_specifier st = Some specifier"
    and "ri_resolution (resolve_import st known config) =
      (case join_relative (im_file st) specifier of
         None \<Rightarrow> UnresolvedImport REASON_OUTSIDE_PROJECT
       | Some joined \<Rightarrow> decide_candidates (candidates_for joined known config) ''relative'')"
  using assms
  by (cases "im_specifier st")
    (auto simp: resolve_import_def statement_kind_def Let_def split: option.splits if_splits)

lemma set_alias_candidates:
  assumes "statement_kind st config = SpecAlias" and "im_specifier st = Some specifier"
  shows "set (concat (map (\<lambda>rule. concat (map (\<lambda>target.
      candidates_for (join_target target (alias_remainder rule specifier)) known config)
      (al_targets rule))) (filter (\<lambda>rule. alias_matches rule specifier) (pc_aliases config)))) =
    import_targets st known config"
proof -
  let ?join = "\<lambda>rule target. join_target target (alias_remainder rule specifier)"
  have "set (concat (map (\<lambda>rule. concat (map (\<lambda>target.
      candidates_for (?join rule target) known config)
      (al_targets rule))) (filter (\<lambda>rule. alias_matches rule specifier) (pc_aliases config)))) =
    (\<Union>rule \<in> {rule \<in> set (pc_aliases config). alias_matches rule specifier}.
      \<Union>target \<in> set (al_targets rule). {path \<in> set known. stands_for config (?join rule target) path})"
    by (simp add: set_candidates_for)
  also have "\<dots> = import_targets st known config"
    using assms by (auto simp: import_targets_def joined_paths_def)
  finally show ?thesis .
qed

lemma resolve_alias:
  assumes "statement_kind st config = SpecAlias"
  obtains cs where "ri_resolution (resolve_import st known config) =
      decide_candidates (bs_collect cs) ''alias''"
    and "set cs = import_targets st known config"
proof (cases "im_specifier st")
  case None
  then show ?thesis using assms by (simp add: statement_kind_def)
next
  case (Some specifier)
  show ?thesis
    by (rule that [OF _ set_alias_candidates [OF assms Some]])
      (simp add: resolve_import_def assms Some)
qed

lemma resolve_other:
  "statement_kind st config = SpecUnsupported \<Longrightarrow>
     ri_resolution (resolve_import st known config) = UnresolvedImport REASON_NOT_A_LITERAL"
  "statement_kind st config = SpecExternal \<Longrightarrow>
     ri_resolution (resolve_import st known config) = UnresolvedImport REASON_EXTERNAL_PACKAGE"
  by (simp_all add: resolve_import_def)

text \<open>C26: Resolution never guesses.  The outcome is decided by the set of known files the statement can
  stand for: a resolved import names the only member of that set and is \<open>exact_static\<close>, an ambiguous
  one lists exactly its members, in order and at least two, and an unresolved one means the set is
  empty.  The set is of files: an alias with several target roots resolves when one root only holds the file, lemma
  \<open>two_alias_roots_may_resolve\<close>.\<close>

theorem resolution_never_guesses:
  "case ri_resolution (resolve_import st known config) of
     Resolved target rule quality \<Rightarrow>
       import_targets st known config = {target} \<and> quality = ExactStatic
   | AmbiguousTargets many rule \<Rightarrow>
       set many = import_targets st known config \<and> sorted_wrt (<) many \<and>
       2 \<le> card (import_targets st known config)
   | UnresolvedImport reason \<Rightarrow> import_targets st known config = {}"
proof (cases "statement_kind st config")
  case SpecRelative
  then obtain specifier where spec: "im_specifier st = Some specifier"
    and res: "ri_resolution (resolve_import st known config) =
      (case join_relative (im_file st) specifier of
         None \<Rightarrow> UnresolvedImport REASON_OUTSIDE_PROJECT
       | Some joined \<Rightarrow> decide_candidates (candidates_for joined known config) ''relative'')"
    by (rule resolve_relative)
  show ?thesis
  proof (cases "join_relative (im_file st) specifier")
    case None
    then show ?thesis using spec res SpecRelative
      by (simp add: import_targets_def joined_paths_def)
  next
    case (Some joined)
    have "import_targets st known config = set (candidates_for joined known config)"
      using Some spec SpecRelative
      by (simp add: import_targets_def joined_paths_def set_candidates_for)
    then show ?thesis
      using res Some decide_candidates_cases [OF candidates_strict, of joined known config "''relative''"]
      by (auto split: resolution.splits)
  qed
next
  case SpecAlias
  then obtain cs where "ri_resolution (resolve_import st known config) =
      decide_candidates (bs_collect cs) ''alias''"
    and "set cs = import_targets st known config"
    by (rule resolve_alias)
  then show ?thesis
    using decide_candidates_cases [OF bs_collect_strict, of cs "''alias''"]
    by (auto split: resolution.splits)
qed (auto simp: resolve_other import_targets_def joined_paths_def split: option.splits)

section \<open>Leaving the project\<close>

text \<open>What one segment does to the depth, and the depth after the first segments.\<close>

definition part_depth :: "string \<Rightarrow> int" where
  "part_depth part = (if part = [] \<or> part = ''.'' then 0 else if part = ''..'' then -1 else 1)"

definition depth_after :: "nat \<Rightarrow> string list \<Rightarrow> nat \<Rightarrow> int" where
  "depth_after start parts n = int start + sum_list (map part_depth (take n parts))"

lemma depth_after_0 [simp]: "depth_after start parts 0 = int start"
  by (simp add: depth_after_def)

lemma depth_after_Nil [simp]: "depth_after start [] n = int start"
  by (simp add: depth_after_def)

lemma depth_after_Suc: "depth_after start (part # parts) (Suc n) =
    part_depth part + depth_after start parts n"
  by (simp add: depth_after_def)

lemma ex_nat_split: "(\<exists>n. P n) \<longleftrightarrow> P 0 \<or> (\<exists>n. P (Suc n))"
  by (metis not0_implies_Suc)

lemma join_parts_None:
  "join_parts segments parts = None \<longleftrightarrow> (\<exists>n. depth_after (length segments) parts n < 0)"
proof (induction parts arbitrary: segments)
  case (Cons part parts)
  consider "part = [] \<or> part = ''.''" | "part = ''..''" "segments = []"
    | "part = ''..''" "segments \<noteq> []" | "\<not> (part = [] \<or> part = ''.'')" "part \<noteq> ''..''" by blast
  then show ?case
  proof cases
    case 1
    then show ?thesis using Cons.IH [of segments]
      by (subst ex_nat_split) (auto simp: depth_after_Suc part_depth_def)
  next
    case 2
    then show ?thesis
      by (auto simp: depth_after_Suc part_depth_def intro!: exI [of _ "Suc 0"])
  next
    case 3
    have "depth_after (length (butlast segments)) parts n =
        part_depth part + depth_after (length segments) parts n" for n
      using 3 by (cases segments) (simp_all add: depth_after_def part_depth_def)
    then show ?thesis using 3 Cons.IH [of "butlast segments"]
      by (subst ex_nat_split) (simp add: depth_after_Suc)
  next
    case 4
    have "depth_after (length (segments @ [part])) parts n =
        part_depth part + depth_after (length segments) parts n" for n
      using 4 by (simp add: depth_after_def part_depth_def)
    then show ?thesis using 4 Cons.IH [of "segments @ [part]"]
      by (subst ex_nat_split) (simp add: depth_after_Suc)
  qed
qed simp

lemma decide_not_outside: "decide_candidates cs rule \<noteq> UnresolvedImport REASON_OUTSIDE_PROJECT"
  by (cases "(cs, rule)" rule: decide_candidates.cases)
    (simp_all add: REASON_MISSING_TARGET_def REASON_OUTSIDE_PROJECT_def)

text \<open>The outside-project error.  An import is reported as leaving the project exactly when it is a
  relative specifier that, read segment by segment from the importing file's directory, climbs above
  the project root at some point, even if a later segment would descend again.
\<close>

theorem outside_project_iff:
  "ri_resolution (resolve_import st known config) = UnresolvedImport REASON_OUTSIDE_PROJECT \<longleftrightarrow>
     statement_kind st config = SpecRelative \<and>
     (\<exists>n. depth_after (length (directory_segments (im_file st)))
        (split_on CHR ''/'' (the (im_specifier st))) n < 0)"
proof (cases "statement_kind st config")
  case SpecRelative
  then obtain specifier where spec: "im_specifier st = Some specifier"
    and res: "ri_resolution (resolve_import st known config) =
      (case join_relative (im_file st) specifier of
         None \<Rightarrow> UnresolvedImport REASON_OUTSIDE_PROJECT
       | Some joined \<Rightarrow> decide_candidates (candidates_for joined known config) ''relative'')"
    by (rule resolve_relative)
  have "ri_resolution (resolve_import st known config) = UnresolvedImport REASON_OUTSIDE_PROJECT \<longleftrightarrow>
      join_relative (im_file st) specifier = None"
    unfolding res by (simp add: decide_not_outside split: option.split)
  with SpecRelative spec show ?thesis
    by (simp add: join_relative_def join_parts_None)
next
  case SpecAlias
  then obtain cs where "ri_resolution (resolve_import st known config) =
      decide_candidates (bs_collect cs) ''alias''"
    by (rule resolve_alias)
  then show ?thesis using SpecAlias by (simp add: decide_not_outside)
qed (simp_all add: resolve_other REASON_NOT_A_LITERAL_def REASON_EXTERNAL_PACKAGE_def
  REASON_OUTSIDE_PROJECT_def)

section \<open>Corners of the code\<close>

text \<open>
  Two dots alone are classified as a package, so the parent directory's index file is not found; an
  import of the root directory joins to the empty path, whose index candidate starts with a slash;
  and an alias remainder that climbs above the project root is resolved to a path under the root.
\<close>

lemma parent_directory_is_external:
  "statement_kind \<lparr>im_file = ''a/b.ts'', im_specifier = Some ''..'', im_span = span\<rparr>
     (path_config_new [''ts'']) = SpecExternal"
  by (simp add: statement_kind_def path_config_new_def starts_with_def)

lemma root_index_is_missed:
  "ri_resolution (resolve_import \<lparr>im_file = ''a.ts'', im_specifier = Some ''./'', im_span = span\<rparr>
     [''a.ts'', ''index.ts''] (path_config_new [''ts''])) = UnresolvedImport REASON_MISSING_TARGET"
  by (simp add: resolve_import_def statement_kind_def path_config_new_def starts_with_def Let_def
      join_relative_def directory_segments_def candidates_for_def)

text \<open>An alias with two roots resolves when only one of them holds the file.\<close>

lemma two_alias_roots_may_resolve:
  "ri_resolution (resolve_import (import_literal ''app.ts'' ''@/x'' span) [''two/x.ts'']
     (with_alias (path_config_new [''ts'']) (alias_rule_new ''@'' [''one'', ''two'']))) =
   Resolved ''two/x.ts'' ''alias'' ExactStatic"
  by code_simp

lemma alias_escape_is_clamped: "join_target ''src'' ''../../../x'' = ''x''"
  by code_simp

end
