(* ===== verification/GraphTypes.thy ===== *)
theory GraphTypes
  imports Prelude
begin

text \<open>
  Explicit inheritance facts, \<^verbatim>\<open>graph-analyze/src/types.rs\<close>: declarations are indexed by dotted and
  by simple name, and a declared base becomes an edge only when the index lists exactly one
  declaration under it.  Registrations stay declared bindings.
\<close>

definition REASON_BASE_NOT_IN_PROJECT :: string where
  "REASON_BASE_NOT_IN_PROJECT = ''type-base-not-in-project''"
definition REASON_AMBIGUOUS_BASE :: string where
  "REASON_AMBIGUOUS_BASE = ''type-base-ambiguous''"
definition REASON_DUPLICATE_TYPE :: string where
  "REASON_DUPLICATE_TYPE = ''type-duplicate-declaration''"

section \<open>Declarations and facts\<close>

datatype type_kind = KindClass | KindInterface | KindStruct | KindEnum

fun type_kind_str :: "type_kind \<Rightarrow> string" where
  "type_kind_str KindClass = ''class''"
| "type_kind_str KindInterface = ''interface''"
| "type_kind_str KindStruct = ''struct''"
| "type_kind_str KindEnum = ''enum''"

fun is_interface :: "type_kind \<Rightarrow> bool" where
  "is_interface KindInterface = True"
| "is_interface _ = False"

record type_declaration =
  td_key :: string
  td_file :: string
  td_qualified :: "string list"
  td_name :: string
  td_kind :: type_kind
  td_bases :: "string list"

definition type_declaration_new ::
  "string \<Rightarrow> string \<Rightarrow> string list \<Rightarrow> type_kind \<Rightarrow> string list \<Rightarrow> type_declaration" where
  "type_declaration_new key path qualified kind bases =
     \<lparr>td_key = key, td_file = path, td_qualified = qualified,
      td_name = (if qualified = [] then [] else last qualified), td_kind = kind, td_bases = bases\<rparr>"

definition dotted :: "type_declaration \<Rightarrow> string" where
  "dotted d = join_with CHR ''.'' (td_qualified d)"

record di_registration =
  di_service :: string
  di_implementation :: string
  di_lifetime :: "string option"
  di_file :: string
  di_line :: usize

record declared_binding =
  db_service :: string
  db_implementation :: string
  db_lifetime :: "string option"
  db_file :: string
  db_line :: usize
  db_evidence :: "string list"

definition proves_runtime_routing :: "declared_binding \<Rightarrow> bool" where
  "proves_runtime_routing b = False"

datatype type_edge_kind = Inherits | Implements

fun type_edge_kind_str :: "type_edge_kind \<Rightarrow> string" where
  "type_edge_kind_str Inherits = ''INHERITS''"
| "type_edge_kind_str Implements = ''IMPLEMENTS''"

record type_edge =
  te_source :: string
  te_target :: string
  te_kind :: type_edge_kind
  te_quality :: string
  te_evidence :: "string list"

record unresolved_base =
  ub_file :: string
  ub_source :: string
  ub_name :: string
  ub_reason :: string
  ub_candidates :: "string list"

record type_facts =
  tf_edges :: "type_edge list"
  tf_unresolved :: "unresolved_base list"
  tf_bindings :: "declared_binding list"

definition type_facts_default :: type_facts where
  "type_facts_default = \<lparr>tf_edges = [], tf_unresolved = [], tf_bindings = []\<rparr>"

definition edges_of :: "type_facts \<Rightarrow> string \<Rightarrow> type_edge list" where
  "edges_of facts source = filter (\<lambda>e. te_source e = source) (tf_edges facts)"

definition any_binding_proves_runtime_routing :: "type_facts \<Rightarrow> bool" where
  "any_binding_proves_runtime_routing facts = list_ex proves_runtime_routing (tf_bindings facts)"

record type_input =
  ti_declarations :: "type_declaration list"
  ti_registrations :: "di_registration list"

section \<open>Linking\<close>

type_synonym type_index = "(string, type_declaration list) btree_map"

text \<open>\<open>entry(name).or_default()\<close> followed by \<open>push\<close>.\<close>

definition names_of :: "type_index \<Rightarrow> string \<Rightarrow> type_declaration list" where
  "names_of by_name name = (case bt_get by_name name of Some ds \<Rightarrow> ds | None \<Rightarrow> [])"

definition push_name :: "string \<Rightarrow> type_declaration \<Rightarrow> type_index \<Rightarrow> type_index" where
  "push_name name d by_name = bt_insert name (names_of by_name name @ [d]) by_name"

definition index_types :: "type_declaration list \<Rightarrow> type_index" where
  "index_types ds =
     foldl (\<lambda>by_name d. push_name (td_name d) d (push_name (dotted d) d by_name)) [] ds"

definition push_unresolved ::
  "type_declaration \<Rightarrow> string \<Rightarrow> string \<Rightarrow> string list \<Rightarrow> type_facts \<Rightarrow> type_facts" where
  "push_unresolved d base reason candidates facts = facts\<lparr>tf_unresolved := tf_unresolved facts @
     [\<lparr>ub_file = td_file d, ub_source = td_key d, ub_name = base, ub_reason = reason,
       ub_candidates = candidates\<rparr>]\<rparr>"

definition link_base :: "type_index \<Rightarrow> type_declaration \<Rightarrow> type_facts \<Rightarrow> string \<Rightarrow> type_facts" where
  "link_base by_name d facts base =
     (case names_of by_name base of
        [] \<Rightarrow> push_unresolved d base REASON_BASE_NOT_IN_PROJECT [] facts
      | [only] \<Rightarrow>
          if td_key only = td_key d then facts
          else facts\<lparr>tf_edges := tf_edges facts @
            [\<lparr>te_source = td_key d, te_target = td_key only,
              te_kind = (if is_interface (td_kind only) then Implements else Inherits),
              te_quality = ''exact_static'', te_evidence = [''explicit-base-list'']\<rparr>]\<rparr>
      | many \<Rightarrow>
          let keys = remdups_adj (sort (map td_key many))
          in push_unresolved d base
               (if length keys > 1 then REASON_AMBIGUOUS_BASE else REASON_DUPLICATE_TYPE) keys facts)"

definition link_declaration :: "type_index \<Rightarrow> type_facts \<Rightarrow> type_declaration \<Rightarrow> type_facts" where
  "link_declaration by_name facts d = foldl (link_base by_name d) facts (td_bases d)"

definition binding_of :: "di_registration \<Rightarrow> declared_binding" where
  "binding_of r = \<lparr>db_service = di_service r, db_implementation = di_implementation r,
     db_lifetime = di_lifetime r, db_file = di_file r, db_line = di_line r,
     db_evidence = [''explicit-service-registration'']\<rparr>"

definition resolve_types :: "type_input \<Rightarrow> type_facts" where
  "resolve_types input =
     (let by_name = index_types (ti_declarations input);
          facts = foldl (link_declaration by_name) type_facts_default (ti_declarations input)
      in facts\<lparr>tf_bindings := tf_bindings facts @ map binding_of (ti_registrations input)\<rparr>)"

section \<open>Lemmas\<close>

text \<open>The declarations the index lists under a name: each once per index entry it has there.\<close>

fun listed_under :: "string \<Rightarrow> type_declaration \<Rightarrow> type_declaration list" where
  "listed_under name d =
     (if dotted d = name then [d] else []) @ (if td_name d = name then [d] else [])"

lemma names_push [simp]:
  "names_of (push_name name d m) other = names_of m other @ (if other = name then [d] else [])"
  by (simp add: names_of_def push_name_def)

lemma names_index_acc:
  "names_of (foldl (\<lambda>m d. push_name (td_name d) d (push_name (dotted d) d m)) m ds) name =
     names_of m name @ concat (map (listed_under name) ds)"
  by (induction ds arbitrary: m) auto

lemma names_index: "names_of (index_types ds) name = concat (map (listed_under name) ds)"
  by (simp add: index_types_def names_index_acc) (simp add: names_of_def)

text \<open>The edge or the report that one declared base gives.\<close>

definition base_edges :: "type_index \<Rightarrow> type_declaration \<Rightarrow> string \<Rightarrow> type_edge list" where
  "base_edges by_name d base = tf_edges (link_base by_name d type_facts_default base)"

definition base_reports :: "type_index \<Rightarrow> type_declaration \<Rightarrow> string \<Rightarrow> unresolved_base list" where
  "base_reports by_name d base = tf_unresolved (link_base by_name d type_facts_default base)"

lemma link_base_edges:
  "tf_edges (link_base m d facts base) = tf_edges facts @ base_edges m d base"
  "tf_unresolved (link_base m d facts base) = tf_unresolved facts @ base_reports m d base"
  "tf_bindings (link_base m d facts base) = tf_bindings facts"
  by (simp_all add: link_base_def base_edges_def base_reports_def type_facts_default_def
      push_unresolved_def Let_def split: list.split)

lemma link_declaration_edges:
  "tf_edges (link_declaration m facts d) =
     tf_edges facts @ concat (map (base_edges m d) (td_bases d))"
  "tf_unresolved (link_declaration m facts d) =
     tf_unresolved facts @ concat (map (base_reports m d) (td_bases d))"
  "tf_bindings (link_declaration m facts d) = tf_bindings facts"
proof -
  have "tf_edges (foldl (link_base m d) facts bs) = tf_edges facts @ concat (map (base_edges m d) bs) \<and>
      tf_unresolved (foldl (link_base m d) facts bs) =
        tf_unresolved facts @ concat (map (base_reports m d) bs) \<and>
      tf_bindings (foldl (link_base m d) facts bs) = tf_bindings facts" for bs
    by (induction bs arbitrary: facts) (simp_all add: link_base_edges)
  then show "tf_edges (link_declaration m facts d) =
     tf_edges facts @ concat (map (base_edges m d) (td_bases d))"
  "tf_unresolved (link_declaration m facts d) =
     tf_unresolved facts @ concat (map (base_reports m d) (td_bases d))"
  "tf_bindings (link_declaration m facts d) = tf_bindings facts"
    by (simp_all add: link_declaration_def)
qed

lemma link_all:
  "tf_edges (foldl (link_declaration m) facts ds) =
     tf_edges facts @ concat (map (\<lambda>d. concat (map (base_edges m d) (td_bases d))) ds)"
  "tf_unresolved (foldl (link_declaration m) facts ds) =
     tf_unresolved facts @ concat (map (\<lambda>d. concat (map (base_reports m d) (td_bases d))) ds)"
  "tf_bindings (foldl (link_declaration m) facts ds) = tf_bindings facts"
  by (induction ds arbitrary: facts) (simp_all add: link_declaration_edges)

lemma resolve_types_facts:
  "tf_edges (resolve_types input) = concat (map (\<lambda>d. concat (map
     (base_edges (index_types (ti_declarations input)) d) (td_bases d))) (ti_declarations input))"
  "tf_unresolved (resolve_types input) = concat (map (\<lambda>d. concat (map
     (base_reports (index_types (ti_declarations input)) d) (td_bases d))) (ti_declarations input))"
  "tf_bindings (resolve_types input) = map binding_of (ti_registrations input)"
  by (simp_all add: resolve_types_def link_all type_facts_default_def Let_def)

lemma base_edges_iff:
  "e \<in> set (base_edges m d base) \<longleftrightarrow> (\<exists>only. names_of m base = [only] \<and> td_key only \<noteq> td_key d \<and>
     e = \<lparr>te_source = td_key d, te_target = td_key only,
       te_kind = (if is_interface (td_kind only) then Implements else Inherits),
       te_quality = ''exact_static'', te_evidence = [''explicit-base-list'']\<rparr>)"
  by (auto simp: base_edges_def link_base_def type_facts_default_def push_unresolved_def Let_def
      split: list.splits)

text \<open>The type edges.  An edge is recorded exactly when some declaration writes a base whose name is
  the dotted or the simple name of one single declaration, listed once in the index, with another
  key; it is an \<open>IMPLEMENTS\<close> edge exactly when that declaration is an interface.
\<close>

theorem type_edge_iff:
  "e \<in> set (tf_edges (resolve_types input)) \<longleftrightarrow>
     (\<exists>d base only. d \<in> set (ti_declarations input) \<and> base \<in> set (td_bases d) \<and>
        concat (map (listed_under base) (ti_declarations input)) = [only] \<and>
        td_key only \<noteq> td_key d \<and>
        e = \<lparr>te_source = td_key d, te_target = td_key only,
          te_kind = (if is_interface (td_kind only) then Implements else Inherits),
          te_quality = ''exact_static'', te_evidence = [''explicit-base-list'']\<rparr>)"
  by (auto simp: resolve_types_facts base_edges_iff names_index)

text \<open>A base naming a top-level type is never linked.  A type whose qualified name has one segment
  is its own dotted name, so the index lists it twice under that name: although the project declares
  the name once, a base that spells it gives no edge and is reported as a duplicate declaration.
\<close>

theorem top_level_base_reported:
  assumes "filter (\<lambda>t. dotted t = name \<or> td_name t = name) (ti_declarations input) =
    [type_declaration_new key path [name] kind bases]"
  shows "link_base (index_types (ti_declarations input)) d facts name =
    push_unresolved d name REASON_DUPLICATE_TYPE [key] facts"
proof -
  let ?t = "type_declaration_new key path [name] kind bases"
  have listed: "concat (map (listed_under name) ds) =
      concat (map (listed_under name) (filter (\<lambda>t. dotted t = name \<or> td_name t = name) ds))" for ds
    by (induction ds) auto
  have "names_of (index_types (ti_declarations input)) name = [?t, ?t]"
    unfolding names_index listed [of "ti_declarations input"] assms
    by (simp add: dotted_def type_declaration_new_def)
  then show ?thesis
    by (simp add: link_base_def type_declaration_new_def)
qed

theorem top_level_base_reported_witness:
  "link_base (index_types [type_declaration_new ''k1'' ''a.cs'' [''Base''] KindClass []])
     (type_declaration_new ''k2'' ''b.cs'' [''App'', ''Derived''] KindClass [''Base''])
     type_facts_default ''Base'' =
   push_unresolved (type_declaration_new ''k2'' ''b.cs'' [''App'', ''Derived''] KindClass [''Base''])
     ''Base'' ''type-duplicate-declaration'' [''k1''] type_facts_default"
  using top_level_base_reported [of "''Base''"
      "\<lparr>ti_declarations = [type_declaration_new ''k1'' ''a.cs'' [''Base''] KindClass []],
        ti_registrations = []\<rparr>" "''k1''" "''a.cs''" KindClass "[]"
      "type_declaration_new ''k2'' ''b.cs'' [''App'', ''Derived''] KindClass [''Base'']"
      type_facts_default]
  by (simp add: type_declaration_new_def REASON_DUPLICATE_TYPE_def)

lemma bindings_prove_nothing: "\<not> any_binding_proves_runtime_routing facts"
  by (simp add: any_binding_proves_runtime_routing_def proves_runtime_routing_def list_ex_iff)

end
