(* ===== verification/GraphCalls.thy ===== *)
theory GraphCalls
  imports Prelude
begin

text \<open>
  Call-site evidence, \<^verbatim>\<open>graph-analyze/src/calls.rs\<close>: a literal call that matches exactly one declared
  target becomes a \<open>CALLS\<close> edge, an interface call adds its declared implementations as possible
  edges, and everything else is recorded as unresolved with a reason.
\<close>

definition REASON_DYNAMIC_DISPATCH :: string where
  "REASON_DYNAMIC_DISPATCH = ''call-dynamic-dispatch''"
definition REASON_CALL_MISSING_TARGET :: string where
  "REASON_CALL_MISSING_TARGET = ''call-missing-target''"
definition REASON_CALL_AMBIGUOUS_TARGET :: string where
  "REASON_CALL_AMBIGUOUS_TARGET = ''call-ambiguous-target''"
definition REASON_NOT_A_CALL :: string where
  "REASON_NOT_A_CALL = ''call-not-literal''"

section \<open>Targets and sites\<close>

datatype call_kind = CallDirect | CallInterfaceMember | CallDelegate | CallDynamic

fun call_kind_str :: "call_kind \<Rightarrow> string" where
  "call_kind_str CallDirect = ''direct''"
| "call_kind_str CallInterfaceMember = ''interface-member''"
| "call_kind_str CallDelegate = ''delegate''"
| "call_kind_str CallDynamic = ''dynamic''"

datatype target_kind = TargetFunction | TargetMethod | TargetInterfaceMethod | TargetDelegate

fun target_kind_str :: "target_kind \<Rightarrow> string" where
  "target_kind_str TargetFunction = ''function''"
| "target_kind_str TargetMethod = ''method''"
| "target_kind_str TargetInterfaceMethod = ''interface-method''"
| "target_kind_str TargetDelegate = ''delegate''"

fun is_interface_member :: "target_kind \<Rightarrow> bool" where
  "is_interface_member TargetInterfaceMethod = True"
| "is_interface_member _ = False"

record declared_target =
  dt_key :: string
  dt_qualified :: "string list"
  dt_container :: "string option"
  dt_kind :: target_kind

definition member_name :: "declared_target \<Rightarrow> string option" where
  "member_name target = (if dt_qualified target = [] then None else Some (last (dt_qualified target)))"

record implements_fact =
  if_implementor :: string
  if_interface :: string

record call_site =
  cs_file :: string
  cs_caller :: string
  cs_callee :: "string list option"
  cs_kind :: call_kind
  cs_line :: usize

definition call_literal :: "string \<Rightarrow> string \<Rightarrow> call_kind \<Rightarrow> string list \<Rightarrow> usize \<Rightarrow> call_site" where
  "call_literal path caller kind callee line =
     \<lparr>cs_file = path, cs_caller = caller, cs_callee = Some callee, cs_kind = kind, cs_line = line\<rparr>"

definition call_unresolved_kind :: "string \<Rightarrow> string \<Rightarrow> call_kind \<Rightarrow> usize \<Rightarrow> call_site" where
  "call_unresolved_kind path caller kind line =
     \<lparr>cs_file = path, cs_caller = caller, cs_callee = None, cs_kind = kind, cs_line = line\<rparr>"

section \<open>Evidence\<close>

datatype call_edge_kind = Calls | PossibleImplementation

fun call_edge_kind_str :: "call_edge_kind \<Rightarrow> string" where
  "call_edge_kind_str Calls = ''CALLS''"
| "call_edge_kind_str PossibleImplementation = ''POSSIBLE_IMPLEMENTATION''"

datatype call_quality = CallExactStatic | CallInferredStatic

fun call_quality_str :: "call_quality \<Rightarrow> string" where
  "call_quality_str CallExactStatic = ''exact_static''"
| "call_quality_str CallInferredStatic = ''inferred_static''"

record call_edge =
  ce_caller :: string
  ce_target :: string
  ce_kind :: call_edge_kind
  ce_quality :: call_quality
  ce_evidence :: "string list"

definition edge_calls :: "string \<Rightarrow> string \<Rightarrow> call_quality \<Rightarrow> string \<Rightarrow> call_edge" where
  "edge_calls caller target quality evidence =
     \<lparr>ce_caller = caller, ce_target = target, ce_kind = Calls, ce_quality = quality,
      ce_evidence = [evidence]\<rparr>"

definition edge_possible :: "string \<Rightarrow> string \<Rightarrow> string \<Rightarrow> call_edge" where
  "edge_possible caller target evidence =
     \<lparr>ce_caller = caller, ce_target = target, ce_kind = PossibleImplementation,
      ce_quality = CallInferredStatic, ce_evidence = [evidence]\<rparr>"

record unresolved_call =
  uc_file :: string
  uc_line :: usize
  uc_reason :: string
  uc_candidates :: "string list"

record call_graph =
  cg_edges :: "call_edge list"
  cg_unresolved :: "unresolved_call list"
  cg_unproven_sets :: usize
  cg_ambiguous_sets :: usize

definition call_graph_default :: call_graph where
  "call_graph_default =
     \<lparr>cg_edges = [], cg_unresolved = [], cg_unproven_sets = 0, cg_ambiguous_sets = 0\<rparr>"

definition edges_for :: "call_graph \<Rightarrow> string \<Rightarrow> call_edge list" where
  "edges_for graph caller = filter (\<lambda>e. ce_caller e = caller) (cg_edges graph)"

definition calls_of :: "call_graph \<Rightarrow> string \<Rightarrow> string list" where
  "calls_of graph caller =
     map ce_target (filter (\<lambda>e. ce_caller e = caller \<and> ce_kind e = Calls) (cg_edges graph))"

record call_input =
  ci_targets :: "declared_target list"
  ci_implements :: "implements_fact list"
  ci_sites :: "call_site list"

section \<open>Resolution\<close>

definition push_call :: "call_site \<Rightarrow> string \<Rightarrow> string list \<Rightarrow> call_graph \<Rightarrow> call_graph" where
  "push_call site reason candidates graph = graph\<lparr>cg_unresolved := cg_unresolved graph @
     [\<lparr>uc_file = cs_file site, uc_line = cs_line site, uc_reason = reason,
       uc_candidates = candidates\<rparr>]\<rparr>"

definition push_edge :: "call_edge \<Rightarrow> call_graph \<Rightarrow> call_graph" where
  "push_edge e graph = graph\<lparr>cg_edges := cg_edges graph @ [e]\<rparr>"

text \<open>\<open>min_by\<close> on the key: the first of the least.\<close>

fun min_by_key :: "declared_target list \<Rightarrow> declared_target option" where
  "min_by_key [] = None"
| "min_by_key (t # ts) =
     (case min_by_key ts of
        None \<Rightarrow> Some t
      | Some u \<Rightarrow> Some (if dt_key t \<le> dt_key u then t else u))"

definition implementation_of ::
  "call_input \<Rightarrow> string option \<Rightarrow> implements_fact \<Rightarrow> declared_target option" where
  "implementation_of input member decl =
     min_by_key (filter (\<lambda>target. dt_container target = Some (if_implementor decl) \<and>
       member_name target = member) (ci_targets input))"

fun possible_loop ::
  "call_input \<Rightarrow> call_site \<Rightarrow> string option \<Rightarrow> implements_fact list \<Rightarrow> usize \<Rightarrow> call_graph \<Rightarrow>
     usize \<times> call_graph" where
  "possible_loop input site member [] added graph = (added, graph)"
| "possible_loop input site member (decl # facts) added graph =
     (case implementation_of input member decl of
        None \<Rightarrow> possible_loop input site member facts added graph
      | Some candidate \<Rightarrow> possible_loop input site member facts (added + 1)
          (push_edge (edge_possible (cs_caller site) (dt_key candidate)
             ''explicit-interface-implementation'') graph))"

definition add_possible_implementations ::
  "call_input \<Rightarrow> call_site \<Rightarrow> declared_target \<Rightarrow> call_graph \<Rightarrow> call_graph" where
  "add_possible_implementations input site target graph =
     (case dt_container target of
        None \<Rightarrow> graph\<lparr>cg_ambiguous_sets := cg_ambiguous_sets graph + 1\<rparr>
      | Some container \<Rightarrow>
          (let facts = sort_by (\<lambda>l r. cmp (if_implementor l) (if_implementor r))
                 (filter (\<lambda>decl. if_interface decl = container) (ci_implements input));
               (added, graph) = possible_loop input site (member_name target) facts 0 graph;
               graph = (if added \<noteq> 1
                 then graph\<lparr>cg_ambiguous_sets := cg_ambiguous_sets graph + 1\<rparr> else graph)
           in graph\<lparr>cg_unproven_sets := cg_unproven_sets graph + 1\<rparr>))"

definition resolve_unique ::
  "call_input \<Rightarrow> call_site \<Rightarrow> declared_target \<Rightarrow> call_graph \<Rightarrow> call_graph" where
  "resolve_unique input site target graph =
     (if dt_kind target = TargetDelegate
      then push_call site REASON_DYNAMIC_DISPATCH [dt_key target] graph
      else
        (let graph = push_edge (edge_calls (cs_caller site) (dt_key target) CallExactStatic
               ''explicit-member-declaration'') graph
         in if is_interface_member (dt_kind target)
            then add_possible_implementations input site target graph else graph))"

definition resolve_site :: "call_input \<Rightarrow> call_graph \<Rightarrow> call_site \<Rightarrow> call_graph" where
  "resolve_site input graph site =
     (case cs_callee site of
        None \<Rightarrow> push_call site
          (if cs_kind site = CallDynamic then REASON_DYNAMIC_DISPATCH else REASON_NOT_A_CALL) [] graph
      | Some callee \<Rightarrow>
          if cs_kind site = CallDynamic then push_call site REASON_DYNAMIC_DISPATCH [] graph
          else
            (case filter (\<lambda>target. dt_qualified target = callee) (ci_targets input) of
               [] \<Rightarrow> push_call site REASON_CALL_MISSING_TARGET [] graph
             | [only] \<Rightarrow> resolve_unique input site only graph
             | many \<Rightarrow> push_call site REASON_CALL_AMBIGUOUS_TARGET (map dt_key many) graph))"

definition resolve_calls :: "call_input \<Rightarrow> call_graph" where
  "resolve_calls input = foldl (resolve_site input) call_graph_default (ci_sites input)"

section \<open>Lemmas\<close>

text \<open>The target a site is proved to call, and the possible edges a site adds.\<close>

definition proven_target :: "call_input \<Rightarrow> call_site \<Rightarrow> declared_target option" where
  "proven_target input site =
     (case cs_callee site of
        None \<Rightarrow> None
      | Some callee \<Rightarrow>
          (case filter (\<lambda>target. dt_qualified target = callee) (ci_targets input) of
             [only] \<Rightarrow> if cs_kind site \<noteq> CallDynamic \<and> dt_kind only \<noteq> TargetDelegate
               then Some only else None
           | _ \<Rightarrow> None))"

definition implementors_of :: "call_input \<Rightarrow> declared_target \<Rightarrow> implements_fact list" where
  "implementors_of input target =
     (case dt_container target of
        None \<Rightarrow> []
      | Some container \<Rightarrow> sort_by (\<lambda>l r. cmp (if_implementor l) (if_implementor r))
          (filter (\<lambda>decl. if_interface decl = container) (ci_implements input)))"

definition implementations :: "call_input \<Rightarrow> declared_target \<Rightarrow> declared_target list" where
  "implementations input target =
     List.map_filter (implementation_of input (member_name target)) (implementors_of input target)"

definition site_edges :: "call_input \<Rightarrow> call_site \<Rightarrow> call_edge list" where
  "site_edges input site =
     (case proven_target input site of
        None \<Rightarrow> []
      | Some target \<Rightarrow>
          edge_calls (cs_caller site) (dt_key target) CallExactStatic ''explicit-member-declaration'' #
          (if dt_kind target = TargetInterfaceMethod
           then map (\<lambda>t. edge_possible (cs_caller site) (dt_key t) ''explicit-interface-implementation'')
             (implementations input target)
           else []))"

lemma push_call_fields [simp]:
  "cg_edges (push_call site reason cs g) = cg_edges g"
  "length (cg_unresolved (push_call site reason cs g)) = Suc (length (cg_unresolved g))"
  "cg_ambiguous_sets (push_call site reason cs g) = cg_ambiguous_sets g"
  "cg_unproven_sets (push_call site reason cs g) = cg_unproven_sets g"
  by (simp_all add: push_call_def)

lemma push_edge_fields [simp]:
  "cg_edges (push_edge e g) = cg_edges g @ [e]"
  "cg_unresolved (push_edge e g) = cg_unresolved g"
  "cg_ambiguous_sets (push_edge e g) = cg_ambiguous_sets g"
  "cg_unproven_sets (push_edge e g) = cg_unproven_sets g"
  by (simp_all add: push_edge_def)

lemma possible_loop_result:
  "possible_loop input site member decls added g =
     (added + length (List.map_filter (implementation_of input member) decls),
      g\<lparr>cg_edges := cg_edges g @ map (\<lambda>t. edge_possible (cs_caller site) (dt_key t)
        ''explicit-interface-implementation'') (List.map_filter (implementation_of input member) decls)\<rparr>)"
  by (induction decls arbitrary: added g)
    (simp_all add: map_filter_simps push_edge_def split: option.split)

lemma add_possible_result:
  "cg_edges (add_possible_implementations input site target g) = cg_edges g @
     map (\<lambda>t. edge_possible (cs_caller site) (dt_key t) ''explicit-interface-implementation'')
       (implementations input target)"
  "cg_unresolved (add_possible_implementations input site target g) = cg_unresolved g"
  "cg_ambiguous_sets (add_possible_implementations input site target g) =
     (if length (implementations input target) = 1 then cg_ambiguous_sets g
      else cg_ambiguous_sets g + 1)"
  by (simp_all add: add_possible_implementations_def implementations_def implementors_of_def
      map_filter_simps possible_loop_result Let_def split: option.split)

lemma resolve_site_edges: "cg_edges (resolve_site input g site) = cg_edges g @ site_edges input site"
proof -
  have iface: "is_interface_member k \<longleftrightarrow> k = TargetInterfaceMethod" for k by (cases k) simp_all
  show ?thesis
    by (auto simp: resolve_site_def site_edges_def proven_target_def resolve_unique_def iface
        add_possible_result Let_def split: option.splits list.splits)
qed


lemma resolve_sites_edges:
  "cg_edges (foldl (resolve_site input) g sites) = cg_edges g @ concat (map (site_edges input) sites)"
  by (induction sites arbitrary: g) (simp_all add: resolve_site_edges)


lemma resolve_calls_edges:
  "cg_edges (resolve_calls input) = concat (map (site_edges input) (ci_sites input))"
  by (simp add: resolve_calls_def resolve_sites_edges call_graph_default_def)




lemma site_edges_cases:
  "e \<in> set (site_edges input site) \<longleftrightarrow>
     (\<exists>target. proven_target input site = Some target \<and>
       (e = edge_calls (cs_caller site) (dt_key target) CallExactStatic ''explicit-member-declaration'' \<or>
        dt_kind target = TargetInterfaceMethod \<and>
        (\<exists>t \<in> set (implementations input target).
           e = edge_possible (cs_caller site) (dt_key t) ''explicit-interface-implementation'')))"
  by (cases "proven_target input site") (auto simp: site_edges_def)

text \<open>Proven calls.  The proven targets of a caller are the keys of the declared targets that one of
  its literal, non-dynamic call sites names and that are the only declaration of that name and not
  a delegate: a call with several candidates is never collapsed onto one of them.
\<close>

theorem calls_of_exactly:
  "set (calls_of (resolve_calls input) caller) =
     {dt_key target |site target. site \<in> set (ci_sites input) \<and> cs_caller site = caller \<and>
        cs_kind site \<noteq> CallDynamic \<and> dt_kind target \<noteq> TargetDelegate \<and>
        (\<exists>callee. cs_callee site = Some callee \<and>
           filter (\<lambda>t. dt_qualified t = callee) (ci_targets input) = [target])}"
proof -
  have proven: "proven_target input site = Some target \<longleftrightarrow>
      cs_kind site \<noteq> CallDynamic \<and> dt_kind target \<noteq> TargetDelegate \<and>
      (\<exists>callee. cs_callee site = Some callee \<and>
         filter (\<lambda>t. dt_qualified t = callee) (ci_targets input) = [target])" for site target
    by (auto simp: proven_target_def split: option.splits list.splits)
  have site: "{ce_target e |e. e \<in> set (site_edges input site) \<and> ce_caller e = caller \<and> ce_kind e = Calls} =
      {dt_key target |target. cs_caller site = caller \<and> proven_target input site = Some target}" for site
    by (cases "proven_target input site")
      (auto simp: site_edges_def edge_calls_def edge_possible_def intro!: exI)
  have "set (calls_of (resolve_calls input) caller) = (\<Union>site \<in> set (ci_sites input).
      {ce_target e |e. e \<in> set (site_edges input site) \<and> ce_caller e = caller \<and> ce_kind e = Calls})"
    by (auto simp: calls_of_def resolve_calls_edges)
  also have "\<dots> = {dt_key target |site target. site \<in> set (ci_sites input) \<and>
      cs_caller site = caller \<and> proven_target input site = Some target}"
    unfolding site by blast
  finally show ?thesis unfolding proven by blast
qed

section \<open>Possible implementations\<close>

lemma min_by_key_member: "min_by_key ts = Some t \<Longrightarrow> t \<in> set ts"
  by (induction ts arbitrary: t) (auto split: option.splits if_splits)

lemma min_by_key_None [simp]: "min_by_key ts = None \<longleftrightarrow> ts = []"
  by (cases ts) (auto split: option.splits)

lemma set_implementations:
  "set (implementations input target) =
     {t. \<exists>decl \<in> set (ci_implements input). dt_container target = Some (if_interface decl) \<and>
        implementation_of input (member_name target) decl = Some t}"
  by (cases "dt_container target")
    (force simp: implementations_def implementors_of_def map_filter_def image_iff)+

text \<open>No implementation is left out.  A site proved to call an interface method records a possible
  edge for every explicit implements fact of that interface whose implementor declares a member of
  that name, and the edge is never more than \<open>inferred_static\<close>.
\<close>

theorem implementations_are_kept:
  assumes "site \<in> set (ci_sites input)"
    and "proven_target input site = Some target" and "dt_kind target = TargetInterfaceMethod"
    and "decl \<in> set (ci_implements input)" and "dt_container target = Some (if_interface decl)"
    and "t \<in> set (ci_targets input)" and "dt_container t = Some (if_implementor decl)"
    and "member_name t = member_name target"
  shows "\<exists>u \<in> set (ci_targets input). dt_container u = Some (if_implementor decl) \<and>
    member_name u = member_name target \<and>
    edge_possible (cs_caller site) (dt_key u) ''explicit-interface-implementation''
      \<in> set (edges_for (resolve_calls input) (cs_caller site))"
proof -
  let ?cs = "filter (\<lambda>u. dt_container u = Some (if_implementor decl) \<and>
    member_name u = member_name target) (ci_targets input)"
  have "t \<in> set ?cs" using assms(6-8) by simp
  then have "?cs \<noteq> []" by force
  then obtain u where u: "min_by_key ?cs = Some u" using min_by_key_None [of ?cs] by blast
  then have "u \<in> set (implementations input target)"
    using assms(4,5) by (auto simp: set_implementations implementation_of_def)
  then have "edge_possible (cs_caller site) (dt_key u) ''explicit-interface-implementation''
      \<in> set (site_edges input site)"
    using assms(2,3) by (auto simp: site_edges_cases)
  then have "edge_possible (cs_caller site) (dt_key u) ''explicit-interface-implementation''
      \<in> set (edges_for (resolve_calls input) (cs_caller site))"
    using assms(1) by (auto simp: edges_for_def resolve_calls_edges edge_possible_def)
  with min_by_key_member [OF u] show ?thesis by auto
qed

theorem implementations_are_kept_witness:
  "\<exists>u \<in> set [\<lparr>dt_key = ''k'', dt_qualified = [''IClock'', ''Tick''], dt_container = Some ''i'',
         dt_kind = TargetInterfaceMethod\<rparr>,
       \<lparr>dt_key = ''m'', dt_qualified = [''Clock'', ''Tick''], dt_container = Some ''t'',
         dt_kind = TargetMethod\<rparr>]. dt_container u = Some ''t'' \<and> member_name u = Some ''Tick'' \<and>
    edge_possible ''c'' (dt_key u) ''explicit-interface-implementation''
      \<in> set (edges_for (resolve_calls \<lparr>ci_targets =
        [\<lparr>dt_key = ''k'', dt_qualified = [''IClock'', ''Tick''], dt_container = Some ''i'',
           dt_kind = TargetInterfaceMethod\<rparr>,
         \<lparr>dt_key = ''m'', dt_qualified = [''Clock'', ''Tick''], dt_container = Some ''t'',
           dt_kind = TargetMethod\<rparr>],
        ci_implements = [\<lparr>if_implementor = ''t'', if_interface = ''i''\<rparr>],
        ci_sites = [call_literal ''a.cs'' ''c'' CallInterfaceMember [''IClock'', ''Tick''] 1]\<rparr>) ''c'')"
  using implementations_are_kept [of "call_literal ''a.cs'' ''c'' CallInterfaceMember [''IClock'', ''Tick''] 1"
      "\<lparr>ci_targets =
        [\<lparr>dt_key = ''k'', dt_qualified = [''IClock'', ''Tick''], dt_container = Some ''i'',
           dt_kind = TargetInterfaceMethod\<rparr>,
         \<lparr>dt_key = ''m'', dt_qualified = [''Clock'', ''Tick''], dt_container = Some ''t'',
           dt_kind = TargetMethod\<rparr>],
        ci_implements = [\<lparr>if_implementor = ''t'', if_interface = ''i''\<rparr>],
        ci_sites = [call_literal ''a.cs'' ''c'' CallInterfaceMember [''IClock'', ''Tick''] 1]\<rparr>"
      "\<lparr>dt_key = ''k'', dt_qualified = [''IClock'', ''Tick''], dt_container = Some ''i'',
           dt_kind = TargetInterfaceMethod\<rparr>"
      "\<lparr>if_implementor = ''t'', if_interface = ''i''\<rparr>"
      "\<lparr>dt_key = ''m'', dt_qualified = [''Clock'', ''Tick''], dt_container = Some ''t'',
           dt_kind = TargetMethod\<rparr>"]
  by (simp add: call_literal_def proven_target_def member_name_def)

text \<open>
  The counter of sets with two or more candidates also counts an interface no type implements.
\<close>

lemma empty_set_is_ambiguous:
  "cg_ambiguous_sets (resolve_calls \<lparr>ci_targets =
     [\<lparr>dt_key = ''k'', dt_qualified = [''IClock'', ''Tick''], dt_container = Some ''i'',
       dt_kind = TargetInterfaceMethod\<rparr>], ci_implements = [],
     ci_sites = [call_literal ''a.cs'' ''c'' CallInterfaceMember [''IClock'', ''Tick''] 1]\<rparr>) = 1"
  by (simp add: resolve_calls_def resolve_site_def call_literal_def resolve_unique_def Let_def
      add_possible_result implementations_def implementors_of_def map_filter_simps
      call_graph_default_def)

end
