(* ===== verification/GraphCoverage.thy ===== *)
theory GraphCoverage
  imports GraphSource Machines
begin

text \<open>
  Parse failures and per-file coverage, \<^verbatim>\<open>graph-analyze/src/coverage.rs\<close>: what happened to each file
  of a run, and the aggregate that may claim completeness only when every file is fresh.
\<close>

definition REASON_UNSTABLE_READ :: string where
  "REASON_UNSTABLE_READ = ''file-unstable-read''"
definition REASON_RETAINED :: string where
  "REASON_RETAINED = ''file-retained-last-known-good''"

datatype file_outcome = Fresh usize | ParseError usize | Skipped string

fun outcome_claims_fresh :: "file_outcome \<Rightarrow> bool" where
  "outcome_claims_fresh (Fresh _) = True"
| "outcome_claims_fresh _ = False"

fun outcome_str :: "file_outcome \<Rightarrow> string" where
  "outcome_str (Fresh _) = ''fresh''"
| "outcome_str (ParseError _) = ''parse_error''"
| "outcome_str (Skipped _) = ''skipped''"

record file_report =
  fr_file :: string
  fr_outcome :: file_outcome
  fr_diagnostics :: "diagnostic list"
  fr_parsed_digest :: "string option"
  fr_observed_digest :: "string option"
  fr_stale_for_file :: bool

definition claims_fresh :: "file_report \<Rightarrow> bool" where
  "claims_fresh r \<longleftrightarrow> outcome_claims_fresh (fr_outcome r) \<and> \<not> fr_stale_for_file r"

definition reason_codes :: "file_report \<Rightarrow> string list" where
  "reason_codes r = bs_collect
     (map dg_code (filter (\<lambda>d. dg_severity d = SeverityError) (fr_diagnostics r)) @
      (case fr_outcome r of Skipped reason \<Rightarrow> [reason] | _ \<Rightarrow> []) @
      (if fr_stale_for_file r then [REASON_RETAINED] else []))"

record coverage_report =
  cr_files :: "file_report list"

definition report_new :: coverage_report where
  "report_new = \<lparr>cr_files = []\<rparr>"

definition report_push :: "coverage_report \<Rightarrow> file_report \<Rightarrow> coverage_report" where
  "report_push c r = c\<lparr>cr_files := cr_files c @ [r]\<rparr>"

definition record_fresh :: "coverage_report \<Rightarrow> string \<Rightarrow> string \<Rightarrow> usize \<Rightarrow> coverage_report" where
  "record_fresh c path digest facts = report_push c
     \<lparr>fr_file = path, fr_outcome = Fresh facts, fr_diagnostics = [],
      fr_parsed_digest = Some digest, fr_observed_digest = None, fr_stale_for_file = False\<rparr>"

definition record_parse_error ::
  "coverage_report \<Rightarrow> string \<Rightarrow> string option \<Rightarrow> diagnostic \<Rightarrow> string option \<Rightarrow> usize \<Rightarrow>
     coverage_report" where
  "record_parse_error c path observed err retained retained_facts = report_push c
     \<lparr>fr_file = path, fr_outcome = ParseError retained_facts, fr_diagnostics = [err],
      fr_parsed_digest = retained, fr_observed_digest = observed,
      fr_stale_for_file = (retained \<noteq> None)\<rparr>"

definition record_unstable_read ::
  "coverage_report \<Rightarrow> string \<Rightarrow> string \<Rightarrow> string \<Rightarrow> coverage_report" where
  "record_unstable_read c path before after = report_push c
     \<lparr>fr_file = path, fr_outcome = ParseError 0,
      fr_diagnostics = [diagnostic_error REASON_UNSTABLE_READ
        ''the file changed between the before and after read probes; the write is treated as transient''
        (span_new 0 0)],
      fr_parsed_digest = Some before, fr_observed_digest = Some after, fr_stale_for_file = True\<rparr>"

definition record_skipped :: "coverage_report \<Rightarrow> string \<Rightarrow> string \<Rightarrow> coverage_report" where
  "record_skipped c path reason = report_push c
     \<lparr>fr_file = path, fr_outcome = Skipped reason, fr_diagnostics = [],
      fr_parsed_digest = None, fr_observed_digest = None, fr_stale_for_file = False\<rparr>"

definition report_stale_files :: "coverage_report \<Rightarrow> string list" where
  "report_stale_files c = map fr_file (filter fr_stale_for_file (cr_files c))"

fun is_parse_error :: "file_outcome \<Rightarrow> bool" where
  "is_parse_error (ParseError _) = True"
| "is_parse_error _ = False"

definition parse_error_files :: "coverage_report \<Rightarrow> string list" where
  "parse_error_files c = map fr_file (filter (\<lambda>r. is_parse_error (fr_outcome r)) (cr_files c))"

definition report_coverage :: "coverage_report \<Rightarrow> coverage" where
  "report_coverage c =
     (let input_files = length (cr_files c);
          processed_files = length (filter claims_fresh (cr_files c));
          unresolved = length (filter (\<lambda>d. dg_severity d = SeverityError)
            (concat (map fr_diagnostics (cr_files c))));
          patterns = bs_collect (concat (map reason_codes (cr_files c)))
      in if processed_files = input_files then complete_for_profile input_files unresolved
         else coverage_partial input_files processed_files unresolved patterns)"

definition is_honest :: "coverage_report \<Rightarrow> bool" where
  "is_honest c =
     (let any_unusable = list_ex (\<lambda>r. \<not> claims_fresh r) (cr_files c);
          coverage = report_coverage c
      in if any_unusable then \<not> claims_completeness coverage else claims_completeness coverage)"

section \<open>Runs\<close>

text \<open>The calls that build a report; its file list is private.\<close>

datatype report_event =
  RecordFresh string string usize
| RecordParseError string "string option" diagnostic "string option" usize
| RecordUnstableRead string string string
| RecordSkipped string string

fun report_apply :: "coverage_report \<Rightarrow> report_event \<Rightarrow> coverage_report" where
  "report_apply c (RecordFresh path digest facts) = record_fresh c path digest facts"
| "report_apply c (RecordParseError path observed err retained facts) =
     record_parse_error c path observed err retained facts"
| "report_apply c (RecordUnstableRead path before after) = record_unstable_read c path before after"
| "report_apply c (RecordSkipped path reason) = record_skipped c path reason"

fun event_file :: "report_event \<Rightarrow> string" where
  "event_file (RecordFresh path _ _) = path"
| "event_file (RecordParseError path _ _ _ _) = path"
| "event_file (RecordUnstableRead path _ _) = path"
| "event_file (RecordSkipped path _) = path"

fun event_is_fresh :: "report_event \<Rightarrow> bool" where
  "event_is_fresh (RecordFresh _ _ _) = True"
| "event_is_fresh _ = False"

fun event_reasons :: "report_event \<Rightarrow> string set" where
  "event_reasons (RecordFresh _ _ _) = {}"
| "event_reasons (RecordParseError _ _ err retained _) =
     (if dg_severity err = SeverityError then {dg_code err} else {}) \<union>
     (if retained = None then {} else {REASON_RETAINED})"
| "event_reasons (RecordUnstableRead _ _ _) = {REASON_UNSTABLE_READ, REASON_RETAINED}"
| "event_reasons (RecordSkipped _ reason) = {reason}"

section \<open>Lemmas\<close>

lemma length_filter_all: "length (filter P xs) = length xs \<longleftrightarrow> list_all P xs"
proof (induction xs)
  case (Cons x xs)
  have "length (filter P xs) < Suc (length xs)" by (simp add: le_imp_less_Suc)
  with Cons show ?case by (cases "P x") simp_all
qed simp

lemma coverage_complete_iff:
  "claims_completeness (report_coverage c) \<longleftrightarrow> list_all claims_fresh (cr_files c)"
  by (simp add: report_coverage_def Let_def claims_completeness_def complete_for_profile_def
      coverage_partial_def length_filter_all)

lemma coverage_consistent: "is_consistent (report_coverage c)"
  by (auto intro: le_neq_implies_less simp: report_coverage_def Let_def is_consistent_def complete_for_profile_def
      coverage_partial_def)

lemma set_reason_codes: "set (reason_codes r) =
    {dg_code d |d. d \<in> set (fr_diagnostics r) \<and> dg_severity d = SeverityError} \<union>
    (case fr_outcome r of Skipped reason \<Rightarrow> {reason} | _ \<Rightarrow> {}) \<union>
    (if fr_stale_for_file r then {REASON_RETAINED} else {})"
  by (auto simp: reason_codes_def split: file_outcome.split)

lemma event_report:
  "\<exists>r. report_apply c e = report_push c r \<and> fr_file r = event_file e \<and>
     claims_fresh r = event_is_fresh e \<and> set (reason_codes r) = event_reasons e"
  by (cases e)
    (auto simp: record_fresh_def record_parse_error_def record_unstable_read_def record_skipped_def
      claims_fresh_def set_reason_codes diagnostic_error_def intro!: exI)

lemma run_report:
  "\<exists>rs. foldl report_apply c evs = \<lparr>cr_files = cr_files c @ rs\<rparr> \<and> map fr_file rs = map event_file evs \<and>
     map claims_fresh rs = map event_is_fresh evs \<and>
     map (\<lambda>r. set (reason_codes r)) rs = map event_reasons evs"
proof (induction evs arbitrary: c)
  case Nil
  then show ?case by (intro exI [of _ "[]"]) simp
next
  case (Cons e evs)
  obtain r where r: "report_apply c e = report_push c r" "fr_file r = event_file e"
    "claims_fresh r = event_is_fresh e" "set (reason_codes r) = event_reasons e"
    using event_report by blast
  obtain rs where "foldl report_apply (report_push c r) evs = \<lparr>cr_files = cr_files c @ r # rs\<rparr>"
    "map fr_file rs = map event_file evs" "map claims_fresh rs = map event_is_fresh evs"
    "map (\<lambda>r. set (reason_codes r)) rs = map event_reasons evs"
    using Cons.IH [of "report_push c r"] by (auto simp: report_push_def)
  with r show ?case by (intro exI [of _ "r # rs"]) simp
qed

text \<open>A report is always honest: whatever outcomes a run records, its aggregate is consistent with
  its status, claims completeness exactly when every record was a clean parse, counts one input per
  record and one processed file per clean parse, and otherwise names exactly the reasons of the
  records that were not clean.\<close>

theorem report_is_honest:
  "let c = foldl report_apply report_new evs; coverage = report_coverage c
   in is_honest c \<and> is_consistent coverage \<and>
      (claims_completeness coverage \<longleftrightarrow> list_all event_is_fresh evs) \<and>
      cv_input_files coverage = length evs \<and>
      cv_processed_files coverage = length (filter event_is_fresh evs) \<and>
      set (cv_unsupported_patterns coverage) =
        (if list_all event_is_fresh evs then {} else \<Union> (event_reasons ` set evs))"
proof -
  define c where "c = foldl report_apply report_new evs"
  obtain rs where c: "c = \<lparr>cr_files = rs\<rparr>" and fresh: "map claims_fresh rs = map event_is_fresh evs"
    and reasons: "map (\<lambda>r. set (reason_codes r)) rs = map event_reasons evs"
    using run_report [of report_new evs] by (auto simp: c_def report_new_def)
  have all: "list_all claims_fresh rs \<longleftrightarrow> list_all event_is_fresh evs"
    using arg_cong [OF fresh, of "list_all id"] by (simp add: list.pred_map o_def)
  have len: "length rs = length evs" using arg_cong [OF fresh, of length] by simp
  have count: "length (filter claims_fresh rs) = length (filter event_is_fresh evs)"
    using arg_cong [OF fresh, of "\<lambda>xs. length (filter id xs)"]
    by (simp add: filter_map o_def)
  have "(\<Union>r \<in> set rs. set (reason_codes r)) = \<Union> (event_reasons ` set evs)"
    using arg_cong [OF reasons, of "\<lambda>xs. \<Union> (set xs)"] by simp
  moreover have "is_honest c"
    by (auto simp: is_honest_def coverage_complete_iff list_ex_iff list_all_iff)
  moreover have "list_all event_is_fresh evs \<longleftrightarrow>
      length (filter event_is_fresh evs) = length evs"
    by (simp add: length_filter_all)
  ultimately show ?thesis
    using all len count coverage_consistent [of c] coverage_complete_iff [of c]
    unfolding c_def [symmetric] Let_def
    by (simp add: c report_coverage_def complete_for_profile_def coverage_partial_def Let_def)
qed

text \<open>
  An unstable read retains nothing, yet its reasons say that an earlier extract is retained.
\<close>

lemma unstable_read_claims_retained:
  "let r = last (cr_files (record_unstable_read report_new path before after))
   in fr_outcome r = ParseError 0 \<and> REASON_RETAINED \<in> set (reason_codes r)"
  by (simp add: record_unstable_read_def report_push_def set_reason_codes Let_def)

end
