(* ===== verification/GraphLanguage.thy ===== *)
theory GraphLanguage
  imports GraphSource GraphIdentity Errors
begin

text \<open>
  The pinned grammar table and the parser registry, \<^verbatim>\<open>graph-analyze/src/grammar.rs\<close> and
  \<^verbatim>\<open>adapter.rs\<close>: a table is accepted only when every grammar has the ABI of the build, a registry
  only when no language has two adapters, and a path is then routed by its extension.
\<close>

definition REASON_DUPLICATE_LANGUAGE :: string where
  "REASON_DUPLICATE_LANGUAGE = ''duplicate-language''"
definition GRAMMAR_ABI_VERSION :: u32 where "GRAMMAR_ABI_VERSION = 14"
definition REASON_ABI_MISMATCH :: string where
  "REASON_ABI_MISMATCH = ''grammar_abi_mismatch''"
definition REASON_EMPTY_GRAMMAR_TABLE :: string where
  "REASON_EMPTY_GRAMMAR_TABLE = ''empty_grammar_table''"

section \<open>Adapters\<close>

record adapter_descriptor =
  ad_language :: language
  ad_grammar_id :: string
  ad_parser_version :: string
  ad_abi :: u32

definition handles :: "adapter_descriptor \<Rightarrow> string \<Rightarrow> bool" where
  "handles d path \<longleftrightarrow> from_path path = Some (ad_language d)"

text \<open>The only implementation of the adapter trait wraps a descriptor.\<close>

record pinned_adapter =
  pa_descriptor :: adapter_descriptor

definition adapter_supports :: "pinned_adapter \<Rightarrow> string \<Rightarrow> bool" where
  "adapter_supports a path = handles (pa_descriptor a) path"

datatype language_support =
  LanguageSupported adapter_descriptor | LanguageUnsupported unsupported_language

fun is_supported :: "language_support \<Rightarrow> bool" where
  "is_supported (LanguageSupported _) = True"
| "is_supported (LanguageUnsupported _) = False"

record parser_registry =
  pr_adapters :: "pinned_adapter list"

fun registry_check :: "language list \<Rightarrow> pinned_adapter list \<Rightarrow> unit result" where
  "registry_check seen [] = Inr ()"
| "registry_check seen (adapter # adapters) =
     (let language = ad_language (pa_descriptor adapter)
      in if language \<in> set seen then
           Inl (with_detail (with_detail (axiom_error_new Conflict
             ''a parser registry must not contain two adapters for one language'')
             ''rule'' REASON_DUPLICATE_LANGUAGE) ''actual'' (language_str language))
         else registry_check (seen @ [language]) adapters)"

definition registry_new :: "pinned_adapter list \<Rightarrow> parser_registry result" where
  "registry_new adapters =
     (if adapters = [] then
        Inl (with_detail (axiom_error_new ValidationError
          ''a parser registry must contain at least one adapter'') ''rule'' REASON_UNKNOWN_LANGUAGE)
      else (case registry_check [] adapters of
          Inl e \<Rightarrow> Inl e
        | Inr _ \<Rightarrow> Inr \<lparr>pr_adapters = adapters\<rparr>))"

definition registry_languages :: "parser_registry \<Rightarrow> language list" where
  "registry_languages r = map (ad_language \<circ> pa_descriptor) (pr_adapters r)"

definition registry_descriptor :: "parser_registry \<Rightarrow> language \<Rightarrow> adapter_descriptor option" where
  "registry_descriptor r language =
     find (\<lambda>d. ad_language d = language) (map pa_descriptor (pr_adapters r))"

definition for_path :: "parser_registry \<Rightarrow> string \<Rightarrow> language_support" where
  "for_path r path =
     (case find (\<lambda>d. handles d path) (map pa_descriptor (pr_adapters r)) of
        None \<Rightarrow> LanguageUnsupported (unsupported_language_new path)
      | Some d \<Rightarrow> LanguageSupported d)"

definition coverage_for_unsupported :: "parser_registry \<Rightarrow> string \<Rightarrow> coverage" where
  "coverage_for_unsupported r path = coverage_unsupported_language path"

section \<open>Grammars\<close>

record pinned_grammar =
  pg_language :: language
  pg_grammar_id :: string
  pg_version :: string
  pg_abi :: u32

definition grammar_descriptor :: "pinned_grammar \<Rightarrow> adapter_descriptor" where
  "grammar_descriptor g = \<lparr>ad_language = pg_language g, ad_grammar_id = pg_grammar_id g,
     ad_parser_version = pg_version g, ad_abi = pg_abi g\<rparr>"

definition from_pinned :: "pinned_grammar \<Rightarrow> pinned_adapter" where
  "from_pinned g = \<lparr>pa_descriptor = grammar_descriptor g\<rparr>"

definition grammar_fingerprint :: "pinned_grammar \<Rightarrow> string" where
  "grammar_fingerprint g = identity_digest
     [IDENTITY_SCHEME_VERSION, language_str (pg_language g), pg_grammar_id g, pg_version g,
      show_nat (pg_abi g)]"

definition PINNED_GRAMMARS :: "pinned_grammar list" where
  "PINNED_GRAMMARS =
     [\<lparr>pg_language = CSharp, pg_grammar_id = ''tree-sitter-c-sharp'', pg_version = ''0.23.1'',
       pg_abi = GRAMMAR_ABI_VERSION\<rparr>,
      \<lparr>pg_language = TypeScript, pg_grammar_id = ''tree-sitter-typescript'', pg_version = ''0.23.2'',
       pg_abi = GRAMMAR_ABI_VERSION\<rparr>]"

record grammar_set =
  gs_grammars :: "pinned_grammar list"

fun abi_check :: "u32 \<Rightarrow> pinned_grammar list \<Rightarrow> unit result" where
  "abi_check compiled_abi [] = Inr ()"
| "abi_check compiled_abi (g # gs) =
     (if pg_abi g \<noteq> compiled_abi then
        Inl (with_detail (with_detail (with_detail (with_detail (axiom_error_new IncompatibleInput
          ''a pinned grammar was compiled against a different ABI'')
          ''rule'' REASON_ABI_MISMATCH) ''expected'' (show_nat compiled_abi))
          ''actual'' (show_nat (pg_abi g))) ''config_key'' (pg_grammar_id g))
      else abi_check compiled_abi gs)"

text \<open>
  The sort by language is unstable in the source; the order it leaves rows of one language in is
  unspecified there and is the table's order here.  A table with such rows has no registry.
\<close>

definition grammar_load :: "pinned_grammar list \<Rightarrow> u32 \<Rightarrow> grammar_set result" where
  "grammar_load grammars compiled_abi =
     (if grammars = [] then
        Inl (with_detail (axiom_error_new ValidationError
          ''the pinned grammar table must not be empty'') ''rule'' REASON_EMPTY_GRAMMAR_TABLE)
      else (case abi_check compiled_abi grammars of
          Inl e \<Rightarrow> Inl e
        | Inr _ \<Rightarrow> Inr \<lparr>gs_grammars = sort_key pg_language grammars\<rparr>))"

definition load_documented_default :: "grammar_set result" where
  "load_documented_default = grammar_load PINNED_GRAMMARS GRAMMAR_ABI_VERSION"

definition grammar_for :: "grammar_set \<Rightarrow> language \<Rightarrow> pinned_grammar option" where
  "grammar_for s language = find (\<lambda>g. pg_language g = language) (gs_grammars s)"

definition set_fingerprint :: "grammar_set \<Rightarrow> string" where
  "set_fingerprint s = identity_digest (map grammar_fingerprint (gs_grammars s))"

definition grammar_registry :: "grammar_set \<Rightarrow> parser_registry result" where
  "grammar_registry s = registry_new (map from_pinned (gs_grammars s))"

section \<open>Lemmas\<close>

lemma registry_check_ok:
  "registry_check seen as = Inr () \<longleftrightarrow> distinct (map (ad_language \<circ> pa_descriptor) as) \<and>
     set (map (ad_language \<circ> pa_descriptor) as) \<inter> set seen = {}"
  by (induction as arbitrary: seen) (auto simp: Let_def)

lemma registry_new_ok:
  "registry_new as = Inr r \<longleftrightarrow>
     as \<noteq> [] \<and> distinct (map (ad_language \<circ> pa_descriptor) as) \<and> r = \<lparr>pr_adapters = as\<rparr>"
  using registry_check_ok [of "[]" as]
  by (auto simp: registry_new_def split: sum.split)

lemma abi_check_ok: "abi_check abi gs = Inr () \<longleftrightarrow> list_all (\<lambda>g. pg_abi g = abi) gs"
  by (induction gs) auto

lemma grammar_load_ok:
  "grammar_load gs abi = Inr s \<longleftrightarrow> gs \<noteq> [] \<and> list_all (\<lambda>g. pg_abi g = abi) gs \<and>
     s = \<lparr>gs_grammars = sort_key pg_language gs\<rparr>"
  using abi_check_ok [of abi gs] by (auto simp: grammar_load_def split: sum.split)

lemma from_pinned_language: "ad_language (pa_descriptor (from_pinned g)) = pg_language g"
  by (simp add: from_pinned_def grammar_descriptor_def)

lemma for_path_find:
  "for_path \<lparr>pr_adapters = map from_pinned gs\<rparr> path =
     (case find (\<lambda>g. from_path path = Some (pg_language g)) gs of
        None \<Rightarrow> LanguageUnsupported (unsupported_language_new path)
      | Some g \<Rightarrow> LanguageSupported (grammar_descriptor g))"
  by (induction gs)
    (simp_all add: for_path_def handles_def from_pinned_def grammar_descriptor_def split: option.split)

text \<open>Loading gates routing: a registry is built from a table exactly when the table is not empty,
  every row has the ABI of the build and no language is pinned twice, and it then routes a path to
  a row exactly when the row pins the language of the path's extension, so every other path is
  reported as unsupported and none is routed to a wrong or second parser.\<close>

theorem registry_routes_exactly:
  "(case grammar_load table abi of
      Inl e \<Rightarrow> table = [] \<or> list_ex (\<lambda>g. pg_abi g \<noteq> abi) table
    | Inr s \<Rightarrow> table \<noteq> [] \<and> list_all (\<lambda>g. pg_abi g = abi) table \<and>
        (case grammar_registry s of
           Inl e \<Rightarrow> \<not> distinct (map pg_language table)
         | Inr r \<Rightarrow> distinct (map pg_language table) \<and>
             {g \<in> set table. for_path r path = LanguageSupported (grammar_descriptor g)} =
             {g \<in> set table. from_path path = Some (pg_language g)}))"
proof (cases "grammar_load table abi")
  case (Inl e)
  then have "grammar_load table abi \<noteq> Inr \<lparr>gs_grammars = sort_key pg_language table\<rparr>" by simp
  with Inl show ?thesis unfolding grammar_load_ok by (auto simp: list_ex_iff list_all_iff)
next
  case (Inr s)
  then have load: "table \<noteq> []" "list_all (\<lambda>g. pg_abi g = abi) table"
    "s = \<lparr>gs_grammars = sort_key pg_language table\<rparr>"
    by (simp_all add: grammar_load_ok)
  let ?gs = "sort_key pg_language table"
  have perm: "distinct (map pg_language ?gs) \<longleftrightarrow> distinct (map pg_language table)"
    by (metis mset_eq_imp_distinct_iff mset_map mset_sort)
  have langs: "map (ad_language \<circ> pa_descriptor) (map from_pinned ?gs) = map pg_language ?gs"
    by (simp add: from_pinned_language)
  show ?thesis
  proof (cases "grammar_registry s")
    case Inl': (Inl e)
    then have "registry_new (map from_pinned ?gs) \<noteq> Inr \<lparr>pr_adapters = map from_pinned ?gs\<rparr>"
      by (simp add: grammar_registry_def load(3))
    then have "\<not> distinct (map pg_language table)"
      using load(1) langs perm unfolding registry_new_ok by (metis map_is_Nil_conv set_sort set_empty)
    with Inr Inl' load show ?thesis by simp
  next
    case Inr': (Inr r)
    then have r: "r = \<lparr>pr_adapters = map from_pinned ?gs\<rparr>" and dist: "distinct (map pg_language ?gs)"
      using langs by (simp_all add: grammar_registry_def load(3) registry_new_ok del: map_map)
    have "for_path r path = LanguageSupported (grammar_descriptor g) \<longleftrightarrow>
        from_path path = Some (pg_language g)" if "g \<in> set table" for g
    proof (cases "find (\<lambda>g. from_path path = Some (pg_language g)) ?gs")
      case None
      then have "from_path path \<noteq> Some (pg_language g)"
        using that by (auto simp: find_None_iff)
      then show ?thesis by (simp add: r for_path_find None)
    next
      case (Some h)
      then have h: "h \<in> set ?gs" "from_path path = Some (pg_language h)"
        unfolding find_Some_iff by (metis nth_mem, blast)
      have "pg_language g = pg_language h \<longleftrightarrow> g = h"
        using dist that h(1) by (auto simp: distinct_map inj_on_def)
      moreover have "grammar_descriptor h = grammar_descriptor g \<Longrightarrow> pg_language g = pg_language h"
        by (simp add: grammar_descriptor_def)
      moreover have "for_path r path = LanguageSupported (grammar_descriptor h)"
        by (simp add: r for_path_find Some)
      ultimately show ?thesis using h(2) by auto
    qed
    with Inr Inr' load perm dist show ?thesis by auto
  qed
qed

text \<open>The documented table loads, and its registry supports every known extension.\<close>

lemma default_registry:
  "\<exists>s r. load_documented_default = Inr s \<and> grammar_registry s = Inr r \<and>
     (\<forall>path. is_supported (for_path r path) \<longleftrightarrow> from_path path \<noteq> None)"
proof -
  define s where "s = \<lparr>gs_grammars = PINNED_GRAMMARS\<rparr>"
  have "sort_key pg_language PINNED_GRAMMARS = PINNED_GRAMMARS"
    by (simp add: PINNED_GRAMMARS_def less_eq_language_def)
  then have load: "load_documented_default = Inr s"
    by (simp add: load_documented_default_def grammar_load_ok s_def)
      (simp add: PINNED_GRAMMARS_def)
  have reg: "grammar_registry s = Inr \<lparr>pr_adapters = map from_pinned PINNED_GRAMMARS\<rparr>"
    by (simp add: grammar_registry_def registry_new_ok s_def o_def from_pinned_language)
      (simp add: PINNED_GRAMMARS_def)
  have "is_supported (for_path \<lparr>pr_adapters = map from_pinned PINNED_GRAMMARS\<rparr> path) \<longleftrightarrow>
      from_path path \<noteq> None" for path
  proof (cases "from_path path")
    case (Some l)
    then show ?thesis unfolding for_path_find by (cases l) (simp_all add: PINNED_GRAMMARS_def)
  next
    case None
    then show ?thesis unfolding for_path_find by (simp add: PINNED_GRAMMARS_def)
  qed
  with load reg show ?thesis by blast
qed

end
