(* ===== verification/BootIgnore.thy ===== *)
theory BootIgnore
  imports StrText
begin

text \<open>
  The ignore rules of \<^verbatim>\<open>axiom/src/bootstrap/gitignore.rs\<close>: parsing a managed span into patterns and
  evaluating a path against them.  The backtracking segment matcher is shown to terminate and to
  decide the declarative glob, and ignoring a path to mean that it or an ancestor directory is
  matched last by a pattern that is not negated.
\<close>

section \<open>Patterns\<close>

record ignore_pattern =
  ip_segments :: "string list"
  ip_directory_only :: bool
  ip_negated :: bool
  ip_anywhere :: bool

record gitignore_rules =
  gr_patterns :: "ignore_pattern list"

definition trim_end_slashes :: "string \<Rightarrow> string" where
  "trim_end_slashes s = trim_end_matches (\<lambda>c. c = CHR ''/'') s"

text \<open>One line of the text: the pattern it writes, if any.\<close>

definition parse_line :: "string \<Rightarrow> ignore_pattern option" where
  "parse_line line =
     (let trimmed = str_trim line
      in if trimmed = [] \<or> starts_with trimmed ''#'' then None
      else
        (let (negated, body) = (if starts_with trimmed ''!'' then (True, str_trim (drop 1 trimmed))
               else (False, trimmed))
         in if body = [] then None
         else
           (let directory_only = ends_with body ''/'';
                body = trim_end_slashes body
            in if body = [] then None
               else Some \<lparr>ip_segments = split_on CHR ''/'' body, ip_directory_only = directory_only,
                 ip_negated = negated, ip_anywhere = (CHR ''/'' \<notin> set body)\<rparr>)))"

definition rules_parse :: "string \<Rightarrow> gitignore_rules" where
  "rules_parse text = \<lparr>gr_patterns = List.map_filter parse_line (str_lines text)\<rparr>"

definition rules_len :: "gitignore_rules \<Rightarrow> usize" where
  "rules_len rules = length (gr_patterns rules)"

definition rules_is_empty :: "gitignore_rules \<Rightarrow> bool" where
  "rules_is_empty rules \<longleftrightarrow> gr_patterns rules = []"

section \<open>Matching\<close>

text \<open>\<open>get\<close> of a vector.\<close>

definition vec_get :: "'a list \<Rightarrow> nat \<Rightarrow> 'a option" where
  "vec_get xs i = (if i < length xs then Some (xs ! i) else None)"

text \<open>
  The loop over the segment: the positions in both texts and the last star with the position it was
  tried from.
\<close>

function match_loop ::
  "string list \<Rightarrow> string list \<Rightarrow> nat \<Rightarrow> nat \<Rightarrow> (nat \<times> nat) option \<Rightarrow> nat option" where
  "match_loop pattern segment pattern_at segment_at star =
     (if segment_at < length segment then
        (if vec_get pattern pattern_at = Some ''*'' then
           match_loop pattern segment (pattern_at + 1) segment_at (Some (pattern_at, segment_at))
         else if vec_get pattern pattern_at = Some ''?'' then
           match_loop pattern segment (pattern_at + 1) (segment_at + 1) star
         else if vec_get pattern pattern_at = Some (segment ! segment_at) then
           match_loop pattern segment (pattern_at + 1) (segment_at + 1) star
         else
           (case star of
              Some (star_at, star_segment) \<Rightarrow>
                match_loop pattern segment (star_at + 1) (star_segment + 1)
                  (Some (star_at, star_segment + 1))
            | None \<Rightarrow> None))
      else Some pattern_at)"
  by pat_completeness auto

termination
proof (relation "measures
    [\<lambda>(pattern, segment, pattern_at, segment_at, star).
       (case star of Some (a, b) \<Rightarrow> if segment_at < b then 1 else 0 | None \<Rightarrow> 0),
     \<lambda>(pattern, segment, pattern_at, segment_at, star).
       (case star of Some (a, b) \<Rightarrow> length segment - b | None \<Rightarrow> length segment + 1),
     \<lambda>(pattern, segment, pattern_at, segment_at, star).
       (length segment - segment_at) + (length pattern - pattern_at)]")
qed (auto simp: vec_get_def split: option.splits if_splits)

declare match_loop.simps [simp del]

definition match_segment :: "string \<Rightarrow> string \<Rightarrow> bool" where
  "match_segment pattern segment =
     (let pattern = str_chars pattern; segment = str_chars segment
      in case match_loop pattern segment 0 0 None of
           None \<Rightarrow> False
         | Some pattern_at \<Rightarrow>
             pattern_at + length (takeWhile (\<lambda>c. c = ''*'') (drop pattern_at pattern)) = length pattern)"

fun match_segments :: "string list \<Rightarrow> string list \<Rightarrow> bool" where
  "match_segments [] path \<longleftrightarrow> path = []"
| "match_segments (head # pattern) [] \<longleftrightarrow> head = ''**'' \<and> match_segments pattern []"
| "match_segments (head # pattern) (segment # path) \<longleftrightarrow>
     (if head = ''**'' then
        match_segments pattern (segment # path) \<or> match_segments (head # pattern) path
      else match_segment head segment \<and> match_segments pattern path)"

definition matches_pattern :: "ignore_pattern \<Rightarrow> string list \<Rightarrow> bool" where
  "matches_pattern pattern segments =
     (if ip_anywhere pattern then list_ex (match_segment (ip_segments pattern ! 0)) segments
      else match_segments (ip_segments pattern) segments)"

fun evaluate_loop :: "string list \<Rightarrow> bool \<Rightarrow> bool \<Rightarrow> ignore_pattern list \<Rightarrow> bool" where
  "evaluate_loop segments is_dir ignored [] = ignored"
| "evaluate_loop segments is_dir ignored (pattern # patterns) =
     evaluate_loop segments is_dir
       (if ip_directory_only pattern \<and> \<not> is_dir then ignored
        else if matches_pattern pattern segments then \<not> ip_negated pattern else ignored) patterns"

definition evaluate_rules :: "gitignore_rules \<Rightarrow> string list \<Rightarrow> bool \<Rightarrow> bool" where
  "evaluate_rules rules segments is_dir = evaluate_loop segments is_dir False (gr_patterns rules)"

text \<open>\<open>trim_start_matches\<close> of a two-byte prefix drops it as often as it occurs.\<close>

fun trim_dot_slash :: "string \<Rightarrow> string" where
  "trim_dot_slash (a # b # s) = (if a = CHR ''.'' \<and> b = CHR ''/'' then trim_dot_slash s else a # b # s)"
| "trim_dot_slash s = s"

definition is_ignored :: "gitignore_rules \<Rightarrow> string \<Rightarrow> bool \<Rightarrow> bool" where
  "is_ignored rules path is_dir =
     (let path = trim_matches (\<lambda>c. c = CHR ''/'') (trim_dot_slash path)
      in if path = [] then False
      else
        (let segments = filter (\<lambda>part. part \<noteq> []) (split_on CHR ''/'' path)
         in if list_ex (\<lambda>depth. evaluate_rules rules (take depth segments) True) [1..<length segments]
            then True else evaluate_rules rules segments is_dir))"

section \<open>The segment matcher decides the glob\<close>

text \<open>A star stands for any run of characters, a question mark for one character.\<close>

primrec glob :: "string list \<Rightarrow> string list \<Rightarrow> bool" where
  "glob [] s \<longleftrightarrow> s = []"
| "glob (c # p) s \<longleftrightarrow>
     (if c = ''*'' then \<exists>k \<le> length s. glob p (drop k s)
      else s \<noteq> [] \<and> (c = ''?'' \<or> c = hd s) \<and> glob p (tl s))"

lemma glob_literal:
  "''*'' \<notin> set xs \<Longrightarrow> glob (xs @ ys) s \<Longrightarrow> length xs \<le> length s \<and> glob ys (drop (length xs) s)"
proof (induction xs arbitrary: s)
  case (Cons x xs)
  then show ?case by (cases s) auto
qed simp

lemma glob_absorb: "glob (''*'' # p) (drop k s) \<Longrightarrow> i \<le> k \<Longrightarrow> k \<le> length s \<Longrightarrow> glob (''*'' # p) (drop i s)"
proof -
  assume prem: "glob (''*'' # p) (drop k s)" "i \<le> k" "k \<le> length s"
  then obtain n where "n \<le> length s - k" and "glob p (drop (n + k) s)" by (auto simp: add.commute)
  with prem show "glob (''*'' # p) (drop i s)"
    by (auto intro!: exI [of _ "n + (k - i)"])
qed

lemma glob_Nil: "glob p [] \<longleftrightarrow> length (takeWhile (\<lambda>c. c = ''*'') p) = length p"
  by (induction p) auto

text \<open>The stretch of the pattern between the last star and the position holds no star and is as long
  as the stretch of the segment matched since.\<close>

definition star_inv :: "string list \<Rightarrow> nat \<Rightarrow> nat \<Rightarrow> (nat \<times> nat) option \<Rightarrow> bool" where
  "star_inv p i j star \<longleftrightarrow> i \<le> length p \<and>
     (case star of None \<Rightarrow> True
      | Some (a, b) \<Rightarrow> b \<le> j \<and> i = a + 1 + (j - b) \<and> ''*'' \<notin> set (take (j - b) (drop (a + 1) p)))"

definition star_alternative :: "string list \<Rightarrow> string list \<Rightarrow> (nat \<times> nat) option \<Rightarrow> bool" where
  "star_alternative p s star \<longleftrightarrow>
     (case star of None \<Rightarrow> False
      | Some (a, b) \<Rightarrow> \<exists>k. b < k \<and> k \<le> length s \<and> glob (drop (a + 1) p) (drop k s))"

lemma star_alternative_later:
  assumes "star_inv p i j star" and "star_alternative p s star"
  obtains k where "j < k" and "k \<le> length s" and "glob (drop i p) (drop k s)"
proof (cases star)
  case (Some ab)
  obtain a b where ab: "ab = (a, b)" by (cases ab)
  obtain k where k: "b < k" "k \<le> length s" "glob (drop (a + 1) p) (drop k s)"
    using assms(2) Some ab by (auto simp: star_alternative_def)
  let ?xs = "take (j - b) (drop (a + 1) p)"
  have inv: "b \<le> j" "i = a + 1 + (j - b)" "''*'' \<notin> set ?xs" "i \<le> length p"
    using assms(1) Some ab by (auto simp: star_inv_def)
  have "drop (a + 1) p = ?xs @ drop i p"
    using inv(2) by (metis append_take_drop_id drop_drop add.commute)
  with k(3) glob_literal [OF inv(3), of "drop i p" "drop k s"]
  have "length ?xs \<le> length s - k" and "glob (drop i p) (drop (length ?xs) (drop k s))" by auto
  moreover have "length ?xs = j - b" using inv by simp
  ultimately show thesis
    using k(1,2) inv(1) by (intro that [of "k + (j - b)"]) (auto simp: add.commute)
qed (use assms(2) in \<open>simp add: star_alternative_def\<close>)

lemma match_loop_glob:
  assumes "star_inv p i j star" and "j \<le> length s"
  shows "(case match_loop p s i j star of
      None \<Rightarrow> False
    | Some at \<Rightarrow> at + length (takeWhile (\<lambda>c. c = ''*'') (drop at p)) = length p) \<longleftrightarrow>
    glob (drop i p) (drop j s) \<or> star_alternative p s star"
  using assms
proof (induction p s i j star rule: match_loop.induct)
  case (1 p s i j star)
  show ?case
  proof (cases "j < length s")
    case False
    then have j: "j = length s" using "1.prems" by simp
    have "\<not> star_alternative p s star"
      using star_alternative_later [OF "1.prems"(1)] j by (metis leD)
    moreover have "i \<le> length p" using "1.prems"(1) by (simp add: star_inv_def)
    ultimately show ?thesis using j
      by (subst match_loop.simps) (auto simp: glob_Nil)
  next
    case True
    have marks: "''?'' \<noteq> ''*''" by simp
    consider "vec_get p i = Some ''*''" | c where "vec_get p i = Some c" "c \<noteq> ''*''" "c = ''?'' \<or> c = s ! j"
      | "vec_get p i \<noteq> Some ''*''" "vec_get p i \<noteq> Some ''?''" "vec_get p i \<noteq> Some (s ! j)"
      using marks by metis
    then show ?thesis
    proof cases
      case 1
      then have i: "i < length p" "p ! i = ''*''" by (auto simp: vec_get_def split: if_splits)
      then have drop_i: "drop i p = ''*'' # drop (i + 1) p" by (simp add: Cons_nth_drop_Suc [symmetric])
      have inv: "star_inv p (i + 1) j (Some (i, j))" using i by (simp add: star_inv_def)
      have "star_alternative p s star \<Longrightarrow> glob (drop i p) (drop j s)"
        using star_alternative_later [OF "1.prems"(1)] drop_i glob_absorb by (metis less_imp_le_nat)
      moreover have "glob (drop i p) (drop j s) \<longleftrightarrow>
          glob (drop (i + 1) p) (drop j s) \<or> star_alternative p s (Some (i, j))"
      proof -
        have "glob (drop i p) (drop j s) \<longleftrightarrow> (\<exists>k. j \<le> k \<and> k \<le> length s \<and> glob (drop (i + 1) p) (drop k s))"
        proof
          assume "glob (drop i p) (drop j s)"
          then obtain k where "k \<le> length s - j" "glob (drop (i + 1) p) (drop (k + j) s)"
            by (auto simp: drop_i add.commute)
          then show "\<exists>k. j \<le> k \<and> k \<le> length s \<and> glob (drop (i + 1) p) (drop k s)"
            using True by (intro exI [of _ "k + j"]) auto
        next
          assume "\<exists>k. j \<le> k \<and> k \<le> length s \<and> glob (drop (i + 1) p) (drop k s)"
          then obtain k where "j \<le> k" "k \<le> length s" "glob (drop (i + 1) p) (drop k s)" by blast
          then show "glob (drop i p) (drop j s)"
            by (auto simp: drop_i intro!: exI [of _ "k - j"])
        qed
        then show ?thesis using True by (auto simp: star_alternative_def le_less)
      qed
      ultimately show ?thesis
        using "1.IH"(1) [OF True 1 inv] True 1 by (subst match_loop.simps) auto
    next
      case (2 c)
      then have i: "i < length p" "p ! i = c" by (auto simp: vec_get_def split: if_splits)
      have step: "match_loop p s i j star = match_loop p s (i + 1) (j + 1) star"
        using True 2 by (subst match_loop.simps) auto
      have inv: "star_inv p (i + 1) (j + 1) star"
        using "1.prems"(1) i 2
        by (auto simp: star_inv_def Suc_diff_le take_Suc_conv_app_nth split: option.splits)
      have "(case match_loop p s (i + 1) (j + 1) star of None \<Rightarrow> False
          | Some at \<Rightarrow> at + length (takeWhile (\<lambda>c. c = ''*'') (drop at p)) = length p) \<longleftrightarrow>
          glob (drop (i + 1) p) (drop (j + 1) s) \<or> star_alternative p s star"
        using 2 "1.IH"(2,3) [OF True] inv True by auto
      moreover have "glob (drop i p) (drop j s) \<longleftrightarrow> glob (drop (i + 1) p) (drop (j + 1) s)"
        using i 2 True by (simp add: Cons_nth_drop_Suc [symmetric] hd_drop_conv_nth tl_drop drop_Suc)
      ultimately show ?thesis by (simp add: step)
    next
      case 3
      have here: "\<not> glob (drop i p) (drop j s)"
      proof (cases "i < length p")
        case True
        then show ?thesis using 3 \<open>j < length s\<close>
          by (auto simp: vec_get_def Cons_nth_drop_Suc [symmetric] hd_drop_conv_nth)
      next
        case False
        then show ?thesis using \<open>j < length s\<close> by simp
      qed
      show ?thesis
      proof (cases star)
        case None
        then show ?thesis using here True 3
          by (subst match_loop.simps) (simp add: star_alternative_def)
      next
        case (Some ab)
        obtain a b where ab: "star = Some (a, b)" using Some by (cases ab) simp
        have inv: "star_inv p (a + 1) (b + 1) (Some (a, b + 1))" and b: "b < length s"
          using "1.prems"(1) ab True by (auto simp: star_inv_def)
        have "(case match_loop p s (a + 1) (b + 1) (Some (a, b + 1)) of None \<Rightarrow> False
            | Some at \<Rightarrow> at + length (takeWhile (\<lambda>c. c = ''*'') (drop at p)) = length p) \<longleftrightarrow>
            glob (drop (a + 1) p) (drop (b + 1) s) \<or> star_alternative p s (Some (a, b + 1))"
          using "1.IH"(4) [OF True 3 ab refl inv] b by simp
        moreover have "star_alternative p s star \<longleftrightarrow>
            glob (drop (a + 1) p) (drop (b + 1) s) \<or> star_alternative p s (Some (a, b + 1))"
        proof -
          have "b < k \<longleftrightarrow> k = b + 1 \<or> b + 1 < k" for k by arith
          then show ?thesis using b unfolding star_alternative_def ab
            by (simp del: One_nat_def) (metis Suc_eq_plus1 Suc_leI)
        qed
        ultimately show ?thesis using here True 3 ab by (subst match_loop.simps) simp
      qed
    qed
  qed
qed

text \<open>C30: The backtracking matcher decides the glob.  The loop that remembers only the last star
  returns for every pattern and segment, and it accepts exactly when the segment is the pattern with
  each star replaced by some run of characters and each question mark by one character.\<close>

theorem match_segment_is_glob:
  "match_segment pattern segment \<longleftrightarrow> glob (str_chars pattern) (str_chars segment)"
  using match_loop_glob [of "str_chars pattern" 0 0 None "str_chars segment"]
  by (simp add: match_segment_def star_inv_def star_alternative_def)

section \<open>What is ignored\<close>

text \<open>A pattern speaks of a path when its kind fits and it matches; the last one that does decides.\<close>

definition speaks_of :: "string list \<Rightarrow> bool \<Rightarrow> ignore_pattern \<Rightarrow> bool" where
  "speaks_of segments is_dir pattern \<longleftrightarrow>
     (if ip_directory_only pattern then is_dir else True) \<and> matches_pattern pattern segments"

definition last_verdict :: "ignore_pattern list \<Rightarrow> string list \<Rightarrow> bool \<Rightarrow> bool" where
  "last_verdict patterns segments is_dir =
     (case filter (speaks_of segments is_dir) (rev patterns) of
        [] \<Rightarrow> False | pattern # _ \<Rightarrow> \<not> ip_negated pattern)"

definition path_segments :: "string \<Rightarrow> string list" where
  "path_segments path = filter (\<lambda>part. part \<noteq> [])
     (split_on CHR ''/'' (trim_matches (\<lambda>c. c = CHR ''/'') (trim_dot_slash path)))"

lemma evaluate_loop_last:
  "evaluate_loop segments is_dir ignored patterns =
     (case filter (speaks_of segments is_dir) (rev patterns) of
        [] \<Rightarrow> ignored | pattern # _ \<Rightarrow> \<not> ip_negated pattern)"
  by (induction patterns arbitrary: ignored)
    (auto simp: speaks_of_def filter_empty_conv split: list.splits)

lemma evaluate_rules_last:
  "evaluate_rules rules segments is_dir = last_verdict (gr_patterns rules) segments is_dir"
  by (simp add: evaluate_rules_def evaluate_loop_last last_verdict_def)

lemma set_join_with: "set (join_with c ss) \<subseteq> insert c (\<Union> (set ` set ss))"
  by (induction c ss rule: join_with.induct) auto

lemma trimmed_has_segment:
  assumes "trim_matches (\<lambda>c. c = d) s \<noteq> []"
  shows "filter (\<lambda>part. part \<noteq> []) (split_on d (trim_matches (\<lambda>c. c = d) s)) \<noteq> []"
proof
  let ?t = "trim_matches (\<lambda>c. c = d) s"
  assume "filter (\<lambda>part. part \<noteq> []) (split_on d ?t) = []"
  then have "\<Union> (set ` set (split_on d ?t)) = {}" by (auto simp: filter_empty_conv)
  moreover have "set ?t \<subseteq> insert d (\<Union> (set ` set (split_on d ?t)))"
    using set_join_with [of d "split_on d ?t"] unfolding join_split .
  ultimately have "set ?t \<subseteq> {d}" by blast
  moreover have "last ?t \<noteq> d"
    using assms hd_dropWhile [of "\<lambda>c. c = d" "rev (dropWhile (\<lambda>c. c = d) s)"]
    by (simp add: trim_matches_def trim_end_matches_def last_rev)
  moreover have "last ?t \<in> set ?t" using assms by simp
  ultimately show False by blast
qed

lemma last_or_before:
  assumes "1 \<le> (n::nat)"
  shows "(\<exists>d. 1 \<le> d \<and> d \<le> n \<and> Q d) \<longleftrightarrow> (\<exists>d. 1 \<le> d \<and> d < n \<and> Q d) \<or> Q n"
  using assms by (auto simp: le_less)

text \<open>What the rules ignore: a path is ignored exactly when, for the path or for one of its ancestor
  directories, some pattern speaks of it and the last pattern that does is not negated; an ancestor
  counts as a directory whatever the path is.\<close>

theorem ignored_iff_last_verdict:
  "is_ignored rules path is_dir \<longleftrightarrow>
     (\<exists>depth. 1 \<le> depth \<and> depth \<le> length (path_segments path) \<and>
        last_verdict (gr_patterns rules) (take depth (path_segments path))
          (is_dir \<or> depth < length (path_segments path)))"
proof (cases "trim_matches (\<lambda>c. c = CHR ''/'') (trim_dot_slash path) = []")
  case True
  then show ?thesis by (simp add: is_ignored_def path_segments_def)
next
  case False
  let ?segs = "path_segments path"
  have "1 \<le> length ?segs"
    using trimmed_has_segment [OF False] by (simp add: path_segments_def Suc_le_eq)
  moreover have "is_ignored rules path is_dir \<longleftrightarrow>
      (\<exists>depth. 1 \<le> depth \<and> depth < length ?segs \<and>
        last_verdict (gr_patterns rules) (take depth ?segs) True) \<or>
      last_verdict (gr_patterns rules) (take (length ?segs) ?segs) is_dir"
    using False
    by (auto simp: is_ignored_def Let_def path_segments_def [symmetric] evaluate_rules_last list_ex_iff)
  moreover note last_or_before [of "length ?segs"
      "\<lambda>depth. last_verdict (gr_patterns rules) (take depth ?segs) (is_dir \<or> depth < length ?segs)"]
  ultimately show ?thesis by (simp cong: conj_cong)
qed

text \<open>
  Two places where the rules differ from those of Git: a pattern with a leading slash never matches
  anything, and a negated name re-includes what an earlier pattern ignores inside a directory of
  that name.
\<close>

lemma leading_slash_never_matches:
  "\<not> is_ignored (rules_parse ''/target'') ''target'' True"
  by code_simp

lemma negation_reaches_into_directories:
  "\<not> is_ignored (rules_parse (''live/'' @ [CHR 0x0A] @ ''!keep'')) ''keep/live'' True \<and>
   is_ignored (rules_parse ''live/'') ''keep/live'' True"
  by code_simp

end
