(* ===== verification/BootMarkers.thy ===== *)
theory BootMarkers
  imports StrText Errors
begin

text \<open>
  The fence-aware marker parser of \<^verbatim>\<open>axiom/src/bootstrap/markers.rs\<close> and the refusals of
  \<^verbatim>\<open>bootstrap/mod.rs\<close>: the one managed block of a document is found, or the document is refused.
\<close>

section \<open>Refusals\<close>

definition refuse :: "string \<Rightarrow> string \<Rightarrow> axiom_error" where
  "refuse rule message = with_detail (axiom_error_new Conflict message) ''rule'' rule"

definition refuse_field :: "string \<Rightarrow> string \<Rightarrow> string \<Rightarrow> axiom_error" where
  "refuse_field rule field observed =
     with_detail (with_detail (refuse rule (''refused '' @ field)) ''field'' field)
       ''observed'' observed"

section \<open>The parser\<close>

definition BEGIN_MARKER :: string where "BEGIN_MARKER = ''<!-- axiom-graph:begin -->''"
definition END_MARKER :: string where "END_MARKER = ''<!-- axiom-graph:end -->''"

datatype marker_conflict = Unbalanced | Duplicate | OutOfOrder

fun marker_conflict_str :: "marker_conflict \<Rightarrow> string" where
  "marker_conflict_str Unbalanced = ''markers-unbalanced''"
| "marker_conflict_str Duplicate = ''markers-duplicate''"
| "marker_conflict_str OutOfOrder = ''markers-out-of-order''"

fun marker_conflict_message :: "marker_conflict \<Rightarrow> string" where
  "marker_conflict_message Unbalanced = ''a lone managed marker is unbalanced''"
| "marker_conflict_message Duplicate = ''duplicate managed markers name more than one block''"
| "marker_conflict_message OutOfOrder = ''managed markers are out of order''"

record managed_span =
  ms_start :: usize
  ms_end :: usize

definition managed_span_len :: "managed_span \<Rightarrow> usize" where
  "managed_span_len s = ms_end s - ms_start s"

definition managed_span_is_empty :: "managed_span \<Rightarrow> bool" where
  "managed_span_is_empty s \<longleftrightarrow> ms_end s \<le> ms_start s"

definition managed_span_slice :: "managed_span \<Rightarrow> string \<Rightarrow> string option" where
  "managed_span_slice s document = str_get document (ms_start s) (ms_end s)"

text \<open>Up to three leading spaces are skipped.\<close>

fun skip_spaces :: "nat \<Rightarrow> string \<Rightarrow> string" where
  "skip_spaces (Suc n) (c # s) = (if c = CHR '' '' then skip_spaces n s else c # s)"
| "skip_spaces n s = s"

definition fence_run :: "string \<Rightarrow> (char \<times> nat \<times> bool) option" where
  "fence_run line =
     (case skip_spaces 3 line of
        [] \<Rightarrow> None
      | fence_char # rest \<Rightarrow>
          if fence_char \<noteq> CHR 0x60 \<and> fence_char \<noteq> CHR 0x7E then None
          else
            (let run = length (takeWhile (\<lambda>c. c = fence_char) (fence_char # rest))
             in if run < 3 then None
                else Some (fence_char, run, str_trim (drop run (fence_char # rest)) = [])))"

text \<open>The fence that is open after a fence line.\<close>

definition fence_step :: "(char \<times> nat) option \<Rightarrow> char \<times> nat \<times> bool \<Rightarrow> (char \<times> nat) option" where
  "fence_step fence run =
     (case run of (fence_char, run, remainder_blank) \<Rightarrow>
        (case fence of
           None \<Rightarrow> Some (fence_char, run)
         | Some (opened, len) \<Rightarrow>
             if fence_char = opened \<and> run \<ge> len \<and> remainder_blank then None else fence))"

definition BOM :: string where "BOM = [CHR 0xEF, CHR 0xBB, CHR 0xBF]"

text \<open>\<open>trim_start_matches\<close> of the byte-order mark.\<close>

fun trim_bom :: "string \<Rightarrow> string" where
  "trim_bom (a # b # c # s) =
     (if a = CHR 0xEF \<and> b = CHR 0xBB \<and> c = CHR 0xBF then trim_bom s else a # b # c # s)"
| "trim_bom s = s"

definition line_plain :: "string \<Rightarrow> string" where
  "line_plain line = trim_end_matches (\<lambda>c. c = CHR 0x0D \<or> c = CHR 0x0A) line"

definition line_clean :: "nat \<Rightarrow> string \<Rightarrow> string" where
  "line_clean offset line = (if offset = 0 then trim_bom (line_plain line) else line_plain line)"

type_synonym found_marker = "bool \<times> nat \<times> nat"

text \<open>The scan of the lines, with the fence that is open at the end.\<close>

fun scan_loop :: "string \<Rightarrow> string \<Rightarrow> nat \<Rightarrow> found_marker list \<Rightarrow> (char \<times> nat) option \<Rightarrow>
    string list \<Rightarrow> found_marker list \<times> (char \<times> nat) option" where
  "scan_loop start_mark end_mark offset found fence [] = (found, fence)"
| "scan_loop start_mark end_mark offset found fence (line # lines) =
     (let plain = line_plain line; clean = line_clean offset line
      in case fence_run clean of
           Some run \<Rightarrow>
             scan_loop start_mark end_mark (offset + length line) found (fence_step fence run) lines
         | None \<Rightarrow>
             (let trimmed = str_trim clean;
                  start = (if offset = 0 \<and> starts_with plain BOM then offset + 3 else offset)
              in scan_loop start_mark end_mark (offset + length line)
                   (if fence = None \<and> (trimmed = start_mark \<or> trimmed = end_mark)
                    then found @ [(trimmed = start_mark, start, offset + length plain)] else found)
                   fence lines))"

definition classify :: "found_marker list \<Rightarrow> marker_conflict + managed_span option" where
  "classify found =
     (case found of
        [] \<Rightarrow> Inr None
      | [_] \<Rightarrow> Inl Unbalanced
      | [(b1, start, _), (b2, _, stop)] \<Rightarrow>
          (if b1 \<and> \<not> b2 then Inr (Some \<lparr>ms_start = start, ms_end = stop\<rparr>)
           else if \<not> b1 \<and> b2 then Inl OutOfOrder
           else Inl Duplicate)
      | _ \<Rightarrow> Inl Duplicate)"

definition managed_span_with :: "string \<Rightarrow> string \<Rightarrow> string \<Rightarrow> marker_conflict + managed_span option" where
  "managed_span_with document start_mark end_mark =
     classify (fst (scan_loop start_mark end_mark 0 [] None (split_inclusive document)))"

definition managed_span_of :: "string \<Rightarrow> marker_conflict + managed_span option" where
  "managed_span_of document = managed_span_with document BEGIN_MARKER END_MARKER"

definition has_managed_block :: "string \<Rightarrow> marker_conflict + bool" where
  "has_managed_block document =
     (case managed_span_of document of Inl c \<Rightarrow> Inl c | Inr span \<Rightarrow> Inr (span \<noteq> None))"

fun count_loop :: "nat \<Rightarrow> nat \<Rightarrow> (char \<times> nat) option \<Rightarrow> string list \<Rightarrow> nat" where
  "count_loop offset n fence [] = n"
| "count_loop offset n fence (line # lines) =
     (let clean = line_clean offset line
      in case fence_run clean of
           Some run \<Rightarrow> count_loop (offset + length line) n (fence_step fence run) lines
         | None \<Rightarrow>
             (let trimmed = str_trim clean
              in count_loop (offset + length line)
                   (if fence = None \<and> (trimmed = BEGIN_MARKER \<or> trimmed = END_MARKER)
                    then n + 1 else n) fence lines))"

definition marker_count :: "string \<Rightarrow> usize" where
  "marker_count document = count_loop 0 0 None (split_inclusive document)"

section \<open>The scan\<close>

abbreviation scan :: "string \<Rightarrow> string \<Rightarrow> string \<Rightarrow> found_marker list \<times> (char \<times> nat) option" where
  "scan b e document \<equiv> scan_loop b e 0 [] None (split_inclusive document)"

lemma scan_found:
  "scan_loop b e off found fence ls =
     (found @ fst (scan_loop b e off [] fence ls), snd (scan_loop b e off [] fence ls))"
proof (induction ls arbitrary: off found fence)
  case (Cons l ls)
  show ?case
  proof (cases "fence_run (line_clean off l)")
    case None
    let ?t = "str_trim (line_clean off l)"
    let ?start = "if off = 0 \<and> starts_with (line_plain l) BOM then off + 3 else off"
    show ?thesis
    proof (cases "fence = None \<and> (?t = b \<or> ?t = e)")
      case True
      let ?m = "(?t = b, ?start, off + length (line_plain l))"
      from Cons.IH [of "off + length l" "found @ [?m]" None] Cons.IH [of "off + length l" "[?m]" None]
      show ?thesis using None True by (simp add: Let_def)
    next
      case False
      with Cons.IH [of "off + length l" found fence] None show ?thesis
        by (auto simp: Let_def)
    qed
  qed (simp add: Let_def Cons.IH [of "off + length l" found])
qed simp

lemma scan_append:
  "scan_loop b e off found fence (ls @ ls') =
     (case scan_loop b e off found fence ls of
        (found', fence') \<Rightarrow> scan_loop b e (off + length (concat ls)) found' fence' ls')"
proof (induction ls arbitrary: off found fence)
  case (Cons l ls)
  show ?case
    by (simp add: Cons.IH Let_def add.assoc split: option.split)
qed simp

lemma count_scan:
  "count_loop off n fence ls =
     n + length (fst (scan_loop BEGIN_MARKER END_MARKER off [] fence ls))"
proof (induction ls arbitrary: off n fence)
  case (Cons l ls)
  show ?case
    by (auto simp: Let_def Cons.IH scan_found [of _ _ _ "[_]"] split: option.split)
qed simp

lemma classify_cases:
  "classify found = Inr None \<longleftrightarrow> found = []"
  "classify found = Inl Unbalanced \<longleftrightarrow> length found = 1"
  "classify found = Inl OutOfOrder \<longleftrightarrow>
     (\<exists>s1 t1 s2 t2. found = [(False, s1, t1), (True, s2, t2)])"
  "classify found = Inr (Some span) \<longleftrightarrow>
     (\<exists>t1 s2. found = [(True, ms_start span, t1), (False, s2, ms_end span)])"
  by (auto simp: classify_def length_Suc_conv split: list.splits prod.splits if_splits)

lemma classify_duplicate: "classify found = Inl Duplicate \<Longrightarrow> 2 \<le> length found"
  by (auto simp: classify_def split: list.splits prod.splits if_splits)

text \<open>The two readings of a document agree: the number of markers outside code fences decides what
  the parser answers.  It answers that there is no block exactly when there is no marker and that
  the markers are unbalanced exactly when there is one; every other answer means at least two, a
  found block exactly two, and more than two are always refused as duplicates.\<close>

theorem marker_count_decides:
  "case managed_span_of document of
     Inr None \<Rightarrow> marker_count document = 0
   | Inr (Some span) \<Rightarrow> marker_count document = 2
   | Inl Unbalanced \<Rightarrow> marker_count document = 1
   | Inl OutOfOrder \<Rightarrow> marker_count document = 2
   | Inl Duplicate \<Rightarrow> 2 \<le> marker_count document"
proof -
  define found where "found = fst (scan BEGIN_MARKER END_MARKER document)"
  have n: "marker_count document = length found"
    by (simp add: marker_count_def count_scan found_def)
  have "managed_span_of document = classify found"
    by (simp add: managed_span_of_def managed_span_with_def found_def)
  then show ?thesis
    using classify_cases [of found] classify_duplicate [of found] unfolding n
    by (auto split: sum.split option.split marker_conflict.split)
qed

text \<open>The field of a refusal is not an allowed detail, so it is dropped from the details.\<close>

lemma refuse_field_drops_field:
  "bt_get (ae_details (refuse_field rule field observed)) ''field'' = None"
proof -
  have "is_allowed_detail_key ''rule''" "is_allowed_detail_key ''observed''"
    "\<not> is_allowed_detail_key ''field''" by code_simp+
  then show ?thesis
    by (simp add: refuse_field_def refuse_def with_detail_def axiom_error_new_def Let_def
        to_ascii_lowercase_def ascii_lower_def bt_get_def)
qed

end
