(* ===== verification/BootSpan.thy ===== *)
theory BootSpan
  imports BootMarkers
begin

text \<open>
  How the marker scan of \<^verbatim>\<open>axiom/src/bootstrap/markers.rs\<close> sees a document that is put together from
  parts: a block between a head and a tail is found again at its place.  The lemmas serve the
  planners of \<^verbatim>\<open>gitignore.rs\<close> and \<^verbatim>\<open>plan.rs\<close>.
\<close>

section \<open>Lines of composed texts\<close>

lemma split_on_append_general:
  "split_on c (xs @ ys) = butlast (split_on c xs) @
     (last (split_on c xs) @ hd (split_on c ys)) # tl (split_on c ys)"
proof (induction xs)
  case Nil
  then show ?case by (simp add: split_on_nonempty)
next
  case (Cons x xs)
  have "split_on c xs \<noteq> []" by simp
  then show ?case using Cons
    by (cases "split_on c xs") (auto split: list.splits simp: neq_Nil_conv)
qed

text \<open>A text up to a line end is cut as if nothing followed.\<close>

lemma split_inclusive_at_line:
  assumes "x = [] \<or> last x = CHR 0x0A"
  shows "split_inclusive (x @ y) = split_inclusive x @ split_inclusive y"
proof -
  have last: "last (split_on CHR 0x0A x) = []"
  proof (cases "x = []")
    case False
    then obtain u where x: "x = u @ [CHR 0x0A]" using assms by (metis append_butlast_last_id)
    show ?thesis by (simp add: x split_on_append_general)
  qed simp
  obtain h t where y: "split_on CHR 0x0A y = h # t"
    using split_on_nonempty by (meson list.exhaust)
  show ?thesis
    by (cases t) (simp_all add: split_inclusive_def Let_def split_on_append_general last y butlast_append)
qed

text \<open>The last line of a text that does not end its line takes up what follows.\<close>

lemma split_inclusive_extend:
  assumes "x \<noteq> []" and "last x \<noteq> CHR 0x0A" and "CHR 0x0A \<notin> set t"
  shows "\<exists>ls l. split_inclusive x = ls @ [l] \<and> l \<noteq> [] \<and> last l = last x \<and>
    split_inclusive (x @ t) = ls @ [l @ t] \<and>
    split_inclusive (x @ t @ CHR 0x0A # y) = ls @ (l @ t @ [CHR 0x0A]) # split_inclusive y"
proof -
  let ?ls = "split_on CHR 0x0A x"
  have x: "join_with CHR 0x0A ?ls = x" by simp
  have ne: "last ?ls \<noteq> []"
  proof
    assume e: "last ?ls = []"
    have "?ls \<noteq> []" by simp
    have "last (join_with c ls) = c" if "ls \<noteq> []" "last ls = []" "join_with c ls \<noteq> []" for c ls
      using that by (induction c ls rule: join_with.induct) (auto split: if_splits)
    from this [OF \<open>?ls \<noteq> []\<close> e, of "CHR 0x0A"] show False using assms by simp
  qed
  have last: "last (last ?ls) = last x"
  proof -
    have "last (join_with c ls) = last (last ls)" if "ls \<noteq> []" "last ls \<noteq> []" for c ls
      using that
    proof (induction c ls rule: join_with.induct)
      case (3 c s u ss)
      then have "join_with c (u # ss) \<noteq> []" by (cases ss) auto
      with 3 show ?case by simp
    qed auto
    from this [of ?ls, OF _ ne, of "CHR 0x0A"] x show ?thesis by simp
  qed
  have t: "split_on CHR 0x0A t = [t]" using assms(3) by (rule split_on_plain)
  have ty: "split_on CHR 0x0A (t @ CHR 0x0A # y) = t # split_on CHR 0x0A y"
    using assms(3) by (rule split_on_append)
  have "split_inclusive x = map (\<lambda>l. l @ [CHR 0x0A]) (butlast ?ls) @ [last ?ls]"
    using ne by (simp add: split_inclusive_def Let_def)
  moreover have "split_inclusive (x @ t) = map (\<lambda>l. l @ [CHR 0x0A]) (butlast ?ls) @ [last ?ls @ t]"
    using ne by (simp add: split_inclusive_def Let_def split_on_append_general t butlast_append)
  moreover have "split_inclusive (x @ t @ CHR 0x0A # y) =
      map (\<lambda>l. l @ [CHR 0x0A]) (butlast ?ls) @ (last ?ls @ t @ [CHR 0x0A]) # split_inclusive y"
  proof -
    obtain h u where y: "split_on CHR 0x0A y = h # u"
      using split_on_nonempty by (meson list.exhaust)
    show ?thesis
      by (cases u)
        (simp_all add: split_inclusive_def Let_def split_on_append_general [of _ x] ty y butlast_append)
  qed
  ultimately show ?thesis using ne last by blast
qed

section \<open>Lines that scan alike\<close>

lemma line_plain_extend:
  assumes "set t \<subseteq> {CHR 0x0D, CHR 0x0A}"
  shows "line_plain (l @ t) = line_plain l"
proof -
  have "dropWhile (\<lambda>c. c = CHR 0x0D \<or> c = CHR 0x0A) (rev t @ rev l) =
      dropWhile (\<lambda>c. c = CHR 0x0D \<or> c = CHR 0x0A) (rev l)"
    using assms by (intro dropWhile_append2) auto
  then show ?thesis by (simp add: line_plain_def trim_end_matches_def)
qed

lemma line_plain_full: "l \<noteq> [] \<Longrightarrow> last l \<noteq> CHR 0x0D \<Longrightarrow> last l \<noteq> CHR 0x0A \<Longrightarrow> line_plain l = l"
  by (cases l rule: rev_cases) (simp_all add: line_plain_def trim_end_matches_def)

text \<open>Extending the last line by line-end bytes changes neither what is found nor the open fence.\<close>

lemma scan_extend_line:
  assumes "set t \<subseteq> {CHR 0x0D, CHR 0x0A}"
  shows "scan_loop b e off found fence [l @ t] = scan_loop b e off found fence [l]"
  by (simp add: line_plain_extend [OF assms] line_clean_def Let_def split: option.split)

text \<open>Away from the start of the document the offset only shifts the places.\<close>

definition shift_found :: "nat \<Rightarrow> found_marker list \<Rightarrow> found_marker list" where
  "shift_found k found = map (\<lambda>(m, s, t). (m, s + k, t + k)) found"

lemma shift_found_append [simp]:
  "shift_found k (xs @ ys) = shift_found k xs @ shift_found k ys"
  "shift_found k [] = []"
  by (simp_all add: shift_found_def)

lemma shift_found_Nil_iff [simp]: "shift_found k xs = [] \<longleftrightarrow> xs = []"
  by (simp add: shift_found_def)

lemma scan_shift:
  assumes "0 < off"
  shows "scan_loop b e (off + k) (shift_found k found) fence ls =
    (shift_found k (fst (scan_loop b e off found fence ls)), snd (scan_loop b e off found fence ls))"
  using assms
proof (induction ls arbitrary: off found fence)
  case (Cons l ls)
  have clean: "line_clean (off + k) l = line_clean off l"
    using Cons.prems by (simp add: line_clean_def)
  have place: "off + k + n = off + n + k" for n by simp
  show ?case
  proof (cases "fence_run (line_clean off l)")
    case None
    let ?t = "str_trim (line_clean off l)"
    show ?thesis
    proof (cases "fence = None \<and> (?t = b \<or> ?t = e)")
      case True
      with Cons.IH [of "off + length l" "found @ [(?t = b, off, off + length (line_plain l))]" None]
        None Cons.prems show ?thesis
        by (simp add: Let_def clean place shift_found_def)
    next
      case False
      with Cons.IH [of "off + length l" found fence] None Cons.prems show ?thesis
        by (auto simp: Let_def clean place)
    qed
  qed (use Cons.IH [of "off + length l" found] Cons.prems in \<open>simp add: Let_def clean place\<close>)
qed simp

lemma trim_bom_id: "\<not> starts_with s BOM \<Longrightarrow> trim_bom s = s"
  by (cases s rule: trim_bom.cases) (auto simp: starts_with_def BOM_def)

lemma starts_with_plain: "starts_with (line_plain l) BOM \<Longrightarrow> starts_with l BOM"
proof -
  obtain t where "l = line_plain l @ t"
    unfolding line_plain_def trim_end_matches_def
    by (metis (no_types) dropWhile_eq_drop rev_append rev_rev_ident takeWhile_dropWhile_id)
  moreover assume "starts_with (line_plain l) BOM"
  ultimately show ?thesis
    unfolding starts_with_def by (metis append_take_drop_id append.assoc append_eq_conv_conj)
qed

lemma scan_shift_head:
  assumes "ls = [] \<or> \<not> starts_with (hd ls) BOM" and "[] \<notin> set ls"
  shows "scan_loop b e k [] fence ls =
    (shift_found k (fst (scan_loop b e 0 [] fence ls)), snd (scan_loop b e 0 [] fence ls))"
proof (cases ls)
  case (Cons l rest)
  have l: "0 < length l" and nb: "\<not> starts_with (line_plain l) BOM"
    using assms Cons starts_with_plain by auto
  then have clean: "line_clean k l = line_plain l" "line_clean 0 l = line_plain l"
    by (auto simp: line_clean_def trim_bom_id)
  note shift = scan_shift [OF l, of b e k]
  show ?thesis
  proof (cases "fence_run (line_plain l)")
    case None
    let ?t = "str_trim (line_plain l)"
    show ?thesis
    proof (cases "fence = None \<and> (?t = b \<or> ?t = e)")
      case True
      with shift [of "[(?t = b, 0, length (line_plain l))]" None rest] None nb Cons show ?thesis
        by (simp add: Let_def clean shift_found_def add.commute [of k])
    next
      case False
      with shift [of "[]" fence rest] None nb Cons show ?thesis
        by (auto simp: Let_def clean add.commute [of k])
    qed
  qed (use shift [of "[]"] nb Cons in \<open>simp add: Let_def clean add.commute [of k]\<close>)
qed simp

section \<open>A block between a head and a tail\<close>

text \<open>
  A head after which a line may start: it ends with a line end, or is empty, or is the byte-order
  mark; nothing is found in it and no fence is open after it.
\<close>

definition head_ok :: "string \<Rightarrow> string \<Rightarrow> string \<Rightarrow> bool" where
  "head_ok b e x \<longleftrightarrow> (x = [] \<or> last x = CHR 0x0A) \<and> scan b e x = ([], None) \<or> x = BOM"

text \<open>A tail after an end marker: line-end bytes, then lines in which nothing is found.\<close>

definition tail_ok :: "string \<Rightarrow> string \<Rightarrow> string \<Rightarrow> bool" where
  "tail_ok b e z \<longleftrightarrow> (\<exists>t y. set t \<subseteq> {CHR 0x0D} \<and> (z = t \<or> z = t @ CHR 0x0A # y \<and>
     fst (scan_loop b e 1 [] None (split_inclusive y)) = []))"

text \<open>A block is one whole managed span, closed by its last line.\<close>

definition block_ok :: "string \<Rightarrow> string \<Rightarrow> string \<Rightarrow> bool" where
  "block_ok b e block \<longleftrightarrow> block \<noteq> [] \<and> last block \<noteq> CHR 0x0D \<and> last block \<noteq> CHR 0x0A \<and>
     \<not> starts_with block BOM \<and> snd (scan b e block) = None \<and>
     managed_span_with block b e = Inr (Some \<lparr>ms_start = 0, ms_end = length block\<rparr>)"

lemma split_inclusive_nonempty: "[] \<notin> set (split_inclusive s)"
  by (auto simp: split_inclusive_def Let_def)

lemma hd_split_inclusive: "starts_with (hd (split_inclusive s)) BOM \<Longrightarrow> s \<noteq> [] \<Longrightarrow> starts_with s BOM"
proof -
  assume bom: "starts_with (hd (split_inclusive s)) BOM" and "s \<noteq> []"
  then have "split_inclusive s \<noteq> []" using concat_split_inclusive [of s] by force
  then have "s = hd (split_inclusive s) @ concat (tl (split_inclusive s))"
    using concat_split_inclusive [of s] by (metis concat.simps(2) list.collapse)
  with bom show ?thesis
    unfolding starts_with_def by (metis append_take_drop_id append.assoc append_eq_conv_conj)
qed

text \<open>After such a head a text that brings no byte-order mark is scanned as if it stood alone.\<close>

lemma scan_after_head:
  assumes "head_ok b e x" and "\<not> starts_with y BOM" and "y \<noteq> []"
  shows "scan b e (x @ y) = (shift_found (length x) (fst (scan b e y)), snd (scan b e y))"
proof (cases "x = BOM")
  case False
  then have x: "x = [] \<or> last x = CHR 0x0A" "scan b e x = ([], None)"
    using assms(1) by (auto simp: head_ok_def)
  have "split_inclusive y = [] \<or> \<not> starts_with (hd (split_inclusive y)) BOM"
    using hd_split_inclusive [of y] assms(2) by (cases "y = []") (auto simp: split_inclusive_def)
  from scan_shift_head [OF this split_inclusive_nonempty, of b e "length x" None] show ?thesis
    unfolding split_inclusive_at_line [OF x(1)] scan_append x(2) by simp
next
  case True
  obtain h t where y: "split_on CHR 0x0A y = h # t"
    using split_on_nonempty by (meson list.exhaust)
  have bom: "split_on CHR 0x0A BOM = [BOM]" by (rule split_on_plain) (simp add: BOM_def)
  show ?thesis
  proof (cases "split_inclusive y")
    case Nil
    then have "y = []" using concat_split_inclusive [of y] by simp
    with assms(3) show ?thesis by simp
  next
    case (Cons l ls)
    have lines: "split_inclusive (BOM @ y) = (BOM @ l) # ls"
      using Cons by (cases t)
        (auto simp: split_inclusive_def Let_def split_on_append_general bom y BOM_def split: if_splits)
    have plain: "line_plain (BOM @ l) = BOM @ line_plain l"
      by (simp add: line_plain_def trim_end_matches_def BOM_def dropWhile_append)
    have nb: "\<not> starts_with (line_plain l) BOM"
      using hd_split_inclusive [of y] Cons assms(2) starts_with_plain [of l] concat_split_inclusive [of y]
      by force
    have clean: "line_clean 0 (BOM @ l) = line_plain l" "line_clean 0 l = line_plain l"
      using nb by (simp_all add: line_clean_def plain trim_bom_id) (simp add: BOM_def trim_bom_id)
    have l: "0 < length l" using Cons split_inclusive_nonempty [of y] by auto
    have len: "length BOM = 3" by (simp add: BOM_def)
    have start: "starts_with (BOM @ line_plain l) BOM" by (simp add: starts_with_def)
    note shift = scan_shift [OF l, of b e 3]
    show ?thesis
    proof (cases "fence_run (line_plain l)")
      case None
      let ?t = "str_trim (line_plain l)"
      show ?thesis
      proof (cases "?t = b \<or> ?t = e")
        case True
        with shift [of "[(?t = b, 0, length (line_plain l))]" None ls] None nb Cons lines \<open>x = BOM\<close>
        show ?thesis
          by (simp add: Let_def clean plain len start shift_found_def add.commute [of 3])
      next
        case False
        with shift [of "[]" None ls] None nb Cons lines \<open>x = BOM\<close> show ?thesis
          by (simp add: Let_def clean plain len add.commute [of 3])
      qed
    qed (use shift [of "[]"] nb Cons lines \<open>x = BOM\<close> in
        \<open>simp add: Let_def clean plain len add.commute [of 3]\<close>)
  qed
qed

lemma scan_nonzero:
  assumes "fst (scan_loop b e 1 [] None ls) = []" and "0 < off"
  shows "fst (scan_loop b e off [] None ls) = []"
proof -
  from assms(2) obtain k where "off = 1 + k" using less_imp_add_positive [of 0 off]
    by (metis One_nat_def Suc_pred' plus_1_eq_Suc)
  then show ?thesis using scan_shift [of 1 b e k "[]" None ls] assms(1) by simp
qed

lemma scan_before_tail:
  assumes "block_ok b e block" and "tail_ok b e z"
  shows "fst (scan b e (block @ z)) = fst (scan b e block)"
proof -
  have block: "block \<noteq> []" "last block \<noteq> CHR 0x0A" "snd (scan b e block) = None"
    using assms(1) by (auto simp: block_ok_def)
  obtain t y where t: "set t \<subseteq> {CHR 0x0D}" and z: "z = t \<or> z = t @ CHR 0x0A # y \<and>
     fst (scan_loop b e 1 [] None (split_inclusive y)) = []"
    using assms(2) by (auto simp: tail_ok_def)
  then have "CHR 0x0A \<notin> set t" by auto
  from split_inclusive_extend [OF block(1,2) this, of y]
  obtain ls l where lines: "split_inclusive block = ls @ [l]" "split_inclusive (block @ t) = ls @ [l @ t]"
    "split_inclusive (block @ t @ CHR 0x0A # y) = (ls @ [l @ t @ [CHR 0x0A]]) @ split_inclusive y"
    by auto
  have ext: "set t \<subseteq> {CHR 0x0D, CHR 0x0A}" "set (t @ [CHR 0x0A]) \<subseteq> {CHR 0x0D, CHR 0x0A}"
    using t by auto
  show ?thesis
  proof (cases "z = t")
    case True
    then show ?thesis
      by (simp add: lines scan_append scan_extend_line [OF ext(1)] del: scan_loop.simps split: prod.split)
  next
    case False
    then have z: "z = t @ CHR 0x0A # y" "fst (scan_loop b e 1 [] None (split_inclusive y)) = []"
      using z by auto
    have same: "scan_loop b e 0 [] None (ls @ [l @ t @ [CHR 0x0A]]) = scan b e block"
      by (simp add: lines scan_append scan_extend_line [OF ext(2)] del: scan_loop.simps split: prod.split)
    have "scan b e (block @ z) =
        (case scan b e block of (found, fence) \<Rightarrow>
           scan_loop b e (length (concat (ls @ [l @ t @ [CHR 0x0A]]))) found fence (split_inclusive y))"
      unfolding z(1) lines(3) scan_append [of _ _ _ _ _ "ls @ [l @ t @ [CHR 0x0A]]"] same by simp
    also have "fst \<dots> = fst (scan b e block)"
      using scan_nonzero [OF z(2), of "length (concat (ls @ [l @ t @ [CHR 0x0A]]))"] block(3)
        scan_found [of b e _ "fst (scan b e block)"]
      by (cases "scan b e block") simp
    finally show ?thesis .
  qed
qed

lemma starts_with_append_BOM:
  "\<not> starts_with block BOM \<Longrightarrow> block \<noteq> [] \<Longrightarrow> last block \<noteq> CHR 0xEF \<Longrightarrow> last block \<noteq> CHR 0xBB \<Longrightarrow>
    \<not> starts_with (block @ z) BOM"
  by (cases block rule: trim_bom.cases) (auto simp: starts_with_def BOM_def)

text \<open>A block between a good head and a good tail is the managed block, at its place.\<close>

lemma span_in_context:
  assumes "head_ok b e x" and "block_ok b e block" and "tail_ok b e z"
    and "\<not> starts_with (block @ z) BOM"
  shows "managed_span_with (x @ block @ z) b e =
    Inr (Some \<lparr>ms_start = length x, ms_end = length x + length block\<rparr>)"
proof -
  obtain t1 s2 where block: "fst (scan b e block) = [(True, 0, t1), (False, s2, length block)]"
    using assms(2) classify_cases(4) [of "fst (scan b e block)"]
    by (auto simp: block_ok_def managed_span_with_def)
  have "fst (scan b e (x @ block @ z)) = shift_found (length x) (fst (scan b e (block @ z)))"
    using scan_after_head [OF assms(1,4)] assms(2) by (simp add: block_ok_def)
  also have "\<dots> = [(True, length x, t1 + length x), (False, s2 + length x, length x + length block)]"
    by (simp add: scan_before_tail [OF assms(2,3)] block shift_found_def)
  finally show ?thesis by (simp add: managed_span_with_def classify_def)
qed

section \<open>Finding the head and the tail again\<close>

text \<open>A list of lines that a text can be cut into.\<close>

definition whole_lines :: "string list \<Rightarrow> bool" where
  "whole_lines ls \<longleftrightarrow> (\<forall>l \<in> set (butlast ls). \<exists>u. l = u @ [CHR 0x0A] \<and> CHR 0x0A \<notin> set u) \<and>
     (ls = [] \<or> (\<exists>u. CHR 0x0A \<notin> set u \<and> (last ls = u @ [CHR 0x0A] \<or> last ls = u \<and> u \<noteq> [])))"

lemma whole_lines_split: "whole_lines (split_inclusive s)"
proof -
  have "whole_lines (map (\<lambda>l. l @ [CHR 0x0A]) ls @ (if v = [] then [] else [v]))"
    if "\<forall>l \<in> set ls. CHR 0x0A \<notin> set l" "CHR 0x0A \<notin> set v" for ls v
    using that by (cases ls rule: rev_cases) (auto simp: whole_lines_def butlast_append)
  moreover have "\<forall>l \<in> set (butlast (split_on CHR 0x0A s)). CHR 0x0A \<notin> set l"
    using split_on_no_sep by (metis in_set_butlastD)
  moreover have "CHR 0x0A \<notin> set (last (split_on CHR 0x0A s))"
    by (rule split_on_no_sep [of _ _ s]) simp
  ultimately show ?thesis by (simp add: split_inclusive_def Let_def)
qed

lemma whole_lines_concat: "whole_lines ls \<Longrightarrow> split_inclusive (concat ls) = ls"
proof (induction ls)
  case (Cons l ls)
  show ?case
  proof (cases "ls = []")
    case True
    then obtain u where u: "CHR 0x0A \<notin> set u" "l = u @ [CHR 0x0A] \<or> l = u \<and> u \<noteq> []"
      using Cons.prems by (auto simp: whole_lines_def)
    have "split_on CHR 0x0A u = [u]" using u(1) by (rule split_on_plain)
    moreover have "split_on CHR 0x0A (u @ [CHR 0x0A]) = [u, []]"
      using split_on_append [OF u(1), of "[]"] by simp
    ultimately show ?thesis using True u(2) by (auto simp: split_inclusive_def)
  next
    case False
    then obtain u where u: "CHR 0x0A \<notin> set u" "l = u @ [CHR 0x0A]" and ls: "whole_lines ls"
      using Cons.prems by (auto simp: whole_lines_def)
    have "split_on CHR 0x0A (u @ [CHR 0x0A]) = [u, []]"
      using split_on_append [OF u(1), of "[]"] by simp
    then have "split_inclusive l = [l]" by (simp add: split_inclusive_def u(2))
    moreover have "split_inclusive (l @ concat ls) = split_inclusive l @ split_inclusive (concat ls)"
      using u(2) by (intro split_inclusive_at_line) simp
    ultimately show ?thesis using Cons.IH [OF ls] by simp
  qed
qed (simp add: split_inclusive_def)

lemma whole_lines_parts:
  assumes "whole_lines (ls1 @ ls2)"
  shows "whole_lines ls2" and "ls2 \<noteq> [] \<Longrightarrow> whole_lines ls1"
    and "ls2 \<noteq> [] \<Longrightarrow> concat ls1 = [] \<or> last (concat ls1) = CHR 0x0A"
proof -
  show "whole_lines ls2"
    using assms by (cases "ls2 = []") (auto simp: whole_lines_def butlast_append split: if_splits)
  assume ne: "ls2 \<noteq> []"
  then have all: "\<forall>l \<in> set ls1. \<exists>u. l = u @ [CHR 0x0A] \<and> CHR 0x0A \<notin> set u"
    using assms by (auto simp: whole_lines_def butlast_append)
  then show "whole_lines ls1"
    by (cases ls1 rule: rev_cases) (auto simp: whole_lines_def)
  show "concat ls1 = [] \<or> last (concat ls1) = CHR 0x0A"
    using all by (cases ls1 rule: rev_cases) auto
qed

lemma first_marker:
  assumes "scan_loop b e off [] fence ls = ((m, s, t) # others, fence')"
  shows "\<exists>ls1 l ls2. ls = ls1 @ l # ls2 \<and> scan_loop b e off [] fence ls1 = ([], None) \<and>
    s = off + length (concat ls1) +
      (if off + length (concat ls1) = 0 \<and> starts_with (line_plain l) BOM then 3 else 0) \<and>
    t = off + length (concat ls1) + length (line_plain l) \<and>
    scan_loop b e (off + length (concat ls1) + length l) [] None ls2 = (others, fence')"
  using assms
proof (induction ls arbitrary: off fence)
  case (Cons l ls)
  show ?case
  proof (cases "fence_run (line_clean off l)")
    case (Some run)
    then have "scan_loop b e (off + length l) [] (fence_step fence run) ls = ((m, s, t) # others, fence')"
      using Cons.prems by (simp add: Let_def)
    from Cons.IH [OF this] obtain ls1 l' ls2 where
      "ls = ls1 @ l' # ls2" "scan_loop b e (off + length l) [] (fence_step fence run) ls1 = ([], None)"
      "s = off + length l + length (concat ls1) +
        (if off + length l + length (concat ls1) = 0 \<and> starts_with (line_plain l') BOM then 3 else 0)"
      "t = off + length l + length (concat ls1) + length (line_plain l')"
      "scan_loop b e (off + length l + length (concat ls1) + length l') [] None ls2 = (others, fence')"
      by blast
    with Some show ?thesis
      by (intro exI [of _ "l # ls1"] exI [of _ l'] exI [of _ ls2]) (simp add: Let_def add.assoc)
  next
    case None
    let ?trim = "str_trim (line_clean off l)"
    show ?thesis
    proof (cases "fence = None \<and> (?trim = b \<or> ?trim = e)")
      case True
      then show ?thesis using Cons.prems None
        by (intro exI [of _ "[]"] exI [of _ l] exI [of _ ls])
          (auto simp: Let_def scan_found [of _ _ _ "[_]"] split: if_splits)
    next
      case False
      then have "scan_loop b e (off + length l) [] fence ls = ((m, s, t) # others, fence')"
        using Cons.prems None by (auto simp: Let_def)
      from Cons.IH [OF this] obtain ls1 l' ls2 where
        "ls = ls1 @ l' # ls2" "scan_loop b e (off + length l) [] fence ls1 = ([], None)"
        "s = off + length l + length (concat ls1) +
          (if off + length l + length (concat ls1) = 0 \<and> starts_with (line_plain l') BOM then 3 else 0)"
        "t = off + length l + length (concat ls1) + length (line_plain l')"
        "scan_loop b e (off + length l + length (concat ls1) + length l') [] None ls2 = (others, fence')"
        by blast
      with None False show ?thesis
        by (intro exI [of _ "l # ls1"] exI [of _ l'] exI [of _ ls2]) (auto simp: Let_def add.assoc)
    qed
  qed
qed simp

text \<open>The line-end bytes after the marker text of a line.\<close>

lemma line_ends:
  assumes "CHR 0x0A \<notin> set u" and "l = u @ [CHR 0x0A] \<or> l = u"
  shows "\<exists>t. set t \<subseteq> {CHR 0x0D} \<and>
    (l = u \<and> l = line_plain l @ t \<or> l = u @ [CHR 0x0A] \<and> l = line_plain l @ t @ [CHR 0x0A])"
proof -
  define r where "r = rev (takeWhile (\<lambda>c. c = CHR 0x0D) (rev u))"
  define v where "v = rev (dropWhile (\<lambda>c. c = CHR 0x0D) (rev u))"
  have u: "u = v @ r" unfolding r_def v_def by (metis rev_append rev_rev_ident takeWhile_dropWhile_id)
  have r: "set r \<subseteq> {CHR 0x0D}" by (auto simp: r_def dest: set_takeWhileD)
  have "line_plain v = v"
  proof (cases v rule: rev_cases)
    case (snoc w c)
    have v: "rev v = dropWhile (\<lambda>c. c = CHR 0x0D) (rev u)" unfolding v_def rev_rev_ident ..
    have w: "rev v = c # rev w" using snoc by simp
    have "dropWhile (\<lambda>c. c = CHR 0x0D) (rev u) = c # rev w" by (rule trans [OF v [symmetric] w])
    from hd_dropWhile [of "\<lambda>c. c = CHR 0x0D" "rev u"] have "c \<noteq> CHR 0x0D"
      unfolding \<open>dropWhile (\<lambda>c. c = CHR 0x0D) (rev u) = c # rev w\<close> list.sel by blast
    moreover have "c \<noteq> CHR 0x0A" using assms(1) u snoc by auto
    ultimately show ?thesis using snoc by (intro line_plain_full) simp_all
  qed (simp add: line_plain_def trim_end_matches_def)
  then have "line_plain (v @ r) = v" "line_plain (v @ r @ [CHR 0x0A]) = v"
    using line_plain_extend [of r v] line_plain_extend [of "r @ [CHR 0x0A]" v] r by auto
  with assms(2) r u show ?thesis by (intro exI [of _ r]) auto
qed

lemma scan_at_one:
  assumes "fst (scan_loop b e off [] None ls) = []" and "0 < off"
  shows "fst (scan_loop b e 1 [] None ls) = []"
proof -
  from assms(2) obtain k where "off = 1 + k" by (metis One_nat_def Suc_pred' plus_1_eq_Suc)
  then show ?thesis using scan_shift [of 1 b e k "[]" None ls] assms(1) by simp
qed

lemma starts_withE: "starts_with s p \<Longrightarrow> \<exists>r. s = p @ r"
  unfolding starts_with_def by (metis append_take_drop_id)

text \<open>A managed block stands between a good head and a good tail.\<close>

lemma span_parts:
  assumes "managed_span_with document b e = Inr (Some span)"
  shows "\<exists>x m z. document = x @ m @ z \<and> length x = ms_start span \<and> length (x @ m) = ms_end span \<and>
    head_ok b e x \<and> tail_ok b e z"
proof -
  obtain t1 s2 fence where found: "scan b e document = ([(True, ms_start span, t1), (False, s2, ms_end span)], fence)"
    using assms classify_cases(4) [of "fst (scan b e document)" span]
    by (cases "scan b e document") (auto simp: managed_span_with_def)
  from first_marker [OF found] obtain ls1 l ls2 where one: "split_inclusive document = ls1 @ l # ls2"
    "scan_loop b e 0 [] None ls1 = ([], None)"
    "ms_start span = length (concat ls1) +
       (if length (concat ls1) = 0 \<and> starts_with (line_plain l) BOM then 3 else 0)"
    "scan_loop b e (length (concat ls1) + length l) [] None ls2 = ([(False, s2, ms_end span)], fence)"
    by auto
  from first_marker [OF one(4)] obtain ls3 l' ls4 where two: "ls2 = ls3 @ l' # ls4"
    "ms_end span = length (concat ls1) + length l + length (concat ls3) + length (line_plain l')"
    "scan_loop b e (length (concat ls1) + length l + length (concat ls3) + length l') [] None ls4 =
      ([], fence)"
    by auto
  have whole: "whole_lines (ls1 @ l # ls3 @ l' # ls4)"
    using whole_lines_split [of document] one(1) two(1) by simp
  have doc: "document = concat ls1 @ l @ concat ls3 @ l' @ concat ls4"
    using concat_split_inclusive [of document] one(1) two(1) by simp
  note parts = whole_lines_parts [OF whole]
  have head1: "head_ok b e (concat ls1)"
    using parts one(2) whole_lines_concat [of ls1] by (simp add: head_ok_def)
  have ne: "0 < length l" "0 < length l'"
    using split_inclusive_nonempty [of document] one(1) two(1) by auto
  obtain x y where xy: "concat ls1 @ l = x @ y" "length x = ms_start span" "head_ok b e x"
  proof (cases "length (concat ls1) = 0 \<and> starts_with (line_plain l) BOM")
    case True
    then obtain r where "l = BOM @ r" using starts_withE starts_with_plain by blast
    moreover have "length BOM = 3" by (simp add: BOM_def)
    ultimately show thesis using True one(3) by (intro that [of BOM r]) (auto simp: head_ok_def)
  next
    case False
    with one(3) head1 show thesis by (intro that [of "concat ls1" l]) auto
  qed
  have whole': "whole_lines (l' # ls4)"
    using whole_lines_parts(1) [of "ls1 @ l # ls3" "l' # ls4"] whole by simp
  obtain u where u: "CHR 0x0A \<notin> set u" "l' = u @ [CHR 0x0A] \<or> l' = u \<and> ls4 = []"
    using whole' by (cases "ls4 = []") (auto simp: whole_lines_def)
  obtain t where t: "set t \<subseteq> {CHR 0x0D}" and l': "l' = u \<and> l' = line_plain l' @ t \<or>
      l' = u @ [CHR 0x0A] \<and> l' = line_plain l' @ t @ [CHR 0x0A]"
    using line_ends [OF u(1), of l'] u(2) by auto
  have "fst (scan_loop b e 1 [] None ls4) = []"
    using scan_at_one [of b e _ ls4] two(3) ne by (metis add_gr_0 fst_conv)
  then have rest: "fst (scan_loop b e 1 [] None (split_inclusive (concat ls4))) = []"
    using whole_lines_parts(1) [of "[l']" ls4] whole' whole_lines_concat by simp
  define z where "z = drop (length (line_plain l')) l' @ concat ls4"
  have z: "line_plain l' @ z = l' @ concat ls4" and tail: "tail_ok b e z"
  proof -
    show "line_plain l' @ z = l' @ concat ls4"
      using l' unfolding z_def by (metis append.assoc append_eq_conv_conj append_take_drop_id)
    show "tail_ok b e z"
      using l'
    proof
      assume "l' = u \<and> l' = line_plain l' @ t"
      then have "ls4 = []" using u by auto
      moreover have "drop (length (line_plain l')) l' = t"
        using \<open>l' = u \<and> l' = line_plain l' @ t\<close> by (metis append_eq_conv_conj)
      ultimately show ?thesis using t unfolding z_def tail_ok_def by auto
    next
      assume "l' = u @ [CHR 0x0A] \<and> l' = line_plain l' @ t @ [CHR 0x0A]"
      then have "drop (length (line_plain l')) l' = t @ [CHR 0x0A]"
        by (metis append_eq_conv_conj)
      then have "z = t @ CHR 0x0A # concat ls4" by (simp add: z_def)
      then show ?thesis using t rest unfolding tail_ok_def by blast
    qed
  qed
  have "document = x @ (y @ concat ls3 @ line_plain l') @ z"
    using doc xy(1) z by (metis append.assoc)
  moreover have "length (x @ y @ concat ls3 @ line_plain l') = ms_end span"
    using arg_cong [OF xy(1), of length] two(2) by simp
  ultimately show ?thesis using xy(2,3) tail by blast
qed

end
