(* ===== verification/BootText.thy ===== *)
theory BootText
  imports BootSpan
begin

text \<open>
  Byte-, byte-order-mark- and newline-preserving text handling, \<^verbatim>\<open>axiom/src/bootstrap/text.rs\<close>: a
  document is decoded, one span of it is replaced or a block is appended, and every other byte stays.
\<close>

definition RULE_ENCODING :: string where "RULE_ENCODING = ''text-encoding''"
definition RULE_SPAN :: string where "RULE_SPAN = ''text-span-out-of-range''"

datatype newline = Lf | Crlf

fun newline_str :: "newline \<Rightarrow> string" where
  "newline_str Lf = [CHR 0x0A]"
| "newline_str Crlf = [CHR 0x0D, CHR 0x0A]"

definition newline_of :: "string \<Rightarrow> newline" where
  "newline_of document = (if str_contains document [CHR 0x0D, CHR 0x0A] then Crlf else Lf)"

definition starts_with_bom :: "string \<Rightarrow> bool" where
  "starts_with_bom bytes = starts_with bytes BOM"

record source_text =
  st_document :: string
  st_bom :: bool

definition source_decode :: "string \<Rightarrow> source_text result" where
  "source_decode bytes =
     (case from_utf8 bytes of
        Inl bad \<Rightarrow>
          Inl (with_detail (with_detail (refuse RULE_ENCODING
            (''refusing an unsupported encoding: '' @ utf8_error_display bad))
            ''field'' ''encoding'') ''observed'' ''non-utf-8'')
      | Inr document \<Rightarrow> Inr \<lparr>st_document = document, st_bom = starts_with_bom bytes\<rparr>)"

definition source_from_text :: "string \<Rightarrow> source_text" where
  "source_from_text document = \<lparr>st_document = document, st_bom = starts_with document BOM\<rparr>"

definition source_newline :: "source_text \<Rightarrow> newline" where
  "source_newline t = newline_of (st_document t)"

definition source_len :: "source_text \<Rightarrow> usize" where
  "source_len t = length (st_document t)"

definition source_is_empty :: "source_text \<Rightarrow> bool" where
  "source_is_empty t \<longleftrightarrow> st_document t = []"

definition source_encode :: "source_text \<Rightarrow> string" where
  "source_encode t = st_document t"

text \<open>\<open>get(..n)\<close> and \<open>get(n..)\<close>.\<close>

definition get_to :: "string \<Rightarrow> nat \<Rightarrow> string option" where
  "get_to s n = str_get s 0 n"

definition get_from :: "string \<Rightarrow> nat \<Rightarrow> string option" where
  "get_from s n = str_get s n (length s)"

definition span_refusal :: "source_text \<Rightarrow> managed_span \<Rightarrow> axiom_error" where
  "span_refusal t span =
     (let range = show_nat (ms_start span) @ ''..'' @ show_nat (ms_end span)
      in with_detail (with_detail (refuse RULE_SPAN
           (''refusing a managed span '' @ range @ '' outside a '' @ show_nat (source_len t) @
            ''-byte document'')) ''field'' ''span'') ''observed'' range)"

definition replace_span :: "source_text \<Rightarrow> managed_span \<Rightarrow> string \<Rightarrow> string result" where
  "replace_span t span block =
     (if ms_end span < ms_start span then Inl (span_refusal t span)
      else (case (get_to (st_document t) (ms_start span), get_from (st_document t) (ms_end span)) of
          (Some head, Some tail) \<Rightarrow> Inr (head @ block @ tail)
        | _ \<Rightarrow> Inl (span_refusal t span)))"

definition append_block :: "string \<Rightarrow> string \<Rightarrow> newline \<Rightarrow> string" where
  "append_block document block newline =
     (let separator = newline_str newline;
          suffix = (if document = [] then []
            else if ends_with document [CHR 0x0A] \<or> ends_with document [CHR 0x0D] then separator
            else separator @ separator)
      in document @ suffix @ block @ separator)"

definition source_append_block :: "source_text \<Rightarrow> string \<Rightarrow> string" where
  "source_append_block t block = append_block (st_document t) block (source_newline t)"

text \<open>\<open>str::replace\<close> of a line end by another.\<close>

fun crlf_to_lf :: "string \<Rightarrow> string" where
  "crlf_to_lf (a # b # s) =
     (if a = CHR 0x0D \<and> b = CHR 0x0A then CHR 0x0A # crlf_to_lf s else a # crlf_to_lf (b # s))"
| "crlf_to_lf s = s"

definition lf_to_crlf :: "string \<Rightarrow> string" where
  "lf_to_crlf s = concat (map (\<lambda>c. if c = CHR 0x0A then [CHR 0x0D, CHR 0x0A] else [c]) s)"

definition render_block :: "string \<Rightarrow> newline \<Rightarrow> string" where
  "render_block template newline =
     (let normalised = crlf_to_lf (trim_matches (\<lambda>c. c = CHR 0x0D \<or> c = CHR 0x0A) template)
      in if newline = Crlf then lf_to_crlf normalised else normalised)"

text \<open>Offsets are 64 bits wide.\<close>

definition replaces_only_span :: "string \<Rightarrow> string \<Rightarrow> managed_span \<Rightarrow> string \<Rightarrow> bool" where
  "replaces_only_span before after span replacement =
     (if ms_end span < ms_start span then False
      else (case (get_to before (ms_start span), get_from before (ms_end span)) of
          (Some head, Some tail) \<Rightarrow>
            (case u64_checked_add (ms_start span) (length replacement) of
               None \<Rightarrow> False
             | Some replacement_end \<Rightarrow>
                 (case (get_to after (ms_start span),
                        str_get after (ms_start span) replacement_end,
                        get_from after replacement_end) of
                    (Some after_head, Some after_middle, Some after_tail) \<Rightarrow>
                      after_head = head \<and> after_middle = replacement \<and> after_tail = tail
                  | _ \<Rightarrow> False))
        | _ \<Rightarrow> False))"

section \<open>Lemmas\<close>

lemma get_to_eq: "get_to s n = (if char_boundary s n then Some (take n s) else None)"
  by (simp add: get_to_def str_get_def)

lemma get_from_eq: "get_from s n = (if char_boundary s n then Some (drop n s) else None)"
  using char_boundary_le [of s n] by (auto simp: get_from_def str_get_def)

lemma boundary_append:
  "y = [] \<or> \<not> continuation (hd y) \<Longrightarrow> char_boundary (x @ y) (length x)"
  by (cases y) (auto simp: char_boundary_def nth_append)

lemma boundary_append_eq:
  "y = [] \<or> \<not> continuation (hd y) \<Longrightarrow> n = length x \<Longrightarrow> char_boundary (x @ y) n"
  using boundary_append by simp

lemma boundary_drop: "char_boundary s n \<Longrightarrow> drop n s = [] \<or> n = 0 \<or> \<not> continuation (hd (drop n s))"
  by (auto simp: char_boundary_def hd_drop_conv_nth)

lemma replace_span_ok:
  "replace_span t span block = Inr after \<longleftrightarrow>
     ms_start span \<le> ms_end span \<and> char_boundary (st_document t) (ms_start span) \<and>
     char_boundary (st_document t) (ms_end span) \<and>
     after = take (ms_start span) (st_document t) @ block @ drop (ms_end span) (st_document t)"
  by (auto simp: replace_span_def get_to_eq get_from_eq)

lemma replaces_only_span_ok:
  "replaces_only_span before after span replacement \<longleftrightarrow>
     ms_start span \<le> ms_end span \<and> char_boundary before (ms_start span) \<and>
     char_boundary before (ms_end span) \<and>
     ms_start span + length replacement \<le> u64_max \<and>
     char_boundary after (ms_start span) \<and> char_boundary after (ms_start span + length replacement) \<and>
     after = take (ms_start span) before @ replacement @ drop (ms_end span) before"
proof -
  have cut: "after = x @ y @ z \<longleftrightarrow>
      take n after = x \<and> take (length y) (drop n after) = y \<and> drop (n + length y) after = z"
    if "length x = n" for x y z n
  proof
    assume "take n after = x \<and> take (length y) (drop n after) = y \<and> drop (n + length y) after = z"
    moreover have "after = take n after @ take (length y) (drop n after) @ drop (length y) (drop n after)"
      by (metis append_take_drop_id)
    ultimately show "after = x @ y @ z" by (simp add: add.commute)
  qed (use that in auto)
  show ?thesis
  proof (cases "char_boundary before (ms_start span)")
    case True
    then have len: "length (take (ms_start span) before) = ms_start span"
      by (auto dest: char_boundary_le)
    show ?thesis
      by (auto simp: replaces_only_span_def u64_checked_add_def get_to_eq get_from_eq str_get_def
          cut [OF len])
  qed (simp add: replaces_only_span_def get_to_eq)
qed

text \<open>The check of the verifier is the edit of the applier: on well-formed texts, the test that only
  the owned span changed accepts exactly the document that replacing the span produces, and nothing
  when replacing refuses the span.\<close>

theorem replaced_span_is_the_only_change:
  assumes "from_utf8 (st_document t) = Inr (st_document t)" and "from_utf8 block = Inr block"
    and "ms_start span + length block \<le> u64_max"
  shows "replaces_only_span (st_document t) after span block \<longleftrightarrow> replace_span t span block = Inr after"
proof -
  let ?s = "ms_start span" and ?d = "st_document t"
  have "char_boundary (take ?s ?d @ block @ drop (ms_end span) ?d) ?s \<and>
      char_boundary (take ?s ?d @ block @ drop (ms_end span) ?d) (?s + length block)"
    if "?s \<le> ms_end span" "char_boundary ?d ?s" "char_boundary ?d (ms_end span)"
  proof
    have len: "?s = length (take ?s ?d)" using that(2) by (auto dest: char_boundary_le)
    have tail: "drop (ms_end span) ?d = [] \<or> \<not> continuation (hd (drop (ms_end span) ?d))"
      using boundary_drop [OF that(3)] from_utf8_head [OF assms(1)] by (cases "?d = []") auto
    have block: "block = [] \<or> \<not> continuation (hd block)"
      using from_utf8_head [OF assms(2)] by auto
    show "char_boundary (take ?s ?d @ block @ drop (ms_end span) ?d) ?s"
      by (rule boundary_append_eq [OF _ len]) (use block tail in \<open>cases block; simp\<close>)
    show "char_boundary (take ?s ?d @ block @ drop (ms_end span) ?d) (?s + length block)"
      using boundary_append_eq [of "drop (ms_end span) ?d" "?s + length block" "take ?s ?d @ block"]
        tail len by simp
  qed
  then show ?thesis using assms(3)
    unfolding replaces_only_span_ok replace_span_ok by auto
qed

theorem replaced_span_is_the_only_change_witness:
  "replaces_only_span ''ab'' ''axb'' \<lparr>ms_start = 1, ms_end = 1\<rparr> ''x''"
proof -
  have "from_utf8 ''ab'' = Inr ''ab''" and "from_utf8 ''x'' = Inr ''x''" by code_simp+
  then show ?thesis
    using replaced_span_is_the_only_change [of "\<lparr>st_document = ''ab'', st_bom = False\<rparr>" "''x''"
        "\<lparr>ms_start = 1, ms_end = 1\<rparr>" "''axb''"]
    by (simp add: u64_max_def replace_span_ok char_boundary_def continuation_def)
qed

text \<open>A template with a carriage return before a line end keeps a line end of the other kind.\<close>

lemma rendered_block_mixes_line_ends:
  "newline_of (render_block [CHR ''a'', CHR 0x0D, CHR 0x0D, CHR 0x0A, CHR ''b''] Lf) = Crlf"
  by code_simp

end
