(* ===== verification/StrUtf8.thy ===== *)
theory StrUtf8
  imports StrText
begin

text \<open>
  Well-formed UTF-8: a text is well formed when \<open>str::from_utf8\<close> accepts its bytes, joining two such
  texts gives one, and cutting one at a character boundary gives two.  \<open>String::from_utf8_lossy\<close>
  replaces what is malformed.
\<close>

definition utf8 :: "string \<Rightarrow> bool" where
  "utf8 s \<longleftrightarrow> from_utf8 s = Inr s"

text \<open>\<open>String::from_utf8_lossy\<close>: every malformed sequence becomes one replacement character.\<close>

definition REPLACEMENT :: string where "REPLACEMENT = [CHR 0xEF, CHR 0xBF, CHR 0xBD]"

lemma utf8_head_error: "utf8_head s = Inl (Some n) \<Longrightarrow> 0 < n"
  by (auto simp: utf8_head_def Let_def split: if_splits)

function from_utf8_lossy :: "string \<Rightarrow> string" where
  "from_utf8_lossy s =
     (if s = [] then []
      else (case utf8_head (map of_char s) of
          Inr w \<Rightarrow> take w s @ from_utf8_lossy (drop w s)
        | Inl (Some n) \<Rightarrow> REPLACEMENT @ from_utf8_lossy (drop n s)
        | Inl None \<Rightarrow> REPLACEMENT))"
  by pat_completeness auto
termination
  by (relation "measure length") (auto dest: utf8_head_width utf8_head_error)

declare from_utf8_lossy.simps [simp del]

section \<open>Lemmas\<close>

lemma utf8_check_offset: "utf8_check a s = None \<longleftrightarrow> utf8_check b s = None"
proof (induction a s arbitrary: b rule: utf8_check.induct)
  case (1 a s)
  note step = utf8_check.simps [of a s] utf8_check.simps [of b s]
  show ?case
  proof (cases "s = []")
    case False
    show ?thesis
    proof (cases "utf8_head s")
      case (Inr w)
      from 1 [OF False Inr, of "b + w"] show ?thesis unfolding step by (simp add: Inr False)
    qed (simp add: step False)
  qed (use step in simp)
qed

lemma utf8_Nil [simp]: "utf8 []"
  by (simp add: utf8_def from_utf8_def utf8_check.simps)

lemma utf8_step:
  assumes "s \<noteq> []"
  shows "utf8 s \<longleftrightarrow> (\<exists>w. utf8_head (map of_char s) = Inr w \<and> utf8 (drop w s))"
proof -
  have "utf8_check 0 (map of_char s :: nat list) = None \<longleftrightarrow>
      (\<exists>w. utf8_head (map of_char s) = Inr w \<and> utf8_check 0 (drop w (map of_char s)) = None)"
    using assms utf8_check_offset by (subst utf8_check.simps) (auto split: sum.splits)
  then show ?thesis by (auto simp: utf8_def from_utf8_def drop_map split: option.splits)
qed

lemma from_utf8_iff: "from_utf8 s = Inr t \<longleftrightarrow> t = s \<and> utf8 s"
  by (auto simp: utf8_def from_utf8_def split: option.splits)

text \<open>The head of a text, when well formed, is its first character and does not look further.\<close>

lemma utf8_second_cont: "utf8_second_ok a b \<Longrightarrow> is_cont b"
  by (auto simp: is_cont_def split: if_splits)

lemma utf8_head_Inr:
  assumes "s \<noteq> []"
  shows "utf8_head s = Inr w \<longleftrightarrow> w = utf8_width (hd s) \<and> 0 < w \<and> w \<le> length s \<and>
    (2 \<le> w \<longrightarrow> utf8_second_ok (hd s) (s ! 1)) \<and> (3 \<le> w \<longrightarrow> is_cont (s ! 2)) \<and>
    (4 \<le> w \<longrightarrow> is_cont (s ! 3))"
proof -
  have "utf8_width (hd s) \<in> {0, 1, 2, 3, 4}" by (simp add: utf8_width_def)
  moreover have "1 \<le> length s" using assms by (cases s) simp_all
  ultimately show ?thesis
    unfolding utf8_head_def Let_def
    by (elim insertE; simp del: utf8_second_ok.simps)
      (force simp del: utf8_second_ok.simps simp: not_less)+
qed

lemma utf8_head_le: "s \<noteq> [] \<Longrightarrow> utf8_head s = Inr w \<Longrightarrow> w \<le> length s"
  by (simp add: utf8_head_Inr)

lemma utf8_head_append: "s \<noteq> [] \<Longrightarrow> utf8_head s = Inr w \<Longrightarrow> utf8_head (s @ t) = Inr w"
  by (simp add: utf8_head_Inr nth_append del: utf8_second_ok.simps)

lemma utf8_head_prefix:
  "s \<noteq> [] \<Longrightarrow> utf8_head (s @ t) = Inr w \<Longrightarrow> w \<le> length s \<Longrightarrow> utf8_head s = Inr w"
  by (auto simp: utf8_head_Inr nth_append simp del: utf8_second_ok.simps)

lemma utf8_head_inside:
  assumes "utf8_head s = Inr w" and "s \<noteq> []" and "0 < i" "i < w"
  shows "128 \<le> s ! i \<and> s ! i < 192"
proof -
  have "w \<le> 4" using assms(1) by (simp add: utf8_head_Inr [OF assms(2)] utf8_width_def)
  then have "i = 1 \<or> i = 2 \<or> i = 3" using assms by auto
  then have "is_cont (s ! i)"
    using assms(1,4) utf8_second_cont
    by (auto simp: utf8_head_Inr [OF assms(2)] simp del: utf8_second_ok.simps)
  then show ?thesis by (simp add: is_cont_def)
qed

lemma utf8_append: "utf8 s \<Longrightarrow> utf8 t \<Longrightarrow> utf8 (s @ t)"
proof (induction "length s" arbitrary: s rule: less_induct)
  case less
  show ?case
  proof (cases "s = []")
    case False
    then obtain w where w: "utf8_head (map of_char s) = Inr w" "utf8 (drop w s)"
      using less.prems utf8_step by blast
    have "w \<le> length s" "0 < w" using utf8_head_le [OF _ w(1)] utf8_head_width [OF w(1)] False by auto
    with less.hyps [of "drop w s"] less.prems(2) w False have "utf8 (drop w s @ t)" by simp
    moreover have "utf8_head (map of_char (s @ t)) = Inr w"
      using utf8_head_append [OF _ w(1)] False by simp
    ultimately show ?thesis using \<open>w \<le> length s\<close> False by (subst utf8_step) auto
  qed (use less in simp)
qed

lemma utf8_split:
  "utf8 (s @ t) \<Longrightarrow> t = [] \<or> \<not> continuation (hd t) \<Longrightarrow> utf8 s \<and> utf8 t"
proof (induction "length s" arbitrary: s rule: less_induct)
  case less
  show ?case
  proof (cases "s = []")
    case False
    then obtain w where w: "utf8_head (map of_char (s @ t)) = Inr w" "utf8 (drop w (s @ t))"
      using less.prems(1) utf8_step by blast
    have pos: "0 < w" using utf8_head_width [OF w(1)] by simp
    have "w \<le> length s"
    proof (rule ccontr)
      assume long: "\<not> w \<le> length s"
      then have "t \<noteq> []" using utf8_head_le [OF _ w(1)] False by auto
      moreover have "128 \<le> (map of_char (s @ t) :: nat list) ! length s \<and>
          (map of_char (s @ t) :: nat list) ! length s < 192"
        using utf8_head_inside [OF w(1), of "length s"] long False by simp
      ultimately show False using less.prems(2)
        by (auto simp: continuation_def nth_append hd_conv_nth)
    qed
    moreover from this have "utf8 (drop w s) \<and> utf8 t"
      using less.hyps [of "drop w s"] w(2) pos False less.prems(2) by simp
    moreover have "utf8_head (map of_char s) = Inr w"
      using utf8_head_prefix [of "map of_char s" "map of_char t" w] w(1) False \<open>w \<le> length s\<close> by simp
    ultimately show ?thesis using False utf8_step by blast
  qed (use less in simp)
qed

lemma utf8_take_drop:
  assumes "utf8 s" and "char_boundary s n"
  shows "utf8 (take n s)" "utf8 (drop n s)"
proof -
  have "utf8 (take n s) \<and> utf8 (drop n s)"
  proof (cases "n = 0")
    case False
    have "drop n s = [] \<or> \<not> continuation (hd (drop n s))"
      using assms(2) False by (auto simp: char_boundary_def hd_drop_conv_nth)
    then show ?thesis using utf8_split [of "take n s" "drop n s"] assms(1) by simp
  qed (use assms in simp)
  then show "utf8 (take n s)" "utf8 (drop n s)" by auto
qed

text \<open>An ASCII character stands alone.\<close>

lemma utf8_ascii_Cons: "(of_char c :: nat) < 128 \<Longrightarrow> utf8 (c # s) \<longleftrightarrow> utf8 s"
  by (subst utf8_step) (auto simp: utf8_head_def utf8_width_def)

lemma utf8_ascii: "\<forall>c\<in>set s. (of_char c :: nat) < 128 \<Longrightarrow> utf8 s"
  by (induction s) (auto simp: utf8_ascii_Cons)

lemma utf8_around_ascii:
  assumes "(of_char c :: nat) < 128"
  shows "utf8 (s @ c # t) \<longleftrightarrow> utf8 s \<and> utf8 t"
  using utf8_split [of s "c # t"] utf8_append [of s "c # t"] assms
  by (auto simp: utf8_ascii_Cons continuation_def)

lemma from_utf8_lossy_id: "utf8 s \<Longrightarrow> from_utf8_lossy s = s"
proof (induction "length s" arbitrary: s rule: less_induct)
  case less
  show ?case
  proof (cases "s = []")
    case False
    then obtain w where w: "utf8_head (map of_char s) = Inr w" "utf8 (drop w s)"
      using less.prems utf8_step by blast
    with less.hyps [of "drop w s"] False utf8_head_width [OF w(1)] show ?thesis
      by (subst from_utf8_lossy.simps) auto
  qed (simp add: from_utf8_lossy.simps)
qed

text \<open>The repaired text is always well formed.\<close>

lemma utf8_head_take: "s \<noteq> [] \<Longrightarrow> utf8_head s = Inr w \<Longrightarrow> utf8_head (take w s) = Inr w"
  using utf8_head_prefix [of "take w s" "drop w s" w] utf8_head_le [of s w] utf8_head_width [of s w]
  by simp

lemma utf8_from_utf8_lossy: "utf8 (from_utf8_lossy s)"
proof (induction s rule: from_utf8_lossy.induct)
  case (1 s)
  have replacement: "utf8 REPLACEMENT" by code_simp
  show ?case
  proof (cases "s = []")
    case False
    show ?thesis
    proof (cases "utf8_head (map of_char s)")
      case (Inr w)
      have "w \<le> length s" "0 < w" using utf8_head_le [OF _ Inr] utf8_head_width [OF Inr] False by auto
      moreover have "utf8_head (map of_char (take w s)) = Inr w"
        using utf8_head_take [OF _ Inr] False by (simp add: take_map)
      ultimately have "utf8 (take w s)" using False by (subst utf8_step) auto
      with 1(2) [OF False Inr] Inr False show ?thesis
        by (subst from_utf8_lossy.simps) (simp add: utf8_append)
    next
      case (Inl bad)
      with 1(1) False replacement show ?thesis
        by (subst from_utf8_lossy.simps) (auto simp: utf8_append split: option.splits)
    qed
  qed (simp add: from_utf8_lossy.simps)
qed

end
