(* ===== verification/BootOwnership.thy ===== *)
theory BootOwnership
  imports BootText StrUtf8
begin

text \<open>
  What bootstrap owns in a repository, \<^verbatim>\<open>axiom/src/bootstrap/ownership.rs\<close> and
  \<^verbatim>\<open>axiom/src/bootstrap/policy.rs\<close>: the manifest that records digests of the managed block and of the
  policy file, the drift it detects and the verdict on an existing policy file.  SHA-256 is the
  argument \<open>sha256\<close>, from bytes to bytes; \<open>str::to_lowercase\<close> is the argument \<open>lower\<close>; the JSON
  library is the record \<open>json_lib\<close> of its three calls.
\<close>

definition sha256_hex :: "(string \<Rightarrow> string) \<Rightarrow> string \<Rightarrow> string" where
  "sha256_hex sha256 bytes = concat (map (\<lambda>byte. hex_digits 2 (of_char byte)) (sha256 bytes))"

section \<open>The managed policy\<close>

definition POLICY_PATH :: string where "POLICY_PATH = ''.axiom/agent/POLICY.md''"
definition POLICY_LOCAL_PATH :: string where "POLICY_LOCAL_PATH = ''.axiom/agent/POLICY.local.md''"
definition POLICY_POINTER :: string where "POLICY_POINTER = POLICY_PATH"
definition VERSION_PREFIX :: string where "VERSION_PREFIX = ''Managed policy version:''"
definition RULE_BLOCK_POINTER :: string where "RULE_BLOCK_POINTER = ''policy-pointer-missing''"
definition RULE_UNOWNED :: string where "RULE_UNOWNED = ''policy-unowned''"
definition RULE_EDITED :: string where "RULE_EDITED = ''policy-edited''"
definition RULE_REMOVED :: string where "RULE_REMOVED = ''policy-missing''"

datatype policy_verdict = VerdictCreate | VerdictUnchanged | VerdictEdited | VerdictUnowned | VerdictRemoved

fun policy_verdict_str :: "policy_verdict \<Rightarrow> string" where
  "policy_verdict_str VerdictCreate = ''policy-create''"
| "policy_verdict_str VerdictUnchanged = ''policy-unchanged''"
| "policy_verdict_str VerdictEdited = RULE_EDITED"
| "policy_verdict_str VerdictUnowned = RULE_UNOWNED"
| "policy_verdict_str VerdictRemoved = RULE_REMOVED"

definition policy_is_conflict :: "policy_verdict \<Rightarrow> bool" where
  "policy_is_conflict v \<longleftrightarrow> v \<in> {VerdictEdited, VerdictUnowned, VerdictRemoved}"

fun policy_message :: "policy_verdict \<Rightarrow> string" where
  "policy_message VerdictCreate = ''the managed policy file is created''"
| "policy_message VerdictUnchanged = ''the managed policy file already matches''"
| "policy_message VerdictEdited = ''the managed policy file was edited; refusing to overwrite it''"
| "policy_message VerdictUnowned =
     ''an existing policy file is unowned; refusing to adopt or overwrite it''"
| "policy_message VerdictRemoved =
     ''the managed policy file is missing although ownership records it; refusing to recreate it''"

definition policy_refusal :: "policy_verdict \<Rightarrow> axiom_error option" where
  "policy_refusal v =
     (if \<not> policy_is_conflict v then None
      else Some (with_detail (with_detail (refuse (policy_verdict_str v) (policy_message v))
             ''field'' ''policy'') ''observed'' (policy_verdict_str v)))"

datatype policy_action = ActionWrite | ActionLeave

fun verdict :: "string option \<Rightarrow> string option \<Rightarrow> policy_verdict" where
  "verdict (Some _) None = VerdictUnowned"
| "verdict None None = VerdictCreate"
| "verdict None (Some _) = VerdictRemoved"
| "verdict (Some observed) (Some owned) =
     (if observed = owned then VerdictUnchanged else VerdictEdited)"

definition plan_policy :: "string option \<Rightarrow> string option \<Rightarrow> policy_action result" where
  "plan_policy observed_sha256 owned_sha256 =
     (let v = verdict observed_sha256 owned_sha256
      in case policy_refusal v of
           Some refusal \<Rightarrow> Inl refusal
         | None \<Rightarrow> Inr (if v = VerdictCreate then ActionWrite else ActionLeave))"

text \<open>\<open>split\<close> by a test on characters; a byte of a longer character is not alphanumeric.\<close>

fun split_where :: "(char \<Rightarrow> bool) \<Rightarrow> string \<Rightarrow> string list" where
  "split_where p [] = [[]]"
| "split_where p (c # cs) =
     (if p c then [] # split_where p cs
      else (case split_where p cs of [] \<Rightarrow> [[c]] | w # ws \<Rightarrow> (c # w) # ws))"

definition contains_word :: "string \<Rightarrow> string \<Rightarrow> bool" where
  "contains_word haystack w \<longleftrightarrow> w \<in> set (split_where (\<lambda>c. \<not> is_ascii_alphanumeric c) haystack)"

definition block_points_at_policy :: "(string \<Rightarrow> string) \<Rightarrow> string \<Rightarrow> bool" where
  "block_points_at_policy lower block \<longleftrightarrow>
     (let lowered = lower block
      in str_contains lowered (lower POLICY_POINTER) \<and> contains_word lowered ''read'')"

definition ensure_block_points_at_policy :: "(string \<Rightarrow> string) \<Rightarrow> string \<Rightarrow> unit result" where
  "ensure_block_points_at_policy lower block =
     (if block_points_at_policy lower block then Inr ()
      else Inl (with_detail (with_detail (with_detail
        (axiom_error_new Conflict (''the managed block must instruct reading '' @ POLICY_POINTER))
        ''rule'' RULE_BLOCK_POINTER) ''field'' ''block'') ''observed'' ''missing-policy-pointer''))"

definition strip_prefix_of :: "string \<Rightarrow> string \<Rightarrow> string option" where
  "strip_prefix_of p s = (if starts_with s p then Some (drop (length p) s) else None)"

definition declared_line :: "string \<Rightarrow> string option" where
  "declared_line line =
     (case strip_prefix_of VERSION_PREFIX (str_trim line) of
        None \<Rightarrow> None
      | Some rest \<Rightarrow> (if str_trim rest = [] then None else Some (str_trim rest)))"

fun declared_loop :: "string list \<Rightarrow> string option" where
  "declared_loop [] = None"
| "declared_loop (line # lines) =
     (case declared_line line of Some v \<Rightarrow> Some v | None \<Rightarrow> declared_loop lines)"

definition declared_version :: "string \<Rightarrow> string option" where
  "declared_version policy = declared_loop (str_lines policy)"

section \<open>The ownership manifest\<close>

definition OWNERSHIP_PATH :: string where "OWNERSHIP_PATH = ''.axiom/agent/bootstrap.lock.json''"
definition OWNERSHIP_SCHEMA_VERSION :: u32 where "OWNERSHIP_SCHEMA_VERSION = 2"
definition RULE_MALFORMED :: string where "RULE_MALFORMED = ''ownership-malformed''"
definition RULE_SCHEMA :: string where "RULE_SCHEMA = ''ownership-schema''"
definition RULE_DIGEST :: string where "RULE_DIGEST = ''ownership-digest''"
definition RULE_BLOCK_EDITED :: string where "RULE_BLOCK_EDITED = ''ownership-block-edited''"
definition RULE_BLOCK_REMOVED :: string where "RULE_BLOCK_REMOVED = ''ownership-block-removed''"
definition RULE_POLICY_EDITED :: string where "RULE_POLICY_EDITED = ''ownership-policy-edited''"
definition RULE_POLICY_REMOVED :: string where "RULE_POLICY_REMOVED = ''ownership-policy-removed''"

record ownership =
  ow_managed_block_sha256 :: string
  ow_policy_sha256 :: string
  ow_schema_version :: u32
  ow_template_version :: string

text \<open>\<open>serde_json::to_value\<close>, \<open>to_string\<close> and \<open>from_str\<close>, failing with the error they display.\<close>

record ('a, 'v) json_lib =
  to_value :: "'a \<Rightarrow> string + 'v"
  to_text :: "'v \<Rightarrow> string + string"
  from_text :: "string \<Rightarrow> string + 'a"

definition canonical_value :: "('a, 'v) json_lib \<Rightarrow> 'v \<Rightarrow> string + string" where
  "canonical_value json value =
     (case to_text json value of
        Inl error \<Rightarrow> Inl (''value cannot be encoded: '' @ error)
      | Inr encoded \<Rightarrow> Inr encoded)"

definition ownership_new :: "(string \<Rightarrow> string) \<Rightarrow> string \<Rightarrow> string \<Rightarrow> string \<Rightarrow> ownership" where
  "ownership_new sha256 template_version managed_block policy =
     \<lparr>ow_managed_block_sha256 = sha256_hex sha256 managed_block,
      ow_policy_sha256 = sha256_hex sha256 policy,
      ow_schema_version = OWNERSHIP_SCHEMA_VERSION,
      ow_template_version = template_version\<rparr>"

definition written_by :: "ownership \<Rightarrow> string \<Rightarrow> bool" where
  "written_by ow template_version \<longleftrightarrow> ow_template_version ow = template_version"

definition ownership_encode :: "(ownership, 'v) json_lib \<Rightarrow> ownership \<Rightarrow> string result" where
  "ownership_encode json ow =
     (case to_value json ow of
        Inl error \<Rightarrow> Inl (refuse RULE_MALFORMED (''ownership manifest cannot be encoded: '' @ error))
      | Inr value \<Rightarrow>
          (case canonical_value json value of
             Inl message \<Rightarrow> Inl (refuse RULE_MALFORMED message)
           | Inr bytes \<Rightarrow> Inr (bytes @ [CHR 0x0A])))"

definition is_sha256_hex :: "string \<Rightarrow> bool" where
  "is_sha256_hex digest \<longleftrightarrow> length digest = 64 \<and>
     list_all (\<lambda>byte. is_ascii_digit byte \<or> CHR ''a'' \<le> byte \<and> byte \<le> CHR ''f'') digest"

fun first_invalid_digest :: "(string \<times> string) list \<Rightarrow> axiom_error option" where
  "first_invalid_digest [] = None"
| "first_invalid_digest ((field, digest) # rest) =
     (if \<not> is_sha256_hex digest
      then Some (with_detail (with_detail (refuse RULE_DIGEST
             (''ownership manifest records an invalid '' @ field @ '' digest''))
             ''field'' field) ''observed'' digest)
      else first_invalid_digest rest)"

definition ownership_parse :: "(ownership, 'v) json_lib \<Rightarrow> string \<Rightarrow> ownership result" where
  "ownership_parse json bytes =
     (case from_utf8 bytes of
        Inl error \<Rightarrow> Inl (refuse RULE_MALFORMED
          (''ownership manifest is not UTF-8: '' @ utf8_error_display error))
      | Inr decoded \<Rightarrow>
          (case from_text json decoded of
             Inl error \<Rightarrow> Inl (refuse RULE_MALFORMED (''ownership manifest is malformed: '' @ error))
           | Inr parsed \<Rightarrow>
               if ow_schema_version parsed \<noteq> OWNERSHIP_SCHEMA_VERSION then
                 Inl (with_detail (with_detail (refuse RULE_SCHEMA
                   (''unsupported ownership schema '' @ show_nat (ow_schema_version parsed)))
                   ''field'' ''schema_version'') ''observed'' (show_nat (ow_schema_version parsed)))
               else
                 (case first_invalid_digest
                     [(''managed_block_sha256'', ow_managed_block_sha256 parsed),
                      (''policy_sha256'', ow_policy_sha256 parsed)] of
                    Some refusal \<Rightarrow> Inl refusal
                  | None \<Rightarrow>
                      if str_trim (ow_template_version parsed) = [] then
                        Inl (with_detail (refuse RULE_SCHEMA
                          ''ownership manifest records an empty template_version'')
                          ''field'' ''template_version'')
                      else Inr parsed)))"

datatype drift = DriftNone | BlockEdited | BlockRemoved | PolicyEdited | PolicyRemoved

fun drift_str :: "drift \<Rightarrow> string" where
  "drift_str DriftNone = ''ownership-current''"
| "drift_str BlockEdited = RULE_BLOCK_EDITED"
| "drift_str BlockRemoved = RULE_BLOCK_REMOVED"
| "drift_str PolicyEdited = RULE_POLICY_EDITED"
| "drift_str PolicyRemoved = RULE_POLICY_REMOVED"

definition drift_is_conflict :: "drift \<Rightarrow> bool" where
  "drift_is_conflict d \<longleftrightarrow> d \<noteq> DriftNone"

fun drift_message :: "drift \<Rightarrow> string" where
  "drift_message DriftNone = ''the owned content still matches the ownership manifest''"
| "drift_message BlockEdited = ''the managed AGENTS block was edited; refusing to overwrite it''"
| "drift_message BlockRemoved =
     ''the managed AGENTS block was removed or edited; refusing to recreate it''"
| "drift_message PolicyEdited = ''the managed policy file was edited; refusing to overwrite it''"
| "drift_message PolicyRemoved =
     ''the managed policy file was removed or edited; refusing to recreate it''"

definition drift_refusal :: "drift \<Rightarrow> axiom_error option" where
  "drift_refusal d =
     (if \<not> drift_is_conflict d then None
      else Some (with_detail (with_detail (refuse (drift_str d) (drift_message d))
             ''field'' ''owned-content'') ''observed'' (drift_str d)))"

definition detect_drift ::
  "(string \<Rightarrow> string) \<Rightarrow> ownership \<Rightarrow> string option \<Rightarrow> string option \<Rightarrow> drift" where
  "detect_drift sha256 ow managed_block policy =
     (case managed_block of
        None \<Rightarrow> BlockRemoved
      | Some block \<Rightarrow>
          if sha256_hex sha256 block \<noteq> ow_managed_block_sha256 ow then BlockEdited
          else (case policy of
              None \<Rightarrow> PolicyRemoved
            | Some bytes \<Rightarrow>
                if sha256_hex sha256 bytes \<noteq> ow_policy_sha256 ow then PolicyEdited else DriftNone))"

definition is_current ::
  "(string \<Rightarrow> string) \<Rightarrow> ownership \<Rightarrow> string option \<Rightarrow> string option \<Rightarrow> bool" where
  "is_current sha256 ow managed_block policy \<longleftrightarrow>
     detect_drift sha256 ow managed_block policy = DriftNone"

definition ensure_no_drift ::
  "(string \<Rightarrow> string) \<Rightarrow> ownership \<Rightarrow> string option \<Rightarrow> string option \<Rightarrow> unit result" where
  "ensure_no_drift sha256 ow managed_block policy =
     (case drift_refusal (detect_drift sha256 ow managed_block policy) of
        Some refusal \<Rightarrow> Inl refusal
      | None \<Rightarrow> Inr ())"

section \<open>Lemmas\<close>

text \<open>The JSON library reads back what it wrote, and writes text.\<close>

definition json_reads_back :: "(ownership, 'v) json_lib \<Rightarrow> bool" where
  "json_reads_back json \<longleftrightarrow>
     (\<forall>ow bytes. ownership_encode json ow = Inr bytes \<longrightarrow> utf8 bytes \<and> from_text json bytes = Inr ow)"

lemma hex_digit_range:
  "d < 16 \<Longrightarrow> is_ascii_digit (digit_char d) \<or> CHR ''a'' \<le> digit_char d \<and> digit_char d \<le> CHR ''f''"
proof -
  have "\<forall>d\<in>{..<16}. is_ascii_digit (digit_char d) \<or> CHR ''a'' \<le> digit_char d \<and> digit_char d \<le> CHR ''f''"
    by code_simp
  then show "d < 16 \<Longrightarrow> ?thesis" by auto
qed

lemma is_sha256_hex_digest:
  assumes "\<And>bytes. length (sha256 bytes) = 32"
  shows "is_sha256_hex (sha256_hex sha256 bytes)"
proof -
  have "length (concat (map (\<lambda>byte. hex_digits 2 (of_char byte)) xs)) = 2 * length xs" for xs :: string
    by (induction xs) (simp_all del: hex_digits.simps)
  then show ?thesis using assms hex_digit_range
    by (auto simp: is_sha256_hex_def sha256_hex_def list_all_iff numeral_2_eq_2)
qed

lemma policy_refusal_None [simp]: "policy_refusal v = None \<longleftrightarrow> v \<in> {VerdictCreate, VerdictUnchanged}"
  by (cases v) (auto simp: policy_refusal_def policy_is_conflict_def)

lemma drift_refusal_None [simp]: "drift_refusal d = None \<longleftrightarrow> d = DriftNone"
  by (auto simp: drift_refusal_def drift_is_conflict_def)

lemma detect_drift_None:
  "detect_drift sha256 ow block policy = DriftNone \<longleftrightarrow>
     (\<exists>b p. block = Some b \<and> policy = Some p \<and>
        sha256_hex sha256 b = ow_managed_block_sha256 ow \<and> sha256_hex sha256 p = ow_policy_sha256 ow)"
  by (auto simp: detect_drift_def split: option.splits)

lemma ensure_no_drift_ok:
  "ensure_no_drift sha256 ow block policy = Inr () \<longleftrightarrow> detect_drift sha256 ow block policy = DriftNone"
  by (simp add: ensure_no_drift_def drift_refusal_None [symmetric] split: option.split
      del: drift_refusal_None)

section \<open>A JSON library for plain texts\<close>

text \<open>
  The canonical bytes of a manifest whose texts need no escape, and the reading of such bytes: cut at
  the quotes, the texts stand between them.
\<close>

definition plain_text :: "string \<Rightarrow> bool" where
  "plain_text s \<longleftrightarrow> list_all (\<lambda>c. (of_char c :: nat) < 128 \<and> c \<noteq> CHR 0x22 \<and> c \<noteq> CHR 0x5C \<and> 32 \<le> (of_char c :: nat)) s"

definition plain_parts :: "ownership \<Rightarrow> string list" where
  "plain_parts ow =
     [''{'', ''managed_block_sha256'', '':'', ow_managed_block_sha256 ow, '','',
      ''policy_sha256'', '':'', ow_policy_sha256 ow, '','', ''schema_version'', '':2,'',
      ''template_version'', '':'', ow_template_version ow, ''}'']"

definition plain_json :: "(ownership, ownership) json_lib" where
  "plain_json =
     \<lparr>to_value = Inr,
      to_text = (\<lambda>ow. if ow_schema_version ow = 2 \<and> list_all plain_text (plain_parts ow)
        then Inr (join_with CHR 0x22 (plain_parts ow)) else Inl ''unsupported''),
      from_text = (\<lambda>json.
        let parts = split_on CHR 0x22 (butlast json)
        in if length parts = 15
           then Inr \<lparr>ow_managed_block_sha256 = parts ! 3, ow_policy_sha256 = parts ! 7,
                     ow_schema_version = 2, ow_template_version = parts ! 13\<rparr>
           else Inl ''unsupported'')\<rparr>"

lemma plain_text_utf8: "plain_text s \<Longrightarrow> utf8 s"
  by (rule utf8_ascii) (auto simp: plain_text_def list_all_iff)

lemma plain_text_no_quote: "plain_text s \<Longrightarrow> CHR 0x22 \<notin> set s"
  by (auto simp: plain_text_def list_all_iff)

lemma join_quotes_utf8: "list_all plain_text ss \<Longrightarrow> utf8 (join_with CHR 0x22 ss)"
proof (induction "CHR 0x22" ss rule: join_with.induct)
  case (3 s t ss)
  then show ?case by (simp add: plain_text_utf8 utf8_around_ascii)
qed (simp_all add: plain_text_utf8)

lemma plain_json_reads_back: "json_reads_back plain_json"
  unfolding json_reads_back_def
proof (intro allI impI)
  fix ow bytes
  assume "ownership_encode plain_json ow = Inr bytes"
  then have two: "ow_schema_version ow = 2" and plain: "list_all plain_text (plain_parts ow)"
    and bytes: "bytes = join_with CHR 0x22 (plain_parts ow) @ [CHR 0x0A]"
    by (auto simp: ownership_encode_def canonical_value_def plain_json_def split: if_splits)
  have "utf8 bytes" unfolding bytes by (rule utf8_append [OF join_quotes_utf8 [OF plain]]) code_simp
  moreover have "split_on CHR 0x22 (butlast bytes) = plain_parts ow"
    unfolding bytes butlast_snoc
    by (rule split_join) (use plain plain_text_no_quote in \<open>auto simp: plain_parts_def\<close>)
  then have "from_text plain_json bytes = Inr ow"
    using two by (simp add: plain_json_def plain_parts_def)
  ultimately show "utf8 bytes \<and> from_text plain_json bytes = Inr ow" by blast
qed

text \<open>C31: A manifest written for a managed block, a policy and a version that is not blank is read back as it was
  recorded and finds exactly the content whose digests it holds: any other block or policy, or a missing one, is drift
  and refuses the repository.\<close>

theorem manifest_reads_back_and_detects_drift:
  assumes "json_reads_back json" and "\<And>bytes. length (sha256 bytes) = 32"
    and "str_trim version \<noteq> []"
    and "ownership_encode json (ownership_new sha256 version block policy) = Inr bytes"
  shows "\<exists>ow. ownership_parse json bytes = Inr ow \<and> written_by ow version \<and>
    (ensure_no_drift sha256 ow block' policy' = Inr () \<longleftrightarrow>
       (\<exists>b p. block' = Some b \<and> policy' = Some p \<and>
          sha256_hex sha256 b = sha256_hex sha256 block \<and> sha256_hex sha256 p = sha256_hex sha256 policy))"
proof (intro exI conjI)
  let ?ow = "ownership_new sha256 version block policy"
  have "utf8 bytes" "from_text json bytes = Inr ?ow"
    using assms(1,4) by (auto simp: json_reads_back_def)
  with is_sha256_hex_digest [of sha256, OF assms(2)] assms(3) show "ownership_parse json bytes = Inr ?ow"
    by (simp add: ownership_parse_def ownership_new_def utf8_def)
  show "written_by ?ow version" by (simp add: written_by_def ownership_new_def)
  show "ensure_no_drift sha256 ?ow block' policy' = Inr () \<longleftrightarrow>
       (\<exists>b p. block' = Some b \<and> policy' = Some p \<and>
          sha256_hex sha256 b = sha256_hex sha256 block \<and> sha256_hex sha256 p = sha256_hex sha256 policy)"
    by (auto simp: ensure_no_drift_ok ownership_new_def detect_drift_None)
qed

theorem manifest_reads_back_and_detects_drift_witness:
  "\<exists>bytes ow. ownership_encode plain_json (ownership_new (\<lambda>bytes. replicate 32 CHR ''a'') ''2'' ''b'' ''p'') = Inr bytes \<and>
     ownership_parse plain_json bytes = Inr ow \<and> written_by ow ''2'' \<and>
     ensure_no_drift (\<lambda>bytes. replicate 32 CHR ''a'') ow (Some ''b'') (Some ''p'') = Inr () \<and>
     ensure_no_drift (\<lambda>bytes. replicate 32 CHR ''a'') ow (Some ''b'') None \<noteq> Inr ()"
proof -
  let ?sha = "\<lambda>bytes :: string. replicate 32 CHR ''a''"
  have "ownership_encode plain_json (ownership_new ?sha ''2'' ''b'' ''p'') \<noteq> Inl e" for e
    by code_simp
  then obtain bytes where bytes: "ownership_encode plain_json (ownership_new ?sha ''2'' ''b'' ''p'') = Inr bytes"
    by (cases "ownership_encode plain_json (ownership_new ?sha ''2'' ''b'' ''p'')") auto
  have "str_trim ''2'' \<noteq> []" by code_simp
  from manifest_reads_back_and_detects_drift
    [OF plain_json_reads_back _ this bytes, of "Some ''b''" "Some ''p''"] bytes
    manifest_reads_back_and_detects_drift
    [OF plain_json_reads_back _ this bytes, of "Some ''b''" None]
  show ?thesis by auto
qed

end
