(* ===== verification/BootDiff.thy ===== *)
theory BootDiff
  imports BootText
begin

text \<open>
  The review diff of a bootstrap plan, \<^verbatim>\<open>axiom/src/bootstrap/plan.rs\<close>: both texts are cut into lines
  and aligned along a longest common subsequence, or reported as a wholesale replacement when the
  alignment would be too large.
\<close>

definition MAX_DIFF_CELLS :: usize where "MAX_DIFF_CELLS = 250000"

definition lines_of :: "string \<Rightarrow> string list" where
  "lines_of text =
     (if text = [] then []
      else (let lines = split_on CHR 0x0A text in if last lines = [] then butlast lines else lines))"

text \<open>The recurrence that fills the table from its last row and column.\<close>

fun diff_length :: "string list \<Rightarrow> string list \<Rightarrow> nat" where
  "diff_length (x # xs) (y # ys) =
     (if x = y then diff_length xs ys + 1
      else max (diff_length xs (y # ys)) (diff_length (x # xs) ys))"
| "diff_length _ _ = 0"

fun diff_walk :: "string list \<Rightarrow> string list \<Rightarrow> (char \<times> string) list" where
  "diff_walk (x # xs) (y # ys) =
     (if x = y then (CHR '' '', x) # diff_walk xs ys
      else if diff_length xs (y # ys) \<ge> diff_length (x # xs) ys
      then (CHR ''-'', x) # diff_walk xs (y # ys)
      else (CHR ''+'', y) # diff_walk (x # xs) ys)"
| "diff_walk xs [] = map (Pair (CHR ''-'')) xs"
| "diff_walk [] ys = map (Pair (CHR ''+'')) ys"

text \<open>The cell count saturates at 64 bits.\<close>

definition diff_ops :: "string list \<Rightarrow> string list \<Rightarrow> (char \<times> string) list" where
  "diff_ops before after =
     (if min u64_max (length before * length after) > MAX_DIFF_CELLS
      then map (Pair (CHR ''-'')) before @ map (Pair (CHR ''+'')) after
      else diff_walk before after)"

fun diff_lines :: "(char \<times> string) list \<Rightarrow> string" where
  "diff_lines [] = []"
| "diff_lines ((sign, line) # ops) =
     sign # (if ends_with line [CHR 0x0D] then butlast line else line) @ CHR 0x0A # diff_lines ops"

definition unified_diff :: "string \<Rightarrow> string \<Rightarrow> string \<Rightarrow> string" where
  "unified_diff path before after =
     (let before_lines = lines_of before; after_lines = lines_of after
      in ''diff --git a/'' @ path @ '' b/'' @ path @ [CHR 0x0A] @ ''--- a/'' @ path @ [CHR 0x0A] @
         ''+++ b/'' @ path @ [CHR 0x0A] @
         ''@@ -1,'' @ show_nat (length before_lines) @ '' +1,'' @ show_nat (length after_lines) @
         '' @@'' @ [CHR 0x0A] @ diff_lines (diff_ops before_lines after_lines))"

section \<open>Lemmas\<close>

abbreviation kept :: "(char \<times> string) list \<Rightarrow> string list" where
  "kept ops \<equiv> map snd (filter (\<lambda>op. fst op = CHR '' '') ops)"

lemma diff_walk_before: "map snd (filter (\<lambda>op. fst op \<noteq> CHR ''+'') (diff_walk xs ys)) = xs"
  by (induction xs ys rule: diff_walk.induct) (auto simp: filter_map o_def)

lemma diff_walk_after: "map snd (filter (\<lambda>op. fst op \<noteq> CHR ''-'') (diff_walk xs ys)) = ys"
  by (induction xs ys rule: diff_walk.induct) (auto simp: filter_map o_def)

lemma diff_walk_kept: "length (kept (diff_walk xs ys)) = diff_length xs ys"
  by (induction xs ys rule: diff_walk.induct) (auto simp: filter_map o_def)

lemma common_bound: "subseq zs xs \<Longrightarrow> subseq zs ys \<Longrightarrow> length zs \<le> diff_length xs ys"
proof (induction xs ys arbitrary: zs rule: diff_length.induct)
  case (1 x xs y ys)
  show ?case
  proof (cases zs)
    case (Cons z zs')
    show ?thesis
    proof (cases "x = y")
      case True
      have "subseq zs' xs" and "subseq zs' ys"
        using "1.prems" Cons by (auto simp: subseq_Cons' split: if_splits elim: subseq_Cons')
      then show ?thesis using "1.IH"(1) [OF True] Cons True by simp
    next
      case False
      then have "subseq zs xs \<or> subseq zs ys"
        using "1.prems" Cons by (cases "z = x") auto
      then show ?thesis
        using "1.IH"(2,3) [OF False] "1.prems" False by (fastforce simp: le_max_iff_disj)
    qed
  qed simp
qed (auto simp: list_emb_Nil2)

lemma common_subseq:
  "subseq (kept ops) (map snd (filter (\<lambda>op. fst op \<noteq> CHR ''+'') ops))"
  "subseq (kept ops) (map snd (filter (\<lambda>op. fst op \<noteq> CHR ''-'') ops))"
  by (induction ops) auto

text \<open>C27: A diff can be read back and is minimal: leaving out its added lines gives the lines before,
  leaving out its removed lines gives the lines after, and unless the texts are too large to be
  aligned no common subsequence of the two is longer than what it keeps.\<close>

theorem diff_reads_back:
  "map snd (filter (\<lambda>op. fst op \<noteq> CHR ''+'') (diff_ops before after)) = before \<and>
   map snd (filter (\<lambda>op. fst op \<noteq> CHR ''-'') (diff_ops before after)) = after \<and>
   (if length before * length after \<le> MAX_DIFF_CELLS
    then {zs. subseq zs before \<and> subseq zs after \<and> length (kept (diff_ops before after)) < length zs} = {}
    else kept (diff_ops before after) = [])"
proof -
  have small: "min u64_max n > MAX_DIFF_CELLS \<longleftrightarrow> n > MAX_DIFF_CELLS" for n
    by (auto simp: MAX_DIFF_CELLS_def u64_max_def)
  show ?thesis
  proof (cases "length before * length after \<le> MAX_DIFF_CELLS")
    case True
    have "length zs \<le> length (kept (diff_walk before after))"
      if "subseq zs before" "subseq zs after" for zs
      using common_bound [OF that] diff_walk_kept [of before after] by simp
    with True diff_walk_before [of before after] diff_walk_after [of before after] show ?thesis
      unfolding diff_ops_def small by (auto simp: not_less)
  next
    case False
    then show ?thesis unfolding diff_ops_def small by (simp add: filter_map o_def)
  qed
qed


end
