(* ===== verification/BootBlock.thy ===== *)
theory BootBlock
  imports BootText StrUtf8
begin

text \<open>
  Placing a managed block: after a whole block is appended to a document or put in place of the old
  one, the marker parser finds exactly that block, the line-end convention is the old one and the
  text is still UTF-8.  The markers are arguments, so the lemmas serve the managed block of
  \<^verbatim>\<open>AGENTS.md\<close> and the managed span of \<^verbatim>\<open>.gitignore\<close>.
\<close>

text \<open>
  A template that is one whole block: rendered with either line end it begins with its begin marker,
  ends with its end marker, uses that line end only and has no line that opens a code fence.
\<close>

definition fence_free :: "string \<Rightarrow> bool" where
  "fence_free block \<longleftrightarrow> list_all (\<lambda>l. fence_run (line_plain l) = None) (split_inclusive block)"

definition whole_block :: "string \<Rightarrow> string \<Rightarrow> string \<Rightarrow> bool" where
  "whole_block b e template \<longleftrightarrow> b \<noteq> [] \<and> e \<noteq> [] \<and>
     list_all (\<lambda>newline. let block = render_block template newline in
       utf8 block \<and> block_ok b e block \<and> newline_of block = newline \<and> fence_free block \<and>
       (of_char (hd block) :: nat) < 128 \<and> hd block \<noteq> CHR 0x0A) [Lf, Crlf]"

text \<open>The bytes put before an appended block.\<close>

definition separation :: "string \<Rightarrow> newline \<Rightarrow> string" where
  "separation document newline =
     (if document = [] then []
      else if ends_with document [CHR 0x0A] \<or> ends_with document [CHR 0x0D] then newline_str newline
      else newline_str newline @ newline_str newline)"

lemma append_block_parts:
  "append_block document block newline =
     (document @ separation document newline) @ block @ newline_str newline"
  by (simp add: append_block_def separation_def Let_def)

section \<open>Line ends\<close>

abbreviation has_crlf :: "string \<Rightarrow> bool" where
  "has_crlf s \<equiv> str_contains s [CHR 0x0D, CHR 0x0A]"

lemma has_crlf_Cons:
  "has_crlf (c # s) \<longleftrightarrow> c = CHR 0x0D \<and> s \<noteq> [] \<and> hd s = CHR 0x0A \<or> has_crlf s"
  by (cases s) (auto simp: str_contains_def starts_with_def)

lemma has_crlf_Nil [simp]: "\<not> has_crlf []"
  by (simp add: str_contains_def)

lemma has_crlf_append:
  "has_crlf (x @ y) \<longleftrightarrow> has_crlf x \<or> has_crlf y \<or>
     x \<noteq> [] \<and> y \<noteq> [] \<and> last x = CHR 0x0D \<and> hd y = CHR 0x0A"
proof (induction x)
  case (Cons c x)
  show ?case
  proof (cases "x = []")
    case False
    then have "hd (x @ y) = hd x" by simp
    with False Cons show ?thesis by (auto simp: has_crlf_Cons)
  qed (auto simp: has_crlf_Cons)
qed simp

lemma newline_of_Crlf: "newline_of s = Crlf \<longleftrightarrow> has_crlf s"
  by (simp add: newline_of_def)

lemma newline_of_Lf: "newline_of s = Lf \<longleftrightarrow> \<not> has_crlf s"
  by (simp add: newline_of_def)

lemma last_newline_str [simp]: "last (newline_str n) = CHR 0x0A" "newline_str n \<noteq> []"
  by (cases n; simp)+

lemma ends_with_char: "ends_with s [c] \<longleftrightarrow> s \<noteq> [] \<and> last s = c"
proof (cases s rule: rev_cases)
  case (snoc u x)
  then show ?thesis by (simp add: ends_with_def Suc_le_eq)
qed (simp add: ends_with_def)

lemma separation_ends: "document \<noteq> [] \<Longrightarrow> last (document @ separation document n) = CHR 0x0A"
  by (auto simp: separation_def)

section \<open>The scan up to an appended block\<close>

lemma blank_line:
  assumes "set l \<subseteq> {CHR 0x0D, CHR 0x0A}" and "b \<noteq> []" "e \<noteq> []" and "0 < off"
  shows "scan_loop b e off found fence [l] = (found, fence)"
proof -
  have "line_plain l = []" using line_plain_extend [of l "[]"] assms(1)
    by (simp add: line_plain_def trim_end_matches_def)
  moreover have "str_trim [] = []" "fence_run [] = None" by code_simp+
  ultimately show ?thesis using assms by (simp add: line_clean_def)
qed

lemma newline_lines: "split_inclusive (newline_str n) = [newline_str n]"
  by (induction n; code_simp)

lemma scan_newline:
  assumes "b \<noteq> []" "e \<noteq> []" and "x \<noteq> []" "last x = CHR 0x0A"
  shows "scan b e (x @ newline_str n) = scan b e x"
proof -
  have "set (newline_str n) \<subseteq> {CHR 0x0D, CHR 0x0A}" by (cases n) auto
  moreover have "0 < length (concat (split_inclusive x))" using assms(3) by simp
  moreover have "split_inclusive (x @ newline_str n) = split_inclusive x @ [newline_str n]"
    using split_inclusive_at_line [of x "newline_str n"] assms(4) newline_lines by simp
  ultimately show ?thesis
    using blank_line [OF _ assms(1,2)]
    by (simp add: scan_append del: scan_loop.simps concat_split_inclusive split: prod.split)
qed

lemma scan_line_end:
  assumes "x \<noteq> []" "last x \<noteq> CHR 0x0A"
  shows "scan b e (x @ newline_str n) = scan b e x"
proof -
  obtain t where t: "newline_str n = t @ [CHR 0x0A]" "set t \<subseteq> {CHR 0x0D}" by (cases n) auto
  then have "CHR 0x0A \<notin> set t" by auto
  from split_inclusive_extend [OF assms this, of "[]"] obtain ls l where
    lines: "split_inclusive x = ls @ [l]" "split_inclusive (x @ t @ [CHR 0x0A]) = ls @ [l @ t @ [CHR 0x0A]]"
    by (auto simp: split_inclusive_def)
  have "set (t @ [CHR 0x0A]) \<subseteq> {CHR 0x0D, CHR 0x0A}" using t(2) by auto
  from scan_extend_line [OF this] show ?thesis
    by (simp add: t(1) lines scan_append del: scan_loop.simps split: prod.split)
qed

lemma scan_separation:
  assumes "b \<noteq> []" "e \<noteq> []"
  shows "scan b e (document @ separation document n) = scan b e document"
proof (cases "document = []")
  case False
  have step: "scan b e (document @ newline_str n) = scan b e document"
    using scan_newline [OF assms False] scan_line_end [OF False] by blast
  have "scan b e ((document @ newline_str n) @ newline_str n) = scan b e (document @ newline_str n)"
    by (rule scan_newline [OF assms]) simp_all
  with step show ?thesis using False by (simp add: separation_def)
qed (simp add: separation_def)

text \<open>Inside an open fence a text without fence lines shows nothing.\<close>

lemma scan_in_fence:
  assumes "list_all (\<lambda>l. fence_run (line_plain l) = None) ls" and "0 < off"
  shows "scan_loop b e off found (Some f) ls = (found, Some f)"
  using assms by (induction ls arbitrary: off) (auto simp: line_clean_def Let_def)

lemma fence_free_newline:
  assumes "fence_free block" and "block \<noteq> []" "last block \<noteq> CHR 0x0A"
  shows "fence_free (block @ newline_str n)"
proof -
  obtain t where t: "newline_str n = t @ [CHR 0x0A]" "set t \<subseteq> {CHR 0x0D}" by (cases n) auto
  then have "CHR 0x0A \<notin> set t" by auto
  from split_inclusive_extend [OF assms(2,3) this, of "[]"] obtain ls l where
    lines: "split_inclusive block = ls @ [l]"
      "split_inclusive (block @ t @ [CHR 0x0A]) = ls @ [l @ t @ [CHR 0x0A]]"
    by (auto simp: split_inclusive_def)
  have "line_plain (l @ t @ [CHR 0x0A]) = line_plain l"
    by (rule line_plain_extend) (use t(2) in auto)
  with assms(1) lines t(1) show ?thesis by (simp add: fence_free_def)
qed

section \<open>Appending\<close>

lemma managed_none: "managed_span_with document b e = Inr None \<Longrightarrow> fst (scan b e document) = []"
  using classify_cases [of "fst (scan b e document)"]
  by (auto simp: managed_span_with_def classify_def split: list.splits if_splits prod.splits)

lemma whole_blockD:
  assumes "whole_block b e template"
  shows "b \<noteq> []" "e \<noteq> []" "utf8 (render_block template n)" "block_ok b e (render_block template n)"
    "newline_of (render_block template n) = n" "fence_free (render_block template n)"
    "(of_char (hd (render_block template n)) :: nat) < 128" "hd (render_block template n) \<noteq> CHR 0x0A"
  using assms by (cases n; simp add: whole_block_def Let_def)+

lemma no_bom_block:
  "(of_char (hd block) :: nat) < 128 \<Longrightarrow> block \<noteq> [] \<Longrightarrow> \<not> starts_with (block @ z) BOM"
  by (cases block) (auto simp: starts_with_def BOM_def)

lemma tail_newline: "tail_ok b e (newline_str n)"
proof -
  obtain t where "newline_str n = t @ CHR 0x0A # []" "set t \<subseteq> {CHR 0x0D}" by (cases n) auto
  moreover have "split_inclusive [] = []" by code_simp
  ultimately show ?thesis unfolding tail_ok_def by (metis fst_conv scan_loop.simps(1))
qed

lemma ascii_boundary:
  "block \<noteq> [] \<Longrightarrow> (of_char (hd block) :: nat) < 128 \<Longrightarrow> char_boundary (x @ block @ z) (length x)"
  by (rule boundary_append) (cases block, auto simp: continuation_def)

text \<open>What a block in its place means.\<close>

definition placed :: "string \<Rightarrow> string \<Rightarrow> string \<Rightarrow> managed_span \<Rightarrow> string \<Rightarrow> bool" where
  "placed b e after span block \<longleftrightarrow> managed_span_with after b e = Inr (Some span) \<and>
     ms_start span \<le> ms_end span \<and> char_boundary after (ms_start span) \<and>
     char_boundary after (ms_end span) \<and>
     after = take (ms_start span) after @ block @ drop (ms_end span) after \<and>
     ms_end span = ms_start span + length block \<and> ms_end span \<le> length after"

lemma placed_parts:
  assumes "managed_span_with (x @ block @ z) b e =
      Inr (Some \<lparr>ms_start = length x, ms_end = length x + length block\<rparr>)"
    and "block \<noteq> []" "(of_char (hd block) :: nat) < 128" and "z = [] \<or> \<not> continuation (hd z)"
  shows "placed b e (x @ block @ z) \<lparr>ms_start = length x, ms_end = length x + length block\<rparr> block"
  using assms(1) ascii_boundary [OF assms(2,3), of x z]
    boundary_append_eq [OF assms(4), of "length x + length block" "x @ block"]
  by (simp add: placed_def)

lemma placed_slice: "placed b e after span block \<Longrightarrow> managed_span_slice span after = Some block"
proof -
  assume p: "placed b e after span block"
  then have "take (ms_end span - ms_start span) (drop (ms_start span) after) = block"
    unfolding placed_def
    by (metis (no_types, lifting) add_diff_cancel_left' append_eq_conv_conj append_take_drop_id
        same_append_eq)
  with p show ?thesis by (auto simp: placed_def managed_span_slice_def str_get_def)
qed

lemma placed_replace:
  assumes "placed b e (st_document t) span block"
  shows "replace_span t span block = Inr (st_document t)"
  using assms by (auto simp: placed_def replace_span_ok)

lemma appended_block:
  assumes whole: "whole_block b e template"
    and none: "managed_span_with document b e = Inr None"
    and closed: "snd (scan b e document) = None"
    and n: "n = newline_of document"
  defines "after \<equiv> append_block document (render_block template n) n"
  shows "\<exists>span. placed b e after span (render_block template n)"
proof -
  let ?block = "render_block template n" and ?x = "document @ separation document n"
  note block = whole_blockD(1,2) [OF whole] whole_blockD(3-8) [OF whole, of n]
  have ne: "?block \<noteq> []" using block(4) by (simp add: block_ok_def)
  have "scan b e document = ([], None)"
    using managed_none [OF none] closed by (cases "scan b e document") simp
  then have "scan b e ?x = ([], None)" by (simp only: scan_separation [OF block(1,2)])
  then have "head_ok b e ?x"
    using separation_ends [of document n] by (auto simp: head_ok_def separation_def)
  from span_in_context [OF this block(4) tail_newline no_bom_block [OF block(7) ne], of n]
  have "managed_span_with (?x @ ?block @ newline_str n) b e =
      Inr (Some \<lparr>ms_start = length ?x, ms_end = length ?x + length ?block\<rparr>)" .
  from placed_parts [OF this ne block(7)] have
    "placed b e (?x @ ?block @ newline_str n) \<lparr>ms_start = length ?x, ms_end = length ?x + length ?block\<rparr> ?block"
    by (cases n) (simp_all add: continuation_def)
  then show ?thesis unfolding after_def append_block_parts by blast
qed

text \<open>Behind a fence that is left open the block is hidden.\<close>

lemma appended_block_hidden:
  assumes whole: "whole_block b e template"
    and none: "managed_span_with document b e = Inr None"
    and "snd (scan b e document) = Some f"
  shows "managed_span_with (append_block document (render_block template n) n) b e = Inr None"
proof -
  let ?block = "render_block template n" and ?x = "document @ separation document n"
  note block = whole_blockD(1,2) [OF whole] whole_blockD(3-8) [OF whole, of n]
  have "document \<noteq> []" using assms(3) by (auto simp: split_inclusive_def)
  have "scan b e document = ([], Some f)"
    using managed_none [OF none] assms(3) by (cases "scan b e document") simp
  then have x: "scan b e ?x = ([], Some f)" by (simp only: scan_separation [OF block(1,2)])
  have "fence_free (?block @ newline_str n)"
    using fence_free_newline [OF block(6)] block(4) by (simp add: block_ok_def)
  moreover have "0 < length (concat (split_inclusive ?x))" using \<open>document \<noteq> []\<close> by simp
  moreover have "split_inclusive (?x @ ?block @ newline_str n) =
      split_inclusive ?x @ split_inclusive (?block @ newline_str n)"
    using split_inclusive_at_line [of ?x] separation_ends [OF \<open>document \<noteq> []\<close>] by blast
  ultimately have "scan b e (?x @ ?block @ newline_str n) = ([], Some f)"
    using scan_in_fence x by (simp add: scan_append fence_free_def del: concat_split_inclusive concat_append)
  then show ?thesis by (simp add: append_block_parts managed_span_with_def classify_def)
qed

lemma newline_appended:
  assumes whole: "whole_block b e template" and "n = newline_of document"
    and lone: "newline_of document = Lf \<Longrightarrow> \<not> ends_with document [CHR 0x0D]"
  shows "newline_of (append_block document (render_block template n) n) = n"
proof (cases n)
  case Crlf
  with assms(2) show ?thesis
    by (simp add: append_block_parts newline_of_Crlf has_crlf_append eq_commute [of Crlf])
next
  case Lf
  then have "\<not> has_crlf document" using assms(2) by (simp add: newline_of_Lf eq_commute [of Lf])
  moreover have "\<not> has_crlf (render_block template Lf)"
    using whole_blockD(5) [OF whole, of Lf] by (simp add: newline_of_Lf)
  moreover have "document \<noteq> [] \<Longrightarrow> last document \<noteq> CHR 0x0D"
    using lone Lf assms(2) by (simp add: ends_with_char)
  moreover have "last (render_block template Lf) \<noteq> CHR 0x0D"
    using whole_blockD(4) [OF whole, of Lf] by (simp add: block_ok_def)
  ultimately show ?thesis using Lf
    by (auto simp: newline_of_Lf append_block_parts has_crlf_append has_crlf_Cons separation_def)
qed

lemma utf8_newline_str [simp]: "utf8 (newline_str n)"
  by (induction n; code_simp)

lemma utf8_appended:
  assumes "whole_block b e template" and "utf8 document"
  shows "utf8 (append_block document (render_block template n) m)"
  using whole_blockD(3) [OF assms(1)] assms(2)
  by (auto simp: append_block_parts separation_def intro!: utf8_append)

section \<open>Replacing\<close>

lemma replaced_block:
  assumes whole: "whole_block b e template"
    and span: "managed_span_with (st_document t) b e = Inr (Some span)"
    and n: "n = newline_of (st_document t)" and "utf8 (st_document t)"
    and replaced: "replace_span t span (render_block template n) = Inr after"
  shows "\<exists>span'. ms_start span' = ms_start span \<and> placed b e after span' (render_block template n)"
    "newline_of after = n" "utf8 after"
proof -
  let ?block = "render_block template n" and ?d = "st_document t"
  note block = whole_blockD(1,2) [OF whole] whole_blockD(3-8) [OF whole, of n]
  have ne: "?block \<noteq> []" using block(4) by (simp add: block_ok_def)
  from span_parts [OF span] obtain x m z where doc: "?d = x @ m @ z" "length x = ms_start span"
    "length (x @ m) = ms_end span" "head_ok b e x" "tail_ok b e z" by blast
  have cuts: "take (ms_start span) ?d = x" "drop (ms_end span) ?d = z"
    using doc(1-3) by (metis append_eq_conv_conj, metis append.assoc append_eq_conv_conj)
  have boundaries: "char_boundary ?d (ms_start span)" "char_boundary ?d (ms_end span)"
    and after: "after = x @ ?block @ z"
    using replaced cuts by (auto simp: replace_span_ok)
  have "utf8 x" "utf8 z"
    using utf8_take_drop [OF assms(4) boundaries(1)] utf8_take_drop [OF assms(4) boundaries(2)] cuts by auto
  then show "utf8 after" using block(3) by (simp add: after utf8_append)
  have "z = [] \<or> \<not> continuation (hd z)"
    using from_utf8_head [of z z] \<open>utf8 z\<close> by (auto simp: utf8_def)
  from placed_parts [OF span_in_context [OF doc(4) block(4) doc(5) no_bom_block [OF block(7) ne]] ne block(7) this]
  show "\<exists>span'. ms_start span' = ms_start span \<and> placed b e after span' ?block"
    unfolding after using doc(2) by (metis managed_span.select_convs(1))
  have "x = [] \<or> last x \<noteq> CHR 0x0D" using doc(4) by (auto simp: head_ok_def BOM_def)
  moreover have "last ?block \<noteq> CHR 0x0D" using block(4) by (simp add: block_ok_def)
  moreover have "has_crlf ?block \<longleftrightarrow> n = Crlf" using block(5) by (simp add: newline_of_Crlf [symmetric])
  moreover have "has_crlf ?d \<longleftrightarrow> n = Crlf" using n by (simp add: newline_of_Crlf [symmetric])
  ultimately have "has_crlf after \<longleftrightarrow> n = Crlf"
    using ne block(8) unfolding after doc(1) by (auto simp: has_crlf_append)
  then show "newline_of after = n" by (cases n) (auto simp: newline_of_def)
qed

end
