(* ===== verification/BootPlan.thy ===== *)
theory BootPlan
  imports BootOwnership BootDiff BootBlock
begin

text \<open>
  The read-only bootstrap plan, \<^verbatim>\<open>axiom/src/bootstrap/plan.rs\<close>: what bootstrap would write in a
  repository, or why it refuses it.  Reading a repository is the function \<open>rt_reader\<close>; a plan is
  applied to an in-memory repository by writing its files.
\<close>

definition AGENTS_PATH :: string where "AGENTS_PATH = ''AGENTS.md''"
definition RULE_PLAN_DIGEST :: string where "RULE_PLAN_DIGEST = ''plan-digest-mismatch''"
definition RULE_PLAN_MALFORMED :: string where "RULE_PLAN_MALFORMED = ''plan-malformed''"
definition RULE_PLAN_PATH :: string where "RULE_PLAN_PATH = ''plan-path-unsafe''"
definition RULE_MARKERS_WITHOUT_OWNERSHIP :: string where
  "RULE_MARKERS_WITHOUT_OWNERSHIP = ''ownership-absent-with-markers''"
definition BOOTSTRAP_SCHEMA_VERSION :: u32 where "BOOTSTRAP_SCHEMA_VERSION = 1"

record templates =
  tm_block :: string
  tm_policy :: string
  tm_version :: string

definition block_sha256 :: "(string \<Rightarrow> string) \<Rightarrow> templates \<Rightarrow> string" where
  "block_sha256 sha256 tm = sha256_hex sha256 (tm_block tm)"

definition policy_sha256 :: "(string \<Rightarrow> string) \<Rightarrow> templates \<Rightarrow> string" where
  "policy_sha256 sha256 tm = sha256_hex sha256 (tm_policy tm)"

section \<open>Readers\<close>

type_synonym reader = "string \<Rightarrow> string option result"

definition is_safe_relative :: "string \<Rightarrow> bool" where
  "is_safe_relative relative_path \<longleftrightarrow>
     relative_path \<noteq> [] \<and> \<not> starts_with relative_path ''/'' \<and> \<not> starts_with relative_path [CHR 0x5C] \<and>
     (case relative_path of _ # byte # _ \<Rightarrow> byte \<noteq> CHR '':'' | _ \<Rightarrow> True) \<and>
     list_all (\<lambda>segment. segment \<noteq> [] \<and> segment \<noteq> ''..'')
       (split_where (\<lambda>c. c = CHR ''/'' \<or> c = CHR 0x5C) relative_path)"

text \<open>What \<open>fs::read\<close> reports of a path: its bytes, that there is no such file, or an error.\<close>

datatype fs_read = FsBytes string | FsNotFound | FsError string

text \<open>The file adapter; \<open>show_path\<close> displays the path joined to the root.\<close>

definition local_read :: "(string \<Rightarrow> string) \<Rightarrow> (string \<Rightarrow> fs_read) \<Rightarrow> reader" where
  "local_read show_path fs relative_path =
     (if \<not> is_safe_relative relative_path
      then Inl (with_detail (with_detail (refuse RULE_PLAN_PATH
        (''refusing to read the unsafe repository path '' @ relative_path))
        ''field'' ''path'') ''observed'' relative_path)
      else (case fs relative_path of
          FsBytes bytes \<Rightarrow> Inr (Some bytes)
        | FsNotFound \<Rightarrow> Inr None
        | FsError error \<Rightarrow>
            Inl (axiom_error_new Internal (''cannot read '' @ show_path relative_path @ '': '' @ error))))"

definition map_read :: "(string, string) btree_map \<Rightarrow> reader" where
  "map_read files relative_path = Inr (bt_get files relative_path)"

definition map_reader_insert :: "(string, string) btree_map \<Rightarrow> string \<Rightarrow> string \<Rightarrow> (string, string) btree_map" where
  "map_reader_insert files relative_path bytes = bt_insert relative_path bytes files"

record repository_target =
  rt_repository_id :: string
  rt_root :: string
  rt_reader :: reader

section \<open>Plans\<close>

datatype change_class = ClassAppend | ClassReplace | ClassUnchanged | ClassConflict

fun change_class_str :: "change_class \<Rightarrow> string" where
  "change_class_str ClassAppend = ''append''"
| "change_class_str ClassReplace = ''replace''"
| "change_class_str ClassUnchanged = ''unchanged''"
| "change_class_str ClassConflict = ''conflict''"

record file_change =
  fc_path :: string
  fc_before_sha256 :: "string option"
  fc_after_sha256 :: string
  fc_diff :: string
  fc_bytes :: string

record refusal =
  rf_rule :: string
  rf_message :: string

record repository_plan =
  rp_repository_id :: string
  rp_root :: string
  rp_change :: change_class
  rp_before_block_sha256 :: "string option"
  rp_after_block_sha256 :: "string option"
  rp_files :: "file_change list"
  rp_refusal :: "refusal option"

definition rp_is_conflict :: "repository_plan \<Rightarrow> bool" where
  "rp_is_conflict plan \<longleftrightarrow> rp_change plan = ClassConflict"

definition rp_would_write :: "repository_plan \<Rightarrow> bool" where
  "rp_would_write plan \<longleftrightarrow> rp_files plan \<noteq> []"

text \<open>A refusal that concerns one repository is reported inside the plan.\<close>

definition conflict :: "repository_target \<Rightarrow> axiom_error \<Rightarrow> string option \<Rightarrow> string option \<Rightarrow> repository_plan" where
  "conflict target refusal before_block after_block =
     \<lparr>rp_repository_id = rt_repository_id target, rp_root = rt_root target,
      rp_change = ClassConflict, rp_before_block_sha256 = before_block,
      rp_after_block_sha256 = after_block, rp_files = [],
      rp_refusal = Some \<lparr>rf_rule = (case rule_of refusal of Some rule \<Rightarrow> rule | None \<Rightarrow> ''bootstrap-conflict''),
                         rf_message = ae_message refusal\<rparr>\<rparr>"

definition conflict_plan :: "repository_target \<Rightarrow> marker_conflict \<Rightarrow> string option \<Rightarrow> repository_plan" where
  "conflict_plan target marker_conflict before_block =
     conflict target (with_detail (axiom_error_new Conflict (marker_conflict_message marker_conflict))
       ''rule'' (marker_conflict_str marker_conflict)) before_block None"

definition display_text :: "string option \<Rightarrow> string" where
  "display_text bytes = (case bytes of None \<Rightarrow> [] | Some bytes \<Rightarrow> from_utf8_lossy bytes)"

text \<open>The refusal decided by what the repository already holds.\<close>

definition plan_refusal ::
  "(string \<Rightarrow> string) \<Rightarrow> ownership option \<Rightarrow> managed_span option \<Rightarrow> string \<Rightarrow> string option \<Rightarrow> axiom_error option" where
  "plan_refusal sha256 ow span agents policy_raw =
     (case ow of
        None \<Rightarrow>
          if span \<noteq> None then
            Some (with_detail (with_detail (refuse RULE_MARKERS_WITHOUT_OWNERSHIP
              ''managed markers exist without ownership; refusing to adopt them implicitly'')
              ''field'' ''ownership'') ''observed'' ''absent'')
          else if policy_raw \<noteq> None then
            (case plan_policy (map_option (sha256_hex sha256) policy_raw) None of
               Inl e \<Rightarrow> Some e | Inr _ \<Rightarrow> None)
          else None
      | Some owner \<Rightarrow>
          drift_refusal (detect_drift sha256 owner
            (case span of None \<Rightarrow> None | Some span \<Rightarrow> managed_span_slice span agents) policy_raw))"

text \<open>One row of the file table: nothing for a file that is left alone.\<close>

definition file_row ::
  "(string \<Rightarrow> string) \<Rightarrow> string \<times> string option \<times> string option \<Rightarrow> file_change list" where
  "file_row sha256 row =
     (case row of
        (path, before, None) \<Rightarrow> []
      | (path, before, Some after) \<Rightarrow>
          if before = Some after then []
          else [\<lparr>fc_path = path, fc_before_sha256 = map_option (sha256_hex sha256) before,
                 fc_after_sha256 = sha256_hex sha256 after,
                 fc_diff = unified_diff path (display_text before) (display_text (Some after)),
                 fc_bytes = after\<rparr>])"

text \<open>The manifest to write: none when the one on disk already records these digests.\<close>

definition after_ownership ::
  "(string \<Rightarrow> string) \<Rightarrow> (ownership, 'v) json_lib \<Rightarrow> templates \<Rightarrow> ownership option \<Rightarrow> string \<Rightarrow> string option result" where
  "after_ownership sha256 json tm ow after_block =
     (if (case ow of None \<Rightarrow> False
          | Some owner \<Rightarrow> ow_managed_block_sha256 owner = sha256_hex sha256 after_block \<and>
              ow_policy_sha256 owner = sha256_hex sha256 (tm_policy tm))
      then Inr None
      else (case ownership_encode json (ownership_new sha256 (tm_version tm) after_block (tm_policy tm)) of
          Inl error \<Rightarrow> Inl error
        | Inr bytes \<Rightarrow> Inr (Some bytes)))"

text \<open>The last part of the planning: the files to write once the managed block is known.\<close>

definition plan_files ::
  "(string \<Rightarrow> string) \<Rightarrow> (ownership, 'v) json_lib \<Rightarrow> repository_target \<Rightarrow> templates \<Rightarrow> string option \<Rightarrow>
    string option \<Rightarrow> string option \<Rightarrow> ownership option \<Rightarrow> string option \<Rightarrow> string \<Rightarrow> string \<Rightarrow> repository_plan" where
  "plan_files sha256 json target tm agents_raw policy_raw ownership_raw ow before_block after_agents after_block =
     (case after_ownership sha256 json tm ow after_block of
        Inl error \<Rightarrow> conflict target error before_block None
      | Inr manifest \<Rightarrow>
          (let files = concat (map (file_row sha256)
             [(AGENTS_PATH, agents_raw, Some after_agents),
              (POLICY_PATH, policy_raw, Some (tm_policy tm)),
              (OWNERSHIP_PATH, ownership_raw, manifest)])
           in \<lparr>rp_repository_id = rt_repository_id target, rp_root = rt_root target,
               rp_change = (if files = [] then ClassUnchanged
                 else if ow \<noteq> None then ClassReplace else ClassAppend),
               rp_before_block_sha256 = before_block,
               rp_after_block_sha256 = Some (sha256_hex sha256 after_block),
               rp_files = files, rp_refusal = None\<rparr>))"

text \<open>The middle part: the new document, and the block found in it.\<close>

definition plan_agents ::
  "source_text \<Rightarrow> managed_span option \<Rightarrow> string \<Rightarrow> string result" where
  "plan_agents agents span block =
     (case span of
        Some span \<Rightarrow> replace_span agents span block
      | None \<Rightarrow> Inr (source_append_block agents block))"

definition plan_documents ::
  "(string \<Rightarrow> string) \<Rightarrow> (ownership, 'v) json_lib \<Rightarrow> repository_target \<Rightarrow> templates \<Rightarrow> string option \<Rightarrow>
    string option \<Rightarrow> string option \<Rightarrow> source_text \<Rightarrow> ownership option \<Rightarrow> repository_plan" where
  "plan_documents sha256 json target tm agents_raw policy_raw ownership_raw agents ow =
     (case managed_span_of (st_document agents) of
        Inl marker_conflict \<Rightarrow> conflict_plan target marker_conflict None
      | Inr span \<Rightarrow>
          (let before_block = map_option (sha256_hex sha256)
             (case span of None \<Rightarrow> None | Some span \<Rightarrow> managed_span_slice span (st_document agents))
           in case plan_refusal sha256 ow span (st_document agents) policy_raw of
                Some refusal \<Rightarrow> conflict target refusal before_block None
              | None \<Rightarrow>
                  (case plan_agents agents span (render_block (tm_block tm) (source_newline agents)) of
                     Inl error \<Rightarrow> conflict target error before_block None
                   | Inr after_agents \<Rightarrow>
                       (case managed_span_of after_agents of
                          Inl marker_conflict \<Rightarrow> conflict_plan target marker_conflict before_block
                        | Inr None \<Rightarrow>
                            conflict target (refuse RULE_PLAN_MALFORMED
                              ''planned content lost its managed block'') before_block None
                        | Inr (Some span) \<Rightarrow>
                            plan_files sha256 json target tm agents_raw policy_raw ownership_raw ow
                              before_block after_agents
                              (case managed_span_slice span after_agents of
                                 None \<Rightarrow> [] | Some block \<Rightarrow> block)))))"

definition plan_repository ::
  "(string \<Rightarrow> string) \<Rightarrow> (string \<Rightarrow> string) \<Rightarrow> (ownership, 'v) json_lib \<Rightarrow> repository_target \<Rightarrow> templates \<Rightarrow>
    repository_plan result" where
  "plan_repository lower sha256 json target tm =
     (case ensure_block_points_at_policy lower (tm_block tm) of
        Inl e \<Rightarrow> Inl e
      | Inr _ \<Rightarrow>
          (case rt_reader target AGENTS_PATH of
             Inl e \<Rightarrow> Inl e
           | Inr agents_raw \<Rightarrow>
               (case rt_reader target POLICY_PATH of
                  Inl e \<Rightarrow> Inl e
                | Inr policy_raw \<Rightarrow>
                    (case rt_reader target OWNERSHIP_PATH of
                       Inl e \<Rightarrow> Inl e
                     | Inr ownership_raw \<Rightarrow>
                         (case (case agents_raw of Some bytes \<Rightarrow> source_decode bytes
                                | None \<Rightarrow> Inr (source_from_text [])) of
                            Inl error \<Rightarrow> Inr (conflict target error None None)
                          | Inr agents \<Rightarrow>
                              (case (case ownership_raw of
                                       Some bytes \<Rightarrow>
                                         (case ownership_parse json bytes of
                                            Inl error \<Rightarrow> Inl error | Inr ow \<Rightarrow> Inr (Some ow))
                                     | None \<Rightarrow> Inr None) of
                                 Inl error \<Rightarrow> Inr (conflict target error None None)
                               | Inr ow \<Rightarrow>
                                   Inr (plan_documents sha256 json target tm agents_raw policy_raw
                                     ownership_raw agents ow)))))))"

section \<open>Applying a plan in memory\<close>

definition apply_files :: "(string, string) btree_map \<Rightarrow> file_change list \<Rightarrow> (string, string) btree_map" where
  "apply_files files changes =
     foldl (\<lambda>files change. map_reader_insert files (fc_path change) (fc_bytes change)) files changes"

lemma apply_files_append: "apply_files files (xs @ ys) = apply_files (apply_files files xs) ys"
  by (simp add: apply_files_def)

text \<open>What a repository reads once its changes are in place.\<close>

definition reads_after :: "file_change list \<Rightarrow> (string \<Rightarrow> string option) \<Rightarrow> (string \<Rightarrow> string option) \<Rightarrow> bool" where
  "reads_after changes old new \<longleftrightarrow>
     (\<forall>p\<in>{AGENTS_PATH, POLICY_PATH, OWNERSHIP_PATH}.
        (\<exists>c\<in>set changes. fc_path c = p \<and> new p = Some (fc_bytes c)) \<or>
        (\<forall>c\<in>set changes. fc_path c \<noteq> p) \<and> new p = old p)"

lemma apply_files_reads_after: "reads_after changes (bt_get files) (bt_get (apply_files files changes))"
proof -
  have "(\<exists>c\<in>set changes. fc_path c = p \<and> bt_get (apply_files files changes) p = Some (fc_bytes c)) \<or>
      (\<forall>c\<in>set changes. fc_path c \<noteq> p) \<and> bt_get (apply_files files changes) p = bt_get files p" for p
    by (induction changes rule: rev_induct)
      (auto simp: apply_files_def map_reader_insert_def bt.get_ins)
  then show ?thesis unfolding reads_after_def by blast
qed

lemma paths_distinct:
  "AGENTS_PATH \<noteq> POLICY_PATH" "AGENTS_PATH \<noteq> OWNERSHIP_PATH" "POLICY_PATH \<noteq> OWNERSHIP_PATH"
  by (simp_all add: AGENTS_PATH_def POLICY_PATH_def OWNERSHIP_PATH_def)

lemma three_rows_read:
  assumes "reads_after changes old new"
    and "changes = concat (map (file_row sha256)
      [(AGENTS_PATH, old AGENTS_PATH, Some a), (POLICY_PATH, old POLICY_PATH, Some p),
       (OWNERSHIP_PATH, old OWNERSHIP_PATH, w)])"
  shows "new AGENTS_PATH = Some a" "new POLICY_PATH = Some p"
    "new OWNERSHIP_PATH = (case w of None \<Rightarrow> old OWNERSHIP_PATH | Some b \<Rightarrow> Some b)"
proof -
  have row: "c \<in> set (file_row sha256 (q, before, after)) \<Longrightarrow> fc_path c = q \<and> Some (fc_bytes c) = after \<and> before \<noteq> after"
    "before \<noteq> after \<Longrightarrow> after \<noteq> None \<Longrightarrow> \<exists>c\<in>set (file_row sha256 (q, before, after)). fc_path c = q"
    for c q before after
    by (auto simp: file_row_def split: option.splits if_splits)
  have at: "new q = (case after of None \<Rightarrow> old q | Some b \<Rightarrow> Some b)"
    if q: "q \<in> {AGENTS_PATH, POLICY_PATH, OWNERSHIP_PATH}"
      and sub: "set (file_row sha256 (q, old q, after)) \<subseteq> set changes"
      and only: "\<And>c. c \<in> set changes \<Longrightarrow> fc_path c = q \<Longrightarrow> c \<in> set (file_row sha256 (q, old q, after))" for q after
  proof -
    consider (some) c where "c \<in> set changes" "fc_path c = q" "new q = Some (fc_bytes c)"
      | (none) "\<forall>c\<in>set changes. fc_path c \<noteq> q" "new q = old q"
      using bspec [OF assms(1) [unfolded reads_after_def] q] by (elim disjE bexE conjE) auto
    then show ?thesis
    proof cases
      case some
      then show ?thesis using row(1) [OF only [OF some(1,2)]] by (auto split: option.split)
    next
      case none
      then show ?thesis using row(2) [of "old q" after q] sub by (cases after) auto
    qed
  qed
  have path: "c \<in> set (file_row sha256 (q, before, after)) \<Longrightarrow> fc_path c = q" for c q before after
    using row(1) by blast
  have "new AGENTS_PATH = (case Some a of None \<Rightarrow> old AGENTS_PATH | Some b \<Rightarrow> Some b)"
    by (rule at) (use paths_distinct in \<open>auto simp: assms(2) dest: path\<close>)
  then show "new AGENTS_PATH = Some a" by simp
  have "new POLICY_PATH = (case Some p of None \<Rightarrow> old POLICY_PATH | Some b \<Rightarrow> Some b)"
    by (rule at) (use paths_distinct in \<open>auto simp: assms(2) dest: path\<close>)
  then show "new POLICY_PATH = Some p" by simp
  show "new OWNERSHIP_PATH = (case w of None \<Rightarrow> old OWNERSHIP_PATH | Some b \<Rightarrow> Some b)"
    by (rule at) (use paths_distinct in \<open>auto simp: assms(2) dest: path\<close>)
qed

section \<open>Lemmas\<close>

lemma conflict_fields [simp]:
  "rp_change (conflict target e b a) = ClassConflict" "rp_files (conflict target e b a) = []"
  "rp_change (conflict_plan target m b) = ClassConflict" "rp_files (conflict_plan target m b) = []"
  by (simp_all add: conflict_def conflict_plan_def)

lemma plan_files_conflict:
  "rp_change (plan_files sha256 json target tm ar pr orr ow bb after block) = ClassConflict \<Longrightarrow>
     rp_files (plan_files sha256 json target tm ar pr orr ow bb after block) = []"
  by (cases "after_ownership sha256 json tm ow block")
    (auto simp: plan_files_def Let_def simp del: list.map concat.simps split: if_splits)

lemma plan_documents_cases:
  "rp_files (plan_documents sha256 json target tm ar pr orr t ow) = [] \<or>
     (\<exists>bb after block. plan_documents sha256 json target tm ar pr orr t ow =
        plan_files sha256 json target tm ar pr orr ow bb after block)"
  unfolding plan_documents_def Let_def
  by (auto split: sum.split option.split)

lemma plan_repository_cases:
  assumes "plan_repository lower sha256 json target tm = Inr plan"
  shows "rp_files plan = [] \<or>
    (\<exists>ar pr orr t ow. plan = plan_documents sha256 json target tm ar pr orr t ow)"
  using assms unfolding plan_repository_def by (auto split: sum.splits) blast

lemma refused_writes_nothing:
  assumes "plan_repository lower sha256 json target tm = Inr plan" and "rp_change plan = ClassConflict"
  shows "rp_files plan = []"
  using plan_repository_cases [OF assms(1)] assms(2) plan_documents_cases plan_files_conflict by metis

lemma plan_files_ok:
  assumes "rp_change (plan_files sha256 json target tm ar pr orr ow bb after block) \<noteq> ClassConflict"
  obtains w where
    "rp_files (plan_files sha256 json target tm ar pr orr ow bb after block) =
       concat (map (file_row sha256) [(AGENTS_PATH, ar, Some after), (POLICY_PATH, pr, Some (tm_policy tm)),
         (OWNERSHIP_PATH, orr, w)])"
    "(\<exists>owner. w = None \<and> ow = Some owner \<and> ow_managed_block_sha256 owner = sha256_hex sha256 block \<and>
        ow_policy_sha256 owner = sha256_hex sha256 (tm_policy tm)) \<or>
     (\<exists>bytes. w = Some bytes \<and>
        ownership_encode json (ownership_new sha256 (tm_version tm) block (tm_policy tm)) = Inr bytes)"
proof -
  obtain w where w: "after_ownership sha256 json tm ow block = Inr w"
    using assms by (cases "after_ownership sha256 json tm ow block") (auto simp: plan_files_def)
  show ?thesis
  proof (rule that [of w])
    show "rp_files (plan_files sha256 json target tm ar pr orr ow bb after block) =
       concat (map (file_row sha256) [(AGENTS_PATH, ar, Some after), (POLICY_PATH, pr, Some (tm_policy tm)),
         (OWNERSHIP_PATH, orr, w)])"
      by (simp add: plan_files_def w)
    show "(\<exists>owner. w = None \<and> ow = Some owner \<and> ow_managed_block_sha256 owner = sha256_hex sha256 block \<and>
        ow_policy_sha256 owner = sha256_hex sha256 (tm_policy tm)) \<or>
     (\<exists>bytes. w = Some bytes \<and>
        ownership_encode json (ownership_new sha256 (tm_version tm) block (tm_policy tm)) = Inr bytes)"
      using w by (auto simp: after_ownership_def split: if_splits option.splits sum.splits)
  qed
qed

text \<open>A repository that already holds the planned files is left alone.\<close>

lemma plan_files_settled:
  assumes "ow_managed_block_sha256 owner = sha256_hex sha256 block"
    and "ow_policy_sha256 owner = sha256_hex sha256 (tm_policy tm)"
  shows "rp_change (plan_files sha256 json target tm (Some after) (Some (tm_policy tm)) orr (Some owner) bb after block) = ClassUnchanged"
    "rp_files (plan_files sha256 json target tm (Some after) (Some (tm_policy tm)) orr (Some owner) bb after block) = []"
  using assms by (simp_all add: plan_files_def after_ownership_def file_row_def)

text \<open>A document in which the rendered block stands in its place, with the old line ends.\<close>

definition settled :: "string \<Rightarrow> string \<Rightarrow> bool" where
  "settled template after \<longleftrightarrow> utf8 after \<and>
     (\<exists>span. placed BEGIN_MARKER END_MARKER after span (render_block template (newline_of after)))"

lemma plan_agents_placed:
  assumes whole: "whole_block BEGIN_MARKER END_MARKER template"
    and "utf8 (st_document t)"
    and span: "managed_span_of (st_document t) = Inr span"
    and after: "plan_agents t span (render_block template (source_newline t)) = Inr after"
    and found: "managed_span_of after \<noteq> Inr None"
  shows "utf8 after \<and> (\<exists>place. placed BEGIN_MARKER END_MARKER after place
      (render_block template (newline_of (st_document t))) \<and>
      (\<forall>sp. span = Some sp \<longrightarrow> ms_start place = ms_start sp)) \<and>
    ((newline_of (st_document t) = Lf \<longrightarrow> \<not> ends_with (st_document t) [CHR 0x0D]) \<longrightarrow>
       newline_of after = newline_of (st_document t))"
proof -
  let ?n = "newline_of (st_document t)"
  have n: "source_newline t = ?n" by (simp add: source_newline_def)
  show ?thesis
  proof (cases span)
    case None
    have none: "managed_span_with (st_document t) BEGIN_MARKER END_MARKER = Inr None"
      using span None by (simp add: managed_span_of_def)
    have eq: "after = append_block (st_document t) (render_block template ?n) ?n"
      using after None by (simp add: plan_agents_def source_append_block_def n)
    have "snd (scan BEGIN_MARKER END_MARKER (st_document t)) = None"
      using appended_block_hidden [OF whole none] found eq
      by (cases "snd (scan BEGIN_MARKER END_MARKER (st_document t))") (auto simp: managed_span_of_def)
    from appended_block [OF whole none this refl] newline_appended [OF whole refl]
      utf8_appended [OF whole assms(2)] None
    show ?thesis unfolding eq by auto
  next
    case (Some sp)
    from span Some have "managed_span_with (st_document t) BEGIN_MARKER END_MARKER = Inr (Some sp)"
      by (simp add: managed_span_of_def)
    from replaced_block [OF whole this refl assms(2)] after Some show ?thesis
      by (auto simp: plan_agents_def n)
  qed
qed

lemma plan_agents_settles:
  assumes "whole_block BEGIN_MARKER END_MARKER template" and "utf8 (st_document t)"
    and "newline_of (st_document t) = Lf \<Longrightarrow> \<not> ends_with (st_document t) [CHR 0x0D]"
    and "managed_span_of (st_document t) = Inr span"
    and "plan_agents t span (render_block template (source_newline t)) = Inr after"
    and "managed_span_of after \<noteq> Inr None"
  shows "settled template after"
  using plan_agents_placed [OF assms(1,2,4-6)] assms(3) by (auto simp: settled_def)

text \<open>Planning a settled document again proposes it as it is.\<close>

lemma plan_documents_settled:
  assumes "settled (tm_block tm) after" and doc: "st_document t = after"
    and block: "sha256_hex sha256 (render_block (tm_block tm) (newline_of after)) = ow_managed_block_sha256 owner"
    and policy: "sha256_hex sha256 (tm_policy tm) = ow_policy_sha256 owner"
  shows "rp_change (plan_documents sha256 json target tm (Some after) (Some (tm_policy tm)) orr t (Some owner)) = ClassUnchanged"
    "rp_files (plan_documents sha256 json target tm (Some after) (Some (tm_policy tm)) orr t (Some owner)) = []"
proof -
  let ?block = "render_block (tm_block tm) (newline_of after)"
  obtain span where placed: "placed BEGIN_MARKER END_MARKER after span ?block"
    using assms(1) by (auto simp: settled_def)
  note slice = placed_slice [OF placed]
  have span: "managed_span_of after = Inr (Some span)"
    using placed by (simp add: placed_def managed_span_of_def)
  have quiet: "plan_refusal sha256 (Some owner) (Some span) after (Some (tm_policy tm)) = None"
    using block policy by (simp add: plan_refusal_def slice detect_drift_None)
  have agents: "plan_agents t (Some span) (render_block (tm_block tm) (source_newline t)) = Inr after"
    using placed_replace [of _ _ t] placed by (simp add: plan_agents_def source_newline_def doc)
  have eq: "plan_documents sha256 json target tm (Some after) (Some (tm_policy tm)) orr t (Some owner) =
      plan_files sha256 json target tm (Some after) (Some (tm_policy tm)) orr (Some owner)
        (Some (sha256_hex sha256 ?block)) after ?block"
    by (simp add: plan_documents_def doc span slice quiet agents)
  show "rp_change (plan_documents sha256 json target tm (Some after) (Some (tm_policy tm)) orr t (Some owner)) = ClassUnchanged"
    "rp_files (plan_documents sha256 json target tm (Some after) (Some (tm_policy tm)) orr t (Some owner)) = []"
    unfolding eq using plan_files_settled block policy by metis+
qed

text \<open>What a plan that is no conflict has checked.\<close>

lemma plan_documents_ok:
  assumes "rp_change (plan_documents sha256 json target tm ar pr orr t ow) \<noteq> ClassConflict"
  obtains span after span' where
    "managed_span_of (st_document t) = Inr span"
    "plan_refusal sha256 ow span (st_document t) pr = None"
    "plan_agents t span (render_block (tm_block tm) (source_newline t)) = Inr after"
    "managed_span_of after = Inr (Some span')"
    "plan_documents sha256 json target tm ar pr orr t ow =
       plan_files sha256 json target tm ar pr orr ow
         (map_option (sha256_hex sha256)
            (case span of None \<Rightarrow> None | Some span \<Rightarrow> managed_span_slice span (st_document t)))
         after (case managed_span_slice span' after of None \<Rightarrow> [] | Some block \<Rightarrow> block)"
  using assms unfolding plan_documents_def
  by (auto simp: Let_def split: sum.splits option.splits)

section \<open>Properties\<close>

lemma encoded_manifest_parses:
  assumes "json_reads_back json" and "\<And>bytes. length (sha256 bytes) = 32" and "str_trim version \<noteq> []"
    and "ownership_encode json (ownership_new sha256 version block policy) = Inr bytes"
  shows "ownership_parse json bytes = Inr (ownership_new sha256 version block policy)"
proof -
  have "utf8 bytes" "from_text json bytes = Inr (ownership_new sha256 version block policy)"
    using assms(1,4) by (auto simp: json_reads_back_def)
  with is_sha256_hex_digest [of sha256, OF assms(2)] assms(3) show ?thesis
    by (simp add: ownership_parse_def ownership_new_def utf8_def)
qed

text \<open>The three files a plan reads, decoded.\<close>

lemma plan_repository_ok:
  assumes "plan_repository lower sha256 json target tm = Inr plan" and "rp_change plan \<noteq> ClassConflict"
  obtains ar pr orr t ow where
    "ensure_block_points_at_policy lower (tm_block tm) = Inr ()"
    "rt_reader target AGENTS_PATH = Inr ar" "rt_reader target POLICY_PATH = Inr pr"
    "rt_reader target OWNERSHIP_PATH = Inr orr"
    "st_document t = (case ar of None \<Rightarrow> [] | Some bytes \<Rightarrow> bytes)" "utf8 (st_document t)"
    "(case orr of None \<Rightarrow> ow = None | Some bytes \<Rightarrow> \<exists>owner. ow = Some owner \<and> ownership_parse json bytes = Inr owner)"
    "plan = plan_documents sha256 json target tm ar pr orr t ow"
proof -
  obtain ar pr orr where reads: "ensure_block_points_at_policy lower (tm_block tm) = Inr ()"
    "rt_reader target AGENTS_PATH = Inr ar" "rt_reader target POLICY_PATH = Inr pr"
    "rt_reader target OWNERSHIP_PATH = Inr orr"
    using assms(1) unfolding plan_repository_def by (auto split: sum.splits)
  let ?decoded = "case ar of Some bytes \<Rightarrow> source_decode bytes | None \<Rightarrow> Inr (source_from_text [])"
  let ?parsed = "case orr of Some bytes \<Rightarrow> (case ownership_parse json bytes of Inl error \<Rightarrow> Inl error | Inr ow \<Rightarrow> Inr (Some ow))
    | None \<Rightarrow> Inr None"
  have plan: "Inr plan = (case ?decoded of Inl error \<Rightarrow> Inr (conflict target error None None)
      | Inr agents \<Rightarrow> (case ?parsed of Inl error \<Rightarrow> Inr (conflict target error None None)
          | Inr ow \<Rightarrow> (Inr (plan_documents sha256 json target tm ar pr orr agents ow) :: repository_plan result)))"
    using assms(1) unfolding plan_repository_def reads by simp
  then obtain t where t: "?decoded = Inr t"
    using assms(2) by (cases ?decoded) auto
  then obtain ow where ow: "?parsed = Inr ow"
    using plan assms(2) by (cases ?parsed) auto
  show thesis
  proof (rule that [OF reads])
    show "st_document t = (case ar of None \<Rightarrow> [] | Some bytes \<Rightarrow> bytes)" "utf8 (st_document t)"
      using t by (auto simp: source_decode_def source_from_text_def from_utf8_iff split: sum.splits option.splits)
    show "case orr of None \<Rightarrow> ow = None
      | Some bytes \<Rightarrow> \<exists>owner. ow = Some owner \<and> ownership_parse json bytes = Inr owner"
      using ow by (auto split: sum.splits option.splits)
    show "plan = plan_documents sha256 json target tm ar pr orr t ow"
      using plan t ow by simp
  qed
qed

text \<open>Once the changes of a plan are in place, planning again proposes nothing.\<close>

lemma replanned_unchanged:
  assumes json: "json_reads_back json" and sha: "\<And>bytes. length (sha256 bytes) = 32"
    and version: "str_trim (tm_version tm) \<noteq> []"
    and whole: "whole_block BEGIN_MARKER END_MARKER (tm_block tm)"
    and reader: "rt_reader target = (\<lambda>p. Inr (old p))"
    and lone: "\<And>document. old AGENTS_PATH = Some document \<Longrightarrow> newline_of document = Lf \<Longrightarrow>
      \<not> ends_with document [CHR 0x0D]"
    and plan: "plan_repository lower sha256 json target tm = Inr plan"
    and written: "rp_change plan \<noteq> ClassConflict"
    and new: "reads_after (rp_files plan) old new"
  shows "\<exists>again. plan_repository lower sha256 json (target\<lparr>rt_reader := \<lambda>p. Inr (new p)\<rparr>) tm = Inr again \<and>
    rp_change again = ClassUnchanged \<and> rp_files again = []"
proof -
  obtain ar pr orr t ow where
    points: "ensure_block_points_at_policy lower (tm_block tm) = Inr ()"
    and raw: "rt_reader target AGENTS_PATH = Inr ar" "rt_reader target POLICY_PATH = Inr pr"
      "rt_reader target OWNERSHIP_PATH = Inr orr"
    and t: "st_document t = (case ar of None \<Rightarrow> [] | Some bytes \<Rightarrow> bytes)" "utf8 (st_document t)"
    and ow: "(case orr of None \<Rightarrow> ow = None | Some bytes \<Rightarrow> \<exists>owner. ow = Some owner \<and> ownership_parse json bytes = Inr owner)"
    and eq: "plan = plan_documents sha256 json target tm ar pr orr t ow"
    by (rule plan_repository_ok [OF plan written])
  have read: "ar = old AGENTS_PATH" "pr = old POLICY_PATH"
      "orr = old OWNERSHIP_PATH"
    using raw by (simp_all add: reader)
  have closed: "\<not> ends_with (st_document t) [CHR 0x0D]" if "newline_of (st_document t) = Lf"
  proof (cases ar)
    case (Some document)
    then have "old AGENTS_PATH = Some document" "st_document t = document"
      using read(1) t(1) by simp_all
    with lone that show ?thesis by simp
  qed (use t(1) in \<open>simp add: ends_with_char\<close>)
  from plan_documents_ok [OF written [unfolded eq]] obtain span after span' where
    p: "managed_span_of (st_document t) = Inr span"
    "plan_agents t span (render_block (tm_block tm) (source_newline t)) = Inr after"
    "managed_span_of after = Inr (Some span')"
    and files: "plan = plan_files sha256 json target tm ar pr orr ow
         (map_option (sha256_hex sha256)
            (case span of None \<Rightarrow> None | Some span \<Rightarrow> managed_span_slice span (st_document t)))
         after (case managed_span_slice span' after of None \<Rightarrow> [] | Some block \<Rightarrow> block)"
    unfolding eq by blast
  have settled: "settled (tm_block tm) after"
    using plan_agents_settles [OF whole t(2) closed p(1,2)] p(3) by simp
  let ?block = "render_block (tm_block tm) (newline_of after)"
  have block: "(case managed_span_slice span' after of None \<Rightarrow> [] | Some block \<Rightarrow> block) = ?block"
    using settled p(3) placed_slice by (fastforce simp: settled_def placed_def managed_span_of_def)
  from plan_files_ok [OF written [unfolded files]] obtain w where
    rows: "rp_files plan = concat (map (file_row sha256) [(AGENTS_PATH, ar, Some after),
      (POLICY_PATH, pr, Some (tm_policy tm)), (OWNERSHIP_PATH, orr, w)])"
    and w: "(\<exists>owner. w = None \<and> ow = Some owner \<and> ow_managed_block_sha256 owner = sha256_hex sha256 ?block \<and>
        ow_policy_sha256 owner = sha256_hex sha256 (tm_policy tm)) \<or>
     (\<exists>bytes. w = Some bytes \<and>
        ownership_encode json (ownership_new sha256 (tm_version tm) ?block (tm_policy tm)) = Inr bytes)"
    unfolding files block by blast
  note held = three_rows_read [OF new rows [unfolded read]]
  have "\<exists>bytes owner. new OWNERSHIP_PATH = Some bytes \<and> ownership_parse json bytes = Inr owner \<and>
      ow_managed_block_sha256 owner = sha256_hex sha256 ?block \<and>
      ow_policy_sha256 owner = sha256_hex sha256 (tm_policy tm)"
    using w
  proof (elim disjE exE conjE)
    fix owner
    assume "w = None" "ow = Some owner" "ow_managed_block_sha256 owner = sha256_hex sha256 ?block"
      "ow_policy_sha256 owner = sha256_hex sha256 (tm_policy tm)"
    with ow held(3) read(3) show ?thesis by (cases "old OWNERSHIP_PATH") auto
  next
    fix bytes
    assume "w = Some bytes"
      "ownership_encode json (ownership_new sha256 (tm_version tm) ?block (tm_policy tm)) = Inr bytes"
    with encoded_manifest_parses [of json sha256, OF json sha version] held(3) show ?thesis
      by (auto simp: ownership_new_def)
  qed
  then obtain bytes owner where owner: "new OWNERSHIP_PATH = Some bytes"
    "ownership_parse json bytes = Inr owner" "sha256_hex sha256 ?block = ow_managed_block_sha256 owner"
    "sha256_hex sha256 (tm_policy tm) = ow_policy_sha256 owner" by auto
  have "utf8 after" using settled by (simp add: settled_def)
  then have "plan_repository lower sha256 json (target\<lparr>rt_reader := \<lambda>p. Inr (new p)\<rparr>) tm =
      Inr (plan_documents sha256 json (target\<lparr>rt_reader := \<lambda>p. Inr (new p)\<rparr>) tm (Some after)
        (Some (tm_policy tm)) (Some bytes)
        \<lparr>st_document = after, st_bom = starts_with_bom after\<rparr> (Some owner))"
    using points held(1,2) owner(1,2)
    by (simp add: plan_repository_def source_decode_def utf8_def)
  moreover have "st_document \<lparr>st_document = after, st_bom = starts_with_bom after\<rparr> = after" by simp
  ultimately show ?thesis
    using plan_documents_settled [OF settled _ owner(3,4)] by blast
qed

text \<open>C25: Applying a bootstrap plan a second time changes nothing: once the files of a plan are written,
  planning the repository again reports it unchanged and writes no file, provided the template is one
  whole managed block with a version that is not blank and the old document, where its line ends are LF, does not
  end in a lone carriage return.\<close>

theorem reapplied_plan_changes_nothing:
  assumes json: "json_reads_back json" and sha: "\<And>bytes. length (sha256 bytes) = 32"
    and version: "str_trim (tm_version tm) \<noteq> []"
    and whole: "whole_block BEGIN_MARKER END_MARKER (tm_block tm)"
    and reader: "rt_reader target = map_read files"
    and lone: "\<And>document. bt_get files AGENTS_PATH = Some document \<Longrightarrow> newline_of document = Lf \<Longrightarrow>
      \<not> ends_with document [CHR 0x0D]"
    and plan: "plan_repository lower sha256 json target tm = Inr plan"
    and written: "rp_change plan \<noteq> ClassConflict"
  shows "\<exists>again. plan_repository lower sha256 json
      (target\<lparr>rt_reader := map_read (apply_files files (rp_files plan))\<rparr>) tm = Inr again \<and>
    rp_change again = ClassUnchanged \<and> rp_files again = []"
proof -
  have read: "map_read m = (\<lambda>p. Inr (bt_get m p))" for m by (simp add: map_read_def fun_eq_iff)
  from replanned_unchanged [OF json sha version whole reader [unfolded read] lone plan written
      apply_files_reads_after] show ?thesis by (simp add: read)
qed

text \<open>C23: A bootstrap plan never overwrites what bootstrap does not own: it writes only its three files;
  outside the old managed block, whose digest the manifest records, the document stays byte for byte,
  and the policy is written only where there is none or where its recorded digest still matches.\<close>

theorem plan_writes_only_owned_content:
  assumes "plan_repository lower sha256 json target tm = Inr plan"
    and "change \<in> set (rp_files plan)"
  shows "fc_path change = AGENTS_PATH \<and>
      (\<exists>document head old new tail. rt_reader target AGENTS_PATH = Inr document \<and>
        (case document of None \<Rightarrow> [] | Some bytes \<Rightarrow> bytes) = head @ old @ tail \<and>
        fc_bytes change = head @ new @ tail \<and>
        (old = [] \<or> (\<exists>bytes owner. rt_reader target OWNERSHIP_PATH = Inr (Some bytes) \<and>
           ownership_parse json bytes = Inr owner \<and> ow_managed_block_sha256 owner = sha256_hex sha256 old))) \<or>
    fc_path change = POLICY_PATH \<and> fc_bytes change = tm_policy tm \<and>
      (rt_reader target POLICY_PATH = Inr None \<or>
       (\<exists>policy bytes owner. rt_reader target POLICY_PATH = Inr (Some policy) \<and>
          rt_reader target OWNERSHIP_PATH = Inr (Some bytes) \<and>
          ownership_parse json bytes = Inr owner \<and> ow_policy_sha256 owner = sha256_hex sha256 policy)) \<or>
    fc_path change = OWNERSHIP_PATH"
proof -
  have written: "rp_change plan \<noteq> ClassConflict"
  proof
    assume "rp_change plan = ClassConflict"
    with refused_writes_nothing [OF assms(1)] assms(2) show False by simp
  qed
  obtain ar pr orr t ow where
    "ensure_block_points_at_policy lower (tm_block tm) = Inr ()" and read: "rt_reader target AGENTS_PATH = Inr ar" "rt_reader target POLICY_PATH = Inr pr"
      "rt_reader target OWNERSHIP_PATH = Inr orr"
    and t: "st_document t = (case ar of None \<Rightarrow> [] | Some bytes \<Rightarrow> bytes)" "utf8 (st_document t)"
    and ow: "(case orr of None \<Rightarrow> ow = None | Some bytes \<Rightarrow> \<exists>owner. ow = Some owner \<and> ownership_parse json bytes = Inr owner)"
    and eq: "plan = plan_documents sha256 json target tm ar pr orr t ow"
    by (rule plan_repository_ok [OF assms(1) written])
  from plan_documents_ok [OF written [unfolded eq]] obtain span after block bb where
    quiet: "plan_refusal sha256 ow span (st_document t) pr = None"
    and agents: "plan_agents t span (render_block (tm_block tm) (source_newline t)) = Inr after"
    and files: "plan = plan_files sha256 json target tm ar pr orr ow bb after block"
    unfolding eq by metis
  have owned: "ow = None \<and> span = None \<and> pr = None \<or>
      (\<exists>owner sp old policy. ow = Some owner \<and> span = Some sp \<and>
        managed_span_slice sp (st_document t) = Some old \<and> pr = Some policy \<and>
        ow_managed_block_sha256 owner = sha256_hex sha256 old \<and>
        ow_policy_sha256 owner = sha256_hex sha256 policy)"
    using quiet
    by (cases ow; cases span; cases pr)
      (auto simp: plan_refusal_def plan_policy_def detect_drift_None Let_def split: option.splits sum.splits)
  have parsed: "\<exists>bytes. orr = Some bytes \<and> ownership_parse json bytes = Inr owner" if "ow = Some owner" for owner
    using ow that by (cases orr) auto
  have cut: "\<exists>head old new tail. st_document t = head @ old @ tail \<and> after = head @ new @ tail \<and>
      (old = [] \<or> (\<exists>owner. ow = Some owner \<and> ow_managed_block_sha256 owner = sha256_hex sha256 old))"
  proof (cases span)
    case None
    with agents obtain rest where "after = st_document t @ rest @ []"
      by (auto simp: plan_agents_def source_append_block_def append_block_def Let_def)
    moreover have "st_document t = st_document t @ [] @ []" by simp
    ultimately show ?thesis by blast
  next
    case (Some sp)
    with owned obtain owner old where owner: "ow = Some owner"
      "managed_span_slice sp (st_document t) = Some old" "ow_managed_block_sha256 owner = sha256_hex sha256 old"
      by auto
    let ?d = "st_document t"
    have old: "old = take (ms_end sp - ms_start sp) (drop (ms_start sp) ?d)" "ms_start sp \<le> ms_end sp"
      using owner(2) by (auto simp: managed_span_slice_def str_get_def split: if_splits)
    have "?d = take (ms_start sp) ?d @ old @ drop (ms_end sp) ?d"
      using old by (metis append_take_drop_id drop_drop le_add_diff_inverse2)
    moreover have "after = take (ms_start sp) ?d @ render_block (tm_block tm) (source_newline t) @ drop (ms_end sp) ?d"
      using agents Some by (simp add: plan_agents_def replace_span_ok)
    ultimately show ?thesis using owner by blast
  qed
  from plan_files_ok [OF written [unfolded files]] obtain w where
    "rp_files plan = concat (map (file_row sha256) [(AGENTS_PATH, ar, Some after),
      (POLICY_PATH, pr, Some (tm_policy tm)), (OWNERSHIP_PATH, orr, w)])"
    unfolding files by blast
  then have kind: "fc_path change = AGENTS_PATH \<and> fc_bytes change = after \<or>
      fc_path change = POLICY_PATH \<and> fc_bytes change = tm_policy tm \<or> fc_path change = OWNERSHIP_PATH"
    using assms(2) by (auto simp: file_row_def split: option.splits if_splits)
  from kind show ?thesis
  proof (elim disjE conjE)
    assume agents: "fc_path change = AGENTS_PATH" "fc_bytes change = after"
    from cut obtain head old new tail where cut: "st_document t = head @ old @ tail" "after = head @ new @ tail"
      and old: "old = [] \<or> (\<exists>owner. ow = Some owner \<and> ow_managed_block_sha256 owner = sha256_hex sha256 old)"
      by blast
    have "old = [] \<or> (\<exists>bytes owner. rt_reader target OWNERSHIP_PATH = Inr (Some bytes) \<and>
        ownership_parse json bytes = Inr owner \<and> ow_managed_block_sha256 owner = sha256_hex sha256 old)"
      using old parsed read(3) by auto
    with cut agents read(1) t(1) show ?thesis
      by - (rule disjI1, rule conjI, simp, rule exI [of _ ar], rule exI [of _ head],
          rule exI [of _ old], rule exI [of _ new], rule exI [of _ tail], simp)
  next
    assume "fc_path change = POLICY_PATH" "fc_bytes change = tm_policy tm"
    moreover have "pr = None \<or> (\<exists>policy bytes owner. pr = Some policy \<and> orr = Some bytes \<and>
        ownership_parse json bytes = Inr owner \<and> ow_policy_sha256 owner = sha256_hex sha256 policy)"
      using owned parsed by auto
    ultimately show ?thesis using read by auto
  qed auto
qed

text \<open>A repository without a policy or a manifest gets its block, its policy and its manifest.\<close>

lemma fresh_plan:
  assumes whole: "whole_block BEGIN_MARKER END_MARKER (tm_block tm)"
    and points: "ensure_block_points_at_policy lower (tm_block tm) = Inr ()"
    and read: "rt_reader target AGENTS_PATH = Inr (Some document)" "rt_reader target POLICY_PATH = Inr None"
      "rt_reader target OWNERSHIP_PATH = Inr None"
    and document: "utf8 document" "managed_span_of document = Inr None"
      "snd (scan BEGIN_MARKER END_MARKER document) = None"
    and encoded: "ownership_encode json (ownership_new sha256 (tm_version tm)
      (render_block (tm_block tm) (newline_of document)) (tm_policy tm)) = Inr bytes"
  shows "\<exists>plan. plan_repository lower sha256 json target tm = Inr plan \<and> rp_change plan = ClassAppend \<and>
    map fc_path (rp_files plan) = [AGENTS_PATH, POLICY_PATH, OWNERSHIP_PATH] \<and>
    map fc_bytes (rp_files plan) =
      [append_block document (render_block (tm_block tm) (newline_of document)) (newline_of document), tm_policy tm, bytes]"
proof -
  let ?n = "newline_of document" and ?t = "\<lparr>st_document = document, st_bom = starts_with_bom document\<rparr>"
  let ?block = "render_block (tm_block tm) ?n"
  let ?after = "append_block document ?block ?n"
  have none: "managed_span_with document BEGIN_MARKER END_MARKER = Inr None"
    using document(2) by (simp add: managed_span_of_def)
  obtain span where placed: "placed BEGIN_MARKER END_MARKER ?after span ?block"
    using appended_block [OF whole none document(3) refl] by blast
  have span: "managed_span_of ?after = Inr (Some span)"
    using placed by (simp add: placed_def managed_span_of_def)
  have docs: "plan_documents sha256 json target tm (Some document) None None ?t None =
      plan_files sha256 json target tm (Some document) None None None None ?after ?block"
    by (simp add: plan_documents_def document(2) plan_refusal_def plan_agents_def source_append_block_def
        source_newline_def span placed_slice [OF placed])
  have "?after \<noteq> document" by (simp add: append_block_parts)
  then have "rp_change (plan_files sha256 json target tm (Some document) None None None None ?after ?block) = ClassAppend"
    "map fc_path (rp_files (plan_files sha256 json target tm (Some document) None None None None ?after ?block)) =
      [AGENTS_PATH, POLICY_PATH, OWNERSHIP_PATH]"
    "map fc_bytes (rp_files (plan_files sha256 json target tm (Some document) None None None None ?after ?block)) =
      [?after, tm_policy tm, bytes]"
    using encoded by (simp_all add: plan_files_def after_ownership_def file_row_def Let_def)
  moreover have "plan_repository lower sha256 json target tm =
      Inr (plan_documents sha256 json target tm (Some document) None None ?t None)"
    using document(1) by (simp add: plan_repository_def points read source_decode_def utf8_def)
  ultimately show ?thesis using docs by simp
qed

section \<open>A repository\<close>

text \<open>A one-line document, a template of one line between its markers, and a constant digest.\<close>

definition sample_sha :: "string \<Rightarrow> string" where
  "sample_sha bytes = replicate 32 CHR ''a''"

definition sample_templates :: templates where
  "sample_templates =
     \<lparr>tm_block = BEGIN_MARKER @ CHR 0x0A # ''read .axiom/agent/POLICY.md'' @ CHR 0x0A # END_MARKER @ [CHR 0x0A],
      tm_policy = ''p'', tm_version = ''2''\<rparr>"

definition sample_files :: "(string, string) btree_map" where
  "sample_files = [(AGENTS_PATH, ''hi'' @ [CHR 0x0A])]"

definition sample_target :: repository_target where
  "sample_target = \<lparr>rt_repository_id = ''r'', rt_root = ''/r'', rt_reader = map_read sample_files\<rparr>"

lemma sample_whole: "whole_block BEGIN_MARKER END_MARKER (tm_block sample_templates)"
  by code_simp

lemma sample_plan:
  "\<exists>plan. plan_repository to_ascii_lowercase sample_sha plain_json sample_target sample_templates = Inr plan \<and>
     rp_change plan = ClassAppend \<and> map fc_path (rp_files plan) = [AGENTS_PATH, POLICY_PATH, OWNERSHIP_PATH]"
proof -
  let ?document = "''hi'' @ [CHR 0x0A]"
  have facts: "ensure_block_points_at_policy to_ascii_lowercase (tm_block sample_templates) = Inr ()"
    "bt_get sample_files AGENTS_PATH = Some ?document" "bt_get sample_files POLICY_PATH = None"
    "bt_get sample_files OWNERSHIP_PATH = None" "utf8 ?document" "managed_span_of ?document = Inr None"
    "snd (scan BEGIN_MARKER END_MARKER ?document) = None"
    by code_simp+
  have "list_all plain_text (plain_parts (ownership_new sample_sha (tm_version sample_templates)
      (render_block (tm_block sample_templates) (newline_of ?document)) (tm_policy sample_templates)))"
    by code_simp
  then obtain bytes where bytes: "ownership_encode plain_json (ownership_new sample_sha (tm_version sample_templates)
      (render_block (tm_block sample_templates) (newline_of ?document)) (tm_policy sample_templates)) = Inr bytes"
    by (simp add: ownership_encode_def canonical_value_def plain_json_def ownership_new_def
        OWNERSHIP_SCHEMA_VERSION_def)
  have reads: "rt_reader sample_target AGENTS_PATH = Inr (Some ?document)"
    "rt_reader sample_target POLICY_PATH = Inr None" "rt_reader sample_target OWNERSHIP_PATH = Inr None"
    using facts(2-4) by (simp_all add: sample_target_def map_read_def)
  from fresh_plan [OF sample_whole facts(1) reads facts(5-7) bytes] show ?thesis by (elim exE conjE) (intro exI conjI)
qed

theorem reapplied_plan_changes_nothing_witness:
  "\<exists>plan again. plan_repository to_ascii_lowercase sample_sha plain_json sample_target sample_templates = Inr plan \<and>
     map fc_path (rp_files plan) = [AGENTS_PATH, POLICY_PATH, OWNERSHIP_PATH] \<and>
     plan_repository to_ascii_lowercase sample_sha plain_json
       (sample_target\<lparr>rt_reader := map_read (apply_files sample_files (rp_files plan))\<rparr>) sample_templates = Inr again \<and>
     rp_change again = ClassUnchanged \<and> rp_files again = []"
proof -
  obtain plan where plan: "plan_repository to_ascii_lowercase sample_sha plain_json sample_target sample_templates = Inr plan"
    "rp_change plan = ClassAppend" "map fc_path (rp_files plan) = [AGENTS_PATH, POLICY_PATH, OWNERSHIP_PATH]"
    using sample_plan by (elim exE conjE)
  have version: "str_trim (tm_version sample_templates) \<noteq> []" by code_simp
  have lone: "\<not> ends_with document [CHR 0x0D]" if "bt_get sample_files AGENTS_PATH = Some document" "newline_of document = Lf" for document
    using that(1) by (auto simp: sample_files_def bt_get_def AGENTS_PATH_def ends_with_char)
  have reader: "rt_reader sample_target = map_read sample_files" by (simp add: sample_target_def)
  have "rp_change plan \<noteq> ClassConflict" using plan(2) by simp
  have sha: "length (sample_sha bytes) = 32" for bytes by (simp add: sample_sha_def)
  note again = reapplied_plan_changes_nothing [of plain_json sample_sha, OF plain_json_reads_back sha
      version sample_whole reader lone plan(1) \<open>rp_change plan \<noteq> ClassConflict\<close>]
  show ?thesis
    by (rule exI [of _ plan], rule exE [OF again], assumption+,
        rule exI, intro conjI plan(1,3); (elim conjE)?, assumption)
qed

theorem plan_writes_only_owned_content_witness:
  "\<exists>plan change. plan_repository to_ascii_lowercase sample_sha plain_json sample_target sample_templates = Inr plan \<and>
     change \<in> set (rp_files plan) \<and> fc_path change = POLICY_PATH \<and> fc_bytes change = ''p''"
proof -
  obtain plan where plan: "plan_repository to_ascii_lowercase sample_sha plain_json sample_target sample_templates = Inr plan"
    "map fc_path (rp_files plan) = [AGENTS_PATH, POLICY_PATH, OWNERSHIP_PATH]"
    using sample_plan by (elim exE conjE)
  have "POLICY_PATH \<in> fc_path ` set (rp_files plan)" unfolding set_map [symmetric] plan(2) by simp
  then obtain change where change: "change \<in> set (rp_files plan)" "fc_path change = POLICY_PATH" by auto
  from plan_writes_only_owned_content [OF plan(1) change(1)] change(2) paths_distinct
  have "fc_bytes change = tm_policy sample_templates" by auto
  with plan(1) change show ?thesis by (auto simp: sample_templates_def)
qed

end
