(* ===== verification/BootGitignore.thy ===== *)
theory BootGitignore
  imports BootIgnore BootPlan
begin

text \<open>
  Planning the managed ignore span, the first half of \<^verbatim>\<open>axiom/src/bootstrap/gitignore.rs\<close>: the fragment
  is rendered with the line ends of the existing file and replaces its managed span, or is appended.
\<close>

definition GITIGNORE_PATH :: string where "GITIGNORE_PATH = ''.gitignore''"
definition GITIGNORE_BEGIN_MARKER :: string where
  "GITIGNORE_BEGIN_MARKER = ''# BEGIN axiom-graph generated runtime ignores''"
definition GITIGNORE_END_MARKER :: string where
  "GITIGNORE_END_MARKER = ''# END axiom-graph generated runtime ignores''"
definition RULE_GITIGNORE_MARKERS :: string where "RULE_GITIGNORE_MARKERS = ''gitignore-markers''"
definition RULE_GITIGNORE_FRAGMENT :: string where "RULE_GITIGNORE_FRAGMENT = ''gitignore-fragment''"

definition marker_refusal :: "marker_conflict \<Rightarrow> axiom_error" where
  "marker_refusal marker_conflict =
     with_detail (with_detail (refuse RULE_GITIGNORE_MARKERS
       (''refusing an ambiguous managed ignore span: '' @ marker_conflict_message marker_conflict))
       ''field'' ''gitignore'') ''observed'' (marker_conflict_str marker_conflict)"

definition not_a_fragment :: "string \<Rightarrow> axiom_error" where
  "not_a_fragment observed =
     with_detail (with_detail (refuse RULE_GITIGNORE_FRAGMENT
       ''the ignore fragment must be exactly one managed span'')
       ''field'' ''fragment'') ''observed'' observed"

definition gitignore_span :: "string \<Rightarrow> managed_span option result" where
  "gitignore_span document =
     (case managed_span_with document GITIGNORE_BEGIN_MARKER GITIGNORE_END_MARKER of
        Inl marker_conflict \<Rightarrow> Inl (marker_refusal marker_conflict)
      | Inr span \<Rightarrow> Inr span)"

definition or_empty :: "string option \<Rightarrow> string" where
  "or_empty s = (case s of None \<Rightarrow> [] | Some s \<Rightarrow> s)"

definition fragment_block :: "string \<Rightarrow> newline \<Rightarrow> string result" where
  "fragment_block fragment newline =
     (case gitignore_span fragment of
        Inl e \<Rightarrow> Inl e
      | Inr None \<Rightarrow> Inl (not_a_fragment ''no managed span'')
      | Inr (Some span) \<Rightarrow>
          (if str_trim (or_empty (get_to fragment (ms_start span))) \<noteq> [] \<or>
              str_trim (or_empty (get_from fragment (ms_end span))) \<noteq> []
           then Inl (not_a_fragment ''the fragment carries text outside its span'')
           else Inr (render_block fragment newline)))"

record gitignore_plan =
  gp_path :: string
  gp_change :: change_class
  gp_file :: "file_change option"

definition gp_would_write :: "gitignore_plan \<Rightarrow> bool" where
  "gp_would_write plan \<longleftrightarrow> gp_file plan \<noteq> None"

definition gp_after_sha256 :: "gitignore_plan \<Rightarrow> string option" where
  "gp_after_sha256 plan = map_option fc_after_sha256 (gp_file plan)"

definition gitignore_unchanged :: gitignore_plan where
  "gitignore_unchanged = \<lparr>gp_path = GITIGNORE_PATH, gp_change = ClassUnchanged, gp_file = None\<rparr>"

text \<open>The file written for a changed document.\<close>

definition gitignore_write ::
  "(string \<Rightarrow> string) \<Rightarrow> string option \<Rightarrow> managed_span option \<Rightarrow> string \<Rightarrow> string \<Rightarrow> gitignore_plan" where
  "gitignore_write sha256 existing span before after =
     (if after = before then gitignore_unchanged
      else \<lparr>gp_path = GITIGNORE_PATH,
            gp_change = (if span \<noteq> None then ClassReplace else ClassAppend),
            gp_file = Some \<lparr>fc_path = GITIGNORE_PATH,
              fc_before_sha256 = map_option (sha256_hex sha256) existing,
              fc_after_sha256 = sha256_hex sha256 after,
              fc_diff = unified_diff GITIGNORE_PATH before
                (case from_utf8 after of Inl _ \<Rightarrow> [] | Inr s \<Rightarrow> s),
              fc_bytes = after\<rparr>\<rparr>)"

definition plan_gitignore :: "(string \<Rightarrow> string) \<Rightarrow> string option \<Rightarrow> string \<Rightarrow> gitignore_plan result" where
  "plan_gitignore sha256 existing fragment =
     (case (case existing of Some bytes \<Rightarrow> source_decode bytes | None \<Rightarrow> Inr (source_from_text [])) of
        Inl e \<Rightarrow> Inl e
      | Inr source \<Rightarrow>
          (case fragment_block fragment (source_newline source) of
             Inl e \<Rightarrow> Inl e
           | Inr block \<Rightarrow>
               (let before = st_document source
                in case gitignore_span before of
                     Inl e \<Rightarrow> Inl e
                   | Inr None \<Rightarrow>
                       Inr (gitignore_write sha256 existing None before (source_append_block source block))
                   | Inr (Some span) \<Rightarrow>
                       (if or_empty (managed_span_slice span before) = block then Inr gitignore_unchanged
                        else (case replace_span source span block of
                            Inl e \<Rightarrow> Inl e
                          | Inr after \<Rightarrow> Inr (gitignore_write sha256 existing (Some span) before after))))))"

section \<open>Lemmas\<close>

lemma fragment_block_ok: "fragment_block fragment n = Inr block \<Longrightarrow> block = render_block fragment n"
  by (auto simp: fragment_block_def split: sum.splits option.splits if_splits)

lemma fragment_block_other: "fragment_block fragment n = Inr block \<Longrightarrow>
    fragment_block fragment m = Inr (render_block fragment m)"
  by (auto simp: fragment_block_def split: sum.splits option.splits if_splits)

lemma gitignore_span_ok: "gitignore_span document = Inr span \<longleftrightarrow>
    managed_span_with document GITIGNORE_BEGIN_MARKER GITIGNORE_END_MARKER = Inr span"
  by (auto simp: gitignore_span_def split: sum.splits)

lemma gitignore_write_file:
  "gp_file (gitignore_write sha256 existing span before after) = Some change \<Longrightarrow> fc_bytes change = after"
  by (auto simp: gitignore_write_def gitignore_unchanged_def split: if_splits)

text \<open>A document in which the rendered fragment is the managed span is left as it is.\<close>

lemma plan_gitignore_settled:
  assumes "utf8 after"
    and "placed GITIGNORE_BEGIN_MARKER GITIGNORE_END_MARKER after span (render_block fragment (newline_of after))"
    and "fragment_block fragment n = Inr block"
  shows "plan_gitignore sha256 (Some after) fragment = Inr gitignore_unchanged"
proof -
  have "gitignore_span after = Inr (Some span)"
    using assms(2) by (simp add: gitignore_span_ok placed_def)
  then show ?thesis
    using assms(1) fragment_block_other [OF assms(3)] placed_slice [OF assms(2)]
    by (simp add: plan_gitignore_def source_decode_def utf8_def source_newline_def or_empty_def)
qed

text \<open>Planning the ignore rules again after writing them changes nothing: for a fragment that is one
  whole block, once the planned file is in place the next plan is unchanged and writes no file, when
  the old file closes its code fences and does not end in a lone carriage return.\<close>

theorem gitignore_reapply_is_unchanged:
  assumes whole: "whole_block GITIGNORE_BEGIN_MARKER GITIGNORE_END_MARKER fragment"
    and plan: "plan_gitignore sha256 (Some document) fragment = Inr plan"
    and change: "gp_file plan = Some change"
    and closed: "snd (scan GITIGNORE_BEGIN_MARKER GITIGNORE_END_MARKER document) = None"
    and lone: "newline_of document = Lf \<Longrightarrow> \<not> ends_with document [CHR 0x0D]"
  shows "plan_gitignore sha256 (Some (fc_bytes change)) fragment = Inr gitignore_unchanged"
proof -
  let ?n = "newline_of document" and ?t = "\<lparr>st_document = document, st_bom = starts_with_bom document\<rparr>"
  have document: "utf8 document" "source_decode document = Inr ?t"
  proof -
    obtain t where t: "source_decode document = Inr t"
      using plan by (cases "source_decode document") (simp_all add: plan_gitignore_def)
    then show "utf8 document" "source_decode document = Inr ?t"
      by (auto simp: source_decode_def from_utf8_iff split: sum.splits)
  qed
  then have n: "source_newline ?t = ?n" by (simp add: source_newline_def)
  obtain block where block: "fragment_block fragment ?n = Inr block" "block = render_block fragment ?n"
    using plan fragment_block_ok [of fragment ?n]
    by (cases "fragment_block fragment ?n") (auto simp: plan_gitignore_def document(2) n)
  obtain span where span: "gitignore_span document = Inr span"
    using plan by (cases "gitignore_span document")
      (auto simp: plan_gitignore_def document(2) n block(1) Let_def)
  have "utf8 (fc_bytes change) \<and> newline_of (fc_bytes change) = ?n \<and>
      (\<exists>place. placed GITIGNORE_BEGIN_MARKER GITIGNORE_END_MARKER (fc_bytes change) place (render_block fragment ?n))"
  proof (cases span)
    case None
    have "plan = gitignore_write sha256 (Some document) None document (source_append_block ?t block)"
      using plan by (simp add: plan_gitignore_def document(2) n block(1) span None Let_def)
    then have bytes: "fc_bytes change = append_block document (render_block fragment ?n) ?n"
      using gitignore_write_file [of sha256 "Some document" None document] change block(2)
      by (simp add: source_append_block_def n)
    have "managed_span_with document GITIGNORE_BEGIN_MARKER GITIGNORE_END_MARKER = Inr None"
      using span None gitignore_span_ok by simp
    from appended_block [OF whole this closed refl] show ?thesis
      unfolding bytes using newline_appended [OF whole refl lone] utf8_appended [OF whole document(1)] by simp
  next
    case (Some sp)
    have differs: "or_empty (managed_span_slice sp document) \<noteq> block"
      using plan change by (auto simp: plan_gitignore_def document(2) n block(1) span Some Let_def gitignore_unchanged_def)
    obtain after where after: "replace_span ?t sp block = Inr after"
      "plan = gitignore_write sha256 (Some document) (Some sp) document after"
      using plan differs by (cases "replace_span ?t sp block")
        (auto simp: plan_gitignore_def document(2) n block(1) span Some Let_def)
    then have bytes: "fc_bytes change = after"
      using gitignore_write_file change by blast
    have "managed_span_with (st_document ?t) GITIGNORE_BEGIN_MARKER GITIGNORE_END_MARKER = Inr (Some sp)"
      using span Some gitignore_span_ok by simp
    from replaced_block [OF whole this, of ?n after] after(1) document(1) block(2)
    show ?thesis unfolding bytes block(2) [symmetric] by auto
  qed
  then show ?thesis using plan_gitignore_settled [OF _ _ block(1)] by metis
qed

definition sample_fragment :: string where
  "sample_fragment = GITIGNORE_BEGIN_MARKER @ CHR 0x0A # ''.axiom/tmp/'' @ CHR 0x0A # GITIGNORE_END_MARKER @ [CHR 0x0A]"

theorem gitignore_reapply_is_unchanged_witness:
  "\<exists>plan change. plan_gitignore id (Some ''target'') sample_fragment = Inr plan \<and>
     gp_change plan = ClassAppend \<and> gp_file plan = Some change \<and>
     plan_gitignore id (Some (fc_bytes change)) sample_fragment = Inr gitignore_unchanged"
proof -
  let ?document = "''target''"
  have facts: "from_utf8 ?document = Inr ?document" "newline_of ?document = Lf"
      "gitignore_span ?document = Inr None" "snd (scan GITIGNORE_BEGIN_MARKER GITIGNORE_END_MARKER ?document) = None"
      "fragment_block sample_fragment Lf = Inr (render_block sample_fragment Lf)"
    by code_simp+
  have whole: "whole_block GITIGNORE_BEGIN_MARKER GITIGNORE_END_MARKER sample_fragment"
    by code_simp
  let ?plan = "gitignore_write id (Some ?document) None ?document
      (append_block ?document (render_block sample_fragment Lf) Lf)"
  have plan: "plan_gitignore id (Some ?document) sample_fragment = Inr ?plan"
    using facts by (simp add: plan_gitignore_def source_decode_def source_newline_def source_append_block_def Let_def)
  have "append_block ?document (render_block sample_fragment Lf) Lf \<noteq> ?document"
    by (simp add: append_block_parts separation_def)
  then obtain change where change: "gp_file ?plan = Some change" "gp_change ?plan = ClassAppend"
    by (simp add: gitignore_write_def)
  have "\<not> ends_with ?document [CHR 0x0D]" by code_simp
  from gitignore_reapply_is_unchanged [OF whole plan change(1) facts(4) this] plan change show ?thesis
    by (intro exI conjI)
qed

section \<open>Where the plan is not stable\<close>

text \<open>Behind an open code fence the appended block is not found again, so every run appends another.\<close>

lemma gitignore_grows_behind_open_fence:
  "let document = ''```'';
       once = append_block document (render_block sample_fragment Lf) Lf;
       twice = append_block once (render_block sample_fragment Lf) Lf
   in gitignore_span once = Inr None \<and> gitignore_span twice = Inr None \<and> length once < length twice"
  by code_simp

text \<open>A line feed put after a lone carriage return turns a file without one into a CRLF file.\<close>

lemma appended_block_changes_convention:
  "newline_of (''a'' @ [CHR 0x0D]) = Lf \<and>
     newline_of (append_block (''a'' @ [CHR 0x0D]) ''b'' Lf) = Crlf"
  by code_simp

end
