(* ===== verification/BootReview.thy ===== *)
theory BootReview
  imports BootPlan
begin

text \<open>
  The reviewable plan document of \<^verbatim>\<open>axiom/src/bootstrap/plan.rs\<close>: the plans of all repositories bound
  to a digest of their own canonical bytes, its parser and its rendering.
\<close>

record bootstrap_plan =
  bp_schema_version :: u32
  bp_template_version :: string
  bp_block_template_sha256 :: string
  bp_policy_template_sha256 :: string
  bp_repositories :: "repository_plan list"
  bp_digest :: string

definition encode_body :: "(bootstrap_plan, 'v) json_lib \<Rightarrow> bootstrap_plan \<Rightarrow> string result" where
  "encode_body json plan =
     (case to_value json plan of
        Inl error \<Rightarrow> Inl (refuse RULE_PLAN_MALFORMED (''plan cannot be encoded: '' @ error))
      | Inr value \<Rightarrow>
          (case canonical_value json value of
             Inl message \<Rightarrow> Inl (refuse RULE_PLAN_MALFORMED message)
           | Inr encoded \<Rightarrow> Inr encoded))"

definition compute_digest ::
  "(string \<Rightarrow> string) \<Rightarrow> (bootstrap_plan, 'v) json_lib \<Rightarrow> bootstrap_plan \<Rightarrow> string result" where
  "compute_digest sha256 json plan =
     (case encode_body json (plan\<lparr>bp_digest := []\<rparr>) of
        Inl e \<Rightarrow> Inl e
      | Inr body \<Rightarrow> Inr (sha256_hex sha256 body))"

definition bootstrap_plan_new ::
  "(string \<Rightarrow> string) \<Rightarrow> (bootstrap_plan, 'v) json_lib \<Rightarrow> repository_plan list \<Rightarrow> templates \<Rightarrow> bootstrap_plan result" where
  "bootstrap_plan_new sha256 json repositories tm =
     (let plan = \<lparr>bp_schema_version = BOOTSTRAP_SCHEMA_VERSION, bp_template_version = tm_version tm,
                  bp_block_template_sha256 = block_sha256 sha256 tm,
                  bp_policy_template_sha256 = policy_sha256 sha256 tm,
                  bp_repositories = repositories, bp_digest = []\<rparr>
      in case compute_digest sha256 json plan of
           Inl e \<Rightarrow> Inl e
         | Inr digest \<Rightarrow> Inr (plan\<lparr>bp_digest := digest\<rparr>))"

definition to_canonical_bytes :: "(bootstrap_plan, 'v) json_lib \<Rightarrow> bootstrap_plan \<Rightarrow> string result" where
  "to_canonical_bytes json plan =
     (case encode_body json plan of Inl e \<Rightarrow> Inl e | Inr body \<Rightarrow> Inr (body @ [CHR 0x0A]))"

definition bootstrap_plan_parse ::
  "(string \<Rightarrow> string) \<Rightarrow> (bootstrap_plan, 'v) json_lib \<Rightarrow> string \<Rightarrow> bootstrap_plan result" where
  "bootstrap_plan_parse sha256 json bytes =
     (case from_utf8 bytes of
        Inl error \<Rightarrow> Inl (refuse RULE_PLAN_MALFORMED (''plan is not UTF-8: '' @ utf8_error_display error))
      | Inr decoded \<Rightarrow>
          (case from_text json decoded of
             Inl error \<Rightarrow> Inl (refuse RULE_PLAN_MALFORMED (''plan is malformed: '' @ error))
           | Inr parsed \<Rightarrow>
               if bp_schema_version parsed \<noteq> BOOTSTRAP_SCHEMA_VERSION then
                 Inl (with_detail (refuse RULE_PLAN_MALFORMED
                   (''unsupported plan schema '' @ show_nat (bp_schema_version parsed)))
                   ''field'' ''schema_version'')
               else
                 (case compute_digest sha256 json parsed of
                    Inl e \<Rightarrow> Inl e
                  | Inr expected \<Rightarrow>
                      if bp_digest parsed \<noteq> expected then
                        Inl (with_detail (with_detail (refuse RULE_PLAN_DIGEST
                          ''the plan body does not match its recorded digest'')
                          ''field'' ''digest'') ''observed'' (bp_digest parsed))
                      else Inr parsed)))"

definition plan_conflicts :: "bootstrap_plan \<Rightarrow> repository_plan list" where
  "plan_conflicts plan = filter rp_is_conflict (bp_repositories plan)"

definition indent :: "string \<Rightarrow> string \<Rightarrow> string" where
  "indent content padding = concat (map (\<lambda>line. padding @ line @ [CHR 0x0A]) (str_lines content))"

definition or_absent :: "string option \<Rightarrow> string" where
  "or_absent digest = (case digest of None \<Rightarrow> ''absent'' | Some digest \<Rightarrow> digest)"

definition render_file :: "file_change \<Rightarrow> string" where
  "render_file change =
     ''   '' @ fc_path change @ '': '' @ or_absent (fc_before_sha256 change) @ '' -> '' @
     fc_after_sha256 change @ [CHR 0x0A] @ indent (fc_diff change) ''      ''"

definition render_repository :: "repository_plan \<Rightarrow> string" where
  "render_repository repository =
     [CHR 0x0A] @ ''== '' @ rp_repository_id repository @ '' ('' @ rp_root repository @ '') - '' @
     change_class_str (rp_change repository) @ [CHR 0x0A] @
     ''   block: '' @ or_absent (rp_before_block_sha256 repository) @ '' -> '' @
     or_absent (rp_after_block_sha256 repository) @ [CHR 0x0A] @
     (case rp_refusal repository of
        None \<Rightarrow> []
      | Some refusal \<Rightarrow> ''   refused: '' @ rf_rule refusal @ '' - '' @ rf_message refusal @ [CHR 0x0A]) @
     concat (map render_file (rp_files repository))"

definition render_plan :: "bootstrap_plan \<Rightarrow> string" where
  "render_plan plan =
     ''bootstrap plan '' @ bp_digest plan @ [CHR 0x0A] @
     ''schema '' @ show_nat (bp_schema_version plan) @ '' template '' @ bp_template_version plan @
     '' block '' @ bp_block_template_sha256 plan @ '' policy '' @ bp_policy_template_sha256 plan @ [CHR 0x0A] @
     concat (map render_repository (bp_repositories plan))"

fun plan_loop ::
  "(string \<Rightarrow> string) \<Rightarrow> (string \<Rightarrow> string) \<Rightarrow> (ownership, 'v) json_lib \<Rightarrow> templates \<Rightarrow>
    repository_target list \<Rightarrow> repository_plan list result" where
  "plan_loop lower sha256 json tm [] = Inr []"
| "plan_loop lower sha256 json tm (target # targets) =
     (case plan_repository lower sha256 json target tm of
        Inl e \<Rightarrow> Inl e
      | Inr plan \<Rightarrow>
          (case plan_loop lower sha256 json tm targets of
             Inl e \<Rightarrow> Inl e
           | Inr plans \<Rightarrow> Inr (plan # plans)))"

definition plan_all ::
  "(string \<Rightarrow> string) \<Rightarrow> (string \<Rightarrow> string) \<Rightarrow> (ownership, 'v) json_lib \<Rightarrow> (bootstrap_plan, 'w) json_lib \<Rightarrow>
    repository_target list \<Rightarrow> templates \<Rightarrow> bootstrap_plan result" where
  "plan_all lower sha256 json plan_json targets tm =
     (case ensure_block_points_at_policy lower (tm_block tm) of
        Inl e \<Rightarrow> Inl e
      | Inr _ \<Rightarrow>
          (case plan_loop lower sha256 json tm targets of
             Inl e \<Rightarrow> Inl e
           | Inr repositories \<Rightarrow> bootstrap_plan_new sha256 plan_json repositories tm))"

section \<open>Lemmas\<close>

text \<open>The JSON library reads back the plan it wrote with its trailing line end, and writes text.\<close>

definition plan_reads_back :: "(bootstrap_plan, 'v) json_lib \<Rightarrow> bool" where
  "plan_reads_back json \<longleftrightarrow>
     (\<forall>plan bytes. to_canonical_bytes json plan = Inr bytes \<longrightarrow> utf8 bytes \<and> from_text json bytes = Inr plan)"

lemma plan_loop_ok:
  "plan_loop lower sha256 json tm targets = Inr plans \<Longrightarrow>
     list_all2 (\<lambda>target plan. plan_repository lower sha256 json target tm = Inr plan) targets plans"
  by (induction targets arbitrary: plans) (auto split: sum.splits)

text \<open>An approved plan is read back exactly, one entry per repository in the order given, and a plan
  document is accepted only when its digest is the digest of its own body.\<close>

theorem approved_plan_reads_back:
  assumes "plan_reads_back plan_json"
    and "plan_all lower sha256 json plan_json targets tm = Inr plan"
    and "to_canonical_bytes plan_json plan = Inr bytes"
  shows "bootstrap_plan_parse sha256 plan_json bytes = Inr plan \<and>
    list_all2 (\<lambda>target repository. plan_repository lower sha256 json target tm = Inr repository)
      targets (bp_repositories plan) \<and>
    (bootstrap_plan_parse sha256 plan_json other = Inr accepted \<longrightarrow>
       compute_digest sha256 plan_json accepted = Inr (bp_digest accepted))"
proof (intro conjI impI)
  have read: "utf8 bytes" "from_text plan_json bytes = Inr plan"
    using assms(1,3) by (auto simp: plan_reads_back_def)
  obtain repositories where loop: "plan_loop lower sha256 json tm targets = Inr repositories"
    and new: "bootstrap_plan_new sha256 plan_json repositories tm = Inr plan"
    using assms(2) by (auto simp: plan_all_def split: sum.splits)
  have plan: "bp_repositories plan = repositories" "bp_schema_version plan = BOOTSTRAP_SCHEMA_VERSION"
    "compute_digest sha256 plan_json plan = Inr (bp_digest plan)"
    using new by (auto simp: bootstrap_plan_new_def compute_digest_def Let_def split: sum.splits)
  show "bootstrap_plan_parse sha256 plan_json bytes = Inr plan"
    using read plan(2,3) by (simp add: bootstrap_plan_parse_def utf8_def)
  show "list_all2 (\<lambda>target repository. plan_repository lower sha256 json target tm = Inr repository)
      targets (bp_repositories plan)"
    using loop plan_loop_ok plan(1) by blast
  show "compute_digest sha256 plan_json accepted = Inr (bp_digest accepted)"
    if "bootstrap_plan_parse sha256 plan_json other = Inr accepted"
    using that by (auto simp: bootstrap_plan_parse_def split: sum.splits if_splits)
qed

text \<open>A library that writes plans of no repository whose texts are plain.\<close>

definition empty_plan_parts :: "bootstrap_plan \<Rightarrow> string list" where
  "empty_plan_parts plan =
     [''{'', ''block_template_sha256'', '':'', bp_block_template_sha256 plan, '','',
      ''digest'', '':'', bp_digest plan, '','', ''policy_template_sha256'', '':'',
      bp_policy_template_sha256 plan, '','', ''repositories'', '':[],'', ''schema_version'', '':1,'',
      ''template_version'', '':'', bp_template_version plan, ''}'']"

definition empty_plan_json :: "(bootstrap_plan, bootstrap_plan) json_lib" where
  "empty_plan_json =
     \<lparr>to_value = Inr,
      to_text = (\<lambda>plan. if bp_schema_version plan = 1 \<and> bp_repositories plan = [] \<and>
          list_all plain_text (empty_plan_parts plan)
        then Inr (join_with CHR 0x22 (empty_plan_parts plan)) else Inl ''unsupported''),
      from_text = (\<lambda>json.
        let parts = split_on CHR 0x22 (butlast json)
        in if length parts = 21
           then Inr \<lparr>bp_schema_version = 1, bp_template_version = parts ! 19,
                     bp_block_template_sha256 = parts ! 3, bp_policy_template_sha256 = parts ! 11,
                     bp_repositories = [], bp_digest = parts ! 7\<rparr>
           else Inl ''unsupported'')\<rparr>"

lemma empty_plan_reads_back: "plan_reads_back empty_plan_json"
  unfolding plan_reads_back_def
proof (intro allI impI)
  fix plan bytes
  assume "to_canonical_bytes empty_plan_json plan = Inr bytes"
  then have shape: "bp_schema_version plan = 1" "bp_repositories plan = []"
    and plain: "list_all plain_text (empty_plan_parts plan)"
    and bytes: "bytes = join_with CHR 0x22 (empty_plan_parts plan) @ [CHR 0x0A]"
    by (auto simp: to_canonical_bytes_def encode_body_def canonical_value_def empty_plan_json_def split: if_splits)
  have "utf8 bytes" unfolding bytes by (rule utf8_append [OF join_quotes_utf8 [OF plain]]) code_simp
  moreover have "split_on CHR 0x22 (butlast bytes) = empty_plan_parts plan"
    unfolding bytes butlast_snoc
    by (rule split_join) (use plain plain_text_no_quote in \<open>auto simp: empty_plan_parts_def\<close>)
  then have "from_text empty_plan_json bytes = Inr plan"
    using shape by (simp add: empty_plan_json_def empty_plan_parts_def)
  ultimately show "utf8 bytes \<and> from_text empty_plan_json bytes = Inr plan" by blast
qed

lemma plain_sample_digest: "plain_text (sha256_hex sample_sha bytes)"
  unfolding sha256_hex_def sample_sha_def by code_simp

theorem approved_plan_reads_back_witness:
  "\<exists>plan bytes. plan_all to_ascii_lowercase sample_sha plain_json empty_plan_json [] sample_templates = Inr plan \<and>
     to_canonical_bytes empty_plan_json plan = Inr bytes \<and>
     bootstrap_plan_parse sample_sha empty_plan_json bytes = Inr plan"
proof -
  have points: "ensure_block_points_at_policy to_ascii_lowercase (tm_block sample_templates) = Inr ()"
    by code_simp
  have encodes: "\<exists>body. encode_body empty_plan_json plan = Inr body"
    if "bp_schema_version plan = 1" "bp_repositories plan = []" "bp_template_version plan = ''2''"
      "plain_text (bp_block_template_sha256 plan)" "plain_text (bp_policy_template_sha256 plan)"
      "plain_text (bp_digest plan)" for plan
    using that by (simp add: encode_body_def canonical_value_def empty_plan_json_def empty_plan_parts_def)
      (simp add: plain_text_def)
  obtain plan where plan: "plan_all to_ascii_lowercase sample_sha plain_json empty_plan_json [] sample_templates = Inr plan"
    "\<exists>body. encode_body empty_plan_json plan = Inr body"
  proof -
    let ?bare = "\<lparr>bp_schema_version = BOOTSTRAP_SCHEMA_VERSION, bp_template_version = tm_version sample_templates,
        bp_block_template_sha256 = block_sha256 sample_sha sample_templates,
        bp_policy_template_sha256 = policy_sha256 sample_sha sample_templates,
        bp_repositories = [], bp_digest = []\<rparr>"
    have bare: "bp_schema_version ?bare = 1" "bp_template_version ?bare = ''2''"
      "plain_text (bp_block_template_sha256 ?bare)" "plain_text (bp_policy_template_sha256 ?bare)"
      using plain_sample_digest
      by (simp_all add: BOOTSTRAP_SCHEMA_VERSION_def sample_templates_def block_sha256_def policy_sha256_def)
    then obtain body where body: "encode_body empty_plan_json ?bare = Inr body"
      using encodes [of ?bare] by (auto simp: plain_text_def)
    then have digest: "compute_digest sample_sha empty_plan_json ?bare = Inr (sha256_hex sample_sha body)"
      by (simp add: compute_digest_def)
    show thesis
    proof (rule that [of "?bare\<lparr>bp_digest := sha256_hex sample_sha body\<rparr>"])
      show "plan_all to_ascii_lowercase sample_sha plain_json empty_plan_json [] sample_templates =
          Inr (?bare\<lparr>bp_digest := sha256_hex sample_sha body\<rparr>)"
        using digest by (simp add: plan_all_def points bootstrap_plan_new_def Let_def)
      show "\<exists>b. encode_body empty_plan_json (?bare\<lparr>bp_digest := sha256_hex sample_sha body\<rparr>) = Inr b"
        using bare plain_sample_digest by (intro encodes) simp_all
    qed
  qed
  then obtain bytes where bytes: "to_canonical_bytes empty_plan_json plan = Inr bytes"
    by (auto simp: to_canonical_bytes_def)
  from approved_plan_reads_back [OF empty_plan_reads_back plan(1) bytes]
  have "bootstrap_plan_parse sample_sha empty_plan_json bytes = Inr plan" by (rule conjunct1)
  with plan(1) bytes show ?thesis by (intro exI conjI)
qed

end
