(* ===== verification/BootHost.thy ===== *)
theory BootHost
  imports BootPlan
begin

text \<open>
  The file system an apply works on, the trait \<open>BootstrapHost\<close> of \<^verbatim>\<open>axiom/src/bootstrap/apply.rs\<close> as
  a record of its four calls over a host state, and the in-memory host.  A path is the list of its
  components, the root directory being the component \<open>/\<close>; it is shown with one separator between
  components.  What an apply relies on of a host is the locale \<open>bootstrap_host\<close>.
\<close>

type_synonym path = "string list"

definition components_rest :: "string list \<Rightarrow> path" where
  "components_rest ss = filter (\<lambda>s. s \<noteq> [] \<and> s \<noteq> ''.'') ss"

definition path_of :: "string \<Rightarrow> path" where
  "path_of s =
     (let parts = split_on CHR ''/'' s
      in if starts_with s ''/'' then ''/'' # components_rest parts
         else if hd parts = ''.'' then ''.'' # components_rest (tl parts)
         else components_rest parts)"

definition path_join :: "path \<Rightarrow> string \<Rightarrow> path" where
  "path_join p s =
     (if starts_with s ''/'' \<or> p = [] then path_of s else p @ components_rest (split_on CHR ''/'' s))"

definition path_parent :: "path \<Rightarrow> path option" where
  "path_parent p = (if p = [] \<or> p = [''/''] then None else Some (butlast p))"

definition show_path :: "path \<Rightarrow> string" where
  "show_path p =
     (if p \<noteq> [] \<and> hd p = ''/'' then CHR ''/'' # join_with CHR ''/'' (tl p) else join_with CHR ''/'' p)"

record 'h boot_host =
  bh_read :: "'h \<Rightarrow> path \<Rightarrow> string option result"
  bh_create_dir_all :: "path \<Rightarrow> 'h \<Rightarrow> unit result \<times> 'h"
  bh_write_atomic :: "path \<Rightarrow> string \<Rightarrow> 'h \<Rightarrow> unit result \<times> 'h"
  bh_remove_file :: "path \<Rightarrow> 'h \<Rightarrow> unit result \<times> 'h"

definition RULE_APPLY_WRITE :: string where "RULE_APPLY_WRITE = ''apply-write-failed''"

section \<open>The host in memory\<close>

record memory_host =
  mh_files :: "(path, string) btree_map"
  mh_directories :: "path btree_set"
  mh_fail_write :: "path option"

definition memory_new :: memory_host where
  "memory_new = \<lparr>mh_files = [], mh_directories = [], mh_fail_write = None\<rparr>"

definition add_file :: "path \<Rightarrow> string \<Rightarrow> memory_host \<Rightarrow> memory_host" where
  "add_file p bytes m = m\<lparr>mh_files := bt_insert p bytes (mh_files m)\<rparr>"

definition add_directory :: "path \<Rightarrow> memory_host \<Rightarrow> memory_host" where
  "add_directory p m = m\<lparr>mh_directories := bs_insert p (mh_directories m)\<rparr>"

definition fail_write :: "path \<Rightarrow> memory_host \<Rightarrow> memory_host" where
  "fail_write p m = m\<lparr>mh_fail_write := Some p\<rparr>"

definition memory_file :: "memory_host \<Rightarrow> path \<Rightarrow> string option" where
  "memory_file m p = bt_get (mh_files m) p"

definition memory_contains :: "memory_host \<Rightarrow> path \<Rightarrow> bool" where
  "memory_contains m p \<longleftrightarrow> bt_get (mh_files m) p \<noteq> None"

definition memory_read :: "memory_host \<Rightarrow> path \<Rightarrow> string option result" where
  "memory_read m p = Inr (memory_file m p)"

definition memory_create_dir_all :: "path \<Rightarrow> memory_host \<Rightarrow> unit result \<times> memory_host" where
  "memory_create_dir_all p m = (Inr (), m\<lparr>mh_directories := bs_insert p (mh_directories m)\<rparr>)"

definition memory_write_atomic :: "path \<Rightarrow> string \<Rightarrow> memory_host \<Rightarrow> unit result \<times> memory_host" where
  "memory_write_atomic p bytes m =
     (if mh_fail_write m = Some p
      then (Inl (refuse RULE_APPLY_WRITE (''injected write failure at '' @ show_path p)), m)
      else (Inr (), m\<lparr>mh_files := bt_insert p bytes (mh_files m)\<rparr>))"

definition memory_remove_file :: "path \<Rightarrow> memory_host \<Rightarrow> unit result \<times> memory_host" where
  "memory_remove_file p m = (Inr (), m\<lparr>mh_files := bt_remove p (mh_files m)\<rparr>)"

definition memory_ops :: "memory_host boot_host" where
  "memory_ops = \<lparr>bh_read = memory_read, bh_create_dir_all = memory_create_dir_all,
     bh_write_atomic = memory_write_atomic, bh_remove_file = memory_remove_file\<rparr>"

section \<open>What an apply relies on\<close>

locale bootstrap_host =
  fixes host :: "'h boot_host"
    and files :: "'h \<Rightarrow> path \<Rightarrow> string option"
  assumes read: "bh_read host h p = Inr (files h p)"
    and create: "files (snd (bh_create_dir_all host p h)) = files h"
    and write_ok: "bh_write_atomic host p bytes h = (Inr u, h') \<Longrightarrow> files h' = (files h)(p \<mapsto> bytes)"
    and write_err: "bh_write_atomic host p bytes h = (Inl e, h') \<Longrightarrow> files h' = files h"
    and remove_ok: "bh_remove_file host p h = (Inr u, h') \<Longrightarrow> files h' = (files h)(p := None)"
    and remove_err: "bh_remove_file host p h = (Inl e, h') \<Longrightarrow> files h' = files h"

interpretation memory: bootstrap_host memory_ops memory_file
  by unfold_locales
    (auto simp: memory_ops_def memory_read_def memory_create_dir_all_def memory_write_atomic_def
      memory_remove_file_def memory_file_def bt.get_ins bt.get_del fun_eq_iff split: if_splits)

end
