(* ===== verification/BootLock.thy ===== *)
theory BootLock
  imports BootHost
begin

text \<open>
  The preconditions of an apply, \<^verbatim>\<open>axiom/src/bootstrap/preconditions.rs\<close>: the per-repository lock
  file and the check of the before-hashes under it.  The file system is a record of four calls; the
  in-memory host is modelled, and cooperating processes are a step relation over it.
\<close>

definition RULE_PLAN_STALE :: string where "RULE_PLAN_STALE = ''plan-stale''"
definition RULE_PLAN_ROOT :: string where "RULE_PLAN_ROOT = ''precondition-root''"
definition RULE_PLAN_CONFLICT :: string where "RULE_PLAN_CONFLICT = ''plan-repository-conflict''"
definition RULE_LOCK_HELD :: string where "RULE_LOCK_HELD = ''apply-lock-held''"
definition RULE_LOCK_ID :: string where "RULE_LOCK_ID = ''apply-lock-id-unsafe''"
definition RULE_LOCK_IO :: string where "RULE_LOCK_IO = ''apply-lock-io''"
definition LOCK_DIR :: string where "LOCK_DIR = ''bootstrap-locks''"
definition LOCK_EXTENSION :: string where "LOCK_EXTENSION = ''lock''"

record 'h lock_host =
  lh_is_directory :: "'h \<Rightarrow> path \<Rightarrow> bool"
  lh_create_exclusive :: "path \<Rightarrow> string \<Rightarrow> 'h \<Rightarrow> bool result \<times> 'h"
  lh_read :: "'h \<Rightarrow> path \<Rightarrow> string option result"
  lh_remove :: "path \<Rightarrow> 'h \<Rightarrow> unit result \<times> 'h"

section \<open>The host in memory\<close>

record memory_locks =
  ml_directories :: "path btree_set"
  ml_files :: "(path, string) btree_map"

definition memory_locks_new :: memory_locks where
  "memory_locks_new = \<lparr>ml_directories = [], ml_files = []\<rparr>"

definition locks_add_directory :: "path \<Rightarrow> memory_locks \<Rightarrow> memory_locks" where
  "locks_add_directory p m = m\<lparr>ml_directories := bs_insert p (ml_directories m)\<rparr>"

definition locks_add_file :: "path \<Rightarrow> string \<Rightarrow> memory_locks \<Rightarrow> memory_locks" where
  "locks_add_file p contents m = m\<lparr>ml_files := bt_insert p contents (ml_files m)\<rparr>"

definition locks_contains :: "memory_locks \<Rightarrow> path \<Rightarrow> bool" where
  "locks_contains m p \<longleftrightarrow> bt_get (ml_files m) p \<noteq> None"

definition locks_file :: "memory_locks \<Rightarrow> path \<Rightarrow> string option" where
  "locks_file m p = bt_get (ml_files m) p"

definition locks_is_directory :: "memory_locks \<Rightarrow> path \<Rightarrow> bool" where
  "locks_is_directory m p \<longleftrightarrow> p \<in> set (ml_directories m)"

definition locks_create_exclusive :: "path \<Rightarrow> string \<Rightarrow> memory_locks \<Rightarrow> bool result \<times> memory_locks" where
  "locks_create_exclusive p contents m =
     (if locks_contains m p then (Inr False, m)
      else (Inr True, m\<lparr>ml_files := bt_insert p contents (ml_files m)\<rparr>))"

definition locks_read :: "memory_locks \<Rightarrow> path \<Rightarrow> string option result" where
  "locks_read m p = Inr (locks_file m p)"

definition locks_remove :: "path \<Rightarrow> memory_locks \<Rightarrow> unit result \<times> memory_locks" where
  "locks_remove p m = (Inr (), m\<lparr>ml_files := bt_remove p (ml_files m)\<rparr>)"

definition locks_ops :: "memory_locks lock_host" where
  "locks_ops = \<lparr>lh_is_directory = locks_is_directory, lh_create_exclusive = locks_create_exclusive,
     lh_read = locks_read, lh_remove = locks_remove\<rparr>"

section \<open>The lock\<close>

definition is_safe_repository_id :: "string \<Rightarrow> bool" where
  "is_safe_repository_id repository_id \<longleftrightarrow>
     repository_id \<noteq> [] \<and> \<not> starts_with repository_id ''.'' \<and>
     \<not> list_ex (\<lambda>c. c = CHR ''/'' \<or> c = CHR 0x5C \<or> c = CHR '':'') repository_id"

text \<open>\<open>debug\<close> is the quoted form of a string.\<close>

definition lock_path :: "(string \<Rightarrow> string) \<Rightarrow> path \<Rightarrow> string \<Rightarrow> path result" where
  "lock_path debug home repository_id =
     (if \<not> is_safe_repository_id repository_id
      then Inl (with_detail (refuse RULE_LOCK_ID (''unsafe repository identifier '' @ debug repository_id))
        ''portable_path'' repository_id)
      else Inr (path_join (path_join home LOCK_DIR) (repository_id @ ''.'' @ LOCK_EXTENSION)))"

record apply_lock =
  al_path :: path
  al_token :: string
  al_held :: bool

definition lock_held :: "string \<Rightarrow> path \<Rightarrow> string option \<Rightarrow> axiom_error" where
  "lock_held repository_id p owner =
     with_detail (with_detail (with_detail
       (axiom_error_new WorktreeBusy (''another bootstrap apply holds the lock for '' @ repository_id))
       ''rule'' RULE_LOCK_HELD) ''portable_path'' (show_path p))
       ''observed'' (case owner of None \<Rightarrow> [] | Some bytes \<Rightarrow> str_trim (from_utf8_lossy bytes))"

definition lock_token :: "string \<Rightarrow> string \<Rightarrow> string \<Rightarrow> string" where
  "lock_token repository_id root plan_digest =
     ''repository_id='' @ repository_id @ [CHR 0x0A] @ ''root='' @ root @ [CHR 0x0A] @
     ''plan_digest='' @ plan_digest @ [CHR 0x0A]"

definition lock_acquire ::
  "(string \<Rightarrow> string) \<Rightarrow> 'h lock_host \<Rightarrow> path \<Rightarrow> string \<Rightarrow> string \<Rightarrow> string \<Rightarrow> 'h \<Rightarrow> apply_lock result \<times> 'h" where
  "lock_acquire debug locks home repository_id root plan_digest h =
     (case lock_path debug home repository_id of
        Inl e \<Rightarrow> (Inl e, h)
      | Inr p \<Rightarrow>
          (let token = lock_token repository_id root plan_digest
           in case lh_create_exclusive locks p token h of
                (Inl e, h) \<Rightarrow> (Inl e, h)
              | (Inr created, h) \<Rightarrow>
                  if \<not> created then
                    (case lh_read locks h p of
                       Inl e \<Rightarrow> (Inl e, h)
                     | Inr owner \<Rightarrow> (Inl (lock_held repository_id p owner), h))
                  else (Inr \<lparr>al_path = p, al_token = token, al_held = True\<rparr>, h)))"

definition remove_if_ours :: "'h lock_host \<Rightarrow> apply_lock \<Rightarrow> 'h \<Rightarrow> unit result \<times> 'h" where
  "remove_if_ours locks lock h =
     (case lh_read locks h (al_path lock) of
        Inl e \<Rightarrow> (Inl e, h)
      | Inr current \<Rightarrow>
          (if current = Some (al_token lock) then lh_remove locks (al_path lock) h else (Inr (), h)))"

definition lock_release :: "'h lock_host \<Rightarrow> apply_lock \<Rightarrow> 'h \<Rightarrow> unit result \<times> 'h" where
  "lock_release locks lock h = remove_if_ours locks (lock\<lparr>al_held := False\<rparr>) h"

definition lock_drop :: "'h lock_host \<Rightarrow> apply_lock \<Rightarrow> 'h \<Rightarrow> 'h" where
  "lock_drop locks lock h = (if al_held lock then snd (remove_if_ours locks lock h) else h)"

section \<open>The check of a plan\<close>

definition stale :: "string \<Rightarrow> string option \<Rightarrow> string option \<Rightarrow> axiom_error" where
  "stale p expected observed =
     with_detail (with_detail (with_detail (refuse RULE_PLAN_STALE (p @ '' changed after the plan was approved''))
       ''portable_path'' p) ''expected'' (case expected of None \<Rightarrow> ''absent'' | Some d \<Rightarrow> d))
       ''observed'' (case observed of None \<Rightarrow> ''absent'' | Some d \<Rightarrow> d)"

definition observed_block_sha256 :: "(string \<Rightarrow> string) \<Rightarrow> reader \<Rightarrow> string option result" where
  "observed_block_sha256 sha256 rd =
     (case rd AGENTS_PATH of
        Inl e \<Rightarrow> Inl e
      | Inr None \<Rightarrow> Inr None
      | Inr (Some raw) \<Rightarrow>
          (case source_decode raw of
             Inl _ \<Rightarrow> Inr None
           | Inr t \<Rightarrow>
               (case managed_span_of (st_document t) of
                  Inr (Some span) \<Rightarrow>
                    Inr (map_option (sha256_hex sha256) (managed_span_slice span (st_document t)))
                | _ \<Rightarrow> Inr None)))"

fun verify_files :: "(string \<Rightarrow> string) \<Rightarrow> reader \<Rightarrow> file_change list \<Rightarrow> unit result" where
  "verify_files sha256 rd [] = Inr ()"
| "verify_files sha256 rd (change # changes) =
     (case rd (fc_path change) of
        Inl e \<Rightarrow> Inl e
      | Inr bytes \<Rightarrow>
          (let current = map_option (sha256_hex sha256) bytes
           in if current \<noteq> fc_before_sha256 change
              then Inl (stale (fc_path change) (fc_before_sha256 change) current)
              else verify_files sha256 rd changes))"

definition verify_repository ::
  "(string \<Rightarrow> string) \<Rightarrow> 'h lock_host \<Rightarrow> repository_plan \<Rightarrow> reader \<Rightarrow> 'h \<Rightarrow> unit result" where
  "verify_repository sha256 locks repository rd h =
     (if rp_is_conflict repository then
        Inl (with_detail (refuse RULE_PLAN_CONFLICT (''the plan refuses repository '' @ rp_repository_id repository))
          ''component'' (rp_repository_id repository))
      else if \<not> lh_is_directory locks h (path_of (rp_root repository)) then
        Inl (with_detail (refuse RULE_PLAN_ROOT (''bound root '' @ rp_root repository @ '' is not a directory''))
          ''portable_path'' (rp_root repository))
      else
        (case verify_files sha256 rd (rp_files repository) of
           Inl e \<Rightarrow> Inl e
         | Inr _ \<Rightarrow>
             (case observed_block_sha256 sha256 rd of
                Inl e \<Rightarrow> Inl e
              | Inr current_block \<Rightarrow>
                  if current_block \<noteq> rp_before_block_sha256 repository
                  then Inl (stale AGENTS_PATH (rp_before_block_sha256 repository) current_block)
                  else Inr ())))"

definition begin_apply ::
  "(string \<Rightarrow> string) \<Rightarrow> (string \<Rightarrow> string) \<Rightarrow> 'h lock_host \<Rightarrow> path \<Rightarrow> repository_plan \<Rightarrow> reader \<Rightarrow> string \<Rightarrow>
    'h \<Rightarrow> apply_lock result \<times> 'h" where
  "begin_apply debug sha256 locks home repository rd plan_digest h =
     (case lock_acquire debug locks home (rp_repository_id repository) (rp_root repository) plan_digest h of
        (Inl e, h) \<Rightarrow> (Inl e, h)
      | (Inr lock, h) \<Rightarrow>
          (case verify_repository sha256 locks repository rd h of
             Inl error \<Rightarrow> (Inl error, lock_drop locks lock h)
           | Inr _ \<Rightarrow> (Inr lock, h)))"

section \<open>What the lock relies on\<close>

text \<open>Creation is exclusive, a call touches the file it names only, and reads see the files.\<close>

locale exclusive_files =
  fixes locks :: "'h lock_host"
    and files :: "'h \<Rightarrow> path \<Rightarrow> string option"
  assumes created: "lh_create_exclusive locks p contents h = (Inr True, h') \<Longrightarrow>
      files h p = None \<and> files h' = (files h)(p \<mapsto> contents)"
    and present: "lh_create_exclusive locks p contents h = (Inr False, h') \<Longrightarrow>
      files h p \<noteq> None \<and> files h' = files h"
    and create_err: "lh_create_exclusive locks p contents h = (Inl e, h') \<Longrightarrow> files h' = files h"
    and read: "lh_read locks h p = Inr (files h p)"
    and removed: "files (snd (lh_remove locks p h)) = (files h)(p := None)"
begin

lemma acquire_ok:
  assumes "lock_acquire debug locks home i root digest h = (Inr lock, h')"
  shows "files h (al_path lock) = None" "files h' = (files h)(al_path lock \<mapsto> al_token lock)" "al_held lock"
    "lock_path debug home i = Inr (al_path lock)" "al_token lock = lock_token i root digest"
  using assms created
  by (auto simp: lock_acquire_def Let_def split: sum.splits prod.splits if_splits)

lemma acquire_err:
  assumes "lock_acquire debug locks home i root digest h = (Inl e, h')"
  shows "files h' = files h"
  using assms present create_err
  by (auto simp: lock_acquire_def Let_def read split: sum.splits prod.splits if_splits)

lemma drop_ours:
  "al_held lock \<Longrightarrow> files h (al_path lock) = Some (al_token lock) \<Longrightarrow>
     files (lock_drop locks lock h) = (files h)(al_path lock := None)"
  by (simp add: lock_drop_def remove_if_ours_def read removed)

lemma drop_foreign:
  "files h (al_path lock) \<noteq> Some (al_token lock) \<Longrightarrow> files (lock_drop locks lock h) = files h"
  by (simp add: lock_drop_def remove_if_ours_def read)

lemma refused_leaves_no_lock:
  assumes "begin_apply debug sha256 locks home repository rd digest h = (Inl e, h')"
  shows "files h' = files h"
proof (cases "lock_acquire debug locks home (rp_repository_id repository) (rp_root repository) digest h")
  case (Pair r h1)
  show ?thesis
  proof (cases r)
    case (Inl e')
    then show ?thesis using Pair assms acquire_err by (simp add: begin_apply_def)
  next
    case (Inr lock)
    note ok = acquire_ok [OF Pair [unfolded Inr]]
    have "h' = lock_drop locks lock h1"
      using assms Pair Inr by (auto simp: begin_apply_def split: sum.splits)
    then show ?thesis using drop_ours [OF ok(3), of h1] ok(1,2) by auto
  qed
qed

end

interpretation memory_locks: exclusive_files locks_ops locks_file
  by unfold_locales
    (auto simp: locks_ops_def locks_create_exclusive_def locks_contains_def locks_file_def locks_read_def
      locks_remove_def bt.get_ins bt.get_del fun_eq_iff split: if_splits)

section \<open>Cooperating processes\<close>

text \<open>
  The processes that share one lock directory: each takes a lock it asks for, is refused, or drops
  the lock it holds.
\<close>

type_synonym lock_state = "memory_locks \<times> (nat \<Rightarrow> apply_lock option)"

inductive lock_step :: "(string \<Rightarrow> string) \<Rightarrow> path \<Rightarrow> lock_state \<Rightarrow> lock_state \<Rightarrow> bool"
  for debug :: "string \<Rightarrow> string" and home :: path where
  taken: "held p = None \<Longrightarrow> lock_acquire debug locks_ops home i root digest h = (Inr lock, h') \<Longrightarrow>
    lock_step debug home (h, held) (h', held(p := Some lock))"
| refused: "held p = None \<Longrightarrow> lock_acquire debug locks_ops home i root digest h = (Inl e, h') \<Longrightarrow>
    lock_step debug home (h, held) (h', held)"
| dropped: "held p = Some lock \<Longrightarrow>
    lock_step debug home (h, held) (lock_drop locks_ops lock h, held(p := None))"

inductive lock_reachable :: "(string \<Rightarrow> string) \<Rightarrow> path \<Rightarrow> lock_state \<Rightarrow> bool"
  for debug :: "string \<Rightarrow> string" and home :: path where
  start: "lock_reachable debug home (h, \<lambda>_. None)"
| step: "lock_reachable debug home s \<Longrightarrow> lock_step debug home s s' \<Longrightarrow> lock_reachable debug home s'"

inductive_cases lock_stepE: "lock_step debug home s s'"

definition locks_exclusive :: "lock_state \<Rightarrow> bool" where
  "locks_exclusive s \<longleftrightarrow>
     (\<forall>p lock. snd s p = Some lock \<longrightarrow> al_held lock \<and> locks_file (fst s) (al_path lock) = Some (al_token lock) \<and>
        (\<forall>q lock'. snd s q = Some lock' \<longrightarrow> al_path lock' = al_path lock \<longrightarrow> q = p))"

lemma locks_exclusive_step:
  assumes "lock_step debug home s s'" and "locks_exclusive s"
  shows "locks_exclusive s'"
  using assms(1)
proof (cases rule: lock_step.cases)
  case (taken held p i root digest h lock h')
  note ok = memory_locks.acquire_ok [OF taken(4)]
  have "al_path lock' \<noteq> al_path lock" if "held q = Some lock'" for q lock'
  proof
    assume same: "al_path lock' = al_path lock"
    have "locks_file h (al_path lock') = Some (al_token lock')"
      using assms(2) that taken by (auto simp: locks_exclusive_def)
    with ok(1) same show False by simp
  qed
  then show ?thesis using assms(2) ok unfolding locks_exclusive_def taken by (auto split: if_splits)
next
  case (refused held p i root digest h e h')
  then show ?thesis using assms(2) memory_locks.acquire_err [OF refused(4)] by (simp add: locks_exclusive_def)
next
  case (dropped held p lock h)
  have "al_held lock" "locks_file h (al_path lock) = Some (al_token lock)"
    using assms(2) dropped by (auto simp: locks_exclusive_def)
  note gone = memory_locks.drop_ours [OF this]
  have "al_path lock' \<noteq> al_path lock" if "held q = Some lock'" "q \<noteq> p" for q lock'
    using assms(2) that dropped by (auto simp: locks_exclusive_def)
  then show ?thesis using assms(2) gone dropped by (auto simp: locks_exclusive_def split: if_splits)
qed

text \<open>C28: Two cooperating applies never hold the lock of one repository at once, whatever the interleaving
  of the processes that take, fail to take and drop locks, and the lock file of a held lock is there
  with its holder's token.\<close>

theorem lock_has_one_holder:
  assumes "lock_reachable debug home (h, held)"
    and "held p = Some lock" and "held q = Some lock'" and "al_path lock = al_path lock'"
  shows "p = q \<and> locks_file h (al_path lock) = Some (al_token lock)"
proof -
  have "locks_exclusive s" if "lock_reachable debug home s" for s
    using that
  proof induction
    case (step s s')
    then show ?case by (simp add: locks_exclusive_step)
  qed (simp add: locks_exclusive_def)
  from this [OF assms(1)] show ?thesis
    using assms(2-4) unfolding locks_exclusive_def fst_conv snd_conv by metis
qed

theorem lock_has_one_holder_witness:
  "\<exists>h held lock. lock_reachable (\<lambda>s. s) [''/''] (h, held) \<and> held 7 = Some lock \<and>
     locks_file h (al_path lock) = Some (lock_token ''r'' ''/r'' ''d'')"
proof -
  let ?acquire = "lock_acquire (\<lambda>s. s) locks_ops [''/''] ''r'' ''/r'' ''d'' memory_locks_new"
  have "case ?acquire of (Inr lock, _) \<Rightarrow> al_token lock = lock_token ''r'' ''/r'' ''d'' | (Inl _, _) \<Rightarrow> False"
    by code_simp
  then obtain lock h where acquire: "?acquire = (Inr lock, h)" "al_token lock = lock_token ''r'' ''/r'' ''d''"
    by (auto split: prod.splits sum.splits)
  have "(\<lambda>_. None) 7 = None" by simp
  from lock_step.taken [OF this acquire(1)] have
    "lock_reachable (\<lambda>s. s) [''/''] (h, (\<lambda>_. None)(7 := Some lock))"
    using lock_reachable.start lock_reachable.step by blast
  from lock_has_one_holder [OF this, of 7 lock 7 lock] this acquire(2) show ?thesis
    by (metis fun_upd_same)
qed

lemma verify_files_ok:
  "verify_files sha256 rd changes = Inr () \<Longrightarrow>
    list_all (\<lambda>change. \<exists>bytes. rd (fc_path change) = Inr bytes \<and>
      map_option (sha256_hex sha256) bytes = fc_before_sha256 change) changes"
  by (induction changes) (auto simp: Let_def split: sum.splits if_splits)

text \<open>C33: An apply begins only under its lock and on the approved state: when it may begin, no lock file was
  there and the file now holds its token, every planned file still has its recorded before-hash and
  the managed block too; when it is refused, the lock files are as before.\<close>

theorem apply_begins_on_approved_state:
  assumes "begin_apply debug sha256 locks_ops home repository rd digest h = (r, h')"
  shows "case r of
      Inl e \<Rightarrow> locks_file h' = locks_file h
    | Inr lock \<Rightarrow> locks_file h (al_path lock) = None \<and>
        locks_file h' = (locks_file h)(al_path lock \<mapsto> lock_token (rp_repository_id repository) (rp_root repository) digest) \<and>
        list_all (\<lambda>change. \<exists>bytes. rd (fc_path change) = Inr bytes \<and>
          map_option (sha256_hex sha256) bytes = fc_before_sha256 change) (rp_files repository) \<and>
        observed_block_sha256 sha256 rd = Inr (rp_before_block_sha256 repository)"
proof (cases r)
  case (Inl e)
  then show ?thesis using memory_locks.refused_leaves_no_lock assms by simp
next
  case (Inr lock)
  obtain h1 where acquired: "lock_acquire debug locks_ops home (rp_repository_id repository) (rp_root repository) digest h = (Inr lock, h1)"
    and verified: "verify_repository sha256 locks_ops repository rd h1 = Inr ()" and "h' = h1"
    using assms Inr by (auto simp: begin_apply_def split: prod.splits sum.splits)
  show ?thesis
    using memory_locks.acquire_ok [OF acquired] verified verify_files_ok Inr \<open>h' = h1\<close>
    by (auto simp: verify_repository_def split: sum.splits if_splits)
qed

definition sample_repository :: repository_plan where
  "sample_repository =
     \<lparr>rp_repository_id = ''r'', rp_root = ''/r'', rp_change = ClassAppend, rp_before_block_sha256 = None,
      rp_after_block_sha256 = None,
      rp_files = [\<lparr>fc_path = ''p'', fc_before_sha256 = None, fc_after_sha256 = [], fc_diff = [], fc_bytes = ''x''\<rparr>],
      rp_refusal = None\<rparr>"

theorem apply_begins_on_approved_state_witness:
  "\<exists>lock h. begin_apply (\<lambda>s. s) (\<lambda>s. s) locks_ops [''/''] sample_repository (\<lambda>_. Inr None) ''d''
       (locks_add_directory [''/'', ''r''] memory_locks_new) = (Inr lock, h) \<and>
     locks_file h (al_path lock) = Some (lock_token ''r'' ''/r'' ''d'')"
proof -
  let ?start = "begin_apply (\<lambda>s. s) (\<lambda>s. s) locks_ops [''/''] sample_repository (\<lambda>_. Inr None) ''d''
    (locks_add_directory [''/'', ''r''] memory_locks_new)"
  have "case ?start of (Inr lock, _) \<Rightarrow> True | (Inl _, _) \<Rightarrow> False" by code_simp
  then obtain lock h where "?start = (Inr lock, h)" by (auto split: prod.splits sum.splits)
  with apply_begins_on_approved_state [OF this] show ?thesis
    by (auto simp: sample_repository_def)
qed

end
