(* ===== verification/BootApply.thy ===== *)
theory BootApply
  imports BootLock
begin

text \<open>
  Applying an approved plan, \<^verbatim>\<open>axiom/src/bootstrap/apply.rs\<close>: back up, journal the intent, write the
  owned files with the manifest last, verify each, and restore what was written when a write fails.
  The encoding of the journal is the argument \<open>to_vec\<close>, failing with the error it displays.
\<close>

definition RULE_APPLY_VERIFY :: string where "RULE_APPLY_VERIFY = ''apply-verify-failed''"
definition RULE_APPLY_OUTSIDE :: string where "RULE_APPLY_OUTSIDE = ''apply-outside-content-changed''"
definition RULE_APPLY_READER :: string where "RULE_APPLY_READER = ''apply-reader-absent''"
definition RULE_APPLY_JOURNAL :: string where "RULE_APPLY_JOURNAL = ''apply-journal-io''"
definition RULE_APPLY_BACKUP :: string where "RULE_APPLY_BACKUP = ''apply-backup-missing''"
definition JOURNAL_DIR :: string where "JOURNAL_DIR = ''bootstrap-journal''"
definition BACKUP_DIR :: string where "BACKUP_DIR = ''bootstrap-backups''"
definition JOURNAL_SCHEMA_VERSION :: u32 where "JOURNAL_SCHEMA_VERSION = 1"

datatype journal_state = JournalIntent | JournalComplete | JournalRolledBack

record journal_entry =
  je_path :: string
  je_before_sha256 :: "string option"
  je_after_sha256 :: string
  je_backup :: "string option"

record journal =
  jn_schema_version :: u32
  jn_repository_id :: string
  jn_root :: string
  jn_plan_digest :: string
  jn_state :: journal_state
  jn_entries :: "journal_entry list"

datatype apply_outcome =
    ApplyDone "string list"
  | ApplyUnchanged
  | ApplyRefused string string
  | ApplyRolledBack string string
  | RollbackRefused string string

fun outcome_is_success :: "apply_outcome \<Rightarrow> bool" where
  "outcome_is_success (ApplyDone _) = True"
| "outcome_is_success ApplyUnchanged = True"
| "outcome_is_success _ = False"

fun outcome_rule :: "apply_outcome \<Rightarrow> string option" where
  "outcome_rule (ApplyDone _) = None"
| "outcome_rule ApplyUnchanged = None"
| "outcome_rule (ApplyRefused rule _) = Some rule"
| "outcome_rule (ApplyRolledBack rule _) = Some rule"
| "outcome_rule (RollbackRefused rule _) = Some rule"

fun outcome_error_code :: "apply_outcome \<Rightarrow> error_code option" where
  "outcome_error_code (ApplyDone _) = None"
| "outcome_error_code ApplyUnchanged = None"
| "outcome_error_code (ApplyRefused rule _) =
     (if rule = RULE_LOCK_HELD then Some WorktreeBusy
      else if rule = RULE_PLAN_STALE then Some NotReady
      else Some Conflict)"
| "outcome_error_code _ = Some Conflict"

record repository_report =
  rr_repository_id :: string
  rr_outcome :: apply_outcome

definition report_successes :: "repository_report list \<Rightarrow> usize" where
  "report_successes repositories = length (filter (\<lambda>r. outcome_is_success (rr_outcome r)) repositories)"

definition report_failures :: "repository_report list \<Rightarrow> repository_report list" where
  "report_failures repositories = filter (\<lambda>r. \<not> outcome_is_success (rr_outcome r)) repositories"

fun first_error_code :: "repository_report list \<Rightarrow> error_code option" where
  "first_error_code [] = None"
| "first_error_code (r # rs) =
     (case outcome_error_code (rr_outcome r) of Some code \<Rightarrow> Some code | None \<Rightarrow> first_error_code rs)"

definition report_exit_code :: "repository_report list \<Rightarrow> exit_code" where
  "report_exit_code repositories =
     (if report_successes repositories = length repositories then ExitSuccess
      else if report_successes repositories > 0 then ExitPartialOperation
      else (case first_error_code repositories of None \<Rightarrow> ExitSuccess | Some code \<Rightarrow> exit_code_for code))"

definition apply_rule :: "axiom_error \<Rightarrow> string" where
  "apply_rule e = (case rule_of e of None \<Rightarrow> RULE_APPLY_WRITE | Some rule \<Rightarrow> rule)"

definition sanitize :: "string \<Rightarrow> string" where
  "sanitize s = map (\<lambda>c. if c = CHR ''/'' \<or> c = CHR 0x5C \<or> c = CHR '':'' then CHR ''_'' else c) s"

definition journal_path :: "path \<Rightarrow> string \<Rightarrow> path" where
  "journal_path home repository_id =
     path_join (path_join home JOURNAL_DIR) (sanitize repository_id @ ''.json'')"

definition backup_path :: "path \<Rightarrow> string \<Rightarrow> string \<Rightarrow> path" where
  "backup_path home repository_id relative_path =
     path_join (path_join (path_join home BACKUP_DIR) (sanitize repository_id)) (sanitize relative_path)"

text \<open>\<open>create_dir_all\<close> of the parent directory, when there is one.\<close>

definition create_parent :: "'h boot_host \<Rightarrow> path \<Rightarrow> 'h \<Rightarrow> unit result \<times> 'h" where
  "create_parent host p h =
     (case path_parent p of None \<Rightarrow> (Inr (), h) | Some parent \<Rightarrow> bh_create_dir_all host parent h)"

definition write_journal ::
  "(journal \<Rightarrow> string + string) \<Rightarrow> 'h boot_host \<Rightarrow> path \<Rightarrow> journal \<Rightarrow> 'h \<Rightarrow> unit result \<times> 'h" where
  "write_journal to_vec host p journal h =
     (case to_vec journal of
        Inl error \<Rightarrow> (Inl (refuse RULE_APPLY_JOURNAL (''cannot encode the journal: '' @ error)), h)
      | Inr bytes \<Rightarrow>
          (case create_parent host p h of
             (Inl e, h) \<Rightarrow> (Inl e, h)
           | (Inr _, h) \<Rightarrow> bh_write_atomic host p bytes h))"

text \<open>The bytes of each planned file before the write; a file that cannot be read counts as absent.\<close>

definition read_before :: "reader \<Rightarrow> file_change list \<Rightarrow> (string, string option) btree_map" where
  "read_before rd changes =
     foldl (\<lambda>before change. bt_insert (fc_path change)
       (case rd (fc_path change) of Inl _ \<Rightarrow> None | Inr bytes \<Rightarrow> bytes) before) [] changes"

definition bytes_before :: "(string, string option) btree_map \<Rightarrow> string \<Rightarrow> string option" where
  "bytes_before before p = (case bt_get before p of None \<Rightarrow> None | Some bytes \<Rightarrow> bytes)"

definition back_up_one ::
  "'h boot_host \<Rightarrow> path \<Rightarrow> string option \<Rightarrow> 'h \<Rightarrow> string option result \<times> 'h" where
  "back_up_one host p bytes h =
     (case bytes of
        None \<Rightarrow> (Inr None, h)
      | Some bytes \<Rightarrow>
          (case create_parent host p h of
             (Inl e, h) \<Rightarrow> (Inl e, h)
           | (Inr _, h) \<Rightarrow>
               (case bh_write_atomic host p bytes h of
                  (Inl e, h) \<Rightarrow> (Inl e, h)
                | (Inr _, h) \<Rightarrow> (Inr (Some (show_path p)), h))))"

definition entry_of :: "file_change \<Rightarrow> string option \<Rightarrow> journal_entry" where
  "entry_of change backup =
     \<lparr>je_path = fc_path change, je_before_sha256 = fc_before_sha256 change,
      je_after_sha256 = fc_after_sha256 change, je_backup = backup\<rparr>"

fun back_up ::
  "'h boot_host \<Rightarrow> path \<Rightarrow> string \<Rightarrow> (string, string option) btree_map \<Rightarrow> file_change list \<Rightarrow> 'h \<Rightarrow>
    journal_entry list result \<times> 'h" where
  "back_up host home rid before [] h = (Inr [], h)"
| "back_up host home rid before (change # changes) h =
     (case back_up_one host (backup_path home rid (fc_path change)) (bytes_before before (fc_path change)) h of
        (Inl e, h) \<Rightarrow> (Inl e, h)
      | (Inr backup, h) \<Rightarrow>
          (case back_up host home rid before changes h of
             (Inl e, h) \<Rightarrow> (Inl e, h)
           | (Inr entries, h) \<Rightarrow> (Inr (entry_of change backup # entries), h)))"

definition verify_outside_content ::
  "(string \<Rightarrow> string) \<Rightarrow> string option \<Rightarrow> string \<Rightarrow> string \<Rightarrow> unit result" where
  "verify_outside_content sha256 before after p =
     (case before of
        None \<Rightarrow> Inr ()
      | Some before \<Rightarrow>
          (case source_decode before of
             Inl e \<Rightarrow> Inl e
           | Inr before_text \<Rightarrow>
               (case source_decode after of
                  Inl e \<Rightarrow> Inl e
                | Inr after_text \<Rightarrow>
                    if (case managed_span_of (st_document before_text) of
                          Inr (Some span) \<Rightarrow>
                            replaces_only_span (st_document before_text) (st_document after_text) span
                              (case managed_span_of (st_document after_text) of
                                 Inr (Some after_span) \<Rightarrow>
                                   (case managed_span_slice after_span (st_document after_text) of
                                      None \<Rightarrow> [] | Some block \<Rightarrow> block)
                               | _ \<Rightarrow> [])
                        | _ \<Rightarrow> starts_with (st_document after_text) (st_document before_text))
                    then Inr ()
                    else Inl (with_detail (with_detail (with_detail
                      (refuse RULE_APPLY_OUTSIDE (p @ '' changed bytes outside the owned block''))
                      ''portable_path'' p) ''expected'' (sha256_hex sha256 before))
                      ''observed'' (sha256_hex sha256 after)))))"

definition verify_written ::
  "(string \<Rightarrow> string) \<Rightarrow> file_change \<Rightarrow> string option \<Rightarrow> string option \<Rightarrow> unit result" where
  "verify_written sha256 change before read =
     (case read of
        None \<Rightarrow> Inl (refuse RULE_APPLY_VERIFY (fc_path change @ '' vanished after it was written''))
      | Some written \<Rightarrow>
          (let observed = sha256_hex sha256 written
           in if observed \<noteq> fc_after_sha256 change then
                Inl (with_detail (with_detail (with_detail
                  (refuse RULE_APPLY_VERIFY (fc_path change @ '' does not match the approved after-hash''))
                  ''portable_path'' (fc_path change)) ''expected'' (fc_after_sha256 change)) ''observed'' observed)
              else if fc_path change = AGENTS_PATH then
                verify_outside_content sha256 before written (fc_path change)
              else Inr ()))"

definition write_owned_file ::
  "(string \<Rightarrow> string) \<Rightarrow> 'h boot_host \<Rightarrow> path \<Rightarrow> file_change \<Rightarrow> string option \<Rightarrow> 'h \<Rightarrow> unit result \<times> 'h" where
  "write_owned_file sha256 host root change before h =
     (let p = path_join root (fc_path change)
      in case create_parent host p h of
           (Inl e, h) \<Rightarrow> (Inl e, h)
         | (Inr _, h) \<Rightarrow>
             (case bh_write_atomic host p (fc_bytes change) h of
                (Inl e, h) \<Rightarrow> (Inl e, h)
              | (Inr _, h) \<Rightarrow>
                  (case bh_read host h p of
                     Inl e \<Rightarrow> (Inl e, h)
                   | Inr read \<Rightarrow> (verify_written sha256 change before read, h))))"

record restore_report =
  rs_restored :: usize
  rs_refused :: "(string \<times> string) list"

text \<open>The restoring of one entry, once its current hash is the written one.\<close>

definition restore_entry :: "'h boot_host \<Rightarrow> path \<Rightarrow> journal_entry \<Rightarrow> 'h \<Rightarrow> unit result \<times> 'h" where
  "restore_entry host p entry h =
     (case je_backup entry of
        Some backup \<Rightarrow>
          (case bh_read host h (path_of backup) of
             Inl e \<Rightarrow> (Inl e, h)
           | Inr None \<Rightarrow>
               (Inl (with_detail (refuse RULE_APPLY_BACKUP (''the backup for '' @ je_path entry @ '' is missing''))
                 ''portable_path'' (je_path entry)), h)
           | Inr (Some bytes) \<Rightarrow> bh_write_atomic host p bytes h)
      | None \<Rightarrow> bh_remove_file host p h)"

fun restore_loop ::
  "(string \<Rightarrow> string) \<Rightarrow> 'h boot_host \<Rightarrow> path \<Rightarrow> journal_entry list \<Rightarrow> restore_report \<Rightarrow> 'h \<Rightarrow>
    restore_report result \<times> 'h" where
  "restore_loop sha256 host root [] report h = (Inr report, h)"
| "restore_loop sha256 host root (entry # entries) report h =
     (let p = path_join root (je_path entry)
      in case bh_read host h p of
           Inl e \<Rightarrow> (Inl e, h)
         | Inr current \<Rightarrow>
             if map_option (sha256_hex sha256) current \<noteq> Some (je_after_sha256 entry) then
               restore_loop sha256 host root entries
                 (report\<lparr>rs_refused := rs_refused report @
                    [(je_path entry, ''changed since the write; refusing to discard it'')]\<rparr>) h
             else
               (case restore_entry host p entry h of
                  (Inl e, h) \<Rightarrow> (Inl e, h)
                | (Inr _, h) \<Rightarrow>
                    restore_loop sha256 host root entries (report\<lparr>rs_restored := rs_restored report + 1\<rparr>) h))"

definition restore_written ::
  "(string \<Rightarrow> string) \<Rightarrow> 'h boot_host \<Rightarrow> path \<Rightarrow> journal_entry list \<Rightarrow> 'h \<Rightarrow> restore_report result \<times> 'h" where
  "restore_written sha256 host root written h =
     restore_loop sha256 host root (rev written) \<lparr>rs_restored = 0, rs_refused = []\<rparr> h"

definition ordered_files :: "file_change list \<Rightarrow> file_change list" where
  "ordered_files changes =
     filter (\<lambda>change. fc_path change \<noteq> OWNERSHIP_PATH) changes @
     filter (\<lambda>change. fc_path change = OWNERSHIP_PATH) changes"

definition written_entry :: "journal_entry list \<Rightarrow> file_change \<Rightarrow> journal_entry" where
  "written_entry entries change =
     (case find (\<lambda>entry. je_path entry = fc_path change) entries of
        Some entry \<Rightarrow> entry | None \<Rightarrow> entry_of change None)"

text \<open>The writing loop stops at the first failure, with the entries written so far.\<close>

fun write_loop ::
  "(string \<Rightarrow> string) \<Rightarrow> 'h boot_host \<Rightarrow> path \<Rightarrow> (string, string option) btree_map \<Rightarrow> journal_entry list \<Rightarrow>
    file_change list \<Rightarrow> journal_entry list \<Rightarrow> 'h \<Rightarrow> ((axiom_error \<times> journal_entry list) + journal_entry list) \<times> 'h" where
  "write_loop sha256 host root before entries [] written h = (Inr written, h)"
| "write_loop sha256 host root before entries (change # changes) written h =
     (case write_owned_file sha256 host root change (bytes_before before (fc_path change)) h of
        (Inl e, h) \<Rightarrow> (Inl (e, written), h)
      | (Inr _, h) \<Rightarrow>
          write_loop sha256 host root before entries changes (written @ [written_entry entries change]) h)"

definition rollback_outcome :: "axiom_error \<Rightarrow> restore_report result \<Rightarrow> apply_outcome" where
  "rollback_outcome e r =
     (case r of
        Inr report \<Rightarrow>
          (if rs_refused report = [] then
             ApplyRolledBack (apply_rule e)
               (ae_message e @ ''; restored '' @ show_nat (rs_restored report) @ '' file(s) from backup'')
           else
             RollbackRefused (apply_rule e)
               (ae_message e @ ''; restored '' @ show_nat (rs_restored report) @ '' file(s), refused '' @
                show_nat (length (rs_refused report)) @ '' ('' @
                concat (map (\<lambda>p. p @ '', '') (butlast (map fst (rs_refused report)))) @
                last (map fst (rs_refused report)) @ '' changed since the write)''))
      | Inl rollback_error \<Rightarrow>
          RollbackRefused (apply_rule e) (ae_message e @ ''; rollback failed: '' @ ae_message rollback_error))"

definition write_repository ::
  "(string \<Rightarrow> string) \<Rightarrow> (journal \<Rightarrow> string + string) \<Rightarrow> 'h boot_host \<Rightarrow> path \<Rightarrow> repository_plan \<Rightarrow> reader \<Rightarrow>
    string \<Rightarrow> 'h \<Rightarrow> apply_outcome \<times> 'h" where
  "write_repository sha256 to_vec host home plan rd plan_digest h =
     (let root = path_of (rp_root plan);
          jpath = journal_path home (rp_repository_id plan);
          before = read_before rd (rp_files plan)
      in case back_up host home (rp_repository_id plan) before (rp_files plan) h of
           (Inl e, h) \<Rightarrow> (ApplyRolledBack (apply_rule e) (ae_message e), h)
         | (Inr entries, h) \<Rightarrow>
             (let journal = \<lparr>jn_schema_version = JOURNAL_SCHEMA_VERSION,
                    jn_repository_id = rp_repository_id plan, jn_root = rp_root plan,
                    jn_plan_digest = plan_digest, jn_state = JournalIntent, jn_entries = entries\<rparr>
              in case write_journal to_vec host jpath journal h of
                   (Inl e, h) \<Rightarrow> (ApplyRolledBack (apply_rule e) (ae_message e), h)
                 | (Inr _, h) \<Rightarrow>
                     (case write_loop sha256 host root before entries (ordered_files (rp_files plan)) [] h of
                        (Inl (e, written), h) \<Rightarrow>
                          (case restore_written sha256 host root written h of
                             (r, h) \<Rightarrow>
                               (rollback_outcome e r,
                                snd (write_journal to_vec host jpath (journal\<lparr>jn_state := JournalRolledBack\<rparr>) h)))
                      | (Inr written, h) \<Rightarrow>
                          (ApplyDone (map je_path written),
                           snd (write_journal to_vec host jpath (journal\<lparr>jn_state := JournalComplete\<rparr>) h)))))"

definition apply_repository ::
  "(string \<Rightarrow> string) \<Rightarrow> (string \<Rightarrow> string) \<Rightarrow> (journal \<Rightarrow> string + string) \<Rightarrow> 'h boot_host \<Rightarrow> 'l lock_host \<Rightarrow> path \<Rightarrow>
    repository_plan \<Rightarrow> reader \<Rightarrow> string \<Rightarrow> 'h \<times> 'l \<Rightarrow> apply_outcome \<times> 'h \<times> 'l" where
  "apply_repository debug sha256 to_vec host locks home plan rd plan_digest s =
     (case s of (h, l) \<Rightarrow>
        if rp_is_conflict plan then
          (case rp_refusal plan of
             Some refusal \<Rightarrow> (ApplyRefused (rf_rule refusal) (rf_message refusal), h, l)
           | None \<Rightarrow> (ApplyRefused RULE_PLAN_CONFLICT ''the plan refuses this repository'', h, l))
        else if \<not> rp_would_write plan then (ApplyUnchanged, h, l)
        else
          (case begin_apply debug sha256 locks home plan rd plan_digest l of
             (Inl e, l) \<Rightarrow> (ApplyRefused (apply_rule e) (ae_message e), h, l)
           | (Inr lock, l) \<Rightarrow>
               (case write_repository sha256 to_vec host home plan rd plan_digest h of
                  (outcome, h) \<Rightarrow> (outcome, h, lock_drop locks lock l))))"

text \<open>The readers are bound to repositories; they observe the host as it is when they are asked.\<close>

fun apply_plan_loop ::
  "(string \<Rightarrow> string) \<Rightarrow> (string \<Rightarrow> string) \<Rightarrow> (journal \<Rightarrow> string + string) \<Rightarrow> 'h boot_host \<Rightarrow> 'l lock_host \<Rightarrow> path \<Rightarrow>
    (string \<times> ('h \<Rightarrow> reader)) list \<Rightarrow> string \<Rightarrow> repository_plan list \<Rightarrow> 'h \<times> 'l \<Rightarrow> repository_report list \<times> 'h \<times> 'l" where
  "apply_plan_loop debug sha256 to_vec host locks home readers plan_digest [] s = ([], s)"
| "apply_plan_loop debug sha256 to_vec host locks home readers plan_digest (repository # repositories) s =
     (case (case find (\<lambda>binding. fst binding = rp_repository_id repository) readers of
              Some binding \<Rightarrow>
                apply_repository debug sha256 to_vec host locks home repository (snd binding (fst s)) plan_digest s
            | None \<Rightarrow>
                (ApplyRefused RULE_APPLY_READER
                  (''no reader is bound to repository '' @ rp_repository_id repository), s)) of
        (outcome, s) \<Rightarrow>
          (case apply_plan_loop debug sha256 to_vec host locks home readers plan_digest repositories s of
             (reports, s) \<Rightarrow>
               (\<lparr>rr_repository_id = rp_repository_id repository, rr_outcome = outcome\<rparr> # reports, s)))"

section \<open>Paths\<close>

definition normal_component :: "string \<Rightarrow> bool" where
  "normal_component c \<longleftrightarrow> c \<noteq> [] \<and> c \<noteq> ''.'' \<and> CHR ''/'' \<notin> set c"

definition normal_path :: "path \<Rightarrow> bool" where
  "normal_path p \<longleftrightarrow> list_all normal_component (tl p) \<and>
     (p \<noteq> [] \<longrightarrow> hd p \<in> {''/'', ''.''} \<or> normal_component (hd p))"

lemma components_rest_normal: "\<forall>s\<in>set ss. CHR ''/'' \<notin> set s \<Longrightarrow> list_all normal_component (components_rest ss)"
  by (auto simp: components_rest_def list_all_iff normal_component_def)

lemma normal_path_of: "normal_path (path_of s)"
proof -
  have rest: "list_all normal_component (components_rest (split_on CHR ''/'' s))"
    "list_all normal_component (components_rest (tl (split_on CHR ''/'' s)))"
    by (rule components_rest_normal; use split_on_no_sep [of _ "CHR ''/''" s] in
        \<open>auto dest: list.set_sel(2) [OF split_on_nonempty]\<close>)+
  have "normal_path p" if "list_all normal_component p" for p
    using that by (cases p) (auto simp: normal_path_def)
  then show ?thesis using rest by (auto simp: path_of_def Let_def normal_path_def)
qed

lemma normal_path_join: "normal_path p \<Longrightarrow> normal_path (path_join p s)"
proof -
  assume p: "normal_path p"
  have "list_all normal_component (components_rest (split_on CHR ''/'' s))"
    by (rule components_rest_normal) (use split_on_no_sep in blast)
  with p normal_path_of [of s] show ?thesis
    by (cases p) (auto simp: path_join_def normal_path_def)
qed

lemma normal_components_rest: "list_all normal_component cs \<Longrightarrow> components_rest cs = cs"
  by (auto simp: components_rest_def list_all_iff normal_component_def intro: filter_True)

text \<open>A shown path is read back.\<close>

lemma path_of_show: "normal_path p \<Longrightarrow> path_of (show_path p) = p"
proof (cases p)
  case (Cons c cs)
  assume "normal_path p"
  then have cs: "list_all normal_component cs" and c: "c \<in> {''/'', ''.''} \<or> normal_component c"
    using Cons by (auto simp: normal_path_def)
  have split: "split_on CHR ''/'' (join_with CHR ''/'' ds) = ds" if "ds \<noteq> []" "list_all normal_component (tl ds)"
      "CHR ''/'' \<notin> set (hd ds)" for ds
    by (rule split_join) (use that in \<open>cases ds; auto simp: list_all_iff normal_component_def\<close>)+
  consider "c = ''/''" "cs = []" | "c = ''/''" "cs \<noteq> []" | "c \<noteq> ''/''" by blast
  then show ?thesis
  proof cases
    case 1
    then show ?thesis using Cons by (simp add: show_path_def path_of_def starts_with_def components_rest_def)
  next
    case 2
    then have "split_on CHR ''/'' (show_path p) = [] # cs"
      using Cons split [of cs] cs
      by (cases cs) (auto simp: show_path_def normal_component_def)
    with 2 Cons normal_components_rest [OF cs] show ?thesis
      by (simp add: path_of_def starts_with_def show_path_def components_rest_def)
  next
    case 3
    then have plain: "CHR ''/'' \<notin> set c" "c \<noteq> []" using c by (auto simp: normal_component_def)
    then have parts: "split_on CHR ''/'' (show_path p) = c # cs"
      using Cons split [of p] cs 3 by (simp add: show_path_def)
    have "\<not> starts_with (show_path p) ''/''"
      using plain Cons 3 by (cases cs; cases c) (auto simp: show_path_def starts_with_def)
    with parts plain c 3 normal_components_rest [OF cs] Cons show ?thesis
      by (auto simp: path_of_def components_rest_def normal_component_def Let_def)
  qed
qed (simp add: show_path_def path_of_def starts_with_def components_rest_def)

section \<open>Lemmas\<close>

definition change_verifies :: "(string \<Rightarrow> string) \<Rightarrow> string option \<Rightarrow> file_change \<Rightarrow> bool" where
  "change_verifies sha256 before change \<longleftrightarrow>
     verify_written sha256 change before (Some (fc_bytes change)) = Inr ()"

text \<open>A call of the undoing that failed: the host could not put back the old content of a file it had
  written, and the state the undoing leaves: all old contents, or, once such a call failed, a file with its
  written or its old content each.\<close>

definition undo_fails ::
  "'h boot_host \<Rightarrow> ('h \<Rightarrow> path \<Rightarrow> string option) \<Rightarrow> path \<Rightarrow> string option \<Rightarrow> string option \<Rightarrow> bool" where
  "undo_fails host files p written old \<longleftrightarrow>
     (\<exists>h e h'. files h p = written \<and>
        (case old of Some bytes \<Rightarrow> bh_write_atomic host p bytes h | None \<Rightarrow> bh_remove_file host p h) = (Inl e, h'))"

definition undone ::
  "'h boot_host \<Rightarrow> ('h \<Rightarrow> path \<Rightarrow> string option) \<Rightarrow> (file_change \<Rightarrow> path) \<Rightarrow> file_change list \<Rightarrow> (path \<Rightarrow> string option) \<Rightarrow>
     restore_report result \<Rightarrow> 'h \<Rightarrow> bool" where
  "undone host files T cs old r h \<longleftrightarrow>
     (case r of
        Inr report \<Rightarrow> rs_refused report = [] \<and> (\<forall>c\<in>set cs. files h (T c) = old (T c))
      | Inl _ \<Rightarrow> (\<exists>c\<in>set cs. undo_fails host files (T c) (Some (fc_bytes c)) (old (T c))) \<and>
          (\<forall>c\<in>set cs. files h (T c) \<in> {Some (fc_bytes c), old (T c)}))"

lemma read_before_get:
  assumes "c \<in> set changes"
  shows "bytes_before (read_before rd changes) (fc_path c) =
    (case rd (fc_path c) of Inl _ \<Rightarrow> None | Inr bytes \<Rightarrow> bytes)"
proof -
  let ?step = "\<lambda>before change. bt_insert (fc_path change)
       (case rd (fc_path change) of Inl _ \<Rightarrow> None | Inr bytes \<Rightarrow> bytes) before"
  have get: "bt_get (foldl ?step m cs) q = (if q \<in> fc_path ` set cs
      then Some (case rd q of Inl _ \<Rightarrow> None | Inr bytes \<Rightarrow> bytes) else bt_get m q)" for m cs q
    by (induction cs arbitrary: m) (auto simp: bt.get_ins)
  show ?thesis using assms unfolding bytes_before_def read_before_def get by simp
qed

lemma set_ordered_files [simp]: "set (ordered_files changes) = set changes"
  by (auto simp: ordered_files_def)

lemma distinct_map_ordered_files:
  "distinct (map f changes) \<Longrightarrow> distinct (map f (ordered_files changes))"
  by (induction changes) (auto simp: ordered_files_def)

lemma find_entry:
  assumes "distinct (map je_path entries)" and "entry \<in> set entries"
  shows "find (\<lambda>e. je_path e = je_path entry) entries = Some entry"
  using assms by (induction entries) (auto simp: rev_image_eqI)

context bootstrap_host
begin

lemma create_parent_files: "files (snd (create_parent host p h)) = files h"
  by (auto simp: create_parent_def create split: option.split)

lemma write_journal_files: "q \<noteq> p \<Longrightarrow> files (snd (write_journal to_vec host p journal h)) q = files h q"
proof -
  assume q: "q \<noteq> p"
  show ?thesis
  proof (cases "to_vec journal")
    case (Inr bytes)
    obtain r h1 where parent: "create_parent host p h = (r, h1)" by fastforce
    obtain r' h2 where wrote: "bh_write_atomic host p bytes h1 = (r', h2)" by fastforce
    have "files h1 = files h" using create_parent_files [of p h] parent by simp
    with q parent wrote write_ok [of p bytes h1 _ h2] write_err [of p bytes h1 _ h2] Inr show ?thesis
      by (cases r; cases r') (auto simp: write_journal_def)
  qed (simp add: write_journal_def)
qed

lemma back_up_one_ok:
  "back_up_one host p bytes h = (Inr backup, h') \<Longrightarrow>
     backup = map_option (\<lambda>_. show_path p) bytes \<and>
     files h' = (case bytes of None \<Rightarrow> files h | Some b \<Rightarrow> (files h)(p \<mapsto> b))"
  using create_parent_files [of p h] write_ok [of p]
  by (auto simp: back_up_one_def split: option.splits sum.splits prod.splits)

lemma back_up_one_err:
  "back_up_one host p bytes h = (Inl e, h') \<Longrightarrow> files h' = files h"
  using create_parent_files [of p h] write_err [of p]
  by (auto simp: back_up_one_def split: option.splits sum.splits prod.splits)

lemma back_up_elsewhere:
  "q \<notin> (\<lambda>c. backup_path home rid (fc_path c)) ` set cs \<Longrightarrow>
     files (snd (back_up host home rid before cs h)) q = files h q"
proof (induction cs arbitrary: h)
  case (Cons c cs)
  obtain r h1 where one: "back_up_one host (backup_path home rid (fc_path c)) (bytes_before before (fc_path c)) h = (r, h1)"
    by fastforce
  have "files h1 q = files h q"
    using one back_up_one_ok [of _ _ h _ h1] back_up_one_err [of _ _ h _ h1] Cons.prems
    by (cases r) (auto split: option.splits)
  moreover have "files (snd (back_up host home rid before cs h1)) q = files h1 q"
    using Cons by simp
  ultimately show ?case using one
    by (cases r) (auto split: prod.splits sum.splits)
qed simp

lemma back_up_ok:
  assumes "back_up host home rid before cs h = (Inr entries, h')"
    and "distinct (map (\<lambda>c. backup_path home rid (fc_path c)) cs)"
  shows "entries = map (\<lambda>c. entry_of c (map_option (\<lambda>_. show_path (backup_path home rid (fc_path c)))
      (bytes_before before (fc_path c)))) cs \<and>
    (\<forall>c\<in>set cs. bytes_before before (fc_path c) \<noteq> None \<longrightarrow>
       files h' (backup_path home rid (fc_path c)) = bytes_before before (fc_path c))"
  using assms
proof (induction cs arbitrary: h entries)
  case (Cons c cs)
  let ?B = "\<lambda>c. backup_path home rid (fc_path c)"
  obtain backup h1 where one: "back_up_one host (?B c) (bytes_before before (fc_path c)) h = (Inr backup, h1)"
    using Cons.prems(1) by (auto split: prod.splits sum.splits)
  obtain rest where rest: "back_up host home rid before cs h1 = (Inr rest, h')"
    "entries = entry_of c backup # rest"
    using Cons.prems(1) one by (auto split: prod.splits sum.splits)
  have "?B c \<notin> ?B ` set cs" using Cons.prems(2) by simp
  from back_up_elsewhere [OF this, of before h1] rest(1) have "files h' (?B c) = files h1 (?B c)" by simp
  moreover note back_up_one_ok [OF one]
  moreover have "distinct (map ?B cs)" using Cons.prems(2) by simp
  note Cons.IH [OF rest(1) this]
  ultimately show ?case using rest(2) by auto
qed simp

lemma write_owned_file_ok:
  assumes "write_owned_file sha256 host root c before h = (Inr u, h')"
  shows "files h' = (files h)(path_join root (fc_path c) \<mapsto> fc_bytes c)"
proof -
  let ?p = "path_join root (fc_path c)"
  obtain r h1 where parent: "create_parent host ?p h = (r, h1)" by fastforce
  obtain r' h2 where wrote: "bh_write_atomic host ?p (fc_bytes c) h1 = (r', h2)" by fastforce
  have "files h1 = files h" using create_parent_files [of ?p h] parent by simp
  then show ?thesis
    using assms parent wrote write_ok [of ?p "fc_bytes c" h1 _ h2] read [of h2 ?p]
    by (cases r; cases r') (auto simp: write_owned_file_def)
qed

lemma write_owned_file_err:
  assumes "write_owned_file sha256 host root c before h = (Inl e, h')" and "change_verifies sha256 before c"
  shows "files h' = files h"
proof -
  let ?p = "path_join root (fc_path c)"
  obtain r h1 where parent: "create_parent host ?p h = (r, h1)" by fastforce
  obtain r' h2 where wrote: "bh_write_atomic host ?p (fc_bytes c) h1 = (r', h2)" by fastforce
  have h1: "files h1 = files h" using create_parent_files [of ?p h] parent by simp
  show ?thesis
  proof (cases r)
    case (Inl e')
    with assms(1) parent h1 show ?thesis by (simp add: write_owned_file_def)
  next
    case (Inr u)
    show ?thesis
    proof (cases r')
      case (Inl e')
      with assms(1) parent wrote Inr write_err [of ?p "fc_bytes c" h1 e' h2] h1 show ?thesis
        by (simp add: write_owned_file_def)
    next
      case r': (Inr u')
      from wrote r' have "files h2 ?p = Some (fc_bytes c)"
        using write_ok [of ?p "fc_bytes c" h1 u' h2] by simp
      with assms parent wrote Inr r' read [of h2 ?p] show ?thesis
        by (simp add: write_owned_file_def change_verifies_def)
    qed
  qed
qed

text \<open>The writing loop writes every file, or a first part of them and nothing else.\<close>

lemma write_loop_files:
  assumes "distinct (map (\<lambda>c. path_join root (fc_path c)) cs)"
    and "\<forall>c\<in>set cs. change_verifies sha256 (bytes_before before (fc_path c)) c"
    and "write_loop sha256 host root before entries cs written h = (r, h')"
  shows "\<exists>finished rest. cs = finished @ rest \<and>
    (case r of Inr all \<Rightarrow> rest = [] \<and> all = written @ map (written_entry entries) finished
     | Inl (e, some) \<Rightarrow> some = written @ map (written_entry entries) finished) \<and>
    (\<forall>c\<in>set finished. files h' (path_join root (fc_path c)) = Some (fc_bytes c)) \<and>
    (\<forall>q. q \<notin> (\<lambda>c. path_join root (fc_path c)) ` set finished \<longrightarrow> files h' q = files h q)"
  using assms
proof (induction cs arbitrary: written h)
  case (Cons c cs)
  let ?T = "\<lambda>c. path_join root (fc_path c)"
  obtain r1 h1 where one: "write_owned_file sha256 host root c (bytes_before before (fc_path c)) h = (r1, h1)"
    by fastforce
  show ?case
  proof (cases r1)
    case (Inl e)
    have "files h1 = files h" using write_owned_file_err [OF one [unfolded Inl]] Cons.prems(2) by simp
    moreover have "r = Inl (e, written)" "h' = h1" using Cons.prems(3) one Inl by auto
    ultimately show ?thesis by (intro exI [of _ "[]"] exI [of _ "c # cs"]) simp
  next
    case (Inr u)
    note wrote = write_owned_file_ok [OF one [unfolded Inr]]
    have "write_loop sha256 host root before entries cs (written @ [written_entry entries c]) h1 = (r, h')"
      using Cons.prems(3) one Inr by simp
    moreover have "distinct (map ?T cs)" "\<forall>c\<in>set cs. change_verifies sha256 (bytes_before before (fc_path c)) c"
      using Cons.prems(1,2) by auto
    ultimately obtain finished rest where part: "cs = finished @ rest"
      "(case r of Inr all \<Rightarrow> rest = [] \<and> all = (written @ [written_entry entries c]) @ map (written_entry entries) finished
       | Inl (e, some) \<Rightarrow> some = (written @ [written_entry entries c]) @ map (written_entry entries) finished)"
      "\<forall>c\<in>set finished. files h' (?T c) = Some (fc_bytes c)"
      "\<forall>q. q \<notin> ?T ` set finished \<longrightarrow> files h' q = files h1 q"
      using Cons.IH [of "written @ [written_entry entries c]" h1] by blast
    have "?T c \<notin> ?T ` set finished" using Cons.prems(1) part(1) by auto
    then have "files h' (?T c) = Some (fc_bytes c)" using part(4) wrote by simp
    with part wrote show ?thesis
      by (intro exI [of _ "c # finished"] exI [of _ rest]) (auto split: sum.splits prod.splits)
  qed
qed auto

lemma restore_entry_elsewhere:
  assumes "restore_entry host p entry h = (r, h')" and "q \<noteq> p"
  shows "files h' q = files h q"
proof (cases "je_backup entry")
  case None
  with assms show ?thesis
    using remove_ok [of p h _ h'] remove_err [of p h _ h'] by (cases r) (auto simp: restore_entry_def)
next
  case (Some b)
  show ?thesis
  proof (cases "files h (path_of b)")
    case (Some bytes)
    with \<open>je_backup entry = Some b\<close> assms show ?thesis
      using write_ok [of p bytes h _ h'] write_err [of p bytes h _ h']
      by (cases r) (auto simp: restore_entry_def read)
  qed (use Some assms in \<open>auto simp: restore_entry_def read\<close>)
qed

lemma restore_loop_elsewhere:
  assumes "q \<notin> (\<lambda>e. path_join root (je_path e)) ` set es"
  shows "files (snd (restore_loop sha256 host root es report h)) q = files h q"
  using assms
proof (induction es arbitrary: report h)
  case (Cons e es)
  let ?p = "path_join root (je_path e)"
  obtain r h1 where one: "restore_entry host ?p e h = (r, h1)" by fastforce
  have "files h1 q = files h q" using restore_entry_elsewhere [OF one] Cons.prems by simp
  with Cons one show ?case by (cases r) (auto simp: Let_def read)
qed simp

text \<open>Restoring entries whose files still hold what was written gives the old files back, or a call on one
  of them failed.\<close>

lemma restore_entry_result:
  assumes "restore_entry host p entry h = (r, h')"
    and "case je_backup entry of None \<Rightarrow> old = None | Some b \<Rightarrow> old \<noteq> None \<and> files h (path_of b) = old"
  shows "case r of Inr _ \<Rightarrow> files h' = (files h)(p := old)
    | Inl _ \<Rightarrow> files h' = files h \<and> undo_fails host files p (files h p) old"
proof (cases "je_backup entry")
  case None
  with assms show ?thesis using remove_ok [of p h _ h'] remove_err [of p h _ h']
    by (auto simp: restore_entry_def undo_fails_def split: sum.split)
next
  case (Some b)
  then obtain bytes where "old = Some bytes" "files h (path_of b) = Some bytes" using assms(2) by auto
  with Some assms(1) show ?thesis using write_ok [of p bytes h _ h'] write_err [of p bytes h _ h']
    by (auto simp: restore_entry_def undo_fails_def read split: sum.split)
qed

lemma restore_loop_files:
  assumes "distinct (map (\<lambda>e. path_join root (je_path e)) es)"
    and "\<forall>e\<in>set es. map_option (sha256_hex sha256) (files h (path_join root (je_path e))) = Some (je_after_sha256 e)"
    and "\<forall>e\<in>set es. case je_backup e of None \<Rightarrow> old (je_path e) = None
      | Some b \<Rightarrow> old (je_path e) \<noteq> None \<and> files h (path_of b) = old (je_path e) \<and>
          path_of b \<notin> (\<lambda>e. path_join root (je_path e)) ` set es"
    and "restore_loop sha256 host root es report h = (r, h')"
  shows "case r of
      Inr report' \<Rightarrow> rs_refused report' = rs_refused report \<and>
        (\<forall>e\<in>set es. files h' (path_join root (je_path e)) = old (je_path e))
    | Inl _ \<Rightarrow>
        (\<exists>e\<in>set es. undo_fails host files (path_join root (je_path e)) (files h (path_join root (je_path e))) (old (je_path e))) \<and>
        (\<forall>e\<in>set es. files h' (path_join root (je_path e)) \<in> {files h (path_join root (je_path e)), old (je_path e)})"
  using assms
proof (induction es arbitrary: report h)
  case (Cons e es)
  let ?T = "\<lambda>e. path_join root (je_path e)"
  obtain r1 h1 where one: "restore_entry host (?T e) e h = (r1, h1)" by fastforce
  have current: "bh_read host h (?T e) = Inr (files h (?T e))"
    "map_option (sha256_hex sha256) (files h (?T e)) = Some (je_after_sha256 e)"
    using read Cons.prems(2) by auto
  have entry: "case je_backup e of None \<Rightarrow> old (je_path e) = None
      | Some b \<Rightarrow> old (je_path e) \<noteq> None \<and> files h (path_of b) = old (je_path e)"
    using Cons.prems(3) by (auto split: option.splits)
  note result = restore_entry_result [OF one entry]
  show ?case
  proof (cases r1)
    case (Inl e1)
    with Cons.prems(4) one current have "r = Inl e1" "h' = h1" by (auto simp: Let_def)
    with result Inl show ?thesis by simp
  next
    case (Inr u)
    then have h1: "files h1 = (files h)(?T e := old (je_path e))" using result by simp
    have rest: "restore_loop sha256 host root es (report\<lparr>rs_restored := rs_restored report + 1\<rparr>) h1 = (r, h')"
      using Cons.prems(4) one current Inr by (auto simp: Let_def)
    have new: "?T e \<notin> ?T ` set es" using Cons.prems(1) by simp
    have same: "files h1 (?T e') = files h (?T e')" if "e' \<in> set es" for e'
      using new that h1 by (metis fun_upd_other imageI)
    have "\<forall>e\<in>set es. map_option (sha256_hex sha256) (files h1 (?T e)) = Some (je_after_sha256 e)"
      using Cons.prems(2) same by simp
    moreover have "\<forall>e\<in>set es. case je_backup e of None \<Rightarrow> old (je_path e) = None
        | Some b \<Rightarrow> old (je_path e) \<noteq> None \<and> files h1 (path_of b) = old (je_path e) \<and> path_of b \<notin> ?T ` set es"
      using Cons.prems(3) h1 by (auto split: option.splits)
    moreover have "distinct (map ?T es)" using Cons.prems(1) by simp
    ultimately have IH: "case r of
        Inr report' \<Rightarrow> rs_refused report' = rs_refused report \<and> (\<forall>e\<in>set es. files h' (?T e) = old (je_path e))
      | Inl _ \<Rightarrow> (\<exists>e\<in>set es. undo_fails host files (?T e) (files h1 (?T e)) (old (je_path e))) \<and>
          (\<forall>e\<in>set es. files h' (?T e) \<in> {files h1 (?T e), old (je_path e)})"
      using Cons.IH [OF _ _ _ rest] by (cases r) simp_all
    have "files h' (?T e) = old (je_path e)"
      using restore_loop_elsewhere [OF new, of sha256 "report\<lparr>rs_restored := rs_restored report + 1\<rparr>" h1] rest h1 by simp
    with IH same show ?thesis by (auto split: sum.splits)
  qed
qed auto

text \<open>Restoring what was written after a failure, from the backups made before.\<close>

lemma restore_written_files:
  fixes old :: "path \<Rightarrow> string option" and B :: "file_change \<Rightarrow> path"
  defines "entry \<equiv> \<lambda>T c. entry_of c (map_option (\<lambda>_. show_path (B c)) (old (T c)))"
  assumes T: "T = (\<lambda>c. path_join root (fc_path c))" and "distinct (map T cs)"
    and written: "\<And>c. c \<in> set cs \<Longrightarrow> files h (T c) = Some (fc_bytes c) \<and>
      sha256_hex sha256 (fc_bytes c) = fc_after_sha256 c"
    and saved: "\<And>c. c \<in> set cs \<Longrightarrow> old (T c) \<noteq> None \<Longrightarrow> files h (B c) = old (T c)"
    and apart: "\<And>c. c \<in> set cs \<Longrightarrow> normal_path (B c) \<and> B c \<notin> T ` set cs"
    and run: "restore_written sha256 host root (map (entry T) cs) h = (r, h')"
  shows "undone host files T cs old r h'"
proof -
  have paths: "path_join root (je_path (entry T c)) = T c" for c
    by (simp add: entry_def entry_of_def T)
  have targets: "(\<lambda>e. path_join root (je_path e)) ` set (rev (map (entry T) cs)) = T ` set cs"
    using paths by (auto simp: image_iff)
  have "map (\<lambda>e. path_join root (je_path e)) (rev (map (entry T) cs)) = rev (map T cs)"
    using paths by (simp add: rev_map)
  then have "distinct (map (\<lambda>e. path_join root (je_path e)) (rev (map (entry T) cs)))"
    using assms(3) by (metis distinct_rev)
  moreover have "\<forall>x\<in>set (rev (map (entry T) cs)).
      map_option (sha256_hex sha256) (files h (path_join root (je_path x))) = Some (je_after_sha256 x)"
    using written paths by (auto simp: entry_def entry_of_def)
  moreover have "\<forall>x\<in>set (rev (map (entry T) cs)). case je_backup x of
      None \<Rightarrow> old (path_join root (je_path x)) = None
    | Some b \<Rightarrow> old (path_join root (je_path x)) \<noteq> None \<and> files h (path_of b) = old (path_join root (je_path x)) \<and>
        path_of b \<notin> (\<lambda>e. path_join root (je_path e)) ` set (rev (map (entry T) cs))"
  proof
    fix x assume "x \<in> set (rev (map (entry T) cs))"
    then obtain c where c: "c \<in> set cs" "x = entry T c" by auto
    have "je_backup x = map_option (\<lambda>_. show_path (B c)) (old (T c))"
      by (simp add: c(2) entry_def entry_of_def)
    moreover have "path_of (show_path (B c)) = B c" using apart [OF c(1)] path_of_show by blast
    ultimately show "case je_backup x of
        None \<Rightarrow> old (path_join root (je_path x)) = None
      | Some b \<Rightarrow> old (path_join root (je_path x)) \<noteq> None \<and> files h (path_of b) = old (path_join root (je_path x)) \<and>
          path_of b \<notin> (\<lambda>e. path_join root (je_path e)) ` set (rev (map (entry T) cs))"
      using saved [OF c(1)] apart [OF c(1)] paths [of c] unfolding targets
      by (cases "old (T c)") (simp_all add: c(2))
  qed
  ultimately have "case r of
      Inr report' \<Rightarrow> rs_refused report' = rs_refused \<lparr>rs_restored = 0, rs_refused = []\<rparr> \<and>
        (\<forall>x\<in>set (rev (map (entry T) cs)). files h' (path_join root (je_path x)) = old (path_join root (je_path x)))
    | Inl _ \<Rightarrow> (\<exists>x\<in>set (rev (map (entry T) cs)). undo_fails host files (path_join root (je_path x))
          (files h (path_join root (je_path x))) (old (path_join root (je_path x)))) \<and>
        (\<forall>x\<in>set (rev (map (entry T) cs)). files h' (path_join root (je_path x)) \<in>
          {files h (path_join root (je_path x)), old (path_join root (je_path x))})"
    by (rule restore_loop_files [where old = "\<lambda>p. old (path_join root p)",
        OF _ _ _ run [unfolded restore_written_def]])
  then show ?thesis using paths written by (auto simp: undone_def split: sum.splits)
qed

end

text \<open>The places an apply writes: the planned files, their backups and the journal.\<close>

abbreviation planned_path :: "repository_plan \<Rightarrow> file_change \<Rightarrow> path" where
  "planned_path plan \<equiv> \<lambda>c. path_join (path_of (rp_root plan)) (fc_path c)"

abbreviation saved_path :: "path \<Rightarrow> repository_plan \<Rightarrow> file_change \<Rightarrow> path" where
  "saved_path home plan \<equiv> \<lambda>c. backup_path home (rp_repository_id plan) (fc_path c)"

definition separate_places :: "path \<Rightarrow> repository_plan \<Rightarrow> bool" where
  "separate_places home plan \<longleftrightarrow>
     distinct (map (planned_path plan) (rp_files plan) @
       journal_path home (rp_repository_id plan) # map (saved_path home plan) (rp_files plan))"

definition store_places :: "path \<Rightarrow> repository_plan \<Rightarrow> path set" where
  "store_places home plan =
     insert (journal_path home (rp_repository_id plan)) (saved_path home plan ` set (rp_files plan))"

lemma separate_placesD:
  assumes "separate_places home plan" and "c \<in> set (rp_files plan)"
  shows "planned_path plan c \<notin> store_places home plan"
    "saved_path home plan c \<noteq> journal_path home (rp_repository_id plan)"
    "saved_path home plan c \<notin> planned_path plan ` set (rp_files plan)"
  using assms unfolding separate_places_def store_places_def by (auto simp: image_iff)

lemma separate_distinct:
  assumes "separate_places home plan"
  shows "distinct (map (planned_path plan) (rp_files plan))" "distinct (map (saved_path home plan) (rp_files plan))"
    "distinct (map fc_path (rp_files plan))"
  using assms by (auto simp: separate_places_def distinct_map inj_on_def)

definition recorded_entry :: "path \<Rightarrow> repository_plan \<Rightarrow> (path \<Rightarrow> string option) \<Rightarrow> file_change \<Rightarrow> journal_entry" where
  "recorded_entry home plan old c =
     entry_of c (map_option (\<lambda>_. show_path (saved_path home plan c)) (old (planned_path plan c)))"

lemma written_entry_recorded:
  assumes "separate_places home plan" and "c \<in> set (rp_files plan)"
  shows "written_entry (map (recorded_entry home plan old) (rp_files plan)) c = recorded_entry home plan old c"
proof -
  have "distinct (map je_path (map (recorded_entry home plan old) (rp_files plan)))"
    using separate_distinct(3) [OF assms(1)] by (simp add: recorded_entry_def entry_of_def comp_def)
  from find_entry [OF this, of "recorded_entry home plan old c"] assms(2) show ?thesis
    by (simp add: written_entry_def recorded_entry_def entry_of_def)
qed

context bootstrap_host
begin

text \<open>After the backups and the journal the planned files are untouched and saved.\<close>

lemma backed_up_files:
  assumes "back_up host home (rp_repository_id plan) (read_before rd (rp_files plan)) (rp_files plan) h = (Inr entries, h1)"
    and "separate_places home plan"
    and reads: "\<forall>c\<in>set (rp_files plan). rd (fc_path c) = Inr (files h (planned_path plan c))"
  shows "entries = map (recorded_entry home plan (files h)) (rp_files plan)"
    and "\<forall>c\<in>set (rp_files plan). files h (planned_path plan c) \<noteq> None \<longrightarrow>
      files h1 (saved_path home plan c) = files h (planned_path plan c)"
proof -
  have old: "bytes_before (read_before rd (rp_files plan)) (fc_path c) = files h (planned_path plan c)"
    if "c \<in> set (rp_files plan)" for c
    using read_before_get [OF that, of rd] reads that by simp
  note ok = back_up_ok [OF assms(1) separate_distinct(2) [OF assms(2)]]
  show "entries = map (recorded_entry home plan (files h)) (rp_files plan)"
    using ok old by (simp add: recorded_entry_def)
  show "\<forall>c\<in>set (rp_files plan). files h (planned_path plan c) \<noteq> None \<longrightarrow>
      files h1 (saved_path home plan c) = files h (planned_path plan c)"
    using ok old by simp
qed

text \<open>The writing of the planned files and, on a failure, their restoring.\<close>

lemma write_stage_files:
  fixes old :: "path \<Rightarrow> string option"
  assumes separate: "separate_places home plan" and "normal_path home"
    and entries: "entries = map (recorded_entry home plan old) (rp_files plan)"
    and kept: "\<And>c. c \<in> set (rp_files plan) \<Longrightarrow> files h (planned_path plan c) = old (planned_path plan c)"
    and saved: "\<And>c. c \<in> set (rp_files plan) \<Longrightarrow> old (planned_path plan c) \<noteq> None \<Longrightarrow>
      files h (saved_path home plan c) = old (planned_path plan c)"
    and before: "\<And>c. c \<in> set (rp_files plan) \<Longrightarrow> bytes_before before (fc_path c) = old (planned_path plan c)"
    and verifies: "\<And>c. c \<in> set (rp_files plan) \<Longrightarrow> change_verifies sha256 (old (planned_path plan c)) c"
    and loop: "write_loop sha256 host (path_of (rp_root plan)) before entries (ordered_files (rp_files plan)) [] h = (r, h')"
  shows "case r of
      Inr all \<Rightarrow> (\<forall>c\<in>set (rp_files plan). files h' (planned_path plan c) = Some (fc_bytes c)) \<and>
        (\<forall>q. q \<notin> planned_path plan ` set (rp_files plan) \<longrightarrow> files h' q = files h q)
    | Inl (e, some) \<Rightarrow> (\<forall>r h''. restore_written sha256 host (path_of (rp_root plan)) some h' = (r, h'') \<longrightarrow>
        undone host files (planned_path plan) (rp_files plan) old r h'' \<and>
        (\<forall>q. q \<notin> planned_path plan ` set (rp_files plan) \<longrightarrow> files h'' q = files h q))"
proof -
  let ?T = "planned_path plan" and ?root = "path_of (rp_root plan)"
  have dT: "distinct (map ?T (ordered_files (rp_files plan)))"
    using distinct_map_ordered_files separate_distinct(1) [OF separate] by blast
  moreover have "\<forall>c\<in>set (ordered_files (rp_files plan)). change_verifies sha256 (bytes_before before (fc_path c)) c"
    using verifies before by simp
  ultimately obtain finished rest where part: "ordered_files (rp_files plan) = finished @ rest"
    "case r of Inr all \<Rightarrow> rest = [] \<and> all = [] @ map (written_entry entries) finished
      | Inl (e, some) \<Rightarrow> some = [] @ map (written_entry entries) finished"
    "\<forall>c\<in>set finished. files h' (?T c) = Some (fc_bytes c)"
    "\<forall>q. q \<notin> ?T ` set finished \<longrightarrow> files h' q = files h q"
    using write_loop_files [OF _ _ loop] by blast
  have sub: "set finished \<subseteq> set (rp_files plan)" using arg_cong [OF part(1), of set] by auto
  have dF: "distinct (map ?T finished)" using dT part(1) by simp
  show ?thesis
  proof (cases r)
    case (Inr all)
    then have "set finished = set (rp_files plan)"
      using part(1,2) set_ordered_files [of "rp_files plan"] by simp
    with part Inr show ?thesis by simp
  next
    case (Inl failure)
    obtain e some where failure: "failure = (e, some)" by fastforce
    have some: "some = map (recorded_entry home plan old) finished"
      using part(2) Inl failure sub written_entry_recorded [OF separate] by (auto simp: entries)
    have "undone host files ?T (rp_files plan) old r' h''"
      if run: "restore_written sha256 host ?root some h' = (r', h'')" for r' h''
    proof -
      have normal: "normal_path (saved_path home plan c)" for c
        using \<open>normal_path home\<close> by (simp add: backup_path_def normal_path_join)
      have hash: "sha256_hex sha256 (fc_bytes c) = fc_after_sha256 c" if "c \<in> set (rp_files plan)" for c
        using verifies [OF that] by (auto simp: change_verifies_def verify_written_def Let_def split: if_splits)
      have apart: "saved_path home plan c \<notin> ?T ` set finished" if "c \<in> set (rp_files plan)" for c
        using separate_placesD(3) [OF separate that] sub by auto
      have part_undone: "undone host files ?T finished old r' h''"
      proof (rule restore_written_files [OF refl dF _ _ _ run [unfolded some recorded_entry_def [abs_def]]])
        fix c assume c: "c \<in> set finished"
        then have c': "c \<in> set (rp_files plan)" using sub by blast
        show "files h' (?T c) = Some (fc_bytes c) \<and> sha256_hex sha256 (fc_bytes c) = fc_after_sha256 c"
          using part(3) hash [OF c'] c by blast
        show "files h' (saved_path home plan c) = old (?T c)" if "old (?T c) \<noteq> None"
          using part(4) apart [OF c'] saved [OF c' that] by simp
        show "normal_path (saved_path home plan c) \<and> saved_path home plan c \<notin> ?T ` set finished"
          using apart [OF c'] normal by blast
      qed
      have others: "files h'' q = files h' q" if "q \<notin> ?T ` set finished" for q
        using restore_loop_elsewhere [of q ?root "rev some" sha256 "\<lparr>rs_restored = 0, rs_refused = []\<rparr>" h']
          that run by (simp add: restore_written_def some recorded_entry_def entry_of_def image_image)
      have rest: "files h'' (?T c) = old (?T c)" if c: "c \<in> set (rp_files plan)" "c \<notin> set finished" for c
      proof -
        have "?T c \<notin> ?T ` set finished"
          using c sub separate_distinct(1) [OF separate] by (auto simp: distinct_map dest: inj_onD)
        with others part(4) kept [OF c(1)] show ?thesis by simp
      qed
      show ?thesis
      proof (cases r')
        case (Inl err)
        with part_undone obtain d where "d \<in> set finished"
          "undo_fails host files (?T d) (Some (fc_bytes d)) (old (?T d))" by (auto simp: undone_def)
        moreover have "files h'' (?T c) \<in> {Some (fc_bytes c), old (?T c)}" if "c \<in> set (rp_files plan)" for c
          using rest [OF that] part_undone Inl by (cases "c \<in> set finished") (auto simp: undone_def)
        ultimately show ?thesis using sub Inl by (auto simp: undone_def)
      next
        case (Inr report)
        have "files h'' (?T c) = old (?T c)" if "c \<in> set (rp_files plan)" for c
          using rest [OF that] part_undone Inr by (cases "c \<in> set finished") (auto simp: undone_def)
        with part_undone Inr show ?thesis by (simp add: undone_def)
      qed
    qed
    moreover have "files h'' q = files h q" if "q \<notin> ?T ` set (rp_files plan)"
      "restore_written sha256 host ?root some h' = (r', h'')" for r' h'' q
    proof -
      have "q \<notin> ?T ` set finished" using that(1) sub by auto
      then show ?thesis using part(4)
          restore_loop_elsewhere [of q ?root "rev some" sha256 "\<lparr>rs_restored = 0, rs_refused = []\<rparr>" h'] that(2)
        by (simp add: restore_written_def some recorded_entry_def entry_of_def image_image)
    qed
    ultimately show ?thesis using Inl failure by auto
  qed
qed

text \<open>The planned files are all written or, unless a restore itself fails, all as before.\<close>

lemma write_repository_files:
  assumes reads: "\<forall>c\<in>set (rp_files plan). rd (fc_path c) = Inr (files h (planned_path plan c))"
    and verifies: "\<forall>c\<in>set (rp_files plan). change_verifies sha256 (files h (planned_path plan c)) c"
    and separate: "separate_places home plan" and "normal_path home"
    and run: "write_repository sha256 to_vec host home plan rd digest h = (outcome, h')"
  shows "(\<forall>c\<in>set (rp_files plan). case outcome of
      ApplyDone _ \<Rightarrow> files h' (planned_path plan c) = Some (fc_bytes c)
    | RollbackRefused _ _ \<Rightarrow> files h' (planned_path plan c) \<in> {Some (fc_bytes c), files h (planned_path plan c)}
    | _ \<Rightarrow> files h' (planned_path plan c) = files h (planned_path plan c)) \<and>
    (case outcome of
       RollbackRefused _ _ \<Rightarrow> \<exists>c\<in>set (rp_files plan).
         undo_fails host files (planned_path plan c) (Some (fc_bytes c)) (files h (planned_path plan c))
     | _ \<Rightarrow> True) \<and>
    (\<forall>q. q \<notin> planned_path plan ` set (rp_files plan) \<longrightarrow> q \<notin> store_places home plan \<longrightarrow> files h' q = files h q)"
proof -
  let ?T = "planned_path plan" and ?J = "journal_path home (rp_repository_id plan)"
  let ?before = "read_before rd (rp_files plan)"
  have old: "bytes_before ?before (fc_path c) = files h (?T c)" if "c \<in> set (rp_files plan)" for c
    using read_before_get [OF that, of rd] reads that by simp
  obtain r1 h1 where backed: "back_up host home (rp_repository_id plan) ?before (rp_files plan) h = (r1, h1)" by fastforce
  have kept1: "files h1 q = files h q" if "q \<notin> store_places home plan" for q
    using back_up_elsewhere [of q home "rp_repository_id plan" "rp_files plan" ?before h] backed that
    by (simp add: store_places_def)
  note apart = separate_placesD [OF separate]
  show ?thesis
  proof (cases r1)
    case (Inl e)
    then have "outcome = ApplyRolledBack (apply_rule e) (ae_message e)" "h' = h1"
      using run backed by (auto simp: write_repository_def Let_def)
    with kept1 apart show ?thesis by auto
  next
    case entries: (Inr entries)
    let ?journal = "\<lparr>jn_schema_version = JOURNAL_SCHEMA_VERSION, jn_repository_id = rp_repository_id plan,
      jn_root = rp_root plan, jn_plan_digest = digest, jn_state = JournalIntent, jn_entries = entries\<rparr>"
    note recorded = backed_up_files [OF backed [unfolded entries] separate reads]
    obtain r2 h2 where logged: "write_journal to_vec host ?J ?journal h1 = (r2, h2)" by fastforce
    have kept2: "files h2 q = files h1 q" if "q \<noteq> ?J" for q
      using write_journal_files [OF that, of to_vec ?journal h1] logged by simp
    have kept: "files h2 q = files h q" if "q \<notin> store_places home plan" for q
      using kept1 kept2 that by (auto simp: store_places_def)
    show ?thesis
    proof (cases r2)
      case (Inl e)
      then have "outcome = ApplyRolledBack (apply_rule e) (ae_message e)" "h' = h2"
        using run backed entries logged by (auto simp: write_repository_def Let_def)
      with kept apart show ?thesis by auto
    next
      case logged_ok: (Inr u)
      obtain r3 h3 where loop: "write_loop sha256 host (path_of (rp_root plan)) ?before entries
          (ordered_files (rp_files plan)) [] h2 = (r3, h3)" by fastforce
      note stage = write_stage_files [OF separate \<open>normal_path home\<close> recorded(1) _ _ old _ loop]
      have stage: "case r3 of
          Inr all \<Rightarrow> (\<forall>c\<in>set (rp_files plan). files h3 (?T c) = Some (fc_bytes c)) \<and>
            (\<forall>q. q \<notin> ?T ` set (rp_files plan) \<longrightarrow> files h3 q = files h2 q)
        | Inl (e, some) \<Rightarrow> (\<forall>r h''. restore_written sha256 host (path_of (rp_root plan)) some h3 = (r, h'') \<longrightarrow>
            undone host files ?T (rp_files plan) (files h) r h'' \<and>
            (\<forall>q. q \<notin> ?T ` set (rp_files plan) \<longrightarrow> files h'' q = files h2 q))"
        by (rule stage) (use kept kept2 apart recorded(2) verifies in auto)
      have last: "files (snd (write_journal to_vec host ?J j h4)) q = files h4 q"
        if "q \<noteq> ?J" for j h4 q using write_journal_files [OF that] .
      show ?thesis
      proof (cases r3)
        case (Inr all)
        then have "outcome = ApplyDone (map je_path all)"
          "h' = snd (write_journal to_vec host ?J (?journal\<lparr>jn_state := JournalComplete\<rparr>) h3)"
          using run backed entries logged logged_ok loop by (auto simp: write_repository_def Let_def)
        with stage Inr last kept apart show ?thesis by (auto simp: store_places_def)
      next
        case (Inl failure)
        obtain e some where failure: "failure = (e, some)" by fastforce
        obtain r4 h4 where restored: "restore_written sha256 host (path_of (rp_root plan)) some h3 = (r4, h4)" by fastforce
        have out: "outcome = rollback_outcome e r4"
          "h' = snd (write_journal to_vec host ?J (?journal\<lparr>jn_state := JournalRolledBack\<rparr>) h4)"
          using run backed entries logged logged_ok loop Inl failure restored
          by (auto simp: write_repository_def Let_def)
        have "undone host files ?T (rp_files plan) (files h) r4 h4 \<and>
            (\<forall>q. q \<notin> ?T ` set (rp_files plan) \<longrightarrow> files h4 q = files h2 q)"
          using stage Inl failure restored by simp
        moreover have "?T c \<noteq> ?J" if "c \<in> set (rp_files plan)" for c
          using apart(1) [OF that] by (auto simp: store_places_def)
        ultimately show ?thesis using out last kept
          by (cases r4) (auto simp: undone_def rollback_outcome_def store_places_def)
      qed
    qed
  qed
qed

end

section \<open>Planned changes verify\<close>

lemma planned_agents_verify:
  assumes whole: "whole_block BEGIN_MARKER END_MARKER template"
    and doc: "st_document t = document" "utf8 document"
    and span: "managed_span_of (st_document t) = Inr span"
    and after: "plan_agents t span (render_block template (source_newline t)) = Inr after"
    and found: "managed_span_of after \<noteq> Inr None"
    and size: "length after \<le> u64_max"
  shows "verify_outside_content sha256 (Some document) after p = Inr ()"
proof -
  let ?block = "render_block template (newline_of (st_document t))"
  have t: "source_decode document = Inr \<lparr>st_document = st_document t, st_bom = starts_with_bom document\<rparr>"
    using doc by (simp add: source_decode_def utf8_def)
  obtain place where placed: "utf8 after" "placed BEGIN_MARKER END_MARKER after place ?block"
    "\<And>sp. span = Some sp \<Longrightarrow> ms_start place = ms_start sp"
    using plan_agents_placed [OF whole _ span after found] doc by blast
  have decoded: "source_decode after = Inr \<lparr>st_document = after, st_bom = starts_with_bom after\<rparr>"
    using placed(1) by (simp add: source_decode_def utf8_def)
  have place: "managed_span_of after = Inr (Some place)"
    using placed(2) by (simp add: placed_def managed_span_of_def)
  show ?thesis
  proof (cases span)
    case None
    then obtain rest where "after = st_document t @ rest"
      using after by (auto simp: plan_agents_def source_append_block_def append_block_def Let_def)
    then have "starts_with after (st_document t)" by (simp add: starts_with_def)
    with None show ?thesis by (simp add: verify_outside_content_def t decoded span)
  next
    case (Some sp)
    then have replaced: "replace_span t sp ?block = Inr after"
      using after by (simp add: plan_agents_def source_newline_def)
    have same: "ms_start place = ms_start sp" using placed(3) Some by blast
    have at: "char_boundary after (ms_start place)" "char_boundary after (ms_end place)"
      "ms_end place = ms_start place + length ?block" "ms_end place \<le> length after"
      using placed(2) unfolding placed_def by blast+
    have "char_boundary after (ms_start sp)" "char_boundary after (ms_start sp + length ?block)"
      "ms_start sp + length ?block \<le> u64_max"
      using at same size by simp_all
    moreover have "ms_start sp \<le> ms_end sp" "char_boundary (st_document t) (ms_start sp)"
      "char_boundary (st_document t) (ms_end sp)"
      "after = take (ms_start sp) (st_document t) @ ?block @ drop (ms_end sp) (st_document t)"
      using replaced unfolding replace_span_ok by blast+
    ultimately have "replaces_only_span (st_document t) after sp ?block"
      unfolding replaces_only_span_ok by blast
    with Some show ?thesis
      by (simp add: verify_outside_content_def t decoded span place placed_slice [OF placed(2)])
  qed
qed

lemma planned_changes_verify:
  assumes whole: "whole_block BEGIN_MARKER END_MARKER (tm_block tm)"
    and reader: "rt_reader target = (\<lambda>p. Inr (old p))"
    and plan: "plan_repository lower sha256 json target tm = Inr plan"
    and c: "c \<in> set (rp_files plan)" and size: "length (fc_bytes c) \<le> u64_max"
  shows "change_verifies sha256 (old (fc_path c)) c"
proof -
  have written: "rp_change plan \<noteq> ClassConflict"
    using refused_writes_nothing [OF plan] c by auto
  obtain ar pr orr t ow where
    "ensure_block_points_at_policy lower (tm_block tm) = Inr ()"
    and raw: "rt_reader target AGENTS_PATH = Inr ar" "rt_reader target POLICY_PATH = Inr pr"
      "rt_reader target OWNERSHIP_PATH = Inr orr"
    and t: "st_document t = (case ar of None \<Rightarrow> [] | Some bytes \<Rightarrow> bytes)" "utf8 (st_document t)"
    and "(case orr of None \<Rightarrow> ow = None | Some bytes \<Rightarrow> \<exists>owner. ow = Some owner \<and> ownership_parse json bytes = Inr owner)"
    and eq: "plan = plan_documents sha256 json target tm ar pr orr t ow"
    by (rule plan_repository_ok [OF plan written])
  from plan_documents_ok [OF written [unfolded eq]] obtain span after place bb block where
    span: "managed_span_of (st_document t) = Inr span"
    and after: "plan_agents t span (render_block (tm_block tm) (source_newline t)) = Inr after"
    and place: "managed_span_of after = Inr (Some place)"
    and files: "plan = plan_files sha256 json target tm ar pr orr ow bb after block"
    unfolding eq by metis
  from plan_files_ok [OF written [unfolded files]] obtain w where
    rows: "rp_files plan = concat (map (file_row sha256) [(AGENTS_PATH, ar, Some after),
      (POLICY_PATH, pr, Some (tm_policy tm)), (OWNERSHIP_PATH, orr, w)])"
    unfolding files by blast
  have hash: "fc_after_sha256 c = sha256_hex sha256 (fc_bytes c)"
    using c by (auto simp: rows file_row_def split: option.splits if_splits)
  have agents: "fc_path c = AGENTS_PATH \<Longrightarrow> fc_bytes c = after"
    using c paths_distinct by (auto simp: rows file_row_def split: option.splits if_splits)
  have "verify_outside_content sha256 (old AGENTS_PATH) after AGENTS_PATH = Inr ()" if "fc_path c = AGENTS_PATH"
  proof (cases ar)
    case None
    then show ?thesis using raw(1) reader by (simp add: verify_outside_content_def)
  next
    case (Some document)
    have "verify_outside_content sha256 (Some document) after AGENTS_PATH = Inr ()"
      by (rule planned_agents_verify [OF whole _ _ span after _ size [unfolded agents [OF that]]])
        (use t Some place in auto)
    then show ?thesis using raw(1) reader Some by simp
  qed
  then show ?thesis
    using hash agents by (auto simp: change_verifies_def verify_written_def)
qed

section \<open>A plan is not stale for the state it was made for\<close>

lemma planned_repository_verifies:
  assumes reader: "rt_reader target = (\<lambda>p. Inr (old p))"
    and plan: "plan_repository lower sha256 json target tm = Inr plan"
    and written: "rp_change plan \<noteq> ClassConflict"
  shows "verify_files sha256 (rt_reader target) (rp_files plan) = Inr ()"
    and "observed_block_sha256 sha256 (rt_reader target) = Inr (rp_before_block_sha256 plan)"
    and "rp_root plan = rt_root target" and "rp_repository_id plan = rt_repository_id target"
    and "c \<in> set (rp_files plan) \<Longrightarrow> fc_path c \<in> {AGENTS_PATH, POLICY_PATH, OWNERSHIP_PATH}"
proof -
  obtain ar pr orr t ow where
    "ensure_block_points_at_policy lower (tm_block tm) = Inr ()"
    and raw: "rt_reader target AGENTS_PATH = Inr ar" "rt_reader target POLICY_PATH = Inr pr"
      "rt_reader target OWNERSHIP_PATH = Inr orr"
    and t: "st_document t = (case ar of None \<Rightarrow> [] | Some bytes \<Rightarrow> bytes)" "utf8 (st_document t)"
    and "(case orr of None \<Rightarrow> ow = None | Some bytes \<Rightarrow> \<exists>owner. ow = Some owner \<and> ownership_parse json bytes = Inr owner)"
    and eq: "plan = plan_documents sha256 json target tm ar pr orr t ow"
    by (rule plan_repository_ok [OF plan written])
  let ?bb = "\<lambda>span. map_option (sha256_hex sha256)
      (case span of None \<Rightarrow> None | Some span \<Rightarrow> managed_span_slice span (st_document t))"
  obtain span after place where span: "managed_span_of (st_document t) = Inr span"
    and files: "plan = plan_files sha256 json target tm ar pr orr ow (?bb span) after
      (case managed_span_slice place after of None \<Rightarrow> [] | Some block \<Rightarrow> block)"
    by (rule plan_documents_ok [OF written [unfolded eq]]) (simp add: eq)
  obtain w where
    rows: "rp_files plan = concat (map (file_row sha256) [(AGENTS_PATH, ar, Some after),
      (POLICY_PATH, pr, Some (tm_policy tm)), (OWNERSHIP_PATH, orr, w)])"
    unfolding files by (rule plan_files_ok [OF written [unfolded files]])
  have verified: "list_all (\<lambda>c. \<exists>bytes. rd (fc_path c) = Inr bytes \<and>
      map_option (sha256_hex sha256) bytes = fc_before_sha256 c) cs \<Longrightarrow> verify_files sha256 rd cs = Inr ()" for rd cs
    by (induction cs) auto
  have row: "list_all (\<lambda>c. \<exists>bytes. rt_reader target (fc_path c) = Inr bytes \<and>
      map_option (sha256_hex sha256) bytes = fc_before_sha256 c) (file_row sha256 (q, before, a))"
    if "rt_reader target q = Inr before" for q before a
    using that by (auto simp: file_row_def split: option.split)
  show "verify_files sha256 (rt_reader target) (rp_files plan) = Inr ()"
    by (rule verified) (use row raw in \<open>simp add: rows\<close>)
  obtain manifest where "after_ownership sha256 json tm ow
      (case managed_span_slice place after of None \<Rightarrow> [] | Some block \<Rightarrow> block) = Inr manifest"
    using written unfolding files plan_files_def by (auto split: sum.splits)
  then have shape: "rp_before_block_sha256 plan = ?bb span" "rp_root plan = rt_root target"
    "rp_repository_id plan = rt_repository_id target"
    unfolding files plan_files_def by (simp_all add: Let_def)
  then show "rp_root plan = rt_root target" "rp_repository_id plan = rt_repository_id target" by auto
  have none: "managed_span_of [] = Inr None" by code_simp
  show "observed_block_sha256 sha256 (rt_reader target) = Inr (rp_before_block_sha256 plan)"
  proof (cases ar)
    case None
    then show ?thesis using raw(1) t(1) span none by (simp add: observed_block_sha256_def shape)
  next
    case (Some document)
    then have "source_decode document = Inr \<lparr>st_document = st_document t, st_bom = starts_with_bom document\<rparr>"
      using t by (simp add: source_decode_def utf8_def)
    then show ?thesis using raw(1) span Some
      by (auto simp: observed_block_sha256_def shape split: option.split)
  qed
  show "c \<in> set (rp_files plan) \<Longrightarrow> fc_path c \<in> {AGENTS_PATH, POLICY_PATH, OWNERSHIP_PATH}"
    by (auto simp: rows file_row_def split: option.splits if_splits)
qed

section \<open>A host whose calls do not fail\<close>

definition calls_succeed :: "'h boot_host \<Rightarrow> bool" where
  "calls_succeed host \<longleftrightarrow> (\<forall>p h. fst (bh_create_dir_all host p h) = Inr ()) \<and>
     (\<forall>p bytes h. fst (bh_write_atomic host p bytes h) = Inr ())"

lemma fst_pair: "fst r = a \<Longrightarrow> \<exists>b. r = (a, b)"
  by (cases r) simp

context bootstrap_host
begin

lemma create_parent_done: "calls_succeed host \<Longrightarrow> fst (create_parent host p h) = Inr ()"
  by (simp add: create_parent_def calls_succeed_def split: option.split)

lemma write_journal_done:
  assumes "calls_succeed host" and "\<And>j. \<exists>bytes. to_vec j = Inr bytes"
  shows "fst (write_journal to_vec host p j h) = Inr ()"
proof -
  obtain bytes where "to_vec j = Inr bytes" using assms(2) by blast
  then show ?thesis using create_parent_done [OF assms(1), of p h] assms(1)
    by (auto simp: write_journal_def calls_succeed_def split: prod.split)
qed

lemma back_up_done:
  assumes "calls_succeed host"
  shows "\<exists>entries. fst (back_up host home rid before cs h) = Inr entries"
proof (induction cs arbitrary: h)
  case (Cons c cs)
  let ?p = "backup_path home rid (fc_path c)"
  have "\<exists>backup. fst (back_up_one host ?p bytes h) = Inr backup" for bytes
  proof (cases bytes)
    case (Some b)
    obtain h1 where h1: "create_parent host ?p h = (Inr (), h1)"
      using fst_pair [OF create_parent_done [OF assms]] by blast
    obtain h2 where "bh_write_atomic host ?p b h1 = (Inr (), h2)"
      using fst_pair [of "bh_write_atomic host ?p b h1" "Inr ()"] assms by (auto simp: calls_succeed_def)
    with Some h1 show ?thesis by (simp add: back_up_one_def)
  qed (simp add: back_up_one_def)
  then obtain backup where "fst (back_up_one host ?p (bytes_before before (fc_path c)) h) = Inr backup" by blast
  from fst_pair [OF this] obtain h1 where "back_up_one host ?p (bytes_before before (fc_path c)) h = (Inr backup, h1)"
    by blast
  moreover obtain entries where "fst (back_up host home rid before cs h1) = Inr entries" using Cons by blast
  ultimately show ?case by (auto split: prod.split)
qed simp

lemma write_loop_done:
  assumes total: "calls_succeed host"
    and "\<forall>c\<in>set cs. change_verifies sha256 (bytes_before before (fc_path c)) c"
  shows "\<exists>all. fst (write_loop sha256 host root before entries cs written h) = Inr all"
  using assms(2)
proof (induction cs arbitrary: written h)
  case (Cons c cs)
  let ?p = "path_join root (fc_path c)"
  obtain h1 where parent: "create_parent host ?p h = (Inr (), h1)"
    using fst_pair [OF create_parent_done [OF total]] by blast
  obtain h2 where wrote: "bh_write_atomic host ?p (fc_bytes c) h1 = (Inr (), h2)"
    using fst_pair [of "bh_write_atomic host ?p (fc_bytes c) h1" "Inr ()"] total by (auto simp: calls_succeed_def)
  have "bh_read host h2 ?p = Inr (Some (fc_bytes c))"
    using read [of h2 ?p] write_ok [OF wrote] by simp
  with parent wrote Cons.prems have
    "write_owned_file sha256 host root c (bytes_before before (fc_path c)) h = (Inr (), h2)"
    by (simp add: write_owned_file_def change_verifies_def)
  with Cons show ?case by simp
qed simp

lemma write_repository_done:
  assumes total: "calls_succeed host" and encodes: "\<And>j. \<exists>bytes. to_vec j = Inr bytes"
    and reads: "\<forall>c\<in>set (rp_files plan). rd (fc_path c) = Inr (files h (planned_path plan c))"
    and verifies: "\<forall>c\<in>set (rp_files plan). change_verifies sha256 (files h (planned_path plan c)) c"
  shows "\<exists>names. fst (write_repository sha256 to_vec host home plan rd digest h) = ApplyDone names"
proof -
  let ?before = "read_before rd (rp_files plan)" and ?J = "journal_path home (rp_repository_id plan)"
  obtain entries where "fst (back_up host home (rp_repository_id plan) ?before (rp_files plan) h) = Inr entries"
    using back_up_done [OF total] by blast
  from fst_pair [OF this] obtain h1 where
    backed: "back_up host home (rp_repository_id plan) ?before (rp_files plan) h = (Inr entries, h1)" by blast
  let ?journal = "\<lparr>jn_schema_version = JOURNAL_SCHEMA_VERSION, jn_repository_id = rp_repository_id plan,
      jn_root = rp_root plan, jn_plan_digest = digest, jn_state = JournalIntent, jn_entries = entries\<rparr>"
  obtain h2 where logged: "write_journal to_vec host ?J ?journal h1 = (Inr (), h2)"
    using fst_pair [OF write_journal_done [where to_vec = to_vec, OF total encodes]] by blast
  have "\<forall>c\<in>set (ordered_files (rp_files plan)). change_verifies sha256 (bytes_before ?before (fc_path c)) c"
    using verifies reads read_before_get [of _ "rp_files plan" rd] by simp
  then obtain all where "fst (write_loop sha256 host (path_of (rp_root plan)) ?before entries
      (ordered_files (rp_files plan)) [] h2) = Inr all"
    using write_loop_done [OF total] by blast
  from fst_pair [OF this] obtain h3 where "write_loop sha256 host (path_of (rp_root plan)) ?before entries
      (ordered_files (rp_files plan)) [] h2 = (Inr all, h3)" by blast
  with backed logged show ?thesis by (simp add: write_repository_def Let_def)
qed

end

section \<open>Properties\<close>

text \<open>C4: Applying a plan is all or nothing on a host whose reads do not fail: when the planned changes
  verify and the backups and the journal lie apart, the apply either leaves every planned file with
  its planned bytes, or, whatever call failed, leaves every one as it was, unless the host also failed the
  very call that puts back the old content of a planned file it had written; that is reported as a refused
  rollback, and then still every planned file has its planned or its old content.  No other file changes but
  the backups and the journal.\<close>

theorem apply_is_all_or_nothing:
  assumes "bootstrap_host host files" and "normal_path home" and "separate_places home plan"
    and "\<forall>c\<in>set (rp_files plan). rd (fc_path c) = Inr (files h (planned_path plan c))"
    and "\<forall>c\<in>set (rp_files plan). change_verifies sha256 (files h (planned_path plan c)) c"
    and "apply_repository debug sha256 to_vec host locks home plan rd digest (h, l) = (outcome, h', l')"
  shows "(\<forall>c\<in>set (rp_files plan). case outcome of
      ApplyDone _ \<Rightarrow> files h' (planned_path plan c) = Some (fc_bytes c)
    | RollbackRefused _ _ \<Rightarrow> files h' (planned_path plan c) \<in> {Some (fc_bytes c), files h (planned_path plan c)}
    | _ \<Rightarrow> files h' (planned_path plan c) = files h (planned_path plan c)) \<and>
    (case outcome of
       RollbackRefused _ _ \<Rightarrow> \<exists>c\<in>set (rp_files plan).
         undo_fails host files (planned_path plan c) (Some (fc_bytes c)) (files h (planned_path plan c))
     | _ \<Rightarrow> True) \<and>
    (\<forall>q. q \<notin> planned_path plan ` set (rp_files plan) \<longrightarrow> q \<notin> store_places home plan \<longrightarrow> files h' q = files h q)"
proof -
  consider (same) "h' = h" "\<And>names. outcome \<noteq> ApplyDone names" "\<And>rule message. outcome \<noteq> RollbackRefused rule message"
    | (run) "write_repository sha256 to_vec host home plan rd digest h = (outcome, h')"
    using assms(6) by (auto simp: apply_repository_def split: if_splits option.splits prod.splits sum.splits)
  then show ?thesis
  proof cases
    case same
    then show ?thesis by (cases outcome) auto
  next
    case run
    from bootstrap_host.write_repository_files [OF assms(1,4,5,3,2) run] show ?thesis .
  qed
qed

definition two_files :: repository_plan where
  "two_files = sample_repository\<lparr>rp_files :=
     [\<lparr>fc_path = ''p'', fc_before_sha256 = Some [], fc_after_sha256 = [], fc_diff = [], fc_bytes = ''new''\<rparr>,
      \<lparr>fc_path = ''q'', fc_before_sha256 = None, fc_after_sha256 = [], fc_diff = [], fc_bytes = ''new''\<rparr>]\<rparr>"

definition failing_host :: memory_host where
  "failing_host = fail_write [''/'', ''r'', ''q''] (add_file [''/'', ''r'', ''p''] ''old'' memory_new)"

theorem apply_is_all_or_nothing_witness:
  "\<exists>rule message h l.
     apply_repository (\<lambda>s. s) (\<lambda>_. []) (\<lambda>_. Inr []) memory_ops locks_ops [''/'', ''h''] two_files
       (\<lambda>p. Inr (memory_file failing_host [''/'', ''r'', p])) ''d''
       (failing_host, locks_add_directory [''/'', ''r''] memory_locks_new) = (ApplyRolledBack rule message, h, l) \<and>
     memory_file h [''/'', ''r'', ''p''] = Some ''old''"
proof -
  let ?rd = "\<lambda>p. Inr (memory_file failing_host [''/'', ''r'', p]) :: string option result"
  let ?run = "apply_repository (\<lambda>s. s) (\<lambda>_. []) (\<lambda>_. Inr []) memory_ops locks_ops [''/'', ''h''] two_files
       ?rd ''d'' (failing_host, locks_add_directory [''/'', ''r''] memory_locks_new)"
  have "case ?run of (ApplyRolledBack _ _, _) \<Rightarrow> True | _ \<Rightarrow> False" by code_simp
  then obtain rule message h l where run: "?run = (ApplyRolledBack rule message, h, l)"
    by (cases ?run) (auto split: apply_outcome.splits)
  have places: "normal_path [''/'', ''h'']" "separate_places [''/'', ''h''] two_files" by code_simp+
  have paths: "map (planned_path two_files) (rp_files two_files) = [[''/'', ''r'', ''p''], [''/'', ''r'', ''q'']]"
    "map fc_path (rp_files two_files) = [''p'', ''q'']"
    by code_simp+
  have reads: "\<forall>c\<in>set (rp_files two_files). ?rd (fc_path c) = Inr (memory_file failing_host (planned_path two_files c))"
    using paths by (auto simp: two_files_def sample_repository_def)
  have "\<forall>c\<in>set (rp_files two_files). change_verifies (\<lambda>_. []) (memory_file failing_host (planned_path two_files c)) c"
    by (simp add: two_files_def sample_repository_def change_verifies_def verify_written_def sha256_hex_def AGENTS_PATH_def)
  from apply_is_all_or_nothing [OF memory.bootstrap_host_axioms places reads this run]
  have "\<forall>c\<in>set (rp_files two_files). memory_file h (planned_path two_files c) = memory_file failing_host (planned_path two_files c)"
    by simp
  then have "memory_file h [''/'', ''r'', ''p''] = memory_file failing_host [''/'', ''r'', ''p'']"
    using paths(1) by (auto simp: two_files_def sample_repository_def)
  moreover have "memory_file failing_host [''/'', ''r'', ''p''] = Some ''old''" by code_simp
  ultimately show ?thesis using run by auto
qed

lemma three_paths_join:
  "p \<in> {AGENTS_PATH, POLICY_PATH, OWNERSHIP_PATH} \<Longrightarrow> q \<in> {AGENTS_PATH, POLICY_PATH, OWNERSHIP_PATH} \<Longrightarrow>
     path_join root p = path_join root q \<Longrightarrow> p = q"
proof -
  have parts: "path_of AGENTS_PATH = components_rest (split_on CHR ''/'' AGENTS_PATH)"
    "path_of POLICY_PATH = components_rest (split_on CHR ''/'' POLICY_PATH)"
    "path_of OWNERSHIP_PATH = components_rest (split_on CHR ''/'' OWNERSHIP_PATH)"
    "\<not> starts_with AGENTS_PATH ''/''" "\<not> starts_with POLICY_PATH ''/''" "\<not> starts_with OWNERSHIP_PATH ''/''"
    "components_rest (split_on CHR ''/'' AGENTS_PATH) = [AGENTS_PATH]"
    "components_rest (split_on CHR ''/'' POLICY_PATH) = [''.axiom'', ''agent'', ''POLICY.md'']"
    "components_rest (split_on CHR ''/'' OWNERSHIP_PATH) = [''.axiom'', ''agent'', ''bootstrap.lock.json'']"
    by code_simp+
  have "path_join root AGENTS_PATH = root @ [AGENTS_PATH]"
    "path_join root POLICY_PATH = root @ [''.axiom'', ''agent'', ''POLICY.md'']"
    "path_join root OWNERSHIP_PATH = root @ [''.axiom'', ''agent'', ''bootstrap.lock.json'']"
    by (simp_all add: path_join_def parts)
  then show "p \<in> {AGENTS_PATH, POLICY_PATH, OWNERSHIP_PATH} \<Longrightarrow> q \<in> {AGENTS_PATH, POLICY_PATH, OWNERSHIP_PATH} \<Longrightarrow>
     path_join root p = path_join root q \<Longrightarrow> p = q" by auto
qed

text \<open>What the host reads once a plan is applied.\<close>

lemma applied_reads_after:
  assumes "bootstrap_host host files" and "normal_path home" and "separate_places home plan"
    and reads: "rd = (\<lambda>p. Inr (files h (path_join (path_of (rp_root plan)) p)))"
    and "\<forall>c\<in>set (rp_files plan). change_verifies sha256 (files h (planned_path plan c)) c"
    and three: "\<And>c. c \<in> set (rp_files plan) \<Longrightarrow> fc_path c \<in> {AGENTS_PATH, POLICY_PATH, OWNERSHIP_PATH}"
    and away: "\<And>p. p \<in> {AGENTS_PATH, POLICY_PATH, OWNERSHIP_PATH} \<Longrightarrow>
      path_join (path_of (rp_root plan)) p \<notin> store_places home plan"
    and run: "write_repository sha256 to_vec host home plan rd digest h = (ApplyDone names, h')"
  shows "reads_after (rp_files plan) (\<lambda>p. files h (path_join (path_of (rp_root plan)) p))
    (\<lambda>p. files h' (path_join (path_of (rp_root plan)) p))"
proof -
  have "\<forall>c\<in>set (rp_files plan). rd (fc_path c) = Inr (files h (planned_path plan c))" by (simp add: reads)
  note result = bootstrap_host.write_repository_files [OF assms(1) this assms(5,3,2) run]
  show ?thesis
    unfolding reads_after_def
  proof
    fix p assume p: "p \<in> {AGENTS_PATH, POLICY_PATH, OWNERSHIP_PATH}"
    let ?q = "path_join (path_of (rp_root plan)) p"
    show "(\<exists>c\<in>set (rp_files plan). fc_path c = p \<and> files h' ?q = Some (fc_bytes c)) \<or>
        (\<forall>c\<in>set (rp_files plan). fc_path c \<noteq> p) \<and> files h' ?q = files h ?q"
    proof (cases "\<exists>c\<in>set (rp_files plan). fc_path c = p")
      case True
      then show ?thesis using result by auto
    next
      case False
      then have "?q \<notin> planned_path plan ` set (rp_files plan)"
        using three_paths_join [OF p three] by auto
      then show ?thesis using result away [OF p] False by auto
    qed
  qed
qed

text \<open>A file of the repository at a root.\<close>

definition repository_content :: "('h \<Rightarrow> path \<Rightarrow> string option) \<Rightarrow> string \<Rightarrow> 'h \<Rightarrow> string \<Rightarrow> string option" where
  "repository_content files root h p = files h (path_join (path_of root) p)"

text \<open>C10: Bootstrapping converges: a plan that is no conflict, made for what the host holds and applied under
  a free lock on a host whose calls succeed, is carried out, and planning the repository again then
  reports it unchanged.  This needs a template that is one whole managed block with a version that is not blank, a
  document with LF line ends that does not end in a lone CR (lemma
  \<open>BootGitignore.appended_block_changes_convention\<close> shows what happens otherwise), JSON and a digest that behave as
  documented, planned files whose sizes fit 64 bits, and planned files, backups and journal that lie apart.\<close>

theorem bootstrap_converges:
  assumes host: "bootstrap_host host files" and total: "calls_succeed host"
    and encodes: "\<And>j. \<exists>bytes. to_vec j = Inr bytes"
    and json: "json_reads_back json" and sha: "\<And>bytes. length (sha256 bytes) = 32"
    and version: "str_trim (tm_version tm) \<noteq> []"
    and whole: "whole_block BEGIN_MARKER END_MARKER (tm_block tm)"
    and reader: "rt_reader target = (\<lambda>p. Inr (repository_content files (rt_root target) h p))"
    and lone: "\<And>document. repository_content files (rt_root target) h AGENTS_PATH = Some document \<Longrightarrow> newline_of document = Lf \<Longrightarrow>
      \<not> ends_with document [CHR 0x0D]"
    and plan: "plan_repository lower sha256 json target tm = Inr plan" "rp_change plan \<noteq> ClassConflict"
    and sizes: "\<And>c. c \<in> set (rp_files plan) \<Longrightarrow> length (fc_bytes c) \<le> u64_max"
    and places: "normal_path home" "separate_places home plan"
      "\<And>p. p \<in> {AGENTS_PATH, POLICY_PATH, OWNERSHIP_PATH} \<Longrightarrow>
         path_join (path_of (rt_root target)) p \<notin> store_places home plan"
    and lock: "lock_path debug home (rt_repository_id target) = Inr p" "locks_file l p = None"
      "locks_is_directory l (path_of (rt_root target))"
  shows "\<exists>outcome h' l' again.
    apply_repository debug sha256 to_vec host locks_ops home plan (rt_reader target) digest (h, l) = (outcome, h', l') \<and>
    outcome_is_success outcome \<and>
    plan_repository lower sha256 json (target\<lparr>rt_reader := \<lambda>p. Inr (repository_content files (rt_root target) h' p)\<rparr>) tm = Inr again \<and>
    rp_change again = ClassUnchanged \<and> rp_files again = []"
proof -
  note made = planned_repository_verifies [OF reader plan]
  have verifies: "\<forall>c\<in>set (rp_files plan). change_verifies sha256 (files h (planned_path plan c)) c"
    using planned_changes_verify [OF whole reader plan(1) _ sizes] by (simp add: repository_content_def made(3))
  have "reads_after (rp_files plan) (repository_content files (rt_root target) h) (repository_content files (rt_root target) h') \<and>
      (\<exists>outcome l'. apply_repository debug sha256 to_vec host locks_ops home plan (rt_reader target) digest (h, l) =
         (outcome, h', l') \<and> outcome_is_success outcome)"
    if "h' = (if rp_files plan = [] then h
        else snd (write_repository sha256 to_vec host home plan (rt_reader target) digest h))" for h'
  proof (cases "rp_files plan = []")
    case True
    with that plan(2) show ?thesis
      by (simp add: reads_after_def apply_repository_def rp_is_conflict_def rp_would_write_def)
  next
    case False
    have reads: "rt_reader target = (\<lambda>p. Inr (files h (path_join (path_of (rp_root plan)) p)))"
      by (simp add: reader repository_content_def made(3))
    then have "\<forall>c\<in>set (rp_files plan). rt_reader target (fc_path c) = Inr (files h (planned_path plan c))" by simp
    from bootstrap_host.write_repository_done [where to_vec = to_vec and home = home and digest = digest,
        OF host total encodes this verifies] obtain names where
      names: "fst (write_repository sha256 to_vec host home plan (rt_reader target) digest h) = ApplyDone names"
      by blast
    then have ran: "write_repository sha256 to_vec host home plan (rt_reader target) digest h = (ApplyDone names, h')"
      using that False by (simp add: prod_eq_iff)
    have "reads_after (rp_files plan) (repository_content files (rt_root target) h) (repository_content files (rt_root target) h')"
      using applied_reads_after [OF host places(1,2) reads verifies made(5) _ ran] places(3)
      by (simp add: repository_content_def [abs_def] made(3))
    moreover obtain lock l1 where "begin_apply debug sha256 locks_ops home plan (rt_reader target) digest l = (Inr lock, l1)"
      using lock made plan(2)
      by (simp add: begin_apply_def lock_acquire_def locks_ops_def locks_create_exclusive_def locks_contains_def
          locks_file_def verify_repository_def rp_is_conflict_def locks_is_directory_def Let_def)
    ultimately show ?thesis using ran False plan(2)
      by (simp add: apply_repository_def rp_is_conflict_def rp_would_write_def)
  qed
  from this [OF refl] replanned_unchanged [OF json sha version whole reader lone plan] show ?thesis by blast
qed

section \<open>A file system whose calls succeed\<close>

definition map_ops :: "(path \<Rightarrow> string option) boot_host" where
  "map_ops = \<lparr>bh_read = (\<lambda>h p. Inr (h p)), bh_create_dir_all = (\<lambda>p h. (Inr (), h)),
     bh_write_atomic = (\<lambda>p bytes h. (Inr (), h(p \<mapsto> bytes))), bh_remove_file = (\<lambda>p h. (Inr (), h(p := None)))\<rparr>"

interpretation plain_files: bootstrap_host map_ops "\<lambda>h. h"
  by unfold_locales (auto simp: map_ops_def)

theorem bootstrap_converges_witness:
  "\<exists>target plan outcome h l again.
     rt_reader target = (\<lambda>p. Inr (repository_content (\<lambda>h. h) ''/r'' [[''/'', ''r'', AGENTS_PATH] \<mapsto> ''hi'' @ [CHR 0x0A]] p)) \<and>
     plan_repository to_ascii_lowercase sample_sha plain_json target sample_templates = Inr plan \<and>
     apply_repository (\<lambda>s. s) sample_sha (\<lambda>_. Inr []) map_ops locks_ops [''/'', ''h''] plan (rt_reader target) ''d''
       ([[''/'', ''r'', AGENTS_PATH] \<mapsto> ''hi'' @ [CHR 0x0A]], locks_add_directory [''/'', ''r''] memory_locks_new) =
       (outcome, h, l) \<and> outcome_is_success outcome \<and>
     plan_repository to_ascii_lowercase sample_sha plain_json
       (target\<lparr>rt_reader := \<lambda>p. Inr (repository_content (\<lambda>h. h) ''/r'' h p)\<rparr>) sample_templates = Inr again \<and>
     rp_change again = ClassUnchanged"
proof -
  let ?document = "''hi'' @ [CHR 0x0A]" and ?h = "[[''/'', ''r'', AGENTS_PATH] \<mapsto> ''hi'' @ [CHR 0x0A]]"
  let ?content = "repository_content (\<lambda>h :: path \<Rightarrow> string option. h) ''/r''"
  let ?target = "\<lparr>rt_repository_id = ''r'', rt_root = ''/r'', rt_reader = \<lambda>p. Inr (?content ?h p)\<rparr>"
  let ?home = "[''/'', ''h'']" and ?l = "locks_add_directory [''/'', ''r''] memory_locks_new"
  have joins: "path_join (path_of ''/r'') AGENTS_PATH = [''/'', ''r'', AGENTS_PATH]"
    "path_join (path_of ''/r'') POLICY_PATH = [''/'', ''r'', ''.axiom'', ''agent'', ''POLICY.md'']"
    "path_join (path_of ''/r'') OWNERSHIP_PATH = [''/'', ''r'', ''.axiom'', ''agent'', ''bootstrap.lock.json'']"
    by code_simp+
  have facts: "ensure_block_points_at_policy to_ascii_lowercase (tm_block sample_templates) = Inr ()"
    "utf8 ?document" "managed_span_of ?document = Inr None"
    "snd (scan BEGIN_MARKER END_MARKER ?document) = None" "str_trim (tm_version sample_templates) \<noteq> []"
    by code_simp+
  have reads: "rt_reader ?target AGENTS_PATH = Inr (Some ?document)"
    "rt_reader ?target POLICY_PATH = Inr None" "rt_reader ?target OWNERSHIP_PATH = Inr None"
    by (simp_all add: repository_content_def joins)
  let ?ow = "ownership_new sample_sha (tm_version sample_templates)
      (render_block (tm_block sample_templates) (newline_of ?document)) (tm_policy sample_templates)"
  have "list_all plain_text (plain_parts ?ow)" "length (join_with CHR 0x22 (plain_parts ?ow)) \<le> 1000"
    by code_simp+
  then obtain bytes where bytes: "ownership_encode plain_json ?ow = Inr bytes" "length bytes \<le> 1001"
    by (simp add: ownership_encode_def canonical_value_def plain_json_def ownership_new_def
        OWNERSHIP_SCHEMA_VERSION_def)
  have after: "length (append_block ?document (render_block (tm_block sample_templates) (newline_of ?document)) (newline_of ?document)) \<le> 1000"
    "length (tm_policy sample_templates) \<le> 1000" by code_simp+
  obtain plan where plan: "plan_repository to_ascii_lowercase sample_sha plain_json ?target sample_templates = Inr plan"
    "rp_change plan = ClassAppend" "map fc_path (rp_files plan) = [AGENTS_PATH, POLICY_PATH, OWNERSHIP_PATH]"
    "map fc_bytes (rp_files plan) = [append_block ?document (render_block (tm_block sample_templates) (newline_of ?document))
       (newline_of ?document), tm_policy sample_templates, bytes]"
    using fresh_plan [OF sample_whole facts(1) reads facts(2-4) bytes(1)] by (elim exE conjE)
  have conflict: "rp_change plan \<noteq> ClassConflict" using plan(2) by simp
  have target: "rt_root ?target = ''/r''" "rt_repository_id ?target = ''r''" by simp_all
  have reader: "rt_reader ?target = (\<lambda>p. Inr (repository_content (\<lambda>h. h) (rt_root ?target) ?h p))" by simp
  note made = planned_repository_verifies [OF reader plan(1) conflict]
  have "length b \<le> u64_max" if "b \<in> set (map fc_bytes (rp_files plan))" for b
    using that after bytes(2) unfolding plan(4) by (auto simp: u64_max_def)
  then have sizes: "length (fc_bytes c) \<le> u64_max" if "c \<in> set (rp_files plan)" for c using that by simp
  let ?three = "[AGENTS_PATH, POLICY_PATH, OWNERSHIP_PATH]"
  have three: "map (planned_path plan) (rp_files plan) = map (path_join (path_of ''/r'')) ?three"
    "map (saved_path ?home plan) (rp_files plan) = map (backup_path ?home ''r'') ?three"
    using made(3,4) unfolding plan(3) [symmetric] by simp_all
  have "distinct (map (path_join (path_of ''/r'')) ?three @ journal_path ?home ''r'' # map (backup_path ?home ''r'') ?three)"
    by code_simp
  then have places: "normal_path ?home" "separate_places ?home plan"
    using three made(4) by (simp_all add: separate_places_def) (code_simp)
  have stores: "store_places ?home plan = insert (journal_path ?home ''r'') (set (map (backup_path ?home ''r'') ?three))"
    using three(2) made(4) by (simp add: store_places_def flip: set_map)
  have away: "path_join (path_of (rt_root ?target)) p \<notin> store_places ?home plan"
    if "p \<in> {AGENTS_PATH, POLICY_PATH, OWNERSHIP_PATH}" for p
    using \<open>distinct _\<close> that unfolding stores target by auto
  have lone: "\<not> ends_with document [CHR 0x0D]"
    if "repository_content (\<lambda>h. h) (rt_root ?target) ?h AGENTS_PATH = Some document" "newline_of document = Lf" for document
    using that(1) by (auto simp: repository_content_def joins ends_with_char)
  have total: "calls_succeed map_ops" by (simp add: calls_succeed_def map_ops_def)
  obtain p where lock: "lock_path (\<lambda>s. s) ?home (rt_repository_id ?target) = Inr p"
    by (simp add: lock_path_def is_safe_repository_id_def starts_with_def)
  have free: "locks_file ?l p = None" "locks_is_directory ?l (path_of (rt_root ?target))"
    by (simp_all add: locks_file_def locks_add_directory_def memory_locks_new_def bt_get_def) code_simp
  have sha: "length (sample_sha bytes) = 32" for bytes by (simp add: sample_sha_def)
  have "\<exists>outcome h' l' again.
    apply_repository (\<lambda>s. s) sample_sha (\<lambda>_. Inr []) map_ops locks_ops ?home plan (rt_reader ?target) ''d'' (?h, ?l) = (outcome, h', l') \<and>
    outcome_is_success outcome \<and>
    plan_repository to_ascii_lowercase sample_sha plain_json
      (?target\<lparr>rt_reader := \<lambda>p. Inr (repository_content (\<lambda>h. h) (rt_root ?target) h' p)\<rparr>) sample_templates = Inr again \<and>
    rp_change again = ClassUnchanged \<and> rp_files again = []"
    by (rule bootstrap_converges [OF plain_files.bootstrap_host_axioms total _
      plain_json_reads_back sha facts(5) sample_whole reader lone plan(1) conflict sizes places away lock free])
      (assumption | rule exI, rule refl)+
  then obtain outcome h' l' again where ended:
    "apply_repository (\<lambda>s. s) sample_sha (\<lambda>_. Inr []) map_ops locks_ops ?home plan (rt_reader ?target) ''d'' (?h, ?l) = (outcome, h', l')"
    "outcome_is_success outcome"
    "plan_repository to_ascii_lowercase sample_sha plain_json
      (?target\<lparr>rt_reader := \<lambda>p. Inr (repository_content (\<lambda>h. h) (rt_root ?target) h' p)\<rparr>) sample_templates = Inr again"
    "rp_change again = ClassUnchanged" by (elim exE conjE)
  show ?thesis
    by (rule exI [of _ ?target], rule exI [of _ plan], rule exI [of _ outcome], rule exI [of _ h'],
        rule exI [of _ l'], rule exI [of _ again], intro conjI ended(2,4) plan(1))
      (use ended(1,3) in simp_all)
qed

end
