(* ===== verification/BootRollback.thy ===== *)
theory BootRollback
  imports BootApply BootReview
begin

text \<open>
  Rolling an applied plan back, \<^verbatim>\<open>axiom/src/bootstrap/rollback.rs\<close>: the journal is read back, each file
  is judged by its hash at that moment, and restored only from a backup that hashes to what the
  journal recorded.  The reading of the journal document is the argument \<open>from_str\<close>.
\<close>

definition RULE_ROLLBACK_DIGEST :: string where "RULE_ROLLBACK_DIGEST = ''rollback-digest-mismatch''"
definition RULE_ROLLBACK_JOURNAL :: string where "RULE_ROLLBACK_JOURNAL = ''rollback-journal-malformed''"
definition RULE_ROLLBACK_LATER_EDIT :: string where "RULE_ROLLBACK_LATER_EDIT = ''rollback-later-edit''"
definition RULE_ROLLBACK_OWNERSHIP :: string where "RULE_ROLLBACK_OWNERSHIP = ''rollback-ownership-drift''"
definition RULE_ROLLBACK_BACKUP_MISSING :: string where
  "RULE_ROLLBACK_BACKUP_MISSING = ''rollback-backup-missing''"
definition RULE_ROLLBACK_BACKUP :: string where "RULE_ROLLBACK_BACKUP = ''rollback-backup-mismatch''"

datatype rollback_action = RollbackRestore | RollbackRemove | AlreadyBefore

fun rollback_action_str :: "rollback_action \<Rightarrow> string" where
  "rollback_action_str RollbackRestore = ''restore''"
| "rollback_action_str RollbackRemove = ''remove''"
| "rollback_action_str AlreadyBefore = ''already-before''"

record rollback_entry =
  rb_path :: string
  rb_action :: rollback_action
  rb_before_sha256 :: "string option"
  rb_after_sha256 :: string
  rb_backup :: "string option"

definition rb_is_ownership :: "rollback_entry \<Rightarrow> bool" where
  "rb_is_ownership entry \<longleftrightarrow> rb_path entry = OWNERSHIP_PATH"

record rollback_plan =
  rbp_repository_id :: string
  rbp_root :: string
  rbp_approved_digest :: string
  rbp_entries :: "rollback_entry list"

definition rollback_writes :: "rollback_plan \<Rightarrow> usize" where
  "rollback_writes plan = length (filter (\<lambda>entry. rb_action entry \<noteq> AlreadyBefore) (rbp_entries plan))"

definition rollback_already_before :: "rollback_plan \<Rightarrow> usize" where
  "rollback_already_before plan = length (filter (\<lambda>entry. rb_action entry = AlreadyBefore) (rbp_entries plan))"

definition ownership_entry :: "rollback_plan \<Rightarrow> rollback_entry option" where
  "ownership_entry plan = find rb_is_ownership (rbp_entries plan)"

definition render_rollback :: "rollback_plan \<Rightarrow> string" where
  "render_rollback plan =
     ''bootstrap rollback '' @ rbp_repository_id plan @ '' ('' @ rbp_root plan @ '') for plan '' @
     rbp_approved_digest plan @ [CHR 0x0A] @
     concat (map (\<lambda>entry. ''   '' @ rollback_action_str (rb_action entry) @ '' '' @ rb_path entry @ [CHR 0x0A])
       (rbp_entries plan))"

record rollback_report =
  rbr_repository_id :: string
  rbr_restored :: usize
  rbr_removed :: usize
  rbr_already_before :: usize
  rbr_state :: journal_state

definition rollback_changed :: "rollback_report \<Rightarrow> bool" where
  "rollback_changed report \<longleftrightarrow> rbr_restored report > 0 \<or> rbr_removed report > 0"

definition rollback_safe_relative :: "string \<Rightarrow> bool" where
  "rollback_safe_relative p \<longleftrightarrow>
     p \<noteq> [] \<and> \<not> starts_with p ''/'' \<and> \<not> ends_with p ''/'' \<and>
     \<not> list_ex (\<lambda>c. c = CHR 0x5C \<or> c = CHR '':'') p \<and>
     \<not> list_ex (\<lambda>part. part = [] \<or> part = ''.'' \<or> part = ''..'') (split_on CHR ''/'' p)"

definition journal_malformed :: "string \<Rightarrow> axiom_error" where
  "journal_malformed observed =
     with_detail (with_detail (refuse RULE_ROLLBACK_JOURNAL ''the rollback journal is not readable'')
       ''field'' ''journal'') ''observed'' observed"

definition parse_journal :: "(string \<Rightarrow> string + journal) \<Rightarrow> string \<Rightarrow> journal result" where
  "parse_journal from_str bytes =
     (case from_utf8 bytes of
        Inl error \<Rightarrow> Inl (journal_malformed (utf8_error_display error))
      | Inr decoded \<Rightarrow>
          (case from_str decoded of
             Inl error \<Rightarrow> Inl (journal_malformed error)
           | Inr journal \<Rightarrow>
               if jn_schema_version journal \<noteq> JOURNAL_SCHEMA_VERSION then
                 Inl (journal_malformed (''schema_version='' @ show_nat (jn_schema_version journal)))
               else if jn_entries journal = [] then Inl (journal_malformed ''entries=0'')
               else
                 (case find (\<lambda>entry. \<not> rollback_safe_relative (je_path entry)) (jn_entries journal) of
                    Some entry \<Rightarrow> Inl (journal_malformed (''path='' @ je_path entry))
                  | None \<Rightarrow> Inr journal)))"

definition rollback_resolve :: "string \<Rightarrow> string \<Rightarrow> path result" where
  "rollback_resolve root relative =
     (if \<not> rollback_safe_relative relative then
        Inl (with_detail (with_detail
          (refuse RULE_ROLLBACK_JOURNAL (''refusing the unsafe journal path '' @ relative))
          ''field'' ''path'') ''observed'' relative)
      else Inr (path_join (path_of root) relative))"

definition edit_rule :: "string \<Rightarrow> string" where
  "edit_rule p = (if p = OWNERSHIP_PATH then RULE_ROLLBACK_OWNERSHIP else RULE_ROLLBACK_LATER_EDIT)"

definition later_edit :: "journal_entry \<Rightarrow> string option \<Rightarrow> axiom_error" where
  "later_edit entry observed =
     with_detail (with_detail (with_detail (refuse (edit_rule (je_path entry))
       (je_path entry @ '' changed after the write; refusing to overwrite it with the backup''))
       ''portable_path'' (je_path entry)) ''expected'' (je_after_sha256 entry)) ''observed'' (or_absent observed)"

definition later_edit_at :: "string option \<Rightarrow> rollback_entry \<Rightarrow> axiom_error" where
  "later_edit_at observed entry =
     with_detail (with_detail (with_detail (refuse (edit_rule (rb_path entry))
       (rb_path entry @ '' changed during the rollback; refusing to overwrite it''))
       ''portable_path'' (rb_path entry)) ''expected'' (rb_after_sha256 entry)) ''observed'' (or_absent observed)"

definition backup_missing :: "string \<Rightarrow> axiom_error" where
  "backup_missing p =
     with_detail (refuse RULE_ROLLBACK_BACKUP_MISSING (''the backup for '' @ p @ '' is missing'')) ''portable_path'' p"

definition backup_mismatch :: "string \<Rightarrow> string option \<Rightarrow> string \<Rightarrow> axiom_error" where
  "backup_mismatch p expected observed =
     with_detail (with_detail (with_detail (refuse RULE_ROLLBACK_BACKUP
       (''the backup for '' @ p @ '' no longer matches the recorded before-state''))
       ''portable_path'' p) ''expected'' (or_absent expected)) ''observed'' observed"

definition backup_bytes :: "'h boot_host \<Rightarrow> string \<Rightarrow> string option \<Rightarrow> 'h \<Rightarrow> string result" where
  "backup_bytes host p backup h =
     (case backup of
        None \<Rightarrow> Inl (backup_missing p)
      | Some backup \<Rightarrow>
          (case bh_read host h (path_of backup) of
             Inl e \<Rightarrow> Inl e
           | Inr None \<Rightarrow> Inl (backup_missing p)
           | Inr (Some bytes) \<Rightarrow> Inr bytes))"

text \<open>The backup bytes once they hash to the recorded before-hash.\<close>

definition verified_backup ::
  "(string \<Rightarrow> string) \<Rightarrow> 'h boot_host \<Rightarrow> string \<Rightarrow> string option \<Rightarrow> string option \<Rightarrow> 'h \<Rightarrow> string result" where
  "verified_backup sha256 host p backup before h =
     (case backup_bytes host p backup h of
        Inl e \<Rightarrow> Inl e
      | Inr bytes \<Rightarrow>
          (let observed = sha256_hex sha256 bytes
           in if Some observed \<noteq> before then Inl (backup_mismatch p before observed) else Inr bytes))"

definition rollback_action_of ::
  "(string \<Rightarrow> string) \<Rightarrow> 'h boot_host \<Rightarrow> journal_entry \<Rightarrow> string option \<Rightarrow> 'h \<Rightarrow> rollback_action result" where
  "rollback_action_of sha256 host entry current_hash h =
     (if current_hash = je_before_sha256 entry then Inr AlreadyBefore
      else if current_hash \<noteq> Some (je_after_sha256 entry) then Inl (later_edit entry current_hash)
      else if je_before_sha256 entry = None then Inr RollbackRemove
      else (case verified_backup sha256 host (je_path entry) (je_backup entry) (je_before_sha256 entry) h of
              Inl e \<Rightarrow> Inl e
            | Inr _ \<Rightarrow> Inr RollbackRestore))"

fun plan_entries ::
  "(string \<Rightarrow> string) \<Rightarrow> 'h boot_host \<Rightarrow> string \<Rightarrow> journal_entry list \<Rightarrow> 'h \<Rightarrow> rollback_entry list result" where
  "plan_entries sha256 host root [] h = Inr []"
| "plan_entries sha256 host root (entry # entries) h =
     (case rollback_resolve root (je_path entry) of
        Inl e \<Rightarrow> Inl e
      | Inr p \<Rightarrow>
          (case bh_read host h p of
             Inl e \<Rightarrow> Inl e
           | Inr current \<Rightarrow>
               (case rollback_action_of sha256 host entry (map_option (sha256_hex sha256) current) h of
                  Inl e \<Rightarrow> Inl e
                | Inr action \<Rightarrow>
                    (case plan_entries sha256 host root entries h of
                       Inl e \<Rightarrow> Inl e
                     | Inr rest \<Rightarrow>
                         Inr (\<lparr>rb_path = je_path entry, rb_action = action,
                            rb_before_sha256 = je_before_sha256 entry, rb_after_sha256 = je_after_sha256 entry,
                            rb_backup = je_backup entry\<rparr> # rest)))))"

definition plan_rollback ::
  "(string \<Rightarrow> string) \<Rightarrow> journal \<Rightarrow> string \<Rightarrow> 'h boot_host \<Rightarrow> 'h \<Rightarrow> rollback_plan result" where
  "plan_rollback sha256 journal approved_digest host h =
     (if approved_digest = [] \<or> approved_digest \<noteq> jn_plan_digest journal then
        Inl (with_detail (with_detail (refuse RULE_ROLLBACK_DIGEST
          ''a rollback requires the digest of the plan it undoes'')
          ''field'' ''plan_digest'') ''observed'' approved_digest)
      else
        (case plan_entries sha256 host (jn_root journal) (jn_entries journal) h of
           Inl e \<Rightarrow> Inl e
         | Inr entries \<Rightarrow>
             Inr \<lparr>rbp_repository_id = jn_repository_id journal, rbp_root = jn_root journal,
               rbp_approved_digest = approved_digest, rbp_entries = entries\<rparr>))"

text \<open>The write of one entry, once its current hash is the written one.\<close>

definition rollback_entry_step ::
  "(string \<Rightarrow> string) \<Rightarrow> 'h boot_host \<Rightarrow> path \<Rightarrow> rollback_entry \<Rightarrow> rollback_report \<Rightarrow> 'h \<Rightarrow>
    rollback_report result \<times> 'h" where
  "rollback_entry_step sha256 host p entry report h =
     (case rb_action entry of
        RollbackRestore \<Rightarrow>
          (case verified_backup sha256 host (rb_path entry) (rb_backup entry) (rb_before_sha256 entry) h of
             Inl e \<Rightarrow> (Inl e, h)
           | Inr bytes \<Rightarrow>
               (case bh_write_atomic host p bytes h of
                  (Inl e, h) \<Rightarrow> (Inl e, h)
                | (Inr _, h) \<Rightarrow> (Inr (report\<lparr>rbr_restored := rbr_restored report + 1\<rparr>), h)))
      | RollbackRemove \<Rightarrow>
          (case bh_remove_file host p h of
             (Inl e, h) \<Rightarrow> (Inl e, h)
           | (Inr _, h) \<Rightarrow> (Inr (report\<lparr>rbr_removed := rbr_removed report + 1\<rparr>), h))
      | AlreadyBefore \<Rightarrow> (Inr report, h))"

fun rollback_loop ::
  "(string \<Rightarrow> string) \<Rightarrow> 'h boot_host \<Rightarrow> string \<Rightarrow> rollback_entry list \<Rightarrow> rollback_report \<Rightarrow> 'h \<Rightarrow>
    rollback_report result \<times> 'h" where
  "rollback_loop sha256 host root [] report h = (Inr report, h)"
| "rollback_loop sha256 host root (entry # entries) report h =
     (case rollback_resolve root (rb_path entry) of
        Inl e \<Rightarrow> (Inl e, h)
      | Inr p \<Rightarrow>
          (case bh_read host h p of
             Inl e \<Rightarrow> (Inl e, h)
           | Inr current \<Rightarrow>
               (let observed = map_option (sha256_hex sha256) current
                in if observed \<noteq> Some (rb_after_sha256 entry) then (Inl (later_edit_at observed entry), h)
                   else
                     (case rollback_entry_step sha256 host p entry report h of
                        (Inl e, h) \<Rightarrow> (Inl e, h)
                      | (Inr report, h) \<Rightarrow> rollback_loop sha256 host root entries report h))))"

definition rollback_repository ::
  "(string \<Rightarrow> string) \<Rightarrow> (journal \<Rightarrow> string + string) \<Rightarrow> 'h boot_host \<Rightarrow> path \<Rightarrow> journal \<Rightarrow> rollback_plan \<Rightarrow> 'h \<Rightarrow>
    rollback_report result \<times> 'h" where
  "rollback_repository sha256 to_vec host jpath journal plan h =
     (case rollback_loop sha256 host (rbp_root plan)
         (rev (filter (\<lambda>entry. rb_action entry \<noteq> AlreadyBefore) (rbp_entries plan)))
         \<lparr>rbr_repository_id = rbp_repository_id plan, rbr_restored = 0, rbr_removed = 0,
           rbr_already_before = rollback_already_before plan, rbr_state = JournalRolledBack\<rparr> h of
        (Inl e, h) \<Rightarrow> (Inl e, h)
      | (Inr report, h) \<Rightarrow>
          (case to_vec (journal\<lparr>jn_state := JournalRolledBack\<rparr>) of
             Inl error \<Rightarrow> (Inl (refuse RULE_ROLLBACK_JOURNAL (''cannot encode the journal: '' @ error)), h)
           | Inr bytes \<Rightarrow>
               (case create_parent host jpath h of
                  (Inl e, h) \<Rightarrow> (Inl e, h)
                | (Inr _, h) \<Rightarrow>
                    (case bh_write_atomic host jpath bytes h of
                       (Inl e, h) \<Rightarrow> (Inl e, h)
                     | (Inr _, h) \<Rightarrow> (Inr report, h)))))"

section \<open>Later edits win\<close>

lemma verified_backup_ok:
  "verified_backup sha256 host p backup before h = Inr bytes \<Longrightarrow> Some (sha256_hex sha256 bytes) = before"
  by (auto simp: verified_backup_def Let_def split: sum.splits if_splits)

definition remove_is_of_new :: "rollback_entry \<Rightarrow> bool" where
  "remove_is_of_new entry \<longleftrightarrow> (rb_action entry = RollbackRemove \<longrightarrow> rb_before_sha256 entry = None)"

lemma planned_entries:
  assumes "plan_entries sha256 host root entries h = Inr rows"
  shows "map rb_path rows = map je_path entries \<and> map rb_before_sha256 rows = map je_before_sha256 entries \<and>
    map rb_after_sha256 rows = map je_after_sha256 entries \<and> list_all remove_is_of_new rows"
  using assms
proof (induction entries arbitrary: rows)
  case (Cons entry entries)
  then show ?case
    by (auto simp: remove_is_of_new_def rollback_action_of_def split: sum.splits if_splits)
qed simp

context bootstrap_host
begin

lemma rollback_step_files:
  assumes "rollback_entry_step sha256 host p entry report h = (r, h')" and "remove_is_of_new entry"
  shows "files h' q = files h q \<or> q = p \<and> map_option (sha256_hex sha256) (files h' q) = rb_before_sha256 entry"
proof (cases "rb_action entry")
  case RollbackRestore
  show ?thesis
  proof (cases "verified_backup sha256 host (rb_path entry) (rb_backup entry) (rb_before_sha256 entry) h")
    case (Inr bytes)
    obtain w h1 where "bh_write_atomic host p bytes h = (w, h1)" by fastforce
    with assms RollbackRestore Inr verified_backup_ok [OF Inr] write_ok [of p bytes h _ h1] write_err [of p bytes h _ h1]
    show ?thesis by (cases w) (auto simp: rollback_entry_step_def)
  qed (use assms RollbackRestore in \<open>simp add: rollback_entry_step_def\<close>)
next
  case RollbackRemove
  obtain w h1 where "bh_remove_file host p h = (w, h1)" by fastforce
  with assms RollbackRemove remove_ok [of p h _ h1] remove_err [of p h _ h1]
  show ?thesis by (cases w) (auto simp: rollback_entry_step_def remove_is_of_new_def)
qed (use assms in \<open>simp add: rollback_entry_step_def\<close>)

lemma rollback_loop_files:
  assumes "distinct (map (\<lambda>e. path_join (path_of root) (rb_path e)) es)" and "list_all remove_is_of_new es"
    and "rollback_loop sha256 host root es report h = (r, h')"
  shows "files h' q = files h q \<or> (\<exists>e\<in>set es. q = path_join (path_of root) (rb_path e) \<and>
    map_option (sha256_hex sha256) (files h q) = Some (rb_after_sha256 e) \<and>
    map_option (sha256_hex sha256) (files h' q) = rb_before_sha256 e)"
  using assms
proof (induction es arbitrary: report h)
  case (Cons e es)
  let ?T = "\<lambda>e. path_join (path_of root) (rb_path e)" and ?hash = "map_option (sha256_hex sha256)"
  show ?case
  proof (cases "rollback_resolve root (rb_path e) = Inr (?T e) \<and> ?hash (files h (?T e)) = Some (rb_after_sha256 e)")
    case True
    obtain r1 h1 where step: "rollback_entry_step sha256 host (?T e) e report h = (r1, h1)" by fastforce
    have one: "files h1 q = files h q \<or> q = ?T e \<and> ?hash (files h1 q) = rb_before_sha256 e" for q
      using rollback_step_files [OF step] Cons.prems(2) by simp
    show ?thesis
    proof (cases r1)
      case (Inl x)
      then have "h' = h1" using Cons.prems(3) True step by (simp add: read)
      with one [of q] True show ?thesis by auto
    next
      case (Inr report')
      then have rest: "rollback_loop sha256 host root es report' h1 = (r, h')"
        using Cons.prems(3) True step by (simp add: read)
      have IH: "files h' q = files h1 q \<or> (\<exists>e\<in>set es. q = ?T e \<and> ?hash (files h1 q) = Some (rb_after_sha256 e) \<and>
          ?hash (files h' q) = rb_before_sha256 e)"
        using Cons.IH [OF _ _ rest] Cons.prems(1,2) by simp
      show ?thesis
      proof (cases "q = ?T e")
        case True
        then have "q \<noteq> ?T e'" if "e' \<in> set es" for e' using Cons.prems(1) that by (auto simp: image_iff)
        then have "files h' q = files h1 q" using IH by blast
        with one [of q] \<open>_ \<and> ?hash (files h (?T e)) = _\<close> True show ?thesis by auto
      next
        case False
        then show ?thesis using IH one [of q] by auto
      qed
    qed
  next
    case False
    then have "h' = h" using Cons.prems(3)
      by (auto simp: read rollback_resolve_def Let_def split: if_splits)
    then show ?thesis by simp
  qed
qed simp

lemma rollback_repository_files:
  assumes "plan_rollback sha256 journal digest host h0 = Inr plan"
    and "distinct (map (\<lambda>e. path_join (path_of (jn_root journal)) (je_path e)) (jn_entries journal))"
    and run: "rollback_repository sha256 to_vec host jpath journal plan h = (r, h')" and "q \<noteq> jpath"
  shows "files h' q = files h q \<or> (\<exists>e\<in>set (jn_entries journal). q = path_join (path_of (jn_root journal)) (je_path e) \<and>
    map_option (sha256_hex sha256) (files h q) = Some (je_after_sha256 e) \<and>
    map_option (sha256_hex sha256) (files h' q) = je_before_sha256 e)"
proof -
  let ?T = "\<lambda>e. path_join (path_of (jn_root journal)) (rb_path e)"
  let ?es = "rev (filter (\<lambda>entry. rb_action entry \<noteq> AlreadyBefore) (rbp_entries plan))"
  obtain rows where rows: "plan_entries sha256 host (jn_root journal) (jn_entries journal) h0 = Inr rows"
    "rbp_entries plan = rows" "rbp_root plan = jn_root journal"
    using assms(1) by (auto simp: plan_rollback_def split: if_splits sum.splits)
  note same = planned_entries [OF rows(1)]
  have "map ?T rows = map (\<lambda>p. path_join (path_of (jn_root journal)) p) (map rb_path rows)" by simp
  also have "\<dots> = map (\<lambda>e. path_join (path_of (jn_root journal)) (je_path e)) (jn_entries journal)"
    using same by (simp add: comp_def)
  finally have "distinct (map ?T rows)" using assms(2) by simp
  then have "distinct (map ?T ?es)" by (simp add: rows(2) rev_map [symmetric] distinct_map inj_on_def)
  moreover have "list_all remove_is_of_new ?es" using same by (auto simp: rows(2) list_all_iff)
  moreover obtain r1 h1 report where loop: "rollback_loop sha256 host (jn_root journal) ?es report h = (r1, h1)"
    and after: "files h' q = files h1 q"
  proof -
    let ?report = "\<lparr>rbr_repository_id = rbp_repository_id plan, rbr_restored = 0, rbr_removed = 0,
           rbr_already_before = rollback_already_before plan, rbr_state = JournalRolledBack\<rparr>"
    obtain r1 h1 where loop: "rollback_loop sha256 host (jn_root journal) ?es ?report h = (r1, h1)" by fastforce
    let ?log = "write_journal to_vec host jpath (journal\<lparr>jn_state := JournalRolledBack\<rparr>) h1"
    have "h' = (case r1 of Inl _ \<Rightarrow> h1 | Inr _ \<Rightarrow> snd ?log)"
      using run loop by (auto simp: rollback_repository_def rows(3) write_journal_def split: sum.splits prod.splits)
    then have "files h' q = files h1 q" using write_journal_files [OF assms(4)] by (auto split: sum.splits)
    with loop show thesis by (rule that)
  qed
  ultimately have "files h1 q = files h q \<or> (\<exists>e\<in>set ?es. q = ?T e \<and>
      map_option (sha256_hex sha256) (files h q) = Some (rb_after_sha256 e) \<and>
      map_option (sha256_hex sha256) (files h1 q) = rb_before_sha256 e)"
    using rollback_loop_files by blast
  moreover have "\<exists>x\<in>set (jn_entries journal). je_path x = rb_path e \<and> je_after_sha256 x = rb_after_sha256 e \<and>
      je_before_sha256 x = rb_before_sha256 e" if "e \<in> set ?es" for e
  proof -
    have "e \<in> set rows" using that rows(2) by simp
    then obtain i where i: "i < length rows" "e = rows ! i" by (metis in_set_conv_nth)
    have "length rows = length (jn_entries journal)" using same by (metis length_map)
    with i same show ?thesis by (intro bexI [of _ "jn_entries journal ! i"]) (metis nth_map, simp)
  qed
  ultimately show ?thesis using after by metis
qed

end

section \<open>Undoing an apply\<close>

definition removals_succeed :: "'h boot_host \<Rightarrow> bool" where
  "removals_succeed host \<longleftrightarrow> (\<forall>p h. fst (bh_remove_file host p h) = Inr ())"

text \<open>What the entry of a file that can be restored to \<open>old\<close> records.\<close>

definition restores_to ::
  "(string \<Rightarrow> string) \<Rightarrow> (path \<Rightarrow> string option) \<Rightarrow> path set \<Rightarrow> rollback_entry \<Rightarrow> string option \<Rightarrow> bool" where
  "restores_to sha256 now places entry old \<longleftrightarrow> rollback_safe_relative (rb_path entry) \<and>
     rb_before_sha256 entry = map_option (sha256_hex sha256) old \<and>
     (case rb_backup entry of
        None \<Rightarrow> old = None \<and> rb_action entry = RollbackRemove
      | Some backup \<Rightarrow> old \<noteq> None \<and> rb_action entry = RollbackRestore \<and> now (path_of backup) = old \<and>
          path_of backup \<notin> places)"

context bootstrap_host
begin

lemma write_done: "calls_succeed host \<Longrightarrow> \<exists>h'. bh_write_atomic host p bytes h = (Inr (), h')"
  by (rule fst_pair) (simp add: calls_succeed_def)

lemma remove_done: "removals_succeed host \<Longrightarrow> \<exists>h'. bh_remove_file host p h = (Inr (), h')"
  by (rule fst_pair) (simp add: removals_succeed_def)

lemma verified_backup_found:
  assumes "files h (path_of backup) = Some bytes" and "before = Some (sha256_hex sha256 bytes)"
  shows "verified_backup sha256 host p (Some backup) before h = Inr bytes"
  using assms by (simp add: verified_backup_def backup_bytes_def read)

lemma rollback_step_done:
  assumes "calls_succeed host" and "removals_succeed host" and "restores_to sha256 (files h) places entry old"
  shows "\<exists>report' h'. rollback_entry_step sha256 host p entry report h = (Inr report', h') \<and> files h' = (files h)(p := old)"
proof (cases "rb_backup entry")
  case None
  then have "old = None" "rb_action entry = RollbackRemove" using assms(3) by (simp_all add: restores_to_def)
  moreover obtain h' where h': "bh_remove_file host p h = (Inr (), h')"
    using remove_done [OF assms(2)] by blast
  ultimately show ?thesis using remove_ok [OF h'] by (simp add: rollback_entry_step_def)
next
  case (Some backup)
  then obtain bytes where bytes: "old = Some bytes" "rb_action entry = RollbackRestore"
    "files h (path_of backup) = Some bytes" "rb_before_sha256 entry = Some (sha256_hex sha256 bytes)"
    using assms(3) by (auto simp: restores_to_def)
  moreover obtain h' where h': "bh_write_atomic host p bytes h = (Inr (), h')"
    using write_done [OF assms(1)] by blast
  ultimately show ?thesis using write_ok [OF h'] verified_backup_found [OF bytes(3,4)] Some
    by (simp add: rollback_entry_step_def)
qed

lemma rollback_loop_done:
  assumes total: "calls_succeed host" "removals_succeed host"
    and "distinct (map (\<lambda>e. path_join (path_of root) (rb_path e)) es)"
    and "\<forall>e\<in>set es. map_option (sha256_hex sha256) (files h (path_join (path_of root) (rb_path e))) = Some (rb_after_sha256 e)"
    and "\<forall>e\<in>set es. restores_to sha256 (files h) ((\<lambda>e. path_join (path_of root) (rb_path e)) ` set es) e (old (rb_path e))"
  shows "\<exists>report' h'. rollback_loop sha256 host root es report h = (Inr report', h') \<and>
    (\<forall>e\<in>set es. files h' (path_join (path_of root) (rb_path e)) = old (rb_path e)) \<and>
    (\<forall>q. q \<notin> (\<lambda>e. path_join (path_of root) (rb_path e)) ` set es \<longrightarrow> files h' q = files h q)"
  using assms(3-5)
proof (induction es arbitrary: report h)
  case (Cons e es)
  let ?T = "\<lambda>e. path_join (path_of root) (rb_path e)" and ?hash = "map_option (sha256_hex sha256)"
  have here: "restores_to sha256 (files h) (?T ` set (e # es)) e (old (rb_path e))" using Cons.prems(3) by simp
  obtain report1 h1 where step: "rollback_entry_step sha256 host (?T e) e report h = (Inr report1, h1)"
    and h1: "files h1 = (files h)(?T e := old (rb_path e))"
    using rollback_step_done [OF total here] by blast
  have new: "?T x \<noteq> ?T e" if "x \<in> set es" for x using Cons.prems(1) that by (auto simp: image_iff)
  have "distinct (map ?T es)" using Cons.prems(1) by simp
  moreover have "\<forall>x\<in>set es. ?hash (files h1 (?T x)) = Some (rb_after_sha256 x)"
    using Cons.prems(2) new by (simp add: h1)
  moreover have "\<forall>x\<in>set es. restores_to sha256 (files h1) (?T ` set es) x (old (rb_path x))"
    using Cons.prems(3) by (auto simp: h1 restores_to_def split: option.splits)
  ultimately obtain report' h' where rest: "rollback_loop sha256 host root es report1 h1 = (Inr report', h')"
    "\<forall>x\<in>set es. files h' (?T x) = old (rb_path x)" "\<forall>q. q \<notin> ?T ` set es \<longrightarrow> files h' q = files h1 q"
    using Cons.IH by blast
  have "rollback_loop sha256 host root (e # es) report h = (Inr report', h')"
    using here Cons.prems(2) step rest(1) by (simp add: restores_to_def rollback_resolve_def read)
  moreover have "files h' (?T e) = old (rb_path e)"
  proof -
    have "?T e \<notin> ?T ` set es" using Cons.prems(1) by simp
    then have "files h' (?T e) = files h1 (?T e)" using rest(3) by blast
    then show ?thesis by (simp add: h1)
  qed
  ultimately show ?case using rest(2,3) h1 by auto
qed simp

lemma write_journal_stores:
  assumes "calls_succeed host" and "to_vec j = Inr bytes"
  shows "files (snd (write_journal to_vec host p j h)) p = Some bytes"
proof -
  obtain h1 where "create_parent host p h = (Inr (), h1)"
    using fst_pair [OF create_parent_done [OF assms(1)]] by blast
  moreover obtain h2 where "bh_write_atomic host p bytes h1 = (Inr (), h2)"
    using write_done [OF assms(1)] by blast
  ultimately show ?thesis using write_ok assms(2) by (simp add: write_journal_def)
qed

end

text \<open>The journal a complete apply leaves.\<close>

definition completed_journal :: "path \<Rightarrow> repository_plan \<Rightarrow> string \<Rightarrow> (path \<Rightarrow> string option) \<Rightarrow> journal" where
  "completed_journal home plan digest old =
     \<lparr>jn_schema_version = JOURNAL_SCHEMA_VERSION, jn_repository_id = rp_repository_id plan,
      jn_root = rp_root plan, jn_plan_digest = digest, jn_state = JournalComplete,
      jn_entries = map (recorded_entry home plan old) (rp_files plan)\<rparr>"

context bootstrap_host
begin

lemma write_repository_complete:
  assumes total: "calls_succeed host" and encodes: "to_vec (completed_journal home plan digest (files h)) = Inr bytes"
    and reads: "\<forall>c\<in>set (rp_files plan). rd (fc_path c) = Inr (files h (planned_path plan c))"
    and verifies: "\<forall>c\<in>set (rp_files plan). change_verifies sha256 (files h (planned_path plan c)) c"
    and separate: "separate_places home plan" and "normal_path home"
    and run: "write_repository sha256 to_vec host home plan rd digest h = (ApplyDone names, h')"
  shows "files h' (journal_path home (rp_repository_id plan)) = Some bytes"
    and "\<forall>c\<in>set (rp_files plan). files h (planned_path plan c) \<noteq> None \<longrightarrow>
      files h' (saved_path home plan c) = files h (planned_path plan c)"
proof -
  let ?before = "read_before rd (rp_files plan)" and ?J = "journal_path home (rp_repository_id plan)"
  obtain entries where "fst (back_up host home (rp_repository_id plan) ?before (rp_files plan) h) = Inr entries"
    using back_up_done [OF total] by blast
  from fst_pair [OF this] obtain h1 where
    backed: "back_up host home (rp_repository_id plan) ?before (rp_files plan) h = (Inr entries, h1)" by blast
  note recorded = backed_up_files [OF backed separate reads]
  let ?journal = "\<lparr>jn_schema_version = JOURNAL_SCHEMA_VERSION, jn_repository_id = rp_repository_id plan,
      jn_root = rp_root plan, jn_plan_digest = digest, jn_state = JournalIntent, jn_entries = entries\<rparr>"
  obtain u h2 where logged: "write_journal to_vec host ?J ?journal h1 = (Inr u, h2)"
    using run backed by (auto simp: write_repository_def Let_def split: prod.splits sum.splits)
  obtain all h3 where loop: "write_loop sha256 host (path_of (rp_root plan)) ?before entries
      (ordered_files (rp_files plan)) [] h2 = (Inr all, h3)"
    using run backed logged
    by (auto simp: write_repository_def Let_def rollback_outcome_def split: prod.splits sum.splits if_splits)
  have h': "h' = snd (write_journal to_vec host ?J (completed_journal home plan digest (files h)) h3)"
    using run backed logged loop by (auto simp: write_repository_def Let_def completed_journal_def recorded(1))
  show "files h' ?J = Some bytes" unfolding h' by (rule write_journal_stores [where to_vec = to_vec, OF total encodes])
  have kept2: "files h2 q = files h1 q" if "q \<noteq> ?J" for q
    using write_journal_files [OF that, of to_vec ?journal h1] logged by simp
  have kept1: "files h1 q = files h q" if "q \<notin> store_places home plan" for q
    using back_up_elsewhere [of q home "rp_repository_id plan" "rp_files plan" ?before h] backed that
    by (simp add: store_places_def)
  note apart = separate_placesD [OF separate]
  have old: "bytes_before ?before (fc_path c) = files h (planned_path plan c)" if "c \<in> set (rp_files plan)" for c
    using read_before_get [OF that, of rd] reads that by simp
  have kept3: "files h3 q = files h2 q" if "q \<notin> planned_path plan ` set (rp_files plan)" for q
  proof -
    note stage = write_stage_files [OF separate \<open>normal_path home\<close> recorded(1) _ _ old _ loop]
    have "\<forall>q. q \<notin> planned_path plan ` set (rp_files plan) \<longrightarrow> files h3 q = files h2 q"
      using stage kept1 kept2 apart recorded(2) verifies by (simp add: store_places_def)
    with that show ?thesis by blast
  qed
  show "\<forall>c\<in>set (rp_files plan). files h (planned_path plan c) \<noteq> None \<longrightarrow>
      files h' (saved_path home plan c) = files h (planned_path plan c)"
  proof (intro ballI impI)
    fix c assume c: "c \<in> set (rp_files plan)" "files h (planned_path plan c) \<noteq> None"
    have "files h' (saved_path home plan c) = files h3 (saved_path home plan c)"
      unfolding h' by (rule write_journal_files) (use apart(2) [OF c(1)] in simp)
    also have "\<dots> = files h1 (saved_path home plan c)"
      using kept3 [OF apart(3) [OF c(1)]] kept2 [OF apart(2) [OF c(1)]] by simp
    finally show "files h' (saved_path home plan c) = files h (planned_path plan c)" using recorded(2) c by simp
  qed
qed

end

text \<open>The rows a rollback of a complete apply plans.\<close>

definition undo_row :: "path \<Rightarrow> repository_plan \<Rightarrow> (path \<Rightarrow> string option) \<Rightarrow> file_change \<Rightarrow> rollback_entry" where
  "undo_row home plan old c =
     \<lparr>rb_path = fc_path c, rb_action = (if old (planned_path plan c) = None then RollbackRemove else RollbackRestore),
      rb_before_sha256 = fc_before_sha256 c, rb_after_sha256 = fc_after_sha256 c,
      rb_backup = map_option (\<lambda>_. show_path (saved_path home plan c)) (old (planned_path plan c))\<rparr>"

definition undoable :: "(string \<Rightarrow> string) \<Rightarrow> (path \<Rightarrow> string option) \<Rightarrow> repository_plan \<Rightarrow> file_change \<Rightarrow> bool" where
  "undoable sha256 old plan c \<longleftrightarrow> rollback_safe_relative (fc_path c) \<and>
     fc_before_sha256 c = map_option (sha256_hex sha256) (old (planned_path plan c)) \<and>
     fc_before_sha256 c \<noteq> Some (fc_after_sha256 c) \<and> sha256_hex sha256 (fc_bytes c) = fc_after_sha256 c"

lemma undo_row_restores:
  assumes "undoable sha256 old plan c" and "normal_path home" and "saved_path home plan c \<notin> places"
    and "old (planned_path plan c) \<noteq> None \<Longrightarrow> now (saved_path home plan c) = old (planned_path plan c)"
  shows "restores_to sha256 now places (undo_row home plan old c) (old (planned_path plan c))"
proof -
  have "path_of (show_path (saved_path home plan c)) = saved_path home plan c"
    by (rule path_of_show) (simp add: backup_path_def normal_path_join assms(2))
  with assms show ?thesis by (cases "old (planned_path plan c)") (auto simp: restores_to_def undo_row_def undoable_def)
qed

context bootstrap_host
begin

lemma undo_rows_planned:
  assumes "\<forall>c\<in>set cs. undoable sha256 old plan c \<and> files h (planned_path plan c) = Some (fc_bytes c) \<and>
      (old (planned_path plan c) \<noteq> None \<longrightarrow> files h (saved_path home plan c) = old (planned_path plan c))"
    and "normal_path home"
  shows "plan_entries sha256 host (rp_root plan) (map (recorded_entry home plan old) cs) h =
    Inr (map (undo_row home plan old) cs)"
  using assms(1)
proof (induction cs)
  case (Cons c cs)
  have place: "path_of (show_path (saved_path home plan c)) = saved_path home plan c"
    by (rule path_of_show) (simp add: backup_path_def normal_path_join assms(2))
  have c: "undoable sha256 old plan c" "files h (planned_path plan c) = Some (fc_bytes c)" using Cons.prems by simp_all
  have "rollback_action_of sha256 host (recorded_entry home plan old c) (Some (fc_after_sha256 c)) h =
      Inr (if old (planned_path plan c) = None then RollbackRemove else RollbackRestore)"
  proof (cases "old (planned_path plan c)")
    case (Some bytes)
    then have "verified_backup sha256 host (fc_path c) (Some (show_path (saved_path home plan c)))
        (Some (sha256_hex sha256 bytes)) h = Inr bytes"
      using Cons.prems by (intro verified_backup_found) (simp_all add: place)
    with Some c(1) show ?thesis
      by (auto simp: rollback_action_of_def recorded_entry_def entry_of_def undoable_def)
  qed (use c(1) in \<open>simp add: rollback_action_of_def recorded_entry_def entry_of_def undoable_def\<close>)
  moreover have "je_path (recorded_entry home plan old c) = fc_path c"
    "je_before_sha256 (recorded_entry home plan old c) = fc_before_sha256 c"
    "je_after_sha256 (recorded_entry home plan old c) = fc_after_sha256 c"
    "je_backup (recorded_entry home plan old c) = map_option (\<lambda>_. show_path (saved_path home plan c)) (old (planned_path plan c))"
    by (simp_all add: recorded_entry_def entry_of_def)
  moreover have "plan_entries sha256 host (rp_root plan) (map (recorded_entry home plan old) cs) h =
      Inr (map (undo_row home plan old) cs)" using Cons by simp
  moreover have "rollback_safe_relative (fc_path c)" "sha256_hex sha256 (fc_bytes c) = fc_after_sha256 c"
    using c(1) by (simp_all add: undoable_def)
  ultimately show ?case using c(2)
    by (simp add: rollback_resolve_def read undo_row_def [of home plan old c])
qed simp

lemma completed_rolls_back:
  assumes total: "calls_succeed host" "removals_succeed host" and "normal_path home" and separate: "separate_places home plan"
    and rows: "\<forall>c\<in>set (rp_files plan). undoable sha256 old plan c \<and> files h (planned_path plan c) = Some (fc_bytes c) \<and>
      (old (planned_path plan c) \<noteq> None \<longrightarrow> files h (saved_path home plan c) = old (planned_path plan c))"
    and "digest \<noteq> []" and encodes: "\<And>j. \<exists>bytes. to_vec j = Inr bytes"
  shows "\<exists>rplan report h'.
    plan_rollback sha256 (completed_journal home plan digest old) digest host h = Inr rplan \<and>
    rollback_repository sha256 to_vec host (journal_path home (rp_repository_id plan))
      (completed_journal home plan digest old) rplan h = (Inr report, h') \<and>
    (\<forall>c\<in>set (rp_files plan). files h' (planned_path plan c) = old (planned_path plan c))"
proof -
  let ?J = "journal_path home (rp_repository_id plan)" and ?root = "rp_root plan"
  let ?j = "completed_journal home plan digest old" and ?rows = "map (undo_row home plan old) (rp_files plan)"
  let ?rplan = "\<lparr>rbp_repository_id = rp_repository_id plan, rbp_root = ?root, rbp_approved_digest = digest,
    rbp_entries = ?rows\<rparr>"
  let ?T = "\<lambda>e. path_join (path_of ?root) (rb_path e)"
  have planned: "plan_rollback sha256 ?j digest host h = Inr ?rplan"
    using undo_rows_planned [OF rows assms(3)] assms(6) by (simp add: plan_rollback_def completed_journal_def)
  have writes: "filter (\<lambda>entry. rb_action entry \<noteq> AlreadyBefore) ?rows = ?rows"
    by (rule filter_True) (simp add: undo_row_def)
  have targets: "map ?T (rev ?rows) = rev (map (planned_path plan) (rp_files plan))"
    by (simp add: rev_map undo_row_def comp_def)
  have places: "?T ` set (rev ?rows) = planned_path plan ` set (rp_files plan)"
    by (simp add: undo_row_def image_image)
  note apart = separate_placesD [OF separate]
  have distinct: "distinct (map ?T (rev ?rows))"
    using separate_distinct(1) [OF separate] unfolding targets by simp
  have written: "\<forall>e\<in>set (rev ?rows). map_option (sha256_hex sha256) (files h (?T e)) = Some (rb_after_sha256 e)"
    using rows by (auto simp: undo_row_def undoable_def)
  have "restores_to sha256 (files h) (?T ` set (rev ?rows)) (undo_row home plan old c) (old (planned_path plan c))"
    if "c \<in> set (rp_files plan)" for c
    unfolding places by (rule undo_row_restores [OF _ assms(3) apart(3) [OF that]]) (use rows that in simp_all)
  then have ready: "\<forall>e\<in>set (rev ?rows). restores_to sha256 (files h) (?T ` set (rev ?rows)) e (old (?T e))"
    by (auto simp: undo_row_def)
  obtain report h1 where loop: "rollback_loop sha256 host ?root (rev ?rows)
      \<lparr>rbr_repository_id = rp_repository_id plan, rbr_restored = 0, rbr_removed = 0,
         rbr_already_before = rollback_already_before ?rplan, rbr_state = JournalRolledBack\<rparr> h = (Inr report, h1)"
    and restored: "\<forall>e\<in>set (rev ?rows). files h1 (?T e) = old (?T e)"
    using rollback_loop_done [OF total distinct written, where old = "\<lambda>p. old (path_join (path_of ?root) p)", OF ready] by blast
  obtain h2 where logged: "write_journal to_vec host ?J (?j\<lparr>jn_state := JournalRolledBack\<rparr>) h1 = (Inr (), h2)"
    using fst_pair [OF write_journal_done [where to_vec = to_vec, OF total(1) encodes]] by blast
  then have "rollback_repository sha256 to_vec host ?J ?j ?rplan h = (Inr report, h2)"
    using loop writes
    by (auto simp: rollback_repository_def write_journal_def split: sum.splits prod.splits)
  moreover have "files h2 (planned_path plan c) = old (planned_path plan c)" if c: "c \<in> set (rp_files plan)" for c
  proof -
    have "planned_path plan c \<noteq> ?J" using apart(1) [OF c] by (auto simp: store_places_def)
    from write_journal_files [OF this, of to_vec "?j\<lparr>jn_state := JournalRolledBack\<rparr>" h1] logged
    have "files h2 (planned_path plan c) = files h1 (planned_path plan c)" by simp
    also have "\<dots> = old (planned_path plan c)" using restored c by (auto simp: undo_row_def)
    finally show ?thesis .
  qed
  ultimately show ?thesis using planned by blast
qed

end

lemma began_on_recorded:
  assumes "begin_apply debug sha256 locks_ops home plan rd digest l = (Inr lock, l')"
  shows "list_all (\<lambda>c. \<exists>bytes. rd (fc_path c) = Inr bytes \<and>
    map_option (sha256_hex sha256) bytes = fc_before_sha256 c) (rp_files plan)"
proof -
  obtain l1 where "verify_repository sha256 locks_ops plan rd l1 = Inr ()"
    using assms by (auto simp: begin_apply_def split: prod.splits sum.splits)
  then have "verify_files sha256 rd (rp_files plan) = Inr ()"
    by (auto simp: verify_repository_def split: sum.splits if_splits)
  then show ?thesis by (rule verify_files_ok)
qed

lemma change_verifies_hash:
  "change_verifies sha256 before c \<Longrightarrow> sha256_hex sha256 (fc_bytes c) = fc_after_sha256 c"
  by (simp add: change_verifies_def verify_written_def Let_def split: if_splits)

section \<open>Properties\<close>

text \<open>C9: A rollback never discards a later edit: whatever happened between planning and writing, and
  wherever it stops, a file other than the journal is either left as it is or is a file of the journal
  that still hashed to what the apply wrote, and then hashes to what the journal recorded before.\<close>

theorem later_edits_win:
  assumes "bootstrap_host host files" and "plan_rollback sha256 journal digest host h0 = Inr plan"
    and "distinct (map (\<lambda>e. path_join (path_of (jn_root journal)) (je_path e)) (jn_entries journal))"
    and "rollback_repository sha256 to_vec host jpath journal plan h = (r, h')" and "q \<noteq> jpath"
  shows "files h' q = files h q \<or> (\<exists>e\<in>set (jn_entries journal). q = path_join (path_of (jn_root journal)) (je_path e) \<and>
    map_option (sha256_hex sha256) (files h q) = Some (je_after_sha256 e) \<and>
    map_option (sha256_hex sha256) (files h' q) = je_before_sha256 e)"
  by (rule bootstrap_host.rollback_repository_files [OF assms])

definition edited_journal :: journal where
  "edited_journal = \<lparr>jn_schema_version = JOURNAL_SCHEMA_VERSION, jn_repository_id = ''r'', jn_root = ''/r'',
     jn_plan_digest = ''d'', jn_state = JournalComplete,
     jn_entries = [\<lparr>je_path = ''p'', je_before_sha256 = None, je_after_sha256 = sha256_hex id ''new'', je_backup = None\<rparr>]\<rparr>"

theorem later_edits_win_witness:
  "\<exists>plan r h. plan_rollback id edited_journal ''d'' memory_ops (add_file [''/'', ''r'', ''p''] ''new'' memory_new) = Inr plan \<and>
     rollback_repository id (\<lambda>_. Inr []) memory_ops [''j''] edited_journal plan
       (add_file [''/'', ''r'', ''p''] ''mine'' memory_new) = (r, h) \<and>
     memory_file h [''/'', ''r'', ''p''] = Some ''mine''"
proof -
  let ?planned = "add_file [''/'', ''r'', ''p''] ''new'' memory_new" and ?h = "add_file [''/'', ''r'', ''p''] ''mine'' memory_new"
  let ?plan = "\<lparr>rbp_repository_id = ''r'', rbp_root = ''/r'', rbp_approved_digest = ''d'',
    rbp_entries = [\<lparr>rb_path = ''p'', rb_action = RollbackRemove, rb_before_sha256 = None,
      rb_after_sha256 = sha256_hex id ''new'', rb_backup = None\<rparr>]\<rparr>"
  have plan: "plan_rollback id edited_journal ''d'' memory_ops ?planned = Inr ?plan" by code_simp
  obtain r h where run: "rollback_repository id (\<lambda>_. Inr []) memory_ops [''j''] edited_journal ?plan ?h = (r, h)"
    by fastforce
  have "distinct (map (\<lambda>e. path_join (path_of (jn_root edited_journal)) (je_path e)) (jn_entries edited_journal))"
    by (simp add: edited_journal_def)
  from later_edits_win [OF memory.bootstrap_host_axioms plan this run, of "[''/'', ''r'', ''p'']"]
  have "memory_file h [''/'', ''r'', ''p''] = memory_file ?h [''/'', ''r'', ''p''] \<or>
      map_option (sha256_hex id) (memory_file ?h [''/'', ''r'', ''p'']) = Some (sha256_hex id ''new'')"
    by (auto simp: edited_journal_def)
  moreover have "map_option (sha256_hex id) (memory_file ?h [''/'', ''r'', ''p'']) \<noteq> Some (sha256_hex id ''new'')"
    "memory_file ?h [''/'', ''r'', ''p''] = Some ''mine''" by code_simp+
  ultimately show ?thesis using plan run by auto
qed

text \<open>C5: Rolling back undoes an apply: after a complete apply on a host whose calls succeed, the journal on
  the host is read back, its rollback is planned under the approved digest, and carrying it out puts
  every planned file back to its bytes before the apply, or removes it when there was none.\<close>

theorem rollback_undoes_apply:
  assumes host: "bootstrap_host host files" and total: "calls_succeed host" "removals_succeed host"
    and encodes: "\<And>j. \<exists>bytes. to_vec j = Inr bytes"
    and json: "\<And>bytes. to_vec (completed_journal home plan digest (files h)) = Inr bytes \<Longrightarrow>
      utf8 bytes \<and> from_str bytes = Inr (completed_journal home plan digest (files h))"
    and places: "normal_path home" "separate_places home plan"
    and safe: "\<And>c. c \<in> set (rp_files plan) \<Longrightarrow> rollback_safe_relative (fc_path c)" and "digest \<noteq> []"
    and changes: "\<And>c. c \<in> set (rp_files plan) \<Longrightarrow> fc_before_sha256 c \<noteq> Some (fc_after_sha256 c)"
    and verifies: "\<And>c. c \<in> set (rp_files plan) \<Longrightarrow> change_verifies sha256 (files h (planned_path plan c)) c"
    and reader: "rd = (\<lambda>p. Inr (files h (path_join (path_of (rp_root plan)) p)))"
    and run: "apply_repository debug sha256 to_vec host locks_ops home plan rd digest (h, l) = (ApplyDone names, h', l')"
  shows "\<exists>bytes journal rplan report h''.
    files h' (journal_path home (rp_repository_id plan)) = Some bytes \<and>
    parse_journal from_str bytes = Inr journal \<and> plan_rollback sha256 journal digest host h' = Inr rplan \<and>
    rollback_repository sha256 to_vec host (journal_path home (rp_repository_id plan)) journal rplan h' = (Inr report, h'') \<and>
    (\<forall>c\<in>set (rp_files plan). files h'' (planned_path plan c) = files h (planned_path plan c))"
proof -
  let ?j = "completed_journal home plan digest (files h)"
  obtain lock l1 where began: "begin_apply debug sha256 locks_ops home plan rd digest l = (Inr lock, l1)"
    and wrote: "write_repository sha256 to_vec host home plan rd digest h = (ApplyDone names, h')"
    and nonempty: "rp_files plan \<noteq> []"
    using run by (auto simp: apply_repository_def rp_would_write_def split: if_splits option.splits prod.splits sum.splits)
  have reads: "\<forall>c\<in>set (rp_files plan). rd (fc_path c) = Inr (files h (planned_path plan c))"
    and verify: "\<forall>c\<in>set (rp_files plan). change_verifies sha256 (files h (planned_path plan c)) c"
    using reader verifies by simp_all
  obtain bytes where bytes: "to_vec ?j = Inr bytes" using encodes by blast
  note complete = bootstrap_host.write_repository_complete
    [where to_vec = to_vec, OF host total(1) bytes reads verify places(2,1) wrote]
  have before: "fc_before_sha256 c = map_option (sha256_hex sha256) (files h (planned_path plan c))"
    if "c \<in> set (rp_files plan)" for c
    using began_on_recorded [OF began] that reads by (auto simp: list_all_iff)
  have after: "files h' (planned_path plan c) = Some (fc_bytes c)" if "c \<in> set (rp_files plan)" for c
    using bootstrap_host.write_repository_files [OF host reads verify places(2,1) wrote] that by simp
  have "undoable sha256 (files h) plan c" if "c \<in> set (rp_files plan)" for c
    using safe [OF that] before [OF that] changes [OF that] change_verifies_hash [OF verifies [OF that]]
    by (simp add: undoable_def)
  then have rows: "\<forall>c\<in>set (rp_files plan). undoable sha256 (files h) plan c \<and>
      files h' (planned_path plan c) = Some (fc_bytes c) \<and>
      (files h (planned_path plan c) \<noteq> None \<longrightarrow> files h' (saved_path home plan c) = files h (planned_path plan c))"
    using complete(2) after by blast
  have "find (\<lambda>entry. \<not> rollback_safe_relative (je_path entry)) (jn_entries ?j) = None"
    using safe by (auto simp: find_None_iff completed_journal_def recorded_entry_def entry_of_def)
  then have "parse_journal from_str bytes = Inr ?j"
    using json [OF bytes] nonempty by (simp add: parse_journal_def utf8_def) (simp add: completed_journal_def)
  then show ?thesis
    using complete(1) bootstrap_host.completed_rolls_back
      [where to_vec = to_vec, OF host total places rows \<open>digest \<noteq> []\<close> encodes]
    by blast
qed

text \<open>An apply of two files, one of which was there, and its journal.\<close>

definition two_changes :: repository_plan where
  "two_changes = sample_repository\<lparr>rp_files :=
     [\<lparr>fc_path = ''p'', fc_before_sha256 = Some (sha256_hex id ''old''), fc_after_sha256 = sha256_hex id ''new'',
       fc_diff = [], fc_bytes = ''new''\<rparr>,
      \<lparr>fc_path = ''q'', fc_before_sha256 = None, fc_after_sha256 = sha256_hex id ''add'', fc_diff = [], fc_bytes = ''add''\<rparr>]\<rparr>"

theorem rollback_undoes_apply_witness:
  "\<exists>names h' l' journal rplan report h''.
     apply_repository id id (\<lambda>_. Inr ''{}'') map_ops locks_ops [''/'', ''h''] two_changes
       (\<lambda>p. Inr ([[''/'', ''r'', ''p''] \<mapsto> ''old''] (path_join (path_of (rp_root two_changes)) p))) ''d''
       ([[''/'', ''r'', ''p''] \<mapsto> ''old''], locks_add_directory [''/'', ''r''] memory_locks_new) = (ApplyDone names, h', l') \<and>
     plan_rollback id journal ''d'' map_ops h' = Inr rplan \<and>
     rollback_repository id (\<lambda>_. Inr ''{}'') map_ops (journal_path [''/'', ''h''] ''r'') journal rplan h' = (Inr report, h'') \<and>
     h'' [''/'', ''r'', ''p''] = Some ''old'' \<and> h'' [''/'', ''r'', ''q''] = None"
proof -
  let ?h = "[[''/'', ''r'', ''p''] \<mapsto> ''old'']" and ?l = "locks_add_directory [''/'', ''r''] memory_locks_new"
  let ?home = "[''/'', ''h'']" and ?rd = "\<lambda>p. Inr ([[''/'', ''r'', ''p''] \<mapsto> ''old''] (path_join (path_of (rp_root two_changes)) p)) :: string option result"
  let ?to_vec = "\<lambda>_ :: journal. Inr ''{}'' :: string + string"
  let ?from_str = "\<lambda>_ :: string. Inr (completed_journal ?home two_changes ''d'' ?h) :: string + journal"
  have total: "calls_succeed map_ops" "removals_succeed map_ops"
    by (simp_all add: calls_succeed_def removals_succeed_def map_ops_def)
  have places: "normal_path ?home" "separate_places ?home two_changes" by code_simp+
  have paths: "map (planned_path two_changes) (rp_files two_changes) = [[''/'', ''r'', ''p''], [''/'', ''r'', ''q'']]"
    by code_simp
  have safe: "list_all (\<lambda>c. rollback_safe_relative (fc_path c) \<and> fc_before_sha256 c \<noteq> Some (fc_after_sha256 c))
      (rp_files two_changes)" by code_simp
  have verifies: "change_verifies id before c" if "c \<in> set (rp_files two_changes)" for before c
    using that by (auto simp: two_changes_def change_verifies_def verify_written_def AGENTS_PATH_def sample_repository_def)
  let ?run = "apply_repository id id ?to_vec map_ops locks_ops ?home two_changes ?rd ''d'' (?h, ?l)"
  have "case ?run of (ApplyDone _, _) \<Rightarrow> True | _ \<Rightarrow> False" by code_simp
  then obtain names h' l' where run: "?run = (ApplyDone names, h', l')"
    by (cases ?run) (auto split: apply_outcome.splits)
  have "utf8 ''{}''" by code_simp
  moreover have "rollback_safe_relative (fc_path c)" "fc_before_sha256 c \<noteq> Some (fc_after_sha256 c)"
    if "c \<in> set (rp_files two_changes)" for c using safe that by (simp_all add: list_all_iff)
  ultimately have "\<exists>bytes journal rplan report h''.
    h' (journal_path ?home (rp_repository_id two_changes)) = Some bytes \<and>
    parse_journal ?from_str bytes = Inr journal \<and> plan_rollback id journal ''d'' map_ops h' = Inr rplan \<and>
    rollback_repository id ?to_vec map_ops (journal_path ?home (rp_repository_id two_changes)) journal rplan h' = (Inr report, h'') \<and>
    (\<forall>c\<in>set (rp_files two_changes). h'' (planned_path two_changes c) = ?h (planned_path two_changes c))"
    by (intro rollback_undoes_apply [where to_vec = ?to_vec and from_str = ?from_str,
      OF plain_files.bootstrap_host_axioms total _ _ places _ _ _ verifies refl run] conjI) (assumption | rule exI refl | simp)+
  then obtain journal rplan report h'' where "plan_rollback id journal ''d'' map_ops h' = Inr rplan"
    "rollback_repository id ?to_vec map_ops (journal_path ?home (rp_repository_id two_changes)) journal rplan h' = (Inr report, h'')"
    and restored: "\<forall>c\<in>set (rp_files two_changes). h'' (planned_path two_changes c) = ?h (planned_path two_changes c)"
    by (elim exE conjE)
  moreover have "rp_repository_id two_changes = ''r''" by (simp add: two_changes_def sample_repository_def)
  moreover have "map (\<lambda>c. h'' (planned_path two_changes c)) (rp_files two_changes) =
      map (\<lambda>c. ?h (planned_path two_changes c)) (rp_files two_changes)" using restored by simp
  then have "map h'' (map (planned_path two_changes) (rp_files two_changes)) =
      map ?h (map (planned_path two_changes) (rp_files two_changes))" by simp
  then have "h'' [''/'', ''r'', ''p''] = Some ''old''" "h'' [''/'', ''r'', ''q''] = None" unfolding paths by simp_all
  ultimately have "plan_rollback id journal ''d'' map_ops h' = Inr rplan \<and>
      rollback_repository id ?to_vec map_ops (journal_path ?home ''r'') journal rplan h' = (Inr report, h'') \<and>
      h'' [''/'', ''r'', ''p''] = Some ''old'' \<and> h'' [''/'', ''r'', ''q''] = None" by simp
  with run show ?thesis by blast
qed

end
