(* ===== verification/UpdPolicy.thy ===== *)
theory UpdPolicy
  imports StrText Errors
begin

text \<open>
  The update policy, \<^verbatim>\<open>axiom/src/update/policy.rs\<close>: whether a candidate release is applied without
  asking, needs an approved plan, or is refused.
\<close>

section \<open>Numbers in text\<close>

definition digits_value :: "string \<Rightarrow> nat" where
  "digits_value s = foldl (\<lambda>n c. 10 * n + (of_char c - 48)) 0 s"

text \<open>\<open>str::parse::<u64>\<close>: an optional plus sign, then digits whose value fits.\<close>

definition parse_u64 :: "string \<Rightarrow> u64 option" where
  "parse_u64 s =
     (let digits = (case s of [] \<Rightarrow> [] | c # cs \<Rightarrow> if c = CHR ''+'' then cs else s)
      in if digits = [] \<or> \<not> list_all is_ascii_digit digits then None
         else if digits_value digits > u64_max then None
         else Some (digits_value digits))"

section \<open>The policy\<close>

datatype auto_apply_mode = ExplicitApproval | CompatiblePatch

fun auto_apply_mode_str :: "auto_apply_mode \<Rightarrow> string" where
  "auto_apply_mode_str ExplicitApproval = ''explicit_approval''"
| "auto_apply_mode_str CompatiblePatch = ''compatible_patch''"

definition policy_channels :: "string list" where
  "policy_channels = [''stable'', ''prerelease'']"

definition APPROVAL_BOUNDARIES :: "string list" where
  "APPROVAL_BOUNDARIES =
     [''minor_or_major_version'', ''schema_migration'', ''security_advisory'', ''trust_root_change'',
      ''host_config_rewrite'']"

definition READINESS_GATES :: "string list" where
  "READINESS_GATES =
     [''host_not_idle'', ''queue_not_drained'', ''bundle_signature_not_verified'',
      ''backup_and_rollback_not_ready'', ''scope_grants_missing'']"

datatype severity = PatchStep | MinorStep | MajorStep

fun severity_str :: "severity \<Rightarrow> string" where
  "severity_str PatchStep = ''patch''"
| "severity_str MinorStep = ''minor''"
| "severity_str MajorStep = ''major''"

definition is_compatible_patch :: "severity \<Rightarrow> bool" where
  "is_compatible_patch s \<longleftrightarrow> s = PatchStep"

record update_candidate =
  uc_from_version :: string
  uc_to_version :: string
  uc_severity :: severity
  uc_channel :: string
  uc_schema_change :: bool
  uc_security_advisory :: bool
  uc_trust_root_change :: bool
  uc_host_config_rewrite :: bool

record readiness =
  rd_idle_window :: bool
  rd_drained :: bool
  rd_bundle_signature_verified :: bool
  rd_backup_and_rollback_ready :: bool
  rd_scope_grants_present :: bool

definition readiness_complete :: readiness where
  "readiness_complete = \<lparr>rd_idle_window = True, rd_drained = True, rd_bundle_signature_verified = True,
     rd_backup_and_rollback_ready = True, rd_scope_grants_present = True\<rparr>"

text \<open>\<open>if condition { gates.push(gate) }\<close>.\<close>

definition push_if :: "bool \<Rightarrow> string \<Rightarrow> string list \<Rightarrow> string list" where
  "push_if b gate gates = (if b then gates @ [gate] else gates)"

definition readiness_missing :: "readiness \<Rightarrow> string list" where
  "readiness_missing r =
     (let missing = [];
          missing = push_if (\<not> rd_idle_window r) (READINESS_GATES ! 0) missing;
          missing = push_if (\<not> rd_drained r) (READINESS_GATES ! 1) missing;
          missing = push_if (\<not> rd_bundle_signature_verified r) (READINESS_GATES ! 2) missing;
          missing = push_if (\<not> rd_backup_and_rollback_ready r) (READINESS_GATES ! 3) missing;
          missing = push_if (\<not> rd_scope_grants_present r) (READINESS_GATES ! 4) missing
      in missing)"

datatype update_decision =
    ApplyAutomatically "string list"
  | RequiresApproval "string list"
  | UpdateRefused string

fun is_automatic :: "update_decision \<Rightarrow> bool" where
  "is_automatic (ApplyAutomatically _) = True"
| "is_automatic _ = False"

fun is_refused :: "update_decision \<Rightarrow> bool" where
  "is_refused (UpdateRefused _) = True"
| "is_refused _ = False"

record update_policy =
  up_mode :: auto_apply_mode
  up_allow_prerelease :: bool

definition update_policy_default :: update_policy where
  "update_policy_default = \<lparr>up_mode = ExplicitApproval, up_allow_prerelease = False\<rparr>"

text \<open>\<open>value.split(['-', '+']).next()\<close> is the text before the first of the two.\<close>

definition parse_semver :: "string \<Rightarrow> (u64 \<times> u64 \<times> u64) option" where
  "parse_semver value =
     (case split_on CHR ''.'' (takeWhile (\<lambda>c. c \<noteq> CHR ''-'' \<and> c \<noteq> CHR ''+'') value) of
        major # minor # parts \<Rightarrow>
          (case (parse_u64 major, parse_u64 minor, parse_u64 (case parts of [] \<Rightarrow> ''0'' | patch # _ \<Rightarrow> patch)) of
             (Some major, Some minor, Some patch) \<Rightarrow>
               if length parts > 1 then None else Some (major, minor, patch)
           | _ \<Rightarrow> None)
      | _ \<Rightarrow> None)"

text \<open>The derived order of the version triple.\<close>

definition version_le :: "u64 \<times> u64 \<times> u64 \<Rightarrow> u64 \<times> u64 \<times> u64 \<Rightarrow> bool" where
  "version_le v w =
     (case (v, w) of ((a, b, c), (x, y, z)) \<Rightarrow> a < x \<or> a = x \<and> (b < y \<or> b = y \<and> c \<le> z))"

definition update_refuse :: "string \<Rightarrow> string \<Rightarrow> axiom_error" where
  "update_refuse rule observed =
     with_detail (with_detail (axiom_error_new ValidationError
       ''the update candidate violates the update policy contract'') ''rule'' rule) ''observed'' observed"

definition gates_of :: "update_policy \<Rightarrow> update_candidate \<Rightarrow> readiness \<Rightarrow> string list" where
  "gates_of policy candidate readiness =
     (let gates = [];
          gates = push_if (up_mode policy = ExplicitApproval) ''auto_apply_disabled'' gates;
          gates = push_if (\<not> is_compatible_patch (uc_severity candidate)) (APPROVAL_BOUNDARIES ! 0) gates;
          gates = push_if (uc_schema_change candidate) (APPROVAL_BOUNDARIES ! 1) gates;
          gates = push_if (uc_security_advisory candidate) (APPROVAL_BOUNDARIES ! 2) gates;
          gates = push_if (uc_trust_root_change candidate) (APPROVAL_BOUNDARIES ! 3) gates;
          gates = push_if (uc_host_config_rewrite candidate) (APPROVAL_BOUNDARIES ! 4) gates;
          gates = gates @ readiness_missing readiness;
          gates = push_if (uc_channel candidate = ''prerelease'') ''prerelease_never_auto_applies'' gates
      in gates)"

definition update_decide ::
  "update_policy \<Rightarrow> update_candidate \<Rightarrow> readiness \<Rightarrow> update_decision result" where
  "update_decide policy candidate readiness =
     (if uc_channel candidate \<notin> set policy_channels then Inr (UpdateRefused ''channel_not_supported'')
      else
        (case parse_semver (uc_from_version candidate) of
           None \<Rightarrow> Inl (update_refuse ''installed_version_not_semver'' (uc_from_version candidate))
         | Some old \<Rightarrow>
             (case parse_semver (uc_to_version candidate) of
                None \<Rightarrow> Inl (update_refuse ''candidate_version_not_semver'' (uc_to_version candidate))
              | Some new \<Rightarrow>
                  if version_le new old then Inr (UpdateRefused ''candidate_not_newer'')
                  else if uc_channel candidate = ''prerelease'' \<and> \<not> up_allow_prerelease policy
                  then Inr (UpdateRefused ''channel_not_allowed'')
                  else
                    (let gates = gates_of policy candidate readiness
                     in if gates \<noteq> [] then Inr (RequiresApproval gates)
                        else Inr (ApplyAutomatically READINESS_GATES)))))"

section \<open>When an update applies itself\<close>

lemma push_if_Nil [simp]: "push_if b g gs = [] \<longleftrightarrow> \<not> b \<and> gs = []"
  by (simp add: push_if_def)

lemma readiness_missing_Nil [simp]: "readiness_missing r = [] \<longleftrightarrow> r = readiness_complete"
  by (cases r) (auto simp: readiness_missing_def readiness_complete_def)

text \<open>C35: An update applies itself exactly when everything the code asks for holds: a strictly newer version on the
  stable channel that the caller labels a patch, auto-apply switched on, none of the other approval boundaries
  crossed and the host ready in every respect.  The label is not checked against the two versions, lemma
  \<open>severity_is_trusted\<close>.\<close>

theorem automatic_update_iff:
  "(\<exists>decision. update_decide policy candidate readiness = Inr decision \<and> is_automatic decision) \<longleftrightarrow>
   (\<exists>v w. parse_semver (uc_from_version candidate) = Some v \<and> parse_semver (uc_to_version candidate) = Some w \<and>
      \<not> version_le w v) \<and>
   uc_channel candidate = ''stable'' \<and> up_mode policy = CompatiblePatch \<and> uc_severity candidate = PatchStep \<and>
   \<not> uc_schema_change candidate \<and> \<not> uc_security_advisory candidate \<and> \<not> uc_trust_root_change candidate \<and>
   \<not> uc_host_config_rewrite candidate \<and> readiness = readiness_complete"
proof -
  have mode: "up_mode policy = ExplicitApproval \<longleftrightarrow> up_mode policy \<noteq> CompatiblePatch"
    by (cases "up_mode policy") simp_all
  consider (bad) "parse_semver (uc_from_version candidate) = None \<or> parse_semver (uc_to_version candidate) = None"
    | (both) v w where "parse_semver (uc_from_version candidate) = Some v"
        "parse_semver (uc_to_version candidate) = Some w"
    by (cases "parse_semver (uc_from_version candidate)"; cases "parse_semver (uc_to_version candidate)") auto
  then show ?thesis
  proof cases
    case bad
    then show ?thesis by (auto simp: update_decide_def split: option.split)
  next
    case both
    have "update_decide policy candidate readiness =
       (if uc_channel candidate \<notin> set policy_channels then Inr (UpdateRefused ''channel_not_supported'')
        else if version_le w v then Inr (UpdateRefused ''candidate_not_newer'')
        else if uc_channel candidate = ''prerelease'' \<and> \<not> up_allow_prerelease policy
        then Inr (UpdateRefused ''channel_not_allowed'')
        else if gates_of policy candidate readiness \<noteq> [] then Inr (RequiresApproval (gates_of policy candidate readiness))
        else Inr (ApplyAutomatically READINESS_GATES))"
      by (simp add: update_decide_def both)
    moreover have "gates_of policy candidate readiness = [] \<longleftrightarrow> up_mode policy = CompatiblePatch \<and>
        uc_severity candidate = PatchStep \<and> \<not> uc_schema_change candidate \<and> \<not> uc_security_advisory candidate \<and>
        \<not> uc_trust_root_change candidate \<and> \<not> uc_host_config_rewrite candidate \<and> readiness = readiness_complete \<and>
        uc_channel candidate \<noteq> ''prerelease''"
      by (simp add: gates_of_def mode is_compatible_patch_def) blast
    ultimately show ?thesis by (simp add: both policy_channels_def)
  qed
qed

text \<open>The severity is the caller's word: it is not compared with the two versions.\<close>

lemma severity_is_trusted:
  "\<exists>candidate. uc_from_version candidate = ''1.0.0'' \<and> uc_to_version candidate = ''2.0.0'' \<and>
     update_decide (update_policy_default\<lparr>up_mode := CompatiblePatch\<rparr>) candidate readiness_complete =
       Inr (ApplyAutomatically READINESS_GATES)"
proof (intro exI conjI)
  let ?c = "\<lparr>uc_from_version = ''1.0.0'', uc_to_version = ''2.0.0'', uc_severity = PatchStep, uc_channel = ''stable'',
    uc_schema_change = False, uc_security_advisory = False, uc_trust_root_change = False, uc_host_config_rewrite = False\<rparr>"
  have versions: "parse_semver ''1.0.0'' = Some (1, 0, 0)" "parse_semver ''2.0.0'' = Some (2, 0, 0)"
    by (simp_all add: parse_semver_def parse_u64_def digits_value_def u64_max_def is_ascii_digit_def)
  show "uc_from_version ?c = ''1.0.0''" "uc_to_version ?c = ''2.0.0''" by simp_all
  show "update_decide (update_policy_default\<lparr>up_mode := CompatiblePatch\<rparr>) ?c readiness_complete =
      Inr (ApplyAutomatically READINESS_GATES)"
    by (simp add: update_decide_def versions version_le_def policy_channels_def gates_of_def push_if_def
        is_compatible_patch_def update_policy_default_def readiness_missing_def readiness_complete_def)
qed

end
