(* ===== verification/UpdResolve.thy ===== *)
theory UpdResolve
  imports UpdPolicy "HOL-Library.Option_ord"
begin

text \<open>
  The resolver of update targets, \<^verbatim>\<open>axiom/src/update/resolve.rs\<close>: SemVer with its order, the rules
  that reject a candidate, and the choice of the highest compatible release.
\<close>

section \<open>Comparison functions\<close>

text \<open>The laws of a comparison function survive the ways the code builds one from others.\<close>

lemma rust_ord_pullback: "rust_ord f \<Longrightarrow> rust_ord (\<lambda>x y. f (h x) (h y))"
  unfolding rust_ord_def by blast

lemma reverse_then_with [simp]:
  "reverse_ordering (then_with a b) = then_with (reverse_ordering a) (reverse_ordering b)"
  by (cases a) (simp_all add: then_with_def)

context rust_ord
begin

lemma ord_Equal_swap: "ord x y = Equal \<Longrightarrow> ord y x = Equal"
  by (simp add: ord_swap [of y x])

lemma ord_Equal_left: "ord x y = Equal \<Longrightarrow> ord y z = ord x z"
proof -
  assume eq: "ord x y = Equal"
  have "ord x z \<noteq> Greater \<longleftrightarrow> ord y z \<noteq> Greater" "ord z x \<noteq> Greater \<longleftrightarrow> ord z y \<noteq> Greater"
    using ord_trans [of x y z] ord_trans [of y x z] ord_trans [of z x y] ord_trans [of z y x]
      eq ord_Equal_swap [OF eq] by auto
  then show ?thesis using ord_swap [of z x] ord_swap [of z y]
    by (cases "ord x z"; cases "ord y z") auto
qed

lemma ord_less_trans:
  assumes "ord x y = Less" and "ord y z \<noteq> Greater"
  shows "ord x z = Less"
proof -
  have "ord x z \<noteq> Greater" using ord_trans [of x y z] assms by simp
  moreover have "ord x z \<noteq> Equal"
  proof
    assume "ord x z = Equal"
    then have "ord z x = Equal" by (rule ord_Equal_swap)
    then have "ord x y = ord z y" by (rule ord_Equal_left)
    then have "ord y z = Greater" using assms(1) ord_swap [of y z] by simp
    with assms(2) show False by simp
  qed
  ultimately show ?thesis by (cases "ord x z") simp_all
qed

lemma ord_then_with:
  assumes "rust_ord g"
  shows "rust_ord (\<lambda>x y. then_with (ord x y) (g x y))"
proof (rule rust_ord.intro)
  show "then_with (ord x x) (g x x) = Equal" for x
    using assms by (simp add: ord_refl then_with_def rust_ord.ord_refl)
  show "then_with (ord y x) (g y x) = reverse_ordering (then_with (ord x y) (g x y))" for x y
    using ord_swap [of y x] rust_ord.ord_swap [OF assms, of y x] by simp
  fix x y z
  assume xy: "then_with (ord x y) (g x y) \<noteq> Greater" and yz: "then_with (ord y z) (g y z) \<noteq> Greater"
  show "then_with (ord x z) (g x z) \<noteq> Greater"
  proof (cases "ord x y = Equal")
    case True
    then have "ord y z = ord x z" by (rule ord_Equal_left)
    then show ?thesis using xy yz True rust_ord.ord_trans [OF assms, of x y z]
      by (auto simp: then_with_def split: if_splits)
  next
    case False
    then have less: "ord x y = Less" "ord y z \<noteq> Greater"
      using xy yz by (cases "ord x y"; cases "ord y z"; simp add: then_with_def)+
    then show ?thesis using ord_less_trans [OF less] by (simp add: then_with_def)
  qed
qed

end

text \<open>The comparison of two lists: the first unequal pair decides, then the lengths.\<close>

fun lex_ord :: "('a \<Rightarrow> 'a \<Rightarrow> ordering) \<Rightarrow> 'a list \<Rightarrow> 'a list \<Rightarrow> ordering" where
  "lex_ord f [] [] = Equal"
| "lex_ord f [] (_ # _) = Less"
| "lex_ord f (_ # _) [] = Greater"
| "lex_ord f (x # xs) (y # ys) = then_with (f x y) (lex_ord f xs ys)"

context rust_ord
begin

lemma lex_ord_laws: "rust_ord (lex_ord ord)"
proof (rule rust_ord.intro)
  show "lex_ord ord xs xs = Equal" for xs by (induction xs) (simp_all add: ord_refl then_with_def)
  show "lex_ord ord ys xs = reverse_ordering (lex_ord ord xs ys)" for xs ys
  proof (induction ys arbitrary: xs)
    case (Cons y ys)
    then show ?case using ord_swap [of y] by (cases xs) simp_all
  qed (case_tac xs; simp)
  show "lex_ord ord xs zs \<noteq> Greater" if "lex_ord ord xs ys \<noteq> Greater" "lex_ord ord ys zs \<noteq> Greater" for xs ys zs
    using that
  proof (induction xs arbitrary: ys zs)
    case Nil
    then show ?case by (cases zs) simp_all
  next
    case (Cons x xs)
    then obtain y ys' z zs' where lists: "ys = y # ys'" "zs = z # zs'" by (cases ys; cases zs) auto
    show ?case
    proof (cases "ord x y = Equal")
      case True
      then have "ord y z = ord x z" by (rule ord_Equal_left)
      with True Cons lists show ?thesis by (auto simp: then_with_def split: if_splits)
    next
      case False
      then have less: "ord x y = Less" "ord y z \<noteq> Greater"
        using Cons.prems lists by (cases "ord x y"; cases "ord y z"; simp add: then_with_def)+
      then show ?thesis using lists ord_less_trans [OF less] by (simp add: then_with_def)
    qed
  qed
qed

end

section \<open>Versions\<close>

definition split_once :: "char \<Rightarrow> string \<Rightarrow> (string \<times> string) option" where
  "split_once c s =
     (case dropWhile (\<lambda>x. x \<noteq> c) s of [] \<Rightarrow> None | _ # rest \<Rightarrow> Some (takeWhile (\<lambda>x. x \<noteq> c) s, rest))"

record release_version =
  rv_major :: u64
  rv_minor :: u64
  rv_patch :: u64
  rv_pre :: "string list option"

definition version_numeric :: "string \<Rightarrow> u64 option" where
  "version_numeric s =
     (if s = [] \<or> \<not> list_all is_ascii_digit s then None
      else if length s > 1 \<and> starts_with s ''0'' then None
      else parse_u64 s)"

definition version_parse :: "string \<Rightarrow> release_version option" where
  "version_parse s =
     (let s = str_trim s
      in case (case split_once CHR ''+'' s of
            None \<Rightarrow> Some s
          | Some (left, build) \<Rightarrow>
              if build = [] \<or> list_ex (\<lambda>part. part = []) (split_on CHR ''.'' build) then None else Some left) of
           None \<Rightarrow> None
         | Some core_and_pre \<Rightarrow>
             (case (case split_once CHR ''-'' core_and_pre of
                 None \<Rightarrow> Some (core_and_pre, None)
               | Some (core, pre) \<Rightarrow>
                   (let identifiers = split_on CHR ''.'' pre
                    in if identifiers = [] \<or> list_ex (\<lambda>i. i = []) identifiers then None
                       else Some (core, Some identifiers))) of
                None \<Rightarrow> None
              | Some (core, pre) \<Rightarrow>
                  (case split_on CHR ''.'' core of
                     [major, minor, patch] \<Rightarrow>
                       (case (version_numeric major, version_numeric minor, version_numeric patch) of
                          (Some major, Some minor, Some patch) \<Rightarrow>
                            Some \<lparr>rv_major = major, rv_minor = minor, rv_patch = patch, rv_pre = pre\<rparr>
                        | _ \<Rightarrow> None)
                   | _ \<Rightarrow> None)))"

definition compare_identifier :: "string \<Rightarrow> string \<Rightarrow> ordering" where
  "compare_identifier left right =
     (case (list_all is_ascii_digit left, list_all is_ascii_digit right) of
        (True, True) \<Rightarrow> cmp (parse_u64 left) (parse_u64 right)
      | (True, False) \<Rightarrow> Less
      | (False, True) \<Rightarrow> Greater
      | (False, False) \<Rightarrow> cmp left right)"

text \<open>The loop over the pairs, which ends with the comparison of the lengths.\<close>

fun compare_pairs :: "(string \<times> string) list \<Rightarrow> ordering \<Rightarrow> ordering" where
  "compare_pairs [] lengths = lengths"
| "compare_pairs ((a, b) # pairs) lengths =
     (let ordering = compare_identifier a b
      in if ordering \<noteq> Equal then ordering else compare_pairs pairs lengths)"

fun compare_prerelease :: "string list option \<Rightarrow> string list option \<Rightarrow> ordering" where
  "compare_prerelease None None = Equal"
| "compare_prerelease None (Some _) = Greater"
| "compare_prerelease (Some _) None = Less"
| "compare_prerelease (Some left) (Some right) =
     compare_pairs (zip left right) (cmp (length left) (length right))"

definition version_cmp :: "release_version \<Rightarrow> release_version \<Rightarrow> ordering" where
  "version_cmp v w =
     then_with (then_with (then_with (cmp (rv_major v) (rv_major w)) (cmp (rv_minor v) (rv_minor w)))
       (cmp (rv_patch v) (rv_patch w))) (compare_prerelease (rv_pre v) (rv_pre w))"

lemma compare_identifier_laws: "rust_ord compare_identifier"
proof (rule rust_ord.intro)
  show "compare_identifier x x = Equal" for x
    by (auto simp: compare_identifier_def natural.ord_refl split: bool.split)
  show "compare_identifier y x = reverse_ordering (compare_identifier x y)" for x y
    using natural.ord_swap [of "parse_u64 y" "parse_u64 x"] natural.ord_swap [of y x]
    by (auto simp: compare_identifier_def split: bool.split)
  show "compare_identifier x z \<noteq> Greater" if "compare_identifier x y \<noteq> Greater" "compare_identifier y z \<noteq> Greater" for x y z
    using that natural.ord_trans [of "parse_u64 x" "parse_u64 y" "parse_u64 z"] natural.ord_trans [of x y z]
    by (auto simp: compare_identifier_def split: bool.splits)
qed

interpretation prerelease: rust_ord compare_identifier
  by (rule compare_identifier_laws)

lemma compare_pairs_lex:
  "compare_pairs (zip xs ys) (cmp (m + length xs) (m + length ys)) = lex_ord compare_identifier xs ys"
proof (induction compare_identifier xs ys arbitrary: m rule: lex_ord.induct)
  case (4 x xs y ys)
  from 4 [of "Suc m"] show ?case by (simp add: Let_def then_with_def)
qed (simp_all add: cmp_def)

fun compare_option :: "('a \<Rightarrow> 'a \<Rightarrow> ordering) \<Rightarrow> 'a option \<Rightarrow> 'a option \<Rightarrow> ordering" where
  "compare_option f None None = Equal"
| "compare_option f None (Some _) = Greater"
| "compare_option f (Some _) None = Less"
| "compare_option f (Some x) (Some y) = f x y"

lemma compare_option_laws:
  assumes "rust_ord f"
  shows "rust_ord (compare_option f)"
proof (rule rust_ord.intro)
  show "compare_option f x x = Equal" for x by (cases x) (simp_all add: rust_ord.ord_refl [OF assms])
  show "compare_option f y x = reverse_ordering (compare_option f x y)" for x y
    by (cases x; cases y) (simp_all add: rust_ord.ord_swap [OF assms, symmetric])
  show "compare_option f x z \<noteq> Greater" if "compare_option f x y \<noteq> Greater" "compare_option f y z \<noteq> Greater" for x y z
    using that by (cases x; cases y; cases z) (auto dest: rust_ord.ord_trans [OF assms])
qed

lemma compare_prerelease_lex: "compare_prerelease = compare_option (lex_ord compare_identifier)"
proof (intro ext)
  show "compare_prerelease x y = compare_option (lex_ord compare_identifier) x y" for x y
    using compare_pairs_lex [of _ _ 0] by (cases x; cases y) auto
qed

interpretation versions: rust_ord version_cmp
proof -
  have field: "rust_ord (\<lambda>v w. cmp (f v) (f w))" for f :: "release_version \<Rightarrow> nat"
    by (rule rust_ord_pullback) (rule natural.rust_ord_axioms)
  have "rust_ord (\<lambda>v w. compare_prerelease (rv_pre v) (rv_pre w))"
    unfolding compare_prerelease_lex
    by (rule rust_ord_pullback [OF compare_option_laws [OF prerelease.lex_ord_laws]])
  then show "rust_ord version_cmp"
    unfolding version_cmp_def [abs_def] by (intro rust_ord.ord_then_with field)
qed

section \<open>The resolver\<close>

definition COMPONENTS :: "string list" where
  "COMPONENTS = [''axiom-graphd'', ''axiom-mcp'', ''axiom'', ''skills'']"

definition source_channels :: "string list" where
  "source_channels = [''stable'', ''prerelease'']"

definition is_digest :: "string \<Rightarrow> bool" where
  "is_digest s \<longleftrightarrow> length s = 64 \<and> list_all (\<lambda>c. is_ascii_digit c \<or> CHR ''a'' \<le> c \<and> c \<le> CHR ''f'') s"

definition is_ascii_hexdigit :: "char \<Rightarrow> bool" where
  "is_ascii_hexdigit c \<longleftrightarrow> is_ascii_digit c \<or> CHR ''a'' \<le> c \<and> c \<le> CHR ''f'' \<or> CHR ''A'' \<le> c \<and> c \<le> CHR ''F''"

definition is_ascii_uppercase :: "char \<Rightarrow> bool" where
  "is_ascii_uppercase c \<longleftrightarrow> CHR ''A'' \<le> c \<and> c \<le> CHR ''Z''"

definition is_revision :: "string \<Rightarrow> bool" where
  "is_revision s \<longleftrightarrow> length s = 40 \<and> list_all (\<lambda>c. is_ascii_hexdigit c \<and> \<not> is_ascii_uppercase c) s"

datatype resolved_action = ResolvedInstall | ResolvedUpgrade | ResolvedNoop

fun resolved_action_str :: "resolved_action \<Rightarrow> string" where
  "resolved_action_str ResolvedInstall = ''install''"
| "resolved_action_str ResolvedUpgrade = ''upgrade''"
| "resolved_action_str ResolvedNoop = ''noop''"

record constraints =
  co_component :: string
  co_channel :: string
  co_graph_schema_major :: u32
  co_control_api :: u32
  co_queue_schema :: u32
  co_spec_version :: string

record component_release =
  cr_component :: string
  cr_version :: string
  cr_revision :: string
  cr_channel :: string
  cr_spec_version :: string
  cr_graph_schema :: u32
  cr_control_api :: u32
  cr_queue_schema :: u32
  cr_artifact_sha256 :: string
  cr_published_at :: string

record rejection =
  rj_version :: string
  rj_rule :: string

record resolved_update =
  ru_component :: string
  ru_installed_version :: "string option"
  ru_target_version :: string
  ru_target_revision :: string
  ru_artifact_sha256 :: string
  ru_action :: resolved_action
  ru_compatible_candidates :: usize
  ru_rejected :: "rejection list"

definition resolve_refuse :: "string \<Rightarrow> string \<Rightarrow> axiom_error" where
  "resolve_refuse rule observed =
     with_detail (with_detail (axiom_error_new ValidationError
       ''the candidate set violates the compatibility contract'') ''rule'' rule) ''observed'' observed"

definition validate_constraints :: "constraints \<Rightarrow> unit result" where
  "validate_constraints constraints =
     (if co_component constraints \<notin> set COMPONENTS then
        Inl (resolve_refuse ''unsupported_component'' (''component='' @ co_component constraints))
      else if co_channel constraints \<notin> set source_channels then
        Inl (resolve_refuse ''unsupported_channel'' (''channel='' @ co_channel constraints))
      else if version_parse (co_spec_version constraints) = None then
        Inl (resolve_refuse ''invalid_spec_version'' (''spec_version='' @ co_spec_version constraints))
      else Inr ())"

definition parse_version :: "string \<Rightarrow> release_version result" where
  "parse_version s =
     (case version_parse s of
        None \<Rightarrow> Inl (resolve_refuse ''invalid_installed_version'' (''installed_version='' @ s))
      | Some version \<Rightarrow> Inr version)"

definition evaluate_candidate ::
  "component_release \<Rightarrow> constraints \<Rightarrow> release_version option \<Rightarrow> string + release_version" where
  "evaluate_candidate candidate constraints installed =
     (if cr_component candidate \<noteq> co_component constraints then Inl ''component_not_selected''
      else if cr_channel candidate \<noteq> co_channel constraints then Inl ''channel_not_selected''
      else
        (case version_parse (cr_version candidate) of
           None \<Rightarrow> Inl ''invalid_semver''
         | Some version \<Rightarrow>
             if co_channel constraints = ''stable'' \<and> rv_pre version \<noteq> None then Inl ''prerelease_not_on_stable''
             else if cr_spec_version candidate \<noteq> co_spec_version constraints then Inl ''spec_version_pin_mismatch''
             else if cr_graph_schema candidate \<noteq> co_graph_schema_major constraints then Inl ''graph_schema_incompatible''
             else if cr_control_api candidate > co_control_api constraints then Inl ''control_api_newer_than_binary''
             else if cr_queue_schema candidate > co_queue_schema constraints then Inl ''queue_schema_newer_than_binary''
             else if \<not> is_revision (cr_revision candidate) then Inl ''invalid_revision''
             else if \<not> is_digest (cr_artifact_sha256 candidate) then Inl ''invalid_artifact_hash''
             else if (case installed of None \<Rightarrow> False | Some current \<Rightarrow> version_cmp version current = Less)
             then Inl ''older_than_installed''
             else Inr version))"

fun evaluate_candidates ::
  "constraints \<Rightarrow> release_version option \<Rightarrow> component_release list \<Rightarrow>
    (release_version \<times> component_release) list \<times> rejection list" where
  "evaluate_candidates constraints installed [] = ([], [])"
| "evaluate_candidates constraints installed (candidate # candidates) =
     (case evaluate_candidates constraints installed candidates of
        (compatible, rejected) \<Rightarrow>
          (case evaluate_candidate candidate constraints installed of
             Inr version \<Rightarrow> ((version, candidate) # compatible, rejected)
           | Inl rule \<Rightarrow> (compatible, \<lparr>rj_version = cr_version candidate, rj_rule = rule\<rparr> # rejected)))"

definition resolved_action_of :: "release_version option \<Rightarrow> release_version \<Rightarrow> resolved_action" where
  "resolved_action_of installed selected =
     (case installed of
        None \<Rightarrow> ResolvedInstall
      | Some current \<Rightarrow> if current = selected then ResolvedNoop else ResolvedUpgrade)"

definition update_resolve ::
  "component_release list \<Rightarrow> constraints \<Rightarrow> string option \<Rightarrow> resolved_update result" where
  "update_resolve candidates constraints installed_version =
     (case validate_constraints constraints of
        Inl e \<Rightarrow> Inl e
      | Inr _ \<Rightarrow>
          (case (case installed_version of
                None \<Rightarrow> Inr None
              | Some s \<Rightarrow> (case parse_version s of Inl e \<Rightarrow> Inl e | Inr v \<Rightarrow> Inr (Some v))) of
             Inl e \<Rightarrow> Inl e
           | Inr installed \<Rightarrow>
               (case evaluate_candidates constraints installed candidates of
                  (compatible, rejected) \<Rightarrow>
                    if compatible = [] then
                      Inl (resolve_refuse ''no_compatible_release''
                        (''component='' @ co_component constraints @ '';candidates='' @ show_nat (length candidates) @
                         '';rejected='' @ show_nat (length rejected)))
                    else
                      (let rejected = sort_by (\<lambda>l r. cmp (rj_version l) (rj_version r)) rejected;
                           sorted = sort_by (\<lambda>l r. version_cmp (fst l) (fst r)) compatible;
                           (selected_version, selected) = last sorted
                       in Inr \<lparr>ru_component = cr_component selected, ru_installed_version = installed_version,
                            ru_target_version = cr_version selected, ru_target_revision = cr_revision selected,
                            ru_artifact_sha256 = cr_artifact_sha256 selected,
                            ru_action = resolved_action_of installed selected_version,
                            ru_compatible_candidates = length compatible, ru_rejected = rejected\<rparr>))))"

section \<open>The choice\<close>

definition accepted_versions ::
  "component_release list \<Rightarrow> constraints \<Rightarrow> release_version option \<Rightarrow> (release_version \<times> component_release) list" where
  "accepted_versions candidates constraints installed =
     concat (map (\<lambda>c. case evaluate_candidate c constraints installed of Inl _ \<Rightarrow> [] | Inr v \<Rightarrow> [(v, c)]) candidates)"

lemma evaluate_candidates_fst:
  "fst (evaluate_candidates constraints installed candidates) = accepted_versions candidates constraints installed"
  by (induction candidates) (auto simp: accepted_versions_def split: prod.splits sum.splits)

lemma in_accepted_versions:
  "(v, c) \<in> set (accepted_versions candidates constraints installed) \<longleftrightarrow>
   c \<in> set candidates \<and> evaluate_candidate c constraints installed = Inr v"
  by (auto simp: accepted_versions_def split: sum.splits)

text \<open>The last element of a sorted list is a greatest one.\<close>

context rust_ord
begin

lemma sort_by_last_greatest:
  assumes "x \<in> set xs"
  shows "ord x (last (sort_by ord xs)) \<noteq> Greater"
proof -
  let ?s = "sort_by ord xs"
  have "x \<in> set ?s" using assms by simp
  then obtain i where i: "i < length ?s" "x = ?s ! i" by (metis in_set_conv_nth)
  have nonempty: "?s \<noteq> []" using i by auto
  show ?thesis
  proof (cases "i = length ?s - 1")
    case True
    then show ?thesis using i nonempty by (simp add: last_conv_nth ord_refl)
  next
    case False
    then have "i < length ?s - 1" using i by simp
    then show ?thesis using sorted_wrt_nth_less [OF sorted_sort_by [of xs], of i "length ?s - 1"] i nonempty
      by (simp add: last_conv_nth)
  qed
qed

end

text \<open>C15: The resolver installs a greatest compatible release and never an older one: a resolved update is
  one of the candidates that pass every constraint, no candidate that passes has a higher version, it
  is not lower than what is installed, the number of compatible candidates is reported, every other
  candidate is listed with the rule that rejected it, and nothing is to do exactly when the installed
  version is the chosen one.\<close>

theorem resolver_picks_greatest_compatible:
  assumes "update_resolve candidates constraints installed_version = Inr update"
  shows "\<exists>installed selected version.
    installed = (case installed_version of None \<Rightarrow> None | Some s \<Rightarrow> version_parse s) \<and>
    selected \<in> set candidates \<and> evaluate_candidate selected constraints installed = Inr version \<and>
    ru_target_version update = cr_version selected \<and> ru_target_revision update = cr_revision selected \<and>
    ru_artifact_sha256 update = cr_artifact_sha256 selected \<and>
    (\<forall>c\<in>set candidates. \<forall>v. evaluate_candidate c constraints installed = Inr v \<longrightarrow> version_cmp v version \<noteq> Greater) \<and>
    (\<forall>current. installed = Some current \<longrightarrow> version_cmp version current \<noteq> Less \<and>
       (ru_action update = ResolvedNoop \<longleftrightarrow> current = version)) \<and>
    ru_compatible_candidates update = length (filter (\<lambda>c. \<exists>v. evaluate_candidate c constraints installed = Inr v) candidates) \<and>
    (\<forall>c\<in>set candidates. \<forall>rule. evaluate_candidate c constraints installed = Inl rule \<longrightarrow>
       \<lparr>rj_version = cr_version c, rj_rule = rule\<rparr> \<in> set (ru_rejected update))"
proof -
  obtain installed where installed: "installed = (case installed_version of None \<Rightarrow> None | Some s \<Rightarrow> version_parse s)"
    "(case installed_version of None \<Rightarrow> Inr None
        | Some s \<Rightarrow> (case parse_version s of Inl e \<Rightarrow> Inl e | Inr v \<Rightarrow> Inr (Some v))) = Inr installed"
    using assms by (auto simp: update_resolve_def parse_version_def split: sum.splits option.splits)
  let ?accepted = "accepted_versions candidates constraints installed"
  let ?sorted = "sort_by (\<lambda>l r. version_cmp (fst l) (fst r)) ?accepted"
  obtain rejected where rejected: "evaluate_candidates constraints installed candidates = (?accepted, rejected)"
    using evaluate_candidates_fst [of constraints installed candidates] by (metis prod.collapse)
  obtain version selected where last: "last ?sorted = (version, selected)" by fastforce
  have nonempty: "?accepted \<noteq> []"
    and update: "update = \<lparr>ru_component = cr_component selected, ru_installed_version = installed_version,
        ru_target_version = cr_version selected, ru_target_revision = cr_revision selected,
        ru_artifact_sha256 = cr_artifact_sha256 selected, ru_action = resolved_action_of installed version,
        ru_compatible_candidates = length ?accepted,
        ru_rejected = sort_by (\<lambda>l r. cmp (rj_version l) (rj_version r)) rejected\<rparr>"
    using assms installed(2) rejected last
    by (auto simp: update_resolve_def Let_def split: sum.splits if_splits)
  have "last ?sorted \<in> set ?accepted" using nonempty last_in_set [of ?sorted] by simp
  then have selected: "selected \<in> set candidates" "evaluate_candidate selected constraints installed = Inr version"
    using last in_accepted_versions by metis+
  have greatest: "version_cmp v version \<noteq> Greater"
    if "c \<in> set candidates" "evaluate_candidate c constraints installed = Inr v" for c v
  proof -
    have "(v, c) \<in> set ?accepted" using that by (simp add: in_accepted_versions)
    from rust_ord.sort_by_last_greatest [OF rust_ord_pullback [where h = fst, OF versions.rust_ord_axioms] this]
    show ?thesis using last by simp
  qed
  have current: "version_cmp version w \<noteq> Less \<and> (ru_action update = ResolvedNoop \<longleftrightarrow> w = version)"
    if "installed = Some w" for w
    using selected(2) that
    by (auto simp: update resolved_action_of_def evaluate_candidate_def split: if_splits option.splits)
  have count: "length ?accepted = length (filter (\<lambda>c. \<exists>v. evaluate_candidate c constraints installed = Inr v) candidates)"
    by (induction candidates) (auto simp: accepted_versions_def split: sum.splits)
  have listed: "\<lparr>rj_version = cr_version c, rj_rule = rule\<rparr> \<in> set (ru_rejected update)"
    if "c \<in> set candidates" "evaluate_candidate c constraints installed = Inl rule" for c rule
  proof -
    have "\<lparr>rj_version = cr_version c, rj_rule = rule\<rparr> \<in> set (snd (evaluate_candidates constraints installed candidates))"
      using that by (induction candidates) (auto split: prod.splits sum.splits)
    then show ?thesis by (simp add: rejected update)
  qed
  show ?thesis
    by (rule exI [of _ installed], rule exI [of _ selected], rule exI [of _ version])
      (use installed(1) selected greatest current count listed in \<open>simp add: update\<close>)
qed

text \<open>A version that differs only in a leading zero of a prerelease identifier compares equal to the
  installed one but is another value, so it is offered as an upgrade.\<close>

lemma equal_precedence_is_an_upgrade:
  "version_cmp v w = Equal \<and> resolved_action_of (Some v) w = ResolvedUpgrade"
  if "v = \<lparr>rv_major = 1, rv_minor = 0, rv_patch = 0, rv_pre = Some [''1'']\<rparr>"
    and "w = \<lparr>rv_major = 1, rv_minor = 0, rv_patch = 0, rv_pre = Some [''01'']\<rparr>"
  using that
  by (simp add: version_cmp_def resolved_action_of_def then_with_def cmp_def compare_identifier_def parse_u64_def
      digits_value_def u64_max_def is_ascii_digit_def)

lemma prerelease_leading_zero_is_accepted:
  "version_parse ''1.0.0-01'' = Some \<lparr>rv_major = 1, rv_minor = 0, rv_patch = 0, rv_pre = Some [''01'']\<rparr>"
proof -
  have "str_trim ''1.0.0-01'' = ''1.0.0-01''" by code_simp
  then show ?thesis
    by (simp add: version_parse_def split_once_def version_numeric_def parse_u64_def digits_value_def u64_max_def
        is_ascii_digit_def starts_with_def)
qed

definition sample_constraints :: constraints where
  "sample_constraints = \<lparr>co_component = ''axiom'', co_channel = ''stable'', co_graph_schema_major = 1, co_control_api = 1,
     co_queue_schema = 1, co_spec_version = ''2.0.0''\<rparr>"

definition sample_release :: "string \<Rightarrow> component_release" where
  "sample_release version = \<lparr>cr_component = ''axiom'', cr_version = version, cr_revision = replicate 40 CHR ''a'',
     cr_channel = ''stable'', cr_spec_version = ''2.0.0'', cr_graph_schema = 1, cr_control_api = 1, cr_queue_schema = 1,
     cr_artifact_sha256 = replicate 64 CHR ''b'', cr_published_at = []\<rparr>"

lemma sample_versions:
  "version_parse ''2.0.0'' = Some \<lparr>rv_major = 2, rv_minor = 0, rv_patch = 0, rv_pre = None\<rparr>"
  "version_parse ''1.9.0'' = Some \<lparr>rv_major = 1, rv_minor = 9, rv_patch = 0, rv_pre = None\<rparr>"
  "version_parse ''1.10.0'' = Some \<lparr>rv_major = 1, rv_minor = 10, rv_patch = 0, rv_pre = None\<rparr>"
proof -
  have "str_trim ''2.0.0'' = ''2.0.0''" "str_trim ''1.9.0'' = ''1.9.0''" "str_trim ''1.10.0'' = ''1.10.0''" by code_simp+
  then show "version_parse ''2.0.0'' = Some \<lparr>rv_major = 2, rv_minor = 0, rv_patch = 0, rv_pre = None\<rparr>"
    "version_parse ''1.9.0'' = Some \<lparr>rv_major = 1, rv_minor = 9, rv_patch = 0, rv_pre = None\<rparr>"
    "version_parse ''1.10.0'' = Some \<lparr>rv_major = 1, rv_minor = 10, rv_patch = 0, rv_pre = None\<rparr>"
    by (simp_all add: version_parse_def split_once_def version_numeric_def parse_u64_def digits_value_def u64_max_def
        is_ascii_digit_def starts_with_def)
qed

theorem resolver_picks_greatest_compatible_witness:
  "\<exists>update. update_resolve [sample_release ''1.10.0'', sample_release ''1.9.0''] sample_constraints (Some ''1.9.0'') = Inr update \<and>
     ru_target_version update = ''1.10.0''"
proof -
  let ?candidates = "[sample_release ''1.10.0'', sample_release ''1.9.0'']"
  have hashes: "is_revision (replicate 40 CHR ''a'')" "is_digest (replicate 64 CHR ''b'')"
    by (simp_all add: is_revision_def is_digest_def list_all_iff is_ascii_hexdigit_def is_ascii_uppercase_def)
  have evaluated: "evaluate_candidate (sample_release ''1.10.0'') sample_constraints
        (Some \<lparr>rv_major = 1, rv_minor = 9, rv_patch = 0, rv_pre = None\<rparr>) =
      Inr \<lparr>rv_major = 1, rv_minor = 10, rv_patch = 0, rv_pre = None\<rparr>"
    "evaluate_candidate (sample_release ''1.9.0'') sample_constraints
        (Some \<lparr>rv_major = 1, rv_minor = 9, rv_patch = 0, rv_pre = None\<rparr>) =
      Inr \<lparr>rv_major = 1, rv_minor = 9, rv_patch = 0, rv_pre = None\<rparr>"
    by (simp_all add: evaluate_candidate_def sample_release_def sample_constraints_def sample_versions hashes
        version_cmp_def then_with_def cmp_def)
  have "validate_constraints sample_constraints = Inr ()"
    by (simp add: validate_constraints_def sample_constraints_def COMPONENTS_def source_channels_def sample_versions)
  then have "\<exists>update. update_resolve ?candidates sample_constraints (Some ''1.9.0'') = Inr update"
    by (simp add: update_resolve_def parse_version_def sample_versions evaluated Let_def split: prod.split del: One_nat_def)
  then obtain update where update: "update_resolve ?candidates sample_constraints (Some ''1.9.0'') = Inr update" by blast
  from resolver_picks_greatest_compatible [OF this]
  obtain selected version where "selected \<in> set ?candidates" "ru_target_version update = cr_version selected"
    "evaluate_candidate selected sample_constraints (Some \<lparr>rv_major = 1, rv_minor = 9, rv_patch = 0, rv_pre = None\<rparr>) = Inr version"
    "\<forall>c\<in>set ?candidates. \<forall>v. evaluate_candidate c sample_constraints
       (Some \<lparr>rv_major = 1, rv_minor = 9, rv_patch = 0, rv_pre = None\<rparr>) = Inr v \<longrightarrow> version_cmp v version \<noteq> Greater"
    by (auto simp: sample_versions simp del: One_nat_def)
  then have "ru_target_version update = ''1.10.0''"
    using evaluated by (auto simp: version_cmp_def then_with_def cmp_def sample_release_def)
  with update show ?thesis by blast
qed

end
