(* ===== verification/UpdSource.thy ===== *)
theory UpdSource
  imports UpdResolve
begin

text \<open>
  The allowlisted update source and the URLs it produces, \<^verbatim>\<open>axiom/src/update/source.rs\<close>.
\<close>

definition PLACEHOLDER_MARKERS :: "string list" where "PLACEHOLDER_MARKERS = [''REPLACE_ME'', ''FILL_ME'']"
definition MAX_FIELD_LEN :: nat where "MAX_FIELD_LEN = 100"
definition RELEASE_HOST :: string where "RELEASE_HOST = ''github.com''"

record update_source =
  us_owner :: string
  us_repo :: string
  us_channel :: string

record source_config =
  sc_owner :: "string option"
  sc_repo :: "string option"
  sc_channel :: "string option"

definition source_configured :: "string \<Rightarrow> string \<Rightarrow> string \<Rightarrow> source_config" where
  "source_configured owner repo channel = \<lparr>sc_owner = Some owner, sc_repo = Some repo, sc_channel = Some channel\<rparr>"

datatype source_origin = OriginConfigured | OriginUnconfigured

fun source_origin_str :: "source_origin \<Rightarrow> string" where
  "source_origin_str OriginConfigured = ''configured''"
| "source_origin_str OriginUnconfigured = ''unconfigured''"

definition source_refuse :: "string \<Rightarrow> string \<Rightarrow> string \<Rightarrow> axiom_error" where
  "source_refuse rule observed message =
     with_detail (with_detail (axiom_error_new ValidationError message) ''rule'' rule) ''observed'' observed"

definition source_unconfigured :: "string \<Rightarrow> string \<Rightarrow> axiom_error" where
  "source_unconfigured component missing =
     source_refuse ''unconfigured'' (''component='' @ component @ '';missing='' @ missing)
       ''no trusted update source is configured; a source default is never invented from a component name''"

text \<open>\<open>to_ascii_uppercase\<close> on the bytes.\<close>

definition to_ascii_uppercase :: "string \<Rightarrow> string" where
  "to_ascii_uppercase s =
     map (\<lambda>c. if CHR ''a'' \<le> c \<and> c \<le> CHR ''z'' then char_of (of_char c - 32 :: nat) else c) s"

definition has_placeholder :: "string \<Rightarrow> bool" where
  "has_placeholder value = list_ex (\<lambda>marker. str_contains (to_ascii_uppercase value) marker) PLACEHOLDER_MARKERS"

definition name_char :: "char \<Rightarrow> bool" where
  "name_char c \<longleftrightarrow> is_ascii_alphanumeric c \<or> c = CHR ''-'' \<or> c = CHR ''_'' \<or> c = CHR ''.''"

definition source_name :: "string \<Rightarrow> string \<Rightarrow> string result" where
  "source_name kind value =
     (let t = str_trim value
      in if t = [] then
           Inl (source_refuse ''empty_source_field'' (kind @ ''=<empty>'') ''an update source field must not be empty'')
         else if length t > MAX_FIELD_LEN then
           Inl (source_refuse ''oversized_source_field'' (kind @ ''.len='' @ show_nat (length t))
             ''an update source field is longer than the accepted maximum'')
         else if has_placeholder t then
           Inl (source_refuse ''placeholder_source_field'' (kind @ ''='' @ t)
             ''an update source field still carries a specification placeholder'')
         else if \<not> list_all name_char t then
           Inl (source_refuse ''invalid_source_char'' (kind @ ''='' @ t)
             ''an update source field carries a character outside the GitHub owner/repo alphabet'')
         else if hd t = CHR ''-'' \<or> hd t = CHR ''.'' \<or> last t = CHR ''-'' \<or> last t = CHR ''.'' then
           Inl (source_refuse ''ambiguous_source_field'' (kind @ ''='' @ t)
             ''an update source field begins or ends where it would be ambiguous with a path or an option'')
         else Inr t)"

definition segment_char :: "char \<Rightarrow> bool" where
  "segment_char c \<longleftrightarrow> name_char c \<or> c = CHR ''+''"

definition url_segment :: "string \<Rightarrow> string \<Rightarrow> string result" where
  "url_segment kind value =
     (let t = str_trim value
      in if t = [] \<or> length t > MAX_FIELD_LEN then
           Inl (source_refuse ''invalid_url_segment'' (kind @ ''.len='' @ show_nat (length t))
             ''a release URL segment must be present and bounded'')
         else if \<not> list_all segment_char t then
           Inl (source_refuse ''invalid_url_segment'' (kind @ ''='' @ t)
             ''a release URL segment carries a character that could escape the configured repository'')
         else Inr t)"

definition channel_name :: "string \<Rightarrow> string result" where
  "channel_name value =
     (let t = str_trim value
      in if t \<notin> set source_channels then
           Inl (source_refuse ''unsupported_channel'' (''channel='' @ t)
             ''a release channel must be one of the frozen channel names'')
         else Inr t)"

definition update_source_new :: "string \<Rightarrow> string \<Rightarrow> string \<Rightarrow> update_source result" where
  "update_source_new owner repo channel =
     (case source_name ''owner'' owner of
        Inl e \<Rightarrow> Inl e
      | Inr owner \<Rightarrow>
          (case source_name ''repo'' repo of
             Inl e \<Rightarrow> Inl e
           | Inr repo \<Rightarrow>
               (case channel_name channel of
                  Inl e \<Rightarrow> Inl e
                | Inr channel \<Rightarrow> Inr \<lparr>us_owner = owner, us_repo = repo, us_channel = channel\<rparr>)))"

definition from_config :: "source_config \<Rightarrow> string \<Rightarrow> update_source result" where
  "from_config config component =
     (case (sc_owner config, sc_repo config) of
        (Some owner, Some repo) \<Rightarrow>
          (case sc_channel config of
             None \<Rightarrow> Inl (source_unconfigured component ''channel'')
           | Some channel \<Rightarrow> update_source_new owner repo channel)
      | _ \<Rightarrow> Inl (source_unconfigured component ''owner/repo''))"

definition source_slug :: "update_source \<Rightarrow> string" where
  "source_slug source = us_owner source @ ''/'' @ us_repo source"

definition release_base_url :: "update_source \<Rightarrow> string" where
  "release_base_url source =
     ''https://'' @ RELEASE_HOST @ ''/'' @ us_owner source @ ''/'' @ us_repo source @ ''/releases''"

definition asset_url :: "update_source \<Rightarrow> string \<Rightarrow> string \<Rightarrow> string result" where
  "asset_url source tag asset =
     (case url_segment ''tag'' tag of
        Inl e \<Rightarrow> Inl e
      | Inr tag \<Rightarrow>
          (case url_segment ''asset'' asset of
             Inl e \<Rightarrow> Inl e
           | Inr asset \<Rightarrow> Inr (release_base_url source @ ''/download/'' @ tag @ ''/'' @ asset)))"

definition source_origin_of :: "update_source \<Rightarrow> source_origin" where
  "source_origin_of source = OriginConfigured"

section \<open>Where a URL leads\<close>

lemma split_on_segment: "CHR ''/'' \<notin> set s \<Longrightarrow> split_on CHR ''/'' (s @ CHR ''/'' # t) = s # split_on CHR ''/'' t"
  by (induction s) auto

lemma split_on_whole: "CHR ''/'' \<notin> set s \<Longrightarrow> split_on CHR ''/'' s = [s]"
  by (induction s) auto

lemma slash_is_no_name_char: "\<not> name_char CHR ''/''" "\<not> segment_char CHR ''/''"
  by code_simp+

lemma name_char_no_slash: "list_all name_char s \<Longrightarrow> CHR ''/'' \<notin> set s"
  using slash_is_no_name_char(1) by (auto simp: list_all_iff)

lemma segment_char_no_slash: "list_all segment_char s \<Longrightarrow> CHR ''/'' \<notin> set s"
  using slash_is_no_name_char(2) by (auto simp: list_all_iff)

lemma source_name_ok:
  "source_name kind value = Inr t \<Longrightarrow>
   t = str_trim value \<and> t \<noteq> [] \<and> length t \<le> MAX_FIELD_LEN \<and> \<not> has_placeholder t \<and> list_all name_char t \<and>
   hd t \<notin> {CHR ''-'', CHR ''.''} \<and> last t \<notin> {CHR ''-'', CHR ''.''}"
  by (auto simp: source_name_def Let_def split: if_splits)

lemma url_segment_ok:
  "url_segment kind value = Inr t \<Longrightarrow> t = str_trim value \<and> t \<noteq> [] \<and> length t \<le> MAX_FIELD_LEN \<and> list_all segment_char t"
  by (auto simp: url_segment_def Let_def split: if_splits)

lemma update_source_new_ok:
  assumes "update_source_new owner repo channel = Inr source"
  shows "source_name ''owner'' owner = Inr (us_owner source) \<and> source_name ''repo'' repo = Inr (us_repo source) \<and>
    us_channel source \<in> set source_channels"
  using assms by (auto simp: update_source_new_def channel_name_def Let_def split: sum.splits if_splits)

text \<open>Every asset URL of a configured source is an https URL of the release host whose path is exactly the
  configured owner and repository, the release download prefix, the tag and the asset: no configured value,
  tag or asset name adds or removes a path segment, and no field of the source is empty, oversized or a
  placeholder.\<close>

theorem asset_url_has_the_configured_segments:
  assumes "from_config config component = Inr source" and "asset_url source tag asset = Inr url"
  shows "split_on CHR ''/'' url =
      [''https:'', [], RELEASE_HOST, us_owner source, us_repo source, ''releases'', ''download'', str_trim tag, str_trim asset] \<and>
    sc_owner config \<noteq> None \<and> sc_repo config \<noteq> None \<and> us_channel source \<in> set source_channels \<and>
    list_all (\<lambda>field. field \<noteq> [] \<and> length field \<le> MAX_FIELD_LEN \<and> CHR ''/'' \<notin> set field)
      [us_owner source, us_repo source, str_trim tag, str_trim asset] \<and>
    \<not> has_placeholder (us_owner source) \<and> \<not> has_placeholder (us_repo source)"
proof -
  obtain owner repo channel where config: "sc_owner config = Some owner" "sc_repo config = Some repo"
    and new: "update_source_new owner repo channel = Inr source"
    using assms(1) by (auto simp: from_config_def split: option.splits)
  note source = update_source_new_ok [OF new]
  note owner = source_name_ok [OF source [THEN conjunct1]] and repo = source_name_ok [OF source [THEN conjunct2, THEN conjunct1]]
  from assms(2) have tag: "url_segment ''tag'' tag = Inr (str_trim tag)" "url_segment ''asset'' asset = Inr (str_trim asset)"
    and url: "url = release_base_url source @ ''/download/'' @ str_trim tag @ ''/'' @ str_trim asset"
    by (auto simp: asset_url_def split: sum.splits dest: url_segment_ok)
  note tag = url_segment_ok [OF tag(1)] url_segment_ok [OF tag(2)]
  have slash: "CHR ''/'' \<notin> set (us_owner source)" "CHR ''/'' \<notin> set (us_repo source)"
    "CHR ''/'' \<notin> set (str_trim tag)" "CHR ''/'' \<notin> set (str_trim asset)"
    using owner repo tag name_char_no_slash segment_char_no_slash by blast+
  have "split_on CHR ''/'' url =
      [''https:'', [], RELEASE_HOST, us_owner source, us_repo source, ''releases'', ''download'', str_trim tag, str_trim asset]"
    by (simp add: url release_base_url_def RELEASE_HOST_def split_on_segment split_on_whole slash)
  moreover have "list_all (\<lambda>field. field \<noteq> [] \<and> length field \<le> MAX_FIELD_LEN \<and> CHR ''/'' \<notin> set field)
      [us_owner source, us_repo source, str_trim tag, str_trim asset]"
    by (simp only: list.pred_inject) (use owner repo tag slash in blast)
  ultimately show ?thesis using config source owner repo by blast
qed

text \<open>A tag of two dots is a segment: a client that normalises the URL leaves the download directory.\<close>

lemma dot_segments_are_accepted:
  "asset_url \<lparr>us_owner = ''o'', us_repo = ''r'', us_channel = ''stable''\<rparr> ''..'' ''..'' =
     Inr ''https://github.com/o/r/releases/download/../..''"
  by code_simp

theorem asset_url_has_the_configured_segments_witness:
  "split_on CHR ''/'' ''https://github.com/orchex006/axiom/releases/download/v1.0.0/axiom.tar'' =
     [''https:'', [], ''github.com'', ''orchex006'', ''axiom'', ''releases'', ''download'', ''v1.0.0'', ''axiom.tar'']"
proof -
  have config: "from_config (source_configured ''orchex006'' ''axiom'' ''stable'') ''axiom'' =
      Inr \<lparr>us_owner = ''orchex006'', us_repo = ''axiom'', us_channel = ''stable''\<rparr>" by code_simp
  have url: "asset_url \<lparr>us_owner = ''orchex006'', us_repo = ''axiom'', us_channel = ''stable''\<rparr> ''v1.0.0'' ''axiom.tar'' =
      Inr ''https://github.com/orchex006/axiom/releases/download/v1.0.0/axiom.tar''" by code_simp
  have trims: "str_trim ''v1.0.0'' = ''v1.0.0''" "str_trim ''axiom.tar'' = ''axiom.tar''" by code_simp+
  from asset_url_has_the_configured_segments [OF config url] show ?thesis
    by (simp only: trims RELEASE_HOST_def update_source.select_convs simp_thms)
qed

end
