(* ===== verification/UpdDrain.thy ===== *)
theory UpdDrain
  imports StrText Errors
begin

text \<open>
  Draining a service before an update, \<^verbatim>\<open>axiom/src/update/drain.rs\<close>.  The service under drain and the
  clock are the record \<open>drain_control\<close> over a host state; reading them may change that state.
\<close>

definition DEFAULT_DRAIN_SECONDS :: u64 where "DEFAULT_DRAIN_SECONDS = 30"
definition MAX_DRAIN_SECONDS :: u64 where "MAX_DRAIN_SECONDS = 300"

datatype drain_phase = PauseNewWork | DrainInFlight | Resume

fun drain_phase_str :: "drain_phase \<Rightarrow> string" where
  "drain_phase_str PauseNewWork = ''pause_new_work''"
| "drain_phase_str DrainInFlight = ''drain_in_flight''"
| "drain_phase_str Resume = ''resume''"

datatype drain_outcome = Drained | TimedOut u64 | ForceKilled

fun drain_outcome_str :: "drain_outcome \<Rightarrow> string" where
  "drain_outcome_str Drained = ''drained''"
| "drain_outcome_str (TimedOut _) = ''timed_out''"
| "drain_outcome_str ForceKilled = ''force_killed''"

definition drain_killed :: "drain_outcome \<Rightarrow> bool" where
  "drain_killed outcome \<longleftrightarrow> outcome = ForceKilled"

record drain_policy =
  dp_max_seconds :: u64
  dp_allow_forced_kill :: bool

definition drain_policy_default :: drain_policy where
  "drain_policy_default = \<lparr>dp_max_seconds = DEFAULT_DRAIN_SECONDS, dp_allow_forced_kill = False\<rparr>"

definition with_forced_kill :: "u64 \<Rightarrow> drain_policy" where
  "with_forced_kill max_seconds = \<lparr>dp_max_seconds = max_seconds, dp_allow_forced_kill = True\<rparr>"

definition drain_refuse :: "string \<Rightarrow> string \<Rightarrow> axiom_error" where
  "drain_refuse rule observed =
     with_detail (with_detail (axiom_error_new ValidationError ''the drain policy refuses this request'')
       ''rule'' rule) ''observed'' observed"

definition drain_policy_validate :: "drain_policy \<Rightarrow> unit result" where
  "drain_policy_validate policy =
     (if dp_max_seconds policy > MAX_DRAIN_SECONDS then
        Inl (drain_refuse ''invalid_drain_seconds''
          (''max_seconds='' @ show_nat (dp_max_seconds policy) @ '';limit='' @ show_nat MAX_DRAIN_SECONDS))
      else Inr ())"

record 's drain_control =
  dc_pause_new_work :: "string \<Rightarrow> 's \<Rightarrow> unit result \<times> 's"
  dc_in_flight :: "string \<Rightarrow> 's \<Rightarrow> u64 \<times> 's"
  dc_resume :: "string \<Rightarrow> 's \<Rightarrow> unit result \<times> 's"
  dc_force_kill :: "string \<Rightarrow> 's \<Rightarrow> unit result \<times> 's"
  dc_now_epoch :: "'s \<Rightarrow> u64"

record drain_report =
  dr_service :: string
  dr_outcome :: drain_outcome
  dr_waited_seconds :: u64
  dr_polls :: u64
  dr_phases :: "drain_phase list"
  dr_new_work_paused :: bool
  dr_forced_kill :: bool

definition require_service_name :: "string \<Rightarrow> unit result" where
  "require_service_name service =
     (if str_trim service = [] then Inl (drain_refuse ''invalid_service'' ''service=<blank>'') else Inr ())"

text \<open>The polling loop; a loop that would not end has the value \<open>None\<close>.\<close>

partial_function (option) drain_loop ::
  "'s drain_control \<Rightarrow> string \<Rightarrow> u64 \<Rightarrow> u64 \<Rightarrow> u64 \<Rightarrow> u64 \<Rightarrow> 's \<Rightarrow> (drain_outcome \<times> u64 \<times> u64 \<times> 's) option" where
  "drain_loop control service max_seconds started waited polls s =
     (case dc_in_flight control service s of
        (remaining, s) \<Rightarrow>
          if remaining = 0 then Some (Drained, waited, polls, s)
          else if dc_now_epoch control s - started \<ge> max_seconds \<or> polls + 1 > max_seconds
          then Some (TimedOut remaining, dc_now_epoch control s - started, polls + 1, s)
          else drain_loop control service max_seconds started (dc_now_epoch control s - started) (polls + 1) s)"

definition drain ::
  "'s drain_control \<Rightarrow> string \<Rightarrow> drain_policy \<Rightarrow> 's \<Rightarrow> (drain_report result \<times> 's) option" where
  "drain control service policy s =
     (case drain_policy_validate policy of
        Inl e \<Rightarrow> Some (Inl e, s)
      | Inr _ \<Rightarrow>
          (case require_service_name service of
             Inl e \<Rightarrow> Some (Inl e, s)
           | Inr _ \<Rightarrow>
               (let started = dc_now_epoch control s
                in case dc_pause_new_work control service s of
                     (Inl e, s) \<Rightarrow> Some (Inl e, s)
                   | (Inr _, s) \<Rightarrow>
                       (case drain_loop control service (dp_max_seconds policy) started 0 0 s of
                          None \<Rightarrow> None
                        | Some (outcome, waited, polls, s) \<Rightarrow>
                            let report = \<lparr>dr_service = service, dr_outcome = outcome, dr_waited_seconds = waited,
                                  dr_polls = polls, dr_phases = [PauseNewWork, DrainInFlight],
                                  dr_new_work_paused = (outcome \<noteq> Drained), dr_forced_kill = False\<rparr>
                            in if outcome = Drained then
                                 (case dc_resume control service s of
                                    (Inl e, s) \<Rightarrow> Some (Inl e, s)
                                  | (Inr _, s) \<Rightarrow>
                                      Some (Inr (report\<lparr>dr_phases := dr_phases report @ [Resume]\<rparr>), s))
                               else Some (Inr report, s)))))"

definition force_kill :: "'s drain_control \<Rightarrow> string \<Rightarrow> drain_policy \<Rightarrow> 's \<Rightarrow> drain_report result \<times> 's" where
  "force_kill control service policy s =
     (case drain_policy_validate policy of
        Inl e \<Rightarrow> (Inl e, s)
      | Inr _ \<Rightarrow>
          (case require_service_name service of
             Inl e \<Rightarrow> (Inl e, s)
           | Inr _ \<Rightarrow>
               if \<not> dp_allow_forced_kill policy then
                 (Inl (drain_refuse ''forced_kill_refused'' (''service='' @ service @ '';allow_forced_kill=false'')), s)
               else
                 (case dc_force_kill control service s of
                    (Inl e, s) \<Rightarrow> (Inl e, s)
                  | (Inr _, s) \<Rightarrow>
                      (Inr \<lparr>dr_service = service, dr_outcome = ForceKilled, dr_waited_seconds = 0, dr_polls = 0,
                         dr_phases = [PauseNewWork, DrainInFlight], dr_new_work_paused = True, dr_forced_kill = True\<rparr>, s))))"

section \<open>The wait ends\<close>

text \<open>The first \<open>n\<close> answers of the service about its work in flight, and the host after them.\<close>

fun drain_asks :: "'s drain_control \<Rightarrow> string \<Rightarrow> nat \<Rightarrow> 's \<Rightarrow> u64 list \<times> 's" where
  "drain_asks control service 0 s = ([], s)"
| "drain_asks control service (Suc n) s =
     (case dc_in_flight control service s of
        (answer, s) \<Rightarrow> (case drain_asks control service n s of (answers, s) \<Rightarrow> (answer # answers, s)))"

text \<open>What a wait did: it asked until the first answer of no work, or it gave up on busy answers.\<close>

fun wait_result :: "'s drain_control \<Rightarrow> string \<Rightarrow> drain_outcome \<Rightarrow> nat \<Rightarrow> 's \<Rightarrow> 's \<Rightarrow> bool" where
  "wait_result control service Drained polls s s' \<longleftrightarrow>
     (\<exists>busy. drain_asks control service (Suc polls) s = (busy @ [0], s') \<and> list_all (\<lambda>n. 0 < n) busy \<and> length busy = polls)"
| "wait_result control service (TimedOut remaining) polls s s' \<longleftrightarrow>
     (\<exists>busy. drain_asks control service polls s = (busy, s') \<and> list_all (\<lambda>n. 0 < n) busy \<and> busy \<noteq> [] \<and>
        last busy = remaining)"
| "wait_result control service ForceKilled polls s s' \<longleftrightarrow> False"

text \<open>The questions asked: the last one, answered with no work, is not counted as a poll.\<close>

fun asks_of :: "drain_outcome \<Rightarrow> nat \<Rightarrow> nat" where
  "asks_of Drained polls = Suc polls"
| "asks_of _ polls = polls"

lemma wait_result_Suc:
  assumes "dc_in_flight control service s = (answer, s1)" and "0 < answer"
    and "wait_result control service outcome polls s1 s'"
  shows "wait_result control service outcome (Suc polls) s s'"
proof (cases outcome)
  case Drained
  with assms(3) obtain busy where "drain_asks control service (Suc polls) s1 = (busy @ [0], s')"
    "list_all (\<lambda>n. 0 < n) busy" "length busy = polls" by auto
  with assms(1,2) Drained show ?thesis by (auto intro!: exI [of _ "answer # busy"])
next
  case (TimedOut remaining)
  with assms show ?thesis by auto
qed (use assms in simp)

lemma drain_loop_ends:
  assumes "polls \<le> max_seconds"
  shows "\<exists>outcome waited more s'.
     drain_loop control service max_seconds started waited0 polls s = Some (outcome, waited, polls + more, s') \<and>
     asks_of outcome (polls + more) \<le> max_seconds + 1 \<and> wait_result control service outcome more s s'"
  using assms
proof (induction "max_seconds - polls" arbitrary: waited0 polls s rule: less_induct)
  case less
  obtain remaining s1 where poll: "dc_in_flight control service s = (remaining, s1)" by fastforce
  consider "remaining = 0"
    | "remaining > 0" "dc_now_epoch control s1 - started \<ge> max_seconds \<or> polls + 1 > max_seconds"
    | "remaining > 0" "dc_now_epoch control s1 - started < max_seconds" "polls + 1 \<le> max_seconds" by linarith
  then show ?case
  proof cases
    case 1
    then have "drain_loop control service max_seconds started waited0 polls s = Some (Drained, waited0, polls + 0, s1)"
      by (subst drain_loop.simps) (simp add: poll)
    moreover have "wait_result control service Drained 0 s s1" using 1 poll by simp
    ultimately show ?thesis using less.prems by fastforce
  next
    case 2
    then have "drain_loop control service max_seconds started waited0 polls s =
        Some (TimedOut remaining, dc_now_epoch control s1 - started, polls + 1, s1)"
      by (subst drain_loop.simps) (auto simp: poll)
    moreover have "wait_result control service (TimedOut remaining) 1 s s1" using 2 poll by simp
    ultimately show ?thesis using less.prems by fastforce
  next
    case 3
    then have "max_seconds - (polls + 1) < max_seconds - polls" by arith
    from less.hyps [OF this 3(3), of "dc_now_epoch control s1 - started" s1] obtain outcome waited more s' where
      rest: "drain_loop control service max_seconds started (dc_now_epoch control s1 - started) (polls + 1) s1 =
        Some (outcome, waited, polls + 1 + more, s')" "asks_of outcome (polls + 1 + more) \<le> max_seconds + 1"
        "wait_result control service outcome more s1 s'" by blast
    have "drain_loop control service max_seconds started waited0 polls s = Some (outcome, waited, polls + Suc more, s')"
      using 3 rest(1) by (subst drain_loop.simps) (simp add: poll)
    moreover have "wait_result control service outcome (Suc more) s s'"
      by (rule wait_result_Suc [OF poll 3(1) rest(3)])
    moreover have "asks_of outcome (polls + Suc more) \<le> max_seconds + 1" using rest(2) by simp
    ultimately show ?thesis by blast
  qed
qed

text \<open>C36: A drain always ends and does no more than it may.  Whatever the service answers and however its clock
  moves, also when it stands still, a drain pauses new work and then asks for the work in flight until it is
  told that there is none, at most one time more than the bound in seconds.  After that answer, and only then, it resumes the
  service; when it gives up, on a last busy answer, the host stays as the last question left it, with new work
  paused.  As the host after a drain is the result of these calls alone, nothing is killed.\<close>

theorem drain_terminates:
  "\<exists>r s'. drain control service policy s = Some (r, s') \<and>
     (case r of
        Inl e \<Rightarrow>
          s' = s \<and> (drain_policy_validate policy = Inl e \<or> require_service_name service = Inl e) \<or>
          dc_pause_new_work control service s = (Inl e, s') \<or>
          (\<exists>s1 s2 polls. dc_pause_new_work control service s = (Inr (), s1) \<and> polls \<le> dp_max_seconds policy \<and>
             wait_result control service Drained polls s1 s2 \<and>
             dc_resume control service s2 = (Inl e, s'))
      | Inr report \<Rightarrow>
          dp_max_seconds policy \<le> MAX_DRAIN_SECONDS \<and>
          asks_of (dr_outcome report) (dr_polls report) \<le> dp_max_seconds policy + 1 \<and>
          \<not> dr_forced_kill report \<and> (dr_new_work_paused report \<longleftrightarrow> dr_outcome report \<noteq> Drained) \<and>
          (Resume \<in> set (dr_phases report) \<longleftrightarrow> dr_outcome report = Drained) \<and>
          (\<exists>s1 s2. dc_pause_new_work control service s = (Inr (), s1) \<and>
             wait_result control service (dr_outcome report) (dr_polls report) s1 s2 \<and>
             (if dr_outcome report = Drained then dc_resume control service s2 = (Inr (), s') else s' = s2)))"
proof -
  consider e where "drain_policy_validate policy = Inl e"
    | e where "drain_policy_validate policy = Inr ()" "require_service_name service = Inl e"
    | e s1 where "drain_policy_validate policy = Inr ()" "require_service_name service = Inr ()"
        "dc_pause_new_work control service s = (Inl e, s1)"
    | (waits) s1 where "drain_policy_validate policy = Inr ()" "require_service_name service = Inr ()"
        "dc_pause_new_work control service s = (Inr (), s1)"
    by (cases "drain_policy_validate policy"; cases "require_service_name service";
        cases "dc_pause_new_work control service s"; cases "fst (dc_pause_new_work control service s)") auto
  then show ?thesis
  proof cases
    case waits
    have bound: "dp_max_seconds policy \<le> MAX_DRAIN_SECONDS"
      using waits(1) by (auto simp: drain_policy_validate_def split: if_splits)
    obtain outcome waited polls s2 where loop:
      "drain_loop control service (dp_max_seconds policy) (dc_now_epoch control s) 0 0 s1 = Some (outcome, waited, polls, s2)"
      and polls: "asks_of outcome polls \<le> dp_max_seconds policy + 1"
      and wait: "wait_result control service outcome polls s1 s2"
      using drain_loop_ends [where polls = 0 and max_seconds = "dp_max_seconds policy" and control = control and
        service = service and started = "dc_now_epoch control s" and ?waited0.0 = 0 and s = s1] by auto
    show ?thesis
    proof (cases "outcome = Drained")
      case True
      obtain w s3 where resumed: "dc_resume control service s2 = (w, s3)" by fastforce
      show ?thesis
      proof (cases w)
        case (Inl e)
        have "drain control service policy s = Some (Inl e, s3)"
          by (simp add: drain_def waits loop True resumed Inl Let_def)
        moreover have "\<exists>s1 s2 polls. dc_pause_new_work control service s = (Inr (), s1) \<and> polls \<le> dp_max_seconds policy \<and>
             wait_result control service Drained polls s1 s2 \<and>
             dc_resume control service s2 = (Inl e, s3)"
          using waits(3) polls wait True resumed Inl by auto
        ultimately show ?thesis by auto
      next
        case (Inr u)
        have "drain control service policy s =
            Some (Inr \<lparr>dr_service = service, dr_outcome = Drained, dr_waited_seconds = waited, dr_polls = polls,
              dr_phases = [PauseNewWork, DrainInFlight, Resume], dr_new_work_paused = False, dr_forced_kill = False\<rparr>, s3)"
          by (simp add: drain_def waits loop True resumed Inr Let_def)
        moreover have "dc_resume control service s2 = (Inr (), s3)" using resumed Inr by simp
        ultimately show ?thesis using True wait polls bound waits(3) by (simp del: wait_result.simps) blast
      qed
    next
      case False
      with wait polls bound waits(3) show ?thesis
        by (simp add: drain_def waits loop Let_def del: wait_result.simps)
    qed
  qed (auto simp: drain_def Let_def)
qed

text \<open>No time passes between two polls: with a clock that stands still the bound in seconds is a bound on
  the polls, and the wait gives up after no time at all.\<close>

definition busy_service :: "unit drain_control" where
  "busy_service = \<lparr>dc_pause_new_work = (\<lambda>_ s. (Inr (), s)), dc_in_flight = (\<lambda>_ s. (1, s)), dc_resume = (\<lambda>_ s. (Inr (), s)),
     dc_force_kill = (\<lambda>_ s. (Inr (), s)), dc_now_epoch = (\<lambda>_. 7)\<rparr>"

lemma drain_gives_up_without_waiting:
  "\<exists>report. drain busy_service ''axiom'' \<lparr>dp_max_seconds = 2, dp_allow_forced_kill = False\<rparr> () = Some (Inr report, ()) \<and>
     dr_outcome report = TimedOut 1 \<and> dr_waited_seconds report = 0 \<and> dr_polls report = 3"
proof -
  have loop: "drain_loop busy_service ''axiom'' 2 7 w p () =
      (if p + 1 > 2 then Some (TimedOut 1, 0, p + 1, ()) else drain_loop busy_service ''axiom'' 2 7 0 (p + 1) ())" for w p
    by (subst drain_loop.simps) (simp add: busy_service_def)
  have "drain_loop busy_service ''axiom'' 2 7 0 0 () = Some (TimedOut 1, 0, 3, ())"
    by (subst loop, simp, subst loop, simp, subst loop, simp)
  moreover have "require_service_name ''axiom'' = Inr ()" by code_simp
  ultimately show ?thesis
    by (simp add: drain_def drain_policy_validate_def MAX_DRAIN_SECONDS_def) (simp add: busy_service_def)
qed

text \<open>A forced kill reports phases it never entered.\<close>

lemma forced_kill_reports_phases:
  "force_kill control service policy s = (Inr report, s') \<Longrightarrow> dr_phases report = [PauseNewWork, DrainInFlight]"
  by (auto simp: force_kill_def split: sum.splits if_splits prod.splits)

end
