(* ===== verification/UpdTrust.thy ===== *)
theory UpdTrust
  imports UpdResolve StrUtf8
begin

text \<open>
  The trust gate of update metadata, \<^verbatim>\<open>axiom/src/update/trust.rs\<close>, with the timestamp form and the key
  records it takes from \<^verbatim>\<open>install/verify.rs\<close>.  The signature check is the argument \<open>verify\<close>, the
  digest the argument \<open>sha256\<close>.
\<close>

section \<open>From the install verifier\<close>

definition SIGNATURE_ALGORITHMS :: "string list" where "SIGNATURE_ALGORITHMS = [''ed25519'']"

record trusted_root =
  tr_key_id :: string
  tr_algorithm :: string
  tr_public_key :: string

record artifact_signature =
  as_algorithm :: string
  as_key_id :: string
  as_value :: string

definition byte_at :: "string \<Rightarrow> nat \<Rightarrow> char option" where
  "byte_at s i = (if i < length s then Some (s ! i) else None)"

definition is_rfc3339_utc :: "string \<Rightarrow> bool" where
  "is_rfc3339_utc s \<longleftrightarrow>
     length s \<ge> 20 \<and> ends_with s ''Z'' \<and> byte_at s 4 = Some CHR ''-'' \<and> byte_at s 10 = Some CHR ''T'' \<and>
     byte_at s 13 = Some CHR '':'' \<and>
     list_all (\<lambda>c. is_ascii_digit c \<or> c \<in> {CHR ''-'', CHR '':'', CHR ''T'', CHR ''.'', CHR ''Z''}) s"

section \<open>Signed metadata\<close>

definition UPDATE_METADATA_SCHEMA_VERSION :: u64 where "UPDATE_METADATA_SCHEMA_VERSION = 1"
definition SIGNING_MESSAGE_PREFIX :: string where "SIGNING_MESSAGE_PREFIX = ''axiom-update-metadata-v1''"
definition trust_channels :: "string list" where "trust_channels = [''stable'', ''prerelease'']"

datatype transport = Https | PlainHttp

record update_metadata =
  um_schema_version :: u64
  um_metadata_version :: u64
  um_generated_at :: string
  um_expires_at :: string
  um_channel :: string
  um_root :: trusted_root
  um_signature :: artifact_signature

record verified_metadata =
  vm_metadata_version :: u64
  vm_channel :: string
  vm_generated_at :: string
  vm_expires_at :: string
  vm_key_id :: string
  vm_trust_root :: string

definition signing_message :: "update_metadata \<Rightarrow> string" where
  "signing_message metadata =
     (let nl = CHR 0x0A
      in SIGNING_MESSAGE_PREFIX @ nl #
         ''schema_version='' @ show_nat (um_schema_version metadata) @ nl #
         ''metadata_version='' @ show_nat (um_metadata_version metadata) @ nl #
         ''channel='' @ um_channel metadata @ nl #
         ''generated_at='' @ um_generated_at metadata @ nl #
         ''expires_at='' @ um_expires_at metadata @ nl #
         ''root_key_id='' @ tr_key_id (um_root metadata) @ nl #
         ''root_algorithm='' @ tr_algorithm (um_root metadata) @ nl #
         ''root_public_key='' @ tr_public_key (um_root metadata) @ [nl])"

definition root_fingerprint :: "(string \<Rightarrow> string) \<Rightarrow> trusted_root \<Rightarrow> string" where
  "root_fingerprint sha256_hex root =
     (let nl = CHR 0x0A
      in sha256_hex (''axiom-update-root-v1'' @ nl # ''key_id='' @ tr_key_id root @ nl # ''algorithm='' @
           tr_algorithm root @ nl # ''public_key='' @ tr_public_key root @ [nl]))"

definition trust_refuse :: "string \<Rightarrow> string \<Rightarrow> axiom_error" where
  "trust_refuse rule observed =
     with_detail (with_detail (axiom_error_new ValidationError
       ''the update metadata violates the freshness contract'') ''rule'' rule) ''observed'' observed"

definition trust_forbid :: "string \<Rightarrow> string \<Rightarrow> string \<Rightarrow> axiom_error" where
  "trust_forbid rule observed message =
     with_detail (with_detail (axiom_error_new Forbidden message) ''rule'' rule) ''observed'' observed"

text \<open>The form of the document: baseline, timestamps, expiry, channel, version.\<close>

definition metadata_form :: "update_metadata \<Rightarrow> string \<Rightarrow> unit result" where
  "metadata_form metadata now =
     (if um_schema_version metadata \<noteq> UPDATE_METADATA_SCHEMA_VERSION then
        Inl (trust_refuse ''unsupported_metadata_schema'' (''schema_version='' @ show_nat (um_schema_version metadata)))
      else if \<not> is_rfc3339_utc now then Inl (trust_refuse ''invalid_now'' (''now='' @ now))
      else if \<not> is_rfc3339_utc (um_generated_at metadata) then
        Inl (trust_refuse ''invalid_timestamp'' (''generated_at='' @ um_generated_at metadata))
      else if \<not> is_rfc3339_utc (um_expires_at metadata) then
        Inl (trust_refuse ''invalid_timestamp'' (''expires_at='' @ um_expires_at metadata))
      else if um_expires_at metadata \<le> um_generated_at metadata then
        Inl (trust_refuse ''expiry_not_after_creation''
          (''generated_at='' @ um_generated_at metadata @ '';expires_at='' @ um_expires_at metadata))
      else if um_expires_at metadata \<le> now then
        Inl (trust_refuse ''metadata_expired'' (''now='' @ now @ '';expires_at='' @ um_expires_at metadata))
      else if um_channel metadata \<notin> set trust_channels then
        Inl (trust_refuse ''unsupported_channel'' (''channel='' @ um_channel metadata))
      else if um_metadata_version metadata = 0 then Inl (trust_refuse ''invalid_metadata_version'' ''metadata_version=0'')
      else Inr ())"

text \<open>The configured root the metadata names, once the signature is confirmed.\<close>

definition confirmed_root ::
  "update_metadata \<Rightarrow> trusted_root list \<Rightarrow> (string \<Rightarrow> string \<Rightarrow> string \<Rightarrow> string \<Rightarrow> bool) \<Rightarrow> trusted_root result" where
  "confirmed_root metadata roots verify =
     (let root = um_root metadata
      in if roots = [] then
           Inl (trust_forbid ''unconfigured_trust_root'' ''roots=0''
             ''no trust root is configured, so no update metadata can be verified'')
         else
           (case find (\<lambda>r. tr_key_id r = tr_key_id root) roots of
              None \<Rightarrow> Inl (trust_forbid ''untrusted_root'' (''key_id='' @ tr_key_id root)
                ''the metadata signing key is not a configured trust root'')
            | Some configured \<Rightarrow>
                if tr_algorithm configured \<noteq> tr_algorithm root \<or> tr_public_key configured \<noteq> tr_public_key root then
                  Inl (trust_forbid ''root_mismatch'' (''key_id='' @ tr_key_id root)
                    ''the metadata key does not match the configured trust root'')
                else if as_algorithm (um_signature metadata) \<notin> set SIGNATURE_ALGORITHMS then
                  Inl (trust_refuse ''unsupported_signature_algorithm'' (''algorithm='' @ as_algorithm (um_signature metadata)))
                else if as_value (um_signature metadata) = [] then
                  Inl (trust_forbid ''unsigned_metadata'' ''signature=<empty>''
                    ''update metadata carries no signature; absence is never implicit trust'')
                else if \<not> verify (as_algorithm (um_signature metadata)) (tr_public_key root) (signing_message metadata)
                    (as_value (um_signature metadata)) then
                  Inl (trust_forbid ''signature_invalid'' (''key_id='' @ tr_key_id root)
                    ''the update-metadata signature was not confirmed by the trust root'')
                else Inr configured))"

definition verify_metadata ::
  "(string \<Rightarrow> string) \<Rightarrow> update_metadata \<Rightarrow> trusted_root list \<Rightarrow> u64 \<Rightarrow> string \<Rightarrow> transport \<Rightarrow>
    (string \<Rightarrow> string \<Rightarrow> string \<Rightarrow> string \<Rightarrow> bool) \<Rightarrow> verified_metadata result" where
  "verify_metadata sha256_hex metadata roots highest now transport verify =
     (if transport \<noteq> Https then
        Inl (trust_forbid ''insecure_transport'' ''transport=plain-http'' ''update metadata was not fetched over TLS'')
      else
        (case metadata_form metadata now of
           Inl e \<Rightarrow> Inl e
         | Inr _ \<Rightarrow>
             (case confirmed_root metadata roots verify of
                Inl e \<Rightarrow> Inl e
              | Inr configured \<Rightarrow>
                  let observed = ''metadata_version='' @ show_nat (um_metadata_version metadata) @ '';highest='' @ show_nat highest
                  in if um_metadata_version metadata < highest then Inl (trust_refuse ''rollback_refused'' observed)
                     else if um_metadata_version metadata = highest then Inl (trust_refuse ''freeze_refused'' observed)
                     else Inr \<lparr>vm_metadata_version = um_metadata_version metadata, vm_channel = um_channel metadata,
                       vm_generated_at = um_generated_at metadata, vm_expires_at = um_expires_at metadata,
                       vm_key_id = tr_key_id (um_root metadata), vm_trust_root = root_fingerprint sha256_hex configured\<rparr>)))"

section \<open>What a verified document proves\<close>

lemma metadata_form_ok:
  "metadata_form metadata now = Inr u \<longleftrightarrow>
     um_schema_version metadata = UPDATE_METADATA_SCHEMA_VERSION \<and> is_rfc3339_utc now \<and>
     is_rfc3339_utc (um_generated_at metadata) \<and> is_rfc3339_utc (um_expires_at metadata) \<and>
     um_generated_at metadata < um_expires_at metadata \<and> now < um_expires_at metadata \<and>
     um_channel metadata \<in> set trust_channels \<and> um_metadata_version metadata \<noteq> 0"
  by (auto simp: metadata_form_def not_le)

lemma confirmed_root_ok:
  assumes "confirmed_root metadata roots verify = Inr root"
  shows "root = um_root metadata \<and> um_root metadata \<in> set roots \<and>
     as_algorithm (um_signature metadata) \<in> set SIGNATURE_ALGORITHMS \<and> as_value (um_signature metadata) \<noteq> [] \<and>
     verify (as_algorithm (um_signature metadata)) (tr_public_key root) (signing_message metadata)
       (as_value (um_signature metadata))"
proof -
  have found: "find (\<lambda>r. tr_key_id r = tr_key_id (um_root metadata)) roots = Some root"
    "tr_algorithm root = tr_algorithm (um_root metadata)" "tr_public_key root = tr_public_key (um_root metadata)"
    using assms by (auto simp: confirmed_root_def Let_def split: if_splits option.splits)
  then have "root \<in> set roots" "tr_key_id root = tr_key_id (um_root metadata)"
    by (auto simp: find_Some_iff)
  with found have "root = um_root metadata" by (intro trusted_root.equality) simp_all
  with assms \<open>root \<in> set roots\<close> show ?thesis
    by (auto simp: confirmed_root_def Let_def split: if_splits option.splits)
qed

lemma rfc3339_one_line: "is_rfc3339_utc s \<Longrightarrow> CHR 0x0A \<notin> set s"
  by (auto simp: is_rfc3339_utc_def list_all_iff is_ascii_digit_def)

definition one_line_root :: "trusted_root \<Rightarrow> bool" where
  "one_line_root root \<longleftrightarrow> CHR 0x0A \<notin> set (tr_key_id root) \<union> set (tr_algorithm root) \<union> set (tr_public_key root)"

lemma verify_metadata_ok:
  assumes "verify_metadata sha256_hex metadata roots highest now transport verify = Inr verified"
  shows "transport = Https \<and> metadata_form metadata now = Inr () \<and>
    confirmed_root metadata roots verify = Inr (um_root metadata) \<and> highest < um_metadata_version metadata \<and>
    vm_metadata_version verified = um_metadata_version metadata \<and>
    vm_trust_root verified = root_fingerprint sha256_hex (um_root metadata)"
proof -
  obtain root where root: "confirmed_root metadata roots verify = Inr root"
    using assms by (auto simp: verify_metadata_def split: if_splits sum.splits)
  then have "root = um_root metadata" using confirmed_root_ok by blast
  with assms root show ?thesis
    by (auto simp: verify_metadata_def Let_def split: if_splits sum.splits)
qed

section \<open>Whole seconds in text\<close>

text \<open>The digits of a field, and a timestamp of whole seconds: year, month, day, hour, minute, second.\<close>

fun utc_digits :: "nat \<Rightarrow> nat \<Rightarrow> string" where
  "utc_digits 0 n = []"
| "utc_digits (Suc w) n = char_of (48 + n div 10 ^ w) # utc_digits w (n mod 10 ^ w)"

definition UTC_FIELDS :: "(nat \<times> char) list" where
  "UTC_FIELDS = [(4, CHR ''-''), (2, CHR ''-''), (2, CHR ''T''), (2, CHR '':''), (2, CHR '':''), (2, CHR ''Z'')]"

fun utc_render :: "(nat \<times> char) list \<Rightarrow> nat list \<Rightarrow> string" where
  "utc_render ((w, sep) # layout) (n # ns) = utc_digits w n @ sep # utc_render layout ns"
| "utc_render _ _ = []"

definition utc_text :: "nat list \<Rightarrow> string" where
  "utc_text instant = utc_render UTC_FIELDS instant"

definition utc_valid :: "nat list \<Rightarrow> bool" where
  "utc_valid instant \<longleftrightarrow> list_all2 (\<lambda>(w, _) n. n < 10 ^ w) UTC_FIELDS instant"

lemma digit_less:
  fixes d e :: nat
  assumes "d < 10" and "e < 10"
  shows "(char_of (48 + d) :: char) < char_of (48 + e) \<longleftrightarrow> d < e" "(char_of (48 + d) :: char) = char_of (48 + e) \<longleftrightarrow> d = e"
proof -
  have code: "(of_char (char_of (48 + n) :: char) :: nat) = 48 + n" if "n < 10" for n :: nat
    using that by simp
  show "(char_of (48 + d) :: char) < char_of (48 + e) \<longleftrightarrow> d < e"
    using assms by (simp add: less_char_def code)
  show "(char_of (48 + d) :: char) = char_of (48 + e) \<longleftrightarrow> d = e"
    using assms code by (metis add_left_cancel)
qed

lemma div_mod_less: "(n :: nat) < m \<longleftrightarrow> n div p < m div p \<or> n div p = m div p \<and> n mod p < m mod p"
proof (cases "n div p" "m div p" rule: linorder_cases)
  case less
  then have "\<not> m \<le> n" using div_le_mono [of m n p] by linarith
  with less show ?thesis by simp
next
  case equal
  then have "n < m \<longleftrightarrow> n mod p < m mod p" by (metis div_mult_mod_eq nat_add_left_cancel_less)
  with equal show ?thesis by simp
next
  case greater
  then have "\<not> n \<le> m" using div_le_mono [of n m p] by linarith
  with greater show ?thesis by simp
qed

lemma utc_digits_less:
  "n < 10 ^ w \<Longrightarrow> m < 10 ^ w \<Longrightarrow> utc_digits w n @ xs < utc_digits w m @ ys \<longleftrightarrow> n < m \<or> n = m \<and> xs < ys"
proof (induction w arbitrary: n m)
  case (Suc w)
  let ?p = "10 ^ w :: nat"
  have small: "n div ?p < 10" "m div ?p < 10"
    using Suc.prems by (simp_all add: less_mult_imp_div_less)
  have "n mod ?p < ?p" "m mod ?p < ?p" by simp_all
  note ih = Suc.IH [OF this]
  note div_mod_less [of n m ?p]
  moreover have "n = m \<longleftrightarrow> n div ?p = m div ?p \<and> n mod ?p = m mod ?p"
    by (metis div_mult_mod_eq)
  ultimately show ?case using ih digit_less [OF small] by auto
qed simp

lemma utc_render_less:
  assumes "list_all2 (\<lambda>(w, _) n. n < 10 ^ w) layout a" and "list_all2 (\<lambda>(w, _) n. n < 10 ^ w) layout b"
  shows "utc_render layout a < utc_render layout b \<longleftrightarrow> a < b"
  using assms
proof (induction layout arbitrary: a b)
  case (Cons field layout)
  obtain w sep where field: "field = (w, sep)" by fastforce
  from Cons.prems field obtain n ns m ms where "a = n # ns" "b = m # ms" "n < 10 ^ w" "m < 10 ^ w"
    "list_all2 (\<lambda>(w, _) n. n < 10 ^ w) layout ns" "list_all2 (\<lambda>(w, _) n. n < 10 ^ w) layout ms"
    by (auto simp: list_all2_Cons1)
  with Cons.IH [of ns ms] show ?case by (auto simp: field utc_digits_less)
qed simp

text \<open>Texts of whole seconds are ordered as the instants they name.\<close>

lemma utc_text_less: "utc_valid a \<Longrightarrow> utc_valid b \<Longrightarrow> utc_text a < utc_text b \<longleftrightarrow> a < b"
  by (simp add: utc_text_def utc_valid_def utc_render_less)

text \<open>C14: Accepted metadata is signed, not expired and newer: a document is accepted only over TLS, with a
  signature that the verifier confirms under a configured key for exactly the bytes that bind the
  document, at a time whose text sorts before that of its expiry, which for timestamps of whole seconds means
  before the second it expires in, and with a version above the highest one the caller has on record.  With fractions
  of a second the order of the texts is not that of the instants, lemma \<open>fraction_sorts_before_the_second\<close>.\<close>

theorem accepted_metadata_is_signed_and_newer:
  assumes "verify_metadata sha256_hex metadata roots highest now transport verify = Inr verified"
  shows "transport = Https \<and> um_root metadata \<in> set roots \<and>
    verify (as_algorithm (um_signature metadata)) (tr_public_key (um_root metadata)) (signing_message metadata)
      (as_value (um_signature metadata)) \<and>
    as_algorithm (um_signature metadata) = ''ed25519'' \<and> now < um_expires_at metadata \<and>
    (\<forall>a b. utc_valid a \<and> utc_valid b \<and> now = utc_text a \<and> um_expires_at metadata = utc_text b \<longrightarrow> a < b) \<and>
    highest < vm_metadata_version verified \<and> vm_metadata_version verified = um_metadata_version metadata"
  using verify_metadata_ok [OF assms] confirmed_root_ok [of metadata roots verify]
  by (auto simp: metadata_form_ok SIGNATURE_ALGORITHMS_def utc_text_less)

definition sample_root :: trusted_root where
  "sample_root = \<lparr>tr_key_id = ''k'', tr_algorithm = ''ed25519'', tr_public_key = ''p''\<rparr>"

definition sample_metadata :: update_metadata where
  "sample_metadata = \<lparr>um_schema_version = 1, um_metadata_version = 2, um_generated_at = ''2026-01-01T00:00:00Z'',
     um_expires_at = ''2026-02-01T00:00:00Z'', um_channel = ''stable'', um_root = sample_root,
     um_signature = \<lparr>as_algorithm = ''ed25519'', as_key_id = ''k'', as_value = ''s''\<rparr>\<rparr>"

lemma sample_metadata_verified:
  "\<exists>verified. verify_metadata id sample_metadata [sample_root] 1 ''2026-01-15T00:00:00Z'' Https (\<lambda>_ _ _ _. True) = Inr verified"
proof -
  have "metadata_form sample_metadata ''2026-01-15T00:00:00Z'' = Inr ()" by code_simp
  moreover have "confirmed_root sample_metadata [sample_root] (\<lambda>_ _ _ _. True) = Inr sample_root" by code_simp
  ultimately show ?thesis by (simp add: verify_metadata_def sample_metadata_def)
qed

theorem accepted_metadata_is_signed_and_newer_witness:
  "\<exists>verified. verify_metadata id sample_metadata [sample_root] 1 (utc_text [2026, 1, 15, 0, 0, 0]) Https (\<lambda>_ _ _ _. True) = Inr verified \<and>
     um_expires_at sample_metadata = utc_text [2026, 2, 1, 0, 0, 0] \<and> 1 < vm_metadata_version verified"
proof -
  have now: "utc_text [2026, 1, 15, 0, 0, 0] = ''2026-01-15T00:00:00Z''" by code_simp
  have "um_expires_at sample_metadata = utc_text [2026, 2, 1, 0, 0, 0]" by code_simp
  with sample_metadata_verified accepted_metadata_is_signed_and_newer show ?thesis unfolding now by blast
qed

text \<open>A signature cannot be replayed: when no configured key has a line break in its layout, two
  accepted documents for which the same bytes are signed agree in everything but the signature.\<close>

theorem signing_message_binds_document:
  assumes "verify_metadata sha256_hex m roots highest now transport verify = Inr v"
    and "verify_metadata sha256_hex m' roots highest' now' transport' verify' = Inr v'"
    and "\<And>root. root \<in> set roots \<Longrightarrow> one_line_root root"
    and "signing_message m = signing_message m'"
  shows "m' = m\<lparr>um_signature := um_signature m'\<rparr>"
proof -
  note ok = verify_metadata_ok [OF assms(1)] and ok' = verify_metadata_ok [OF assms(2)]
  have channel: "CHR 0x0A \<notin> set c" if "c \<in> set trust_channels" for c
    using that by (auto simp: trust_channels_def)
  have digits: "CHR 0x0A \<notin> set (show_nat n)" for n using show_nat_digits [of "CHR 0x0A" n] by auto
  have lines: "CHR 0x0A \<notin> set (um_channel x) \<and> CHR 0x0A \<notin> set (um_generated_at x) \<and> CHR 0x0A \<notin> set (um_expires_at x) \<and>
      one_line_root (um_root x)"
    if "metadata_form x n = Inr ()" "confirmed_root x roots w = Inr (um_root x)" for x n w
    using that confirmed_root_ok [OF that(2)] assms(3) channel
    by (auto simp: metadata_form_ok dest!: rfc3339_one_line)
  have one: "CHR 0x0A \<notin> set (um_channel m) \<and> CHR 0x0A \<notin> set (um_generated_at m) \<and> CHR 0x0A \<notin> set (um_expires_at m) \<and>
      one_line_root (um_root m)" using lines ok by blast
  have two: "CHR 0x0A \<notin> set (um_channel m') \<and> CHR 0x0A \<notin> set (um_generated_at m') \<and> CHR 0x0A \<notin> set (um_expires_at m') \<and>
      one_line_root (um_root m')" using lines ok' by blast
  have texts: "um_channel m = um_channel m' \<and> um_generated_at m = um_generated_at m' \<and> um_expires_at m = um_expires_at m' \<and>
      tr_key_id (um_root m) = tr_key_id (um_root m') \<and> tr_algorithm (um_root m) = tr_algorithm (um_root m') \<and>
      tr_public_key (um_root m) = tr_public_key (um_root m') \<and>
      show_nat (um_schema_version m) = show_nat (um_schema_version m') \<and>
      show_nat (um_metadata_version m) = show_nat (um_metadata_version m')"
    using assms(4) one two digits unfolding signing_message_def Let_def one_line_root_def
    by (simp add: eq_commute) (auto dest!: split_at_first)
  then have "um_root m = um_root m'" by (intro trusted_root.equality) simp_all
  with texts show ?thesis by (intro update_metadata.equality) (auto dest: show_nat_inject)
qed

theorem signing_message_binds_document_witness:
  "\<exists>m' v. verify_metadata id m' [sample_root] 0 ''2026-01-15T00:00:00Z'' Https (\<lambda>_ _ _ _. True) = Inr v \<and>
     um_signature m' \<noteq> um_signature sample_metadata \<and> m' = sample_metadata\<lparr>um_signature := um_signature m'\<rparr>"
proof -
  let ?m = "sample_metadata\<lparr>um_signature := \<lparr>as_algorithm = ''ed25519'', as_key_id = ''k'', as_value = ''t''\<rparr>\<rparr>"
  have "metadata_form ?m ''2026-01-15T00:00:00Z'' = Inr ()" by code_simp
  moreover have "confirmed_root ?m [sample_root] (\<lambda>_ _ _ _. True) = Inr sample_root" by code_simp
  ultimately obtain v where v: "verify_metadata id ?m [sample_root] 0 ''2026-01-15T00:00:00Z'' Https (\<lambda>_ _ _ _. True) = Inr v"
    by (simp add: verify_metadata_def sample_metadata_def)
  obtain w where w: "verify_metadata id sample_metadata [sample_root] 1 ''2026-01-15T00:00:00Z'' Https (\<lambda>_ _ _ _. True) = Inr w"
    using sample_metadata_verified by blast
  have "one_line_root root" if "root \<in> set [sample_root]" for root
    using that by (simp add: one_line_root_def sample_root_def)
  from signing_message_binds_document [OF w v this]
  have "?m = sample_metadata\<lparr>um_signature := um_signature ?m\<rparr>" by (simp add: signing_message_def)
  with v show ?thesis by (intro exI [of _ ?m]) (simp add: sample_metadata_def)
qed

text \<open>Timestamps are compared as text, and a fraction of a second sorts before the whole second.\<close>

lemma fraction_sorts_before_the_second:
  "is_rfc3339_utc ''2026-01-01T00:00:00.5Z'' \<and> is_rfc3339_utc ''2026-01-01T00:00:00Z'' \<and>
   ''2026-01-01T00:00:00.5Z'' < ''2026-01-01T00:00:00Z''"
  by (intro conjI; code_simp)

end
