(* ===== verification/UpdCheck.thy ===== *)
theory UpdCheck
  imports UpdTrust
begin

text \<open>
  The cached version check, \<^verbatim>\<open>axiom/src/update/check.rs\<close>, with the state it reports from
  \<^verbatim>\<open>axiom/src/version.rs\<close>.  The transport is the record \<open>check_transport\<close> over a network state that every
  fetch may change; \<open>run_check\<close> returns the cache and that state beside its report.
\<close>

section \<open>Policy, cache and transport\<close>

definition DEFAULT_TTL_SECONDS :: u64 where "DEFAULT_TTL_SECONDS = 24 * 60 * 60"
definition MIN_TTL_SECONDS :: u64 where "MIN_TTL_SECONDS = 60"
definition MAX_TTL_SECONDS :: u64 where "MAX_TTL_SECONDS = DEFAULT_TTL_SECONDS"
definition DEFAULT_TIMEOUT_SECONDS :: u64 where "DEFAULT_TIMEOUT_SECONDS = 10"
definition MAX_TIMEOUT_SECONDS :: u64 where "MAX_TIMEOUT_SECONDS = DEFAULT_TIMEOUT_SECONDS"
definition MAX_JITTER_SECONDS :: u64 where "MAX_JITTER_SECONDS = 15 * 60"

datatype update_status = NotChecked | Current | Available | Offline | Unconfigured | BlockedCheck

fun update_status_str :: "update_status \<Rightarrow> string" where
  "update_status_str NotChecked = ''not_checked''"
| "update_status_str Current = ''current''"
| "update_status_str Available = ''available''"
| "update_status_str Offline = ''offline''"
| "update_status_str Unconfigured = ''unconfigured''"
| "update_status_str BlockedCheck = ''blocked''"

record check_policy =
  cp_offline :: bool
  cp_auto_check_allowed :: bool
  cp_ttl_seconds :: u64
  cp_timeout_seconds :: u64
  cp_jitter_seconds :: u64

definition check_policy_default :: check_policy where
  "check_policy_default = \<lparr>cp_offline = False, cp_auto_check_allowed = True, cp_ttl_seconds = DEFAULT_TTL_SECONDS,
     cp_timeout_seconds = DEFAULT_TIMEOUT_SECONDS, cp_jitter_seconds = 0\<rparr>"

definition check_policy_offline :: check_policy where
  "check_policy_offline = check_policy_default\<lparr>cp_offline := True\<rparr>"

definition check_refuse :: "string \<Rightarrow> string \<Rightarrow> axiom_error" where
  "check_refuse rule observed =
     with_detail (with_detail (axiom_error_new ValidationError
       ''the check policy violates the version-check contract'') ''rule'' rule) ''observed'' observed"

definition check_forbid :: "string \<Rightarrow> string \<Rightarrow> axiom_error" where
  "check_forbid rule observed =
     with_detail (with_detail (axiom_error_new Forbidden
       ''the version check attempted an operation the policy forbids'') ''rule'' rule) ''observed'' observed"

definition check_policy_validate :: "check_policy \<Rightarrow> unit result" where
  "check_policy_validate policy =
     (if \<not> (MIN_TTL_SECONDS \<le> cp_ttl_seconds policy \<and> cp_ttl_seconds policy \<le> MAX_TTL_SECONDS) then
        Inl (check_refuse ''ttl_out_of_range''
          (''ttl_seconds='' @ show_nat (cp_ttl_seconds policy) @ '';min='' @ show_nat MIN_TTL_SECONDS @ '';max='' @
           show_nat MAX_TTL_SECONDS))
      else if cp_timeout_seconds policy = 0 \<or> cp_timeout_seconds policy > MAX_TIMEOUT_SECONDS then
        Inl (check_refuse ''timeout_out_of_range''
          (''timeout_seconds='' @ show_nat (cp_timeout_seconds policy) @ '';max='' @ show_nat MAX_TIMEOUT_SECONDS))
      else if cp_jitter_seconds policy > MAX_JITTER_SECONDS then
        Inl (check_refuse ''jitter_out_of_range''
          (''jitter_seconds='' @ show_nat (cp_jitter_seconds policy) @ '';max='' @ show_nat MAX_JITTER_SECONDS))
      else Inr ())"

definition effective_ttl_seconds :: "check_policy \<Rightarrow> u64" where
  "effective_ttl_seconds policy = u64_saturating_add (cp_ttl_seconds policy) (cp_jitter_seconds policy)"

record cached_check =
  cc_checked_at :: string
  cc_checked_at_epoch :: u64
  cc_channel :: string
  cc_metadata_version :: u64
  cc_available_version :: "string option"

text \<open>\<open>CheckCache\<close> has the one field \<open>last\<close>.\<close>

type_synonym check_cache = "cached_check option"

datatype check_decision = ServeCached u64 | NetworkDue u64 | OfflineDecision | DisabledDecision

record fetched_metadata =
  fm_metadata :: update_metadata
  fm_available_version :: "string option"

record 's check_transport =
  ct_fetch :: "string \<Rightarrow> 's \<Rightarrow> fetched_metadata result \<times> 's"
  ct_fetches :: "'s \<Rightarrow> u64"
  ct_downloads :: "'s \<Rightarrow> u64"

record check_report =
  cr_status :: update_status
  cr_network_used :: bool
  cr_downloads :: u64
  cr_stale :: bool
  cr_last_successful_check :: "string option"
  cr_metadata_version :: "u64 option"
  cr_available_version :: "string option"
  cr_transport_error :: "string option"

section \<open>The decision and the run\<close>

definition check_decide :: "check_policy \<Rightarrow> check_cache \<Rightarrow> u64 \<Rightarrow> check_decision" where
  "check_decide policy cache now_epoch =
     (if cp_offline policy then OfflineDecision
      else if \<not> cp_auto_check_allowed policy then DisabledDecision
      else
        (let effective = effective_ttl_seconds policy
         in case cache of
              Some entry \<Rightarrow>
                let age = now_epoch - cc_checked_at_epoch entry
                in if age < effective then ServeCached age else NetworkDue effective
            | None \<Rightarrow> NetworkDue effective))"

definition cached_status :: "string option \<Rightarrow> update_status" where
  "cached_status available = (if available \<noteq> None then Available else Current)"

definition policy_channel :: "check_cache \<Rightarrow> string" where
  "policy_channel cache = (case cache of None \<Rightarrow> ''stable'' | Some entry \<Rightarrow> cc_channel entry)"

text \<open>The four reports below share what they repeat of the cache.\<close>

definition report_from_cache ::
  "check_cache \<Rightarrow> update_status \<Rightarrow> bool \<Rightarrow> u64 \<Rightarrow> bool \<Rightarrow> string option \<Rightarrow> check_report" where
  "report_from_cache cache status network_used downloads stale transport_error =
     \<lparr>cr_status = status, cr_network_used = network_used, cr_downloads = downloads, cr_stale = stale,
      cr_last_successful_check = map_option cc_checked_at cache,
      cr_metadata_version = map_option cc_metadata_version cache,
      cr_available_version = Option.bind cache cc_available_version,
      cr_transport_error = transport_error\<rparr>"

definition status_from_cache :: "check_cache \<Rightarrow> update_status" where
  "status_from_cache cache = (case cache of None \<Rightarrow> NotChecked | Some entry \<Rightarrow> cached_status (cc_available_version entry))"

definition run_check ::
  "check_policy \<Rightarrow> check_cache \<Rightarrow> u64 \<Rightarrow> string \<Rightarrow> 's check_transport \<Rightarrow> 's \<Rightarrow>
     check_report result \<times> check_cache \<times> 's" where
  "run_check policy cache now_epoch now transport s =
     (case check_policy_validate policy of
        Inl e \<Rightarrow> (Inl e, cache, s)
      | Inr _ \<Rightarrow>
          (case check_decide policy cache now_epoch of
             DisabledDecision \<Rightarrow>
               (let age_stale = (case cache of None \<Rightarrow> False
                      | Some entry \<Rightarrow> now_epoch - cc_checked_at_epoch entry \<ge> effective_ttl_seconds policy)
                in (Inr (report_from_cache cache (status_from_cache cache) False (ct_downloads transport s) age_stale None),
                    cache, s))
           | OfflineDecision \<Rightarrow>
               (Inr (report_from_cache cache Offline False (ct_downloads transport s) (cache \<noteq> None) None), cache, s)
           | ServeCached _ \<Rightarrow>
               (Inr (report_from_cache cache (status_from_cache cache) False (ct_downloads transport s) False None),
                cache, s)
           | NetworkDue _ \<Rightarrow>
               (case ct_fetch transport (policy_channel cache) s of
                  (fetched, s) \<Rightarrow>
                    let downloads = ct_downloads transport s
                    in if downloads \<noteq> 0 then
                         (Inl (check_forbid ''implicit_download'' (''downloads='' @ show_nat downloads)), cache, s)
                       else
                         (case fetched of
                            Inr f \<Rightarrow>
                              (Inr \<lparr>cr_status = cached_status (fm_available_version f), cr_network_used = True,
                                    cr_downloads = downloads, cr_stale = False, cr_last_successful_check = Some now,
                                    cr_metadata_version = Some (um_metadata_version (fm_metadata f)),
                                    cr_available_version = fm_available_version f, cr_transport_error = None\<rparr>,
                               Some \<lparr>cc_checked_at = now, cc_checked_at_epoch = now_epoch,
                                     cc_channel = um_channel (fm_metadata f),
                                     cc_metadata_version = um_metadata_version (fm_metadata f),
                                     cc_available_version = fm_available_version f\<rparr>, s)
                          | Inl e \<Rightarrow>
                              (Inr (report_from_cache cache Offline True (ct_downloads transport s) (cache \<noteq> None)
                                 (Some (case rule_of e of Some rule \<Rightarrow> rule | None \<Rightarrow> error_code_str (ae_code e)))),
                               cache, s)))))"

text \<open>The counting transport: its state is the fetches and downloads so far, its answer fixed.\<close>

definition counting_transport :: "fetched_metadata result option \<Rightarrow> (u64 \<times> u64) check_transport" where
  "counting_transport answer =
     \<lparr>ct_fetch = (\<lambda>_ (fetches, downloads).
        (case answer of Some r \<Rightarrow> r | None \<Rightarrow> Inl (check_refuse ''no_transport_result'' ''result=<none>''),
         (fetches + 1, downloads))),
      ct_fetches = fst, ct_downloads = snd\<rparr>"

section \<open>When the network is used\<close>

text \<open>A check is due: the policy allows it and no successful check is younger than the effective lifetime.\<close>

definition check_due :: "check_policy \<Rightarrow> check_cache \<Rightarrow> u64 \<Rightarrow> bool" where
  "check_due policy cache now_epoch \<longleftrightarrow>
     check_policy_validate policy = Inr () \<and> \<not> cp_offline policy \<and> cp_auto_check_allowed policy \<and>
     (case cache of None \<Rightarrow> True
      | Some entry \<Rightarrow> effective_ttl_seconds policy \<le> now_epoch - cc_checked_at_epoch entry)"

lemma not_due_no_network:
  assumes "\<not> check_due policy cache now_epoch"
  shows "\<exists>r. run_check policy cache now_epoch now t s = (r, cache, s) \<and>
     (case r of Inl e \<Rightarrow> isl (check_policy_validate policy)
        | Inr report \<Rightarrow> \<not> cr_network_used report \<and>
            (cr_status report = Current \<longleftrightarrow> \<not> cp_offline policy \<and> cr_transport_error report = None \<and>
               cr_last_successful_check report \<noteq> None \<and> cr_available_version report = None))"
proof (cases "check_policy_validate policy")
  case (Inl e)
  then show ?thesis by (simp add: run_check_def)
next
  case (Inr u)
  consider "cp_offline policy" | "\<not> cp_offline policy" "\<not> cp_auto_check_allowed policy"
    | entry where "\<not> cp_offline policy" "cp_auto_check_allowed policy" "cache = Some entry"
        "now_epoch - cc_checked_at_epoch entry < effective_ttl_seconds policy"
    using assms Inr by (cases cache) (auto simp: check_due_def not_le)
  then show ?thesis
  proof cases
    case 1
    with Inr show ?thesis by (simp add: run_check_def check_decide_def report_from_cache_def)
  next
    case 2
    with Inr show ?thesis
      by (cases cache)
        (simp_all add: run_check_def check_decide_def report_from_cache_def status_from_cache_def cached_status_def Let_def)
  next
    case 3
    with Inr show ?thesis
      by (simp add: run_check_def check_decide_def report_from_cache_def status_from_cache_def cached_status_def Let_def)
  qed
qed

lemma due_decides_network:
  "check_due policy cache now_epoch \<Longrightarrow>
   check_policy_validate policy = Inr () \<and> check_decide policy cache now_epoch = NetworkDue (effective_ttl_seconds policy)"
  by (auto simp: check_due_def check_decide_def Let_def split: option.splits)

lemma due_asks_network:
  assumes "check_due policy cache now_epoch" and "ct_fetch t (policy_channel cache) s = (fetched, s')"
  shows "run_check policy cache now_epoch now t s =
    (if ct_downloads t s' \<noteq> 0 then
       (Inl (check_forbid ''implicit_download'' (''downloads='' @ show_nat (ct_downloads t s'))), cache, s')
     else
       (case fetched of
          Inr f \<Rightarrow>
            (Inr \<lparr>cr_status = cached_status (fm_available_version f), cr_network_used = True,
                  cr_downloads = 0, cr_stale = False, cr_last_successful_check = Some now,
                  cr_metadata_version = Some (um_metadata_version (fm_metadata f)),
                  cr_available_version = fm_available_version f, cr_transport_error = None\<rparr>,
             Some \<lparr>cc_checked_at = now, cc_checked_at_epoch = now_epoch, cc_channel = um_channel (fm_metadata f),
                   cc_metadata_version = um_metadata_version (fm_metadata f),
                   cc_available_version = fm_available_version f\<rparr>, s')
        | Inl e \<Rightarrow>
            (Inr (report_from_cache cache Offline True 0 (cache \<noteq> None)
               (Some (case rule_of e of Some rule \<Rightarrow> rule | None \<Rightarrow> error_code_str (ae_code e)))), cache, s')))"
  using due_decides_network [OF assms(1)]
  by (simp add: run_check_def assms(2) Let_def split: sum.split)

text \<open>A version check touches the network exactly when it is due, and then with one fetch of the channel
  last seen; the cache changes only by a successful fetch that downloaded nothing, and becomes that answer.
  Whatever the branch, the report says truthfully whether the network was used, and it says ``current'' only
  for a check that once succeeded and saw no newer version, never offline and never after a failed fetch.\<close>

theorem check_touches_network_only_when_due:
  "case run_check policy cache now_epoch now t s of
     (r, cache', s') \<Rightarrow>
       s' = (if check_due policy cache now_epoch then snd (ct_fetch t (policy_channel cache) s) else s) \<and>
       cache' =
         (if check_due policy cache now_epoch \<and> ct_downloads t s' = 0 then
            (case fst (ct_fetch t (policy_channel cache) s) of
               Inl e \<Rightarrow> cache
             | Inr f \<Rightarrow> Some \<lparr>cc_checked_at = now, cc_checked_at_epoch = now_epoch,
                  cc_channel = um_channel (fm_metadata f), cc_metadata_version = um_metadata_version (fm_metadata f),
                  cc_available_version = fm_available_version f\<rparr>)
          else cache) \<and>
       (case r of
          Inl e \<Rightarrow> isl (check_policy_validate policy) \<or>
            check_due policy cache now_epoch \<and> 0 < ct_downloads t s' \<and> ae_code e = Forbidden
        | Inr report \<Rightarrow>
            cr_network_used report = check_due policy cache now_epoch \<and>
            (cr_status report = Current \<longleftrightarrow>
               \<not> cp_offline policy \<and> cr_transport_error report = None \<and>
               cr_last_successful_check report \<noteq> None \<and> cr_available_version report = None))"
proof (cases "check_due policy cache now_epoch")
  case True
  obtain fetched s' where fetch: "ct_fetch t (policy_channel cache) s = (fetched, s')" by fastforce
  have "\<not> cp_offline policy" using True by (simp add: check_due_def)
  then show ?thesis
    using True
    by (cases fetched)
      (simp_all add: due_asks_network [OF True fetch] fetch check_forbid_def report_from_cache_def cached_status_def)
next
  case False
  from not_due_no_network [OF False, of now t s] obtain r where run: "run_check policy cache now_epoch now t s = (r, cache, s)"
    and r: "case r of Inl e \<Rightarrow> isl (check_policy_validate policy)
        | Inr report \<Rightarrow> \<not> cr_network_used report \<and>
            (cr_status report = Current \<longleftrightarrow> \<not> cp_offline policy \<and> cr_transport_error report = None \<and>
               cr_last_successful_check report \<noteq> None \<and> cr_available_version report = None)" by blast
  show ?thesis using r False by (cases r) (simp_all add: run)
qed

section \<open>A run of checks\<close>








text \<open>A failed fetch is not remembered: the next check, at whatever instant, asks the network again.\<close>

lemma failed_fetch_stays_due:
  assumes "check_due policy None now_epoch" and "fst (ct_fetch t ''stable'' s) = Inl e"
  shows "fst (snd (run_check policy None now_epoch now t s)) = None \<and> check_due policy None later"
proof -
  obtain s' where "ct_fetch t (policy_channel None) s = (Inl e, s')"
    using assms(2) by (cases "ct_fetch t ''stable'' s") (simp add: policy_channel_def)
  from due_asks_network [OF assms(1) this] assms(1) show ?thesis by (simp add: check_due_def)
qed

text \<open>Offline, an answer cached this very second is reported stale.\<close>

lemma offline_cache_is_always_stale:
  "\<exists>report. fst (run_check check_policy_offline (Some entry) (cc_checked_at_epoch entry) now t s) = Inr report \<and> cr_stale report"
proof -
  have "check_policy_validate check_policy_offline = Inr ()"
    by (simp add: check_policy_validate_def check_policy_offline_def check_policy_default_def MIN_TTL_SECONDS_def
      MAX_TTL_SECONDS_def DEFAULT_TTL_SECONDS_def DEFAULT_TIMEOUT_SECONDS_def MAX_TIMEOUT_SECONDS_def)
  moreover have "cp_offline check_policy_offline" by (simp add: check_policy_offline_def)
  ultimately show ?thesis by (simp add: run_check_def check_decide_def report_from_cache_def)
qed

end
