(* ===== verification/UpdDoctor.thy ===== *)
theory UpdDoctor
  imports StrText Errors
begin

text \<open>
  The doctor that probes a build after an update, \<^verbatim>\<open>axiom/src/update/verify.rs\<close>.  JSON values and their
  accessors are a library: the record \<open>json_access\<close>, over a type of values.
\<close>

section \<open>Probes and rollback scopes\<close>

datatype probe_kind = Health | Handshake | Schema | FixtureQuery

fun probe_kind_str :: "probe_kind \<Rightarrow> string" where
  "probe_kind_str Health = ''health''"
| "probe_kind_str Handshake = ''handshake''"
| "probe_kind_str Schema = ''schema''"
| "probe_kind_str FixtureQuery = ''fixture_query''"

definition probe_kind_all :: "probe_kind list" where
  "probe_kind_all = [Health, Handshake, Schema, FixtureQuery]"

datatype rollback_step = StopNewProcess | RepointPrevious | RestoreCompatibleBackup | ClearUnpublishedOutbox

fun rollback_step_str :: "rollback_step \<Rightarrow> string" where
  "rollback_step_str StopNewProcess = ''stop_new_process''"
| "rollback_step_str RepointPrevious = ''repoint_previous''"
| "rollback_step_str RestoreCompatibleBackup = ''restore_compatible_backup''"
| "rollback_step_str ClearUnpublishedOutbox = ''clear_unpublished_outbox''"

definition rollback_step_all :: "rollback_step list" where
  "rollback_step_all = [StopNewProcess, RepointPrevious, RestoreCompatibleBackup, ClearUnpublishedOutbox]"

text \<open>An ordered set of steps; its iteration is the derived order, that of the declaration.\<close>

type_synonym failure_scope = "rollback_step set"

definition scope_for_failure :: "probe_kind \<Rightarrow> failure_scope" where
  "scope_for_failure kind =
     (let steps = {};
          steps = insert StopNewProcess steps;
          steps = insert RepointPrevious steps;
          steps = (if kind = Schema then insert RestoreCompatibleBackup steps else steps);
          steps = (if kind = FixtureQuery then insert ClearUnpublishedOutbox steps else steps)
      in steps)"

definition scope_union :: "failure_scope list \<Rightarrow> failure_scope option" where
  "scope_union scopes =
     (let steps = fold (\<lambda>scope steps. steps \<union> scope) scopes {}
      in if steps = {} then None else Some steps)"

definition scope_steps :: "failure_scope \<Rightarrow> rollback_step list" where
  "scope_steps scope = filter (\<lambda>step. step \<in> scope) rollback_step_all"

definition scope_contains :: "failure_scope \<Rightarrow> rollback_step \<Rightarrow> bool" where
  "scope_contains scope step \<longleftrightarrow> step \<in> scope"

definition scope_is_bounded :: "failure_scope \<Rightarrow> bool" where
  "scope_is_bounded scope \<longleftrightarrow>
     scope \<noteq> {} \<and> list_all (\<lambda>step. step \<in> set rollback_step_all) (scope_steps scope) \<and>
     StopNewProcess \<in> scope \<and> RepointPrevious \<in> scope"

definition MAX_BODY_BYTES :: nat where "MAX_BODY_BYTES = 256 * 1024"
definition PROBE_TIMEOUT_MS :: u64 where "PROBE_TIMEOUT_MS = 10000"
definition MCP_PROTOCOL :: string where "MCP_PROTOCOL = ''mcp''"
definition QUEUE_SCHEMA_VERSION :: u32 where "QUEUE_SCHEMA_VERSION = 1"

record probe_response =
  pr_status_code :: nat
  pr_body :: string
  pr_transport_error :: "string option"

definition probe_response_new :: "nat \<Rightarrow> string \<Rightarrow> probe_response" where
  "probe_response_new status_code body = \<lparr>pr_status_code = status_code, pr_body = body, pr_transport_error = None\<rparr>"

definition transport_failure :: "string \<Rightarrow> probe_response" where
  "transport_failure reason = \<lparr>pr_status_code = 0, pr_body = [], pr_transport_error = Some reason\<rparr>"

definition status_is_success :: "probe_response \<Rightarrow> bool" where
  "status_is_success response \<longleftrightarrow> pr_status_code response \<ge> 200 \<and> pr_status_code response < 300"

record expectations =
  ex_component :: string
  ex_version :: string
  ex_graph_schema :: u32
  ex_control_api :: u32
  ex_protocol_version :: u32
  ex_min_fixture_records :: u64

definition expectations_core :: "string \<Rightarrow> u32 \<Rightarrow> expectations" where
  "expectations_core version protocol_version =
     \<lparr>ex_component = ''axiom-graphd'', ex_version = version, ex_graph_schema = 1, ex_control_api = 1,
      ex_protocol_version = protocol_version, ex_min_fixture_records = 1\<rparr>"

record probe_failure =
  pf_kind :: probe_kind
  pf_rule :: string
  pf_observed :: string

definition failure_to_error :: "probe_failure \<Rightarrow> axiom_error" where
  "failure_to_error failure =
     with_detail (with_detail (with_detail
       (axiom_error_new NotReady ''the post-update doctor refused the new build'')
       ''component'' (probe_kind_str (pf_kind failure)))
       ''rule'' (pf_rule failure))
       ''observed'' (pf_observed failure)"

datatype doctor_verdict = Healthy | Rollback "probe_failure list" failure_scope

record probe_outcome =
  po_kind :: probe_kind
  po_status_code :: nat
  po_passed :: bool

record doctor_report =
  dc_outcomes :: "probe_outcome list"
  dc_verdict :: doctor_verdict

definition is_healthy :: "doctor_report \<Rightarrow> bool" where
  "is_healthy report \<longleftrightarrow> dc_verdict report = Healthy"

fun refusal :: "doctor_report \<Rightarrow> axiom_error result" where
  "refusal report =
     (case dc_verdict report of
        Healthy \<Rightarrow> Inl (axiom_error_new Internal ''a healthy report is not a refusal'')
      | Rollback failures _ \<Rightarrow> Inr (failure_to_error (failures ! 0)))"

section \<open>One probe\<close>

record 'v json_access =
  ja_parse :: "string \<Rightarrow> 'v option"
  ja_object :: "'v \<Rightarrow> (string \<Rightarrow> 'v option) option"
  ja_str :: "'v \<Rightarrow> string option"
  ja_u64 :: "'v \<Rightarrow> u64 option"
  ja_bool :: "'v \<Rightarrow> bool option"
  ja_array :: "'v \<Rightarrow> 'v list option"

definition probe_fail :: "probe_kind \<Rightarrow> string \<Rightarrow> string \<Rightarrow> probe_failure + unit" where
  "probe_fail kind rule observed = Inl \<lparr>pf_kind = kind, pf_rule = rule, pf_observed = scrub observed\<rparr>"

definition or_absent :: "string option \<Rightarrow> string" where
  "or_absent v = (case v of Some s \<Rightarrow> s | None \<Rightarrow> ''absent'')"

definition nat_or_absent :: "u64 option \<Rightarrow> string" where
  "nat_or_absent v = (case v of Some n \<Rightarrow> show_nat n | None \<Rightarrow> ''absent'')"

definition bool_or_absent :: "bool option \<Rightarrow> string" where
  "bool_or_absent v = (case v of Some b \<Rightarrow> (if b then ''true'' else ''false'') | None \<Rightarrow> ''absent'')"

definition check_health :: "'v json_access \<Rightarrow> expectations \<Rightarrow> (string \<Rightarrow> 'v option) \<Rightarrow> probe_failure + unit" where
  "check_health json expected object =
     (let status = Option.bind (object ''status'') (ja_str json);
          component = Option.bind (object ''component'') (ja_str json);
          version = Option.bind (object ''version'') (ja_str json)
      in if status \<noteq> Some ''ok'' then probe_fail Health ''status_field_not_ok'' (''status='' @ or_absent status)
         else if component \<noteq> Some (ex_component expected) then
           probe_fail Health ''component_mismatch''
             (''expected='' @ ex_component expected @ '' actual='' @ or_absent component)
         else if version \<noteq> Some (ex_version expected) then
           probe_fail Health ''version_mismatch'' (''expected='' @ ex_version expected @ '' actual='' @ or_absent version)
         else Inr ())"

definition check_handshake :: "'v json_access \<Rightarrow> expectations \<Rightarrow> (string \<Rightarrow> 'v option) \<Rightarrow> probe_failure + unit" where
  "check_handshake json expected object =
     (let protocol = Option.bind (object ''protocol'') (ja_str json);
          version = Option.bind (object ''protocol_version'') (ja_u64 json);
          capabilities = Option.bind (object ''capabilities'') (ja_array json)
      in if protocol \<noteq> Some MCP_PROTOCOL then
           probe_fail Handshake ''handshake_protocol_mismatch''
             (''expected='' @ MCP_PROTOCOL @ '' actual='' @ or_absent protocol)
         else if version \<noteq> Some (ex_protocol_version expected) then
           probe_fail Handshake ''handshake_version_mismatch''
             (''expected='' @ show_nat (ex_protocol_version expected) @ '' actual='' @ nat_or_absent version)
         else
           (case capabilities of
              Some (_ # _) \<Rightarrow> Inr ()
            | _ \<Rightarrow> probe_fail Handshake ''handshake_capabilities_missing'' ''capabilities=absent-or-empty''))"

definition check_schema :: "'v json_access \<Rightarrow> expectations \<Rightarrow> (string \<Rightarrow> 'v option) \<Rightarrow> probe_failure + unit" where
  "check_schema json expected object =
     (let graph = Option.bind (object ''graph_schema'') (ja_u64 json);
          control = Option.bind (object ''control_api'') (ja_u64 json);
          queue = Option.bind (object ''queue_schema'') (ja_u64 json)
      in if graph \<noteq> Some (ex_graph_schema expected) then
           probe_fail Schema ''graph_schema_mismatch''
             (''expected='' @ show_nat (ex_graph_schema expected) @ '' actual='' @ nat_or_absent graph)
         else if control \<noteq> Some (ex_control_api expected) then
           probe_fail Schema ''control_api_mismatch''
             (''expected='' @ show_nat (ex_control_api expected) @ '' actual='' @ nat_or_absent control)
         else if queue \<noteq> Some QUEUE_SCHEMA_VERSION then
           probe_fail Schema ''queue_schema_mismatch''
             (''expected='' @ show_nat QUEUE_SCHEMA_VERSION @ '' actual='' @ nat_or_absent queue)
         else Inr ())"

definition check_fixture :: "'v json_access \<Rightarrow> expectations \<Rightarrow> (string \<Rightarrow> 'v option) \<Rightarrow> probe_failure + unit" where
  "check_fixture json expected object =
     (let ok = Option.bind (object ''ok'') (ja_bool json);
          records = Option.bind (object ''records'') (ja_u64 json)
      in if ok \<noteq> Some True then probe_fail FixtureQuery ''fixture_query_not_ok'' (''ok='' @ bool_or_absent ok)
         else
           (case records of
              Some n \<Rightarrow>
                if n \<ge> ex_min_fixture_records expected then Inr ()
                else probe_fail FixtureQuery ''fixture_query_returned_too_few_records''
                  (''expected>='' @ show_nat (ex_min_fixture_records expected) @ '' actual='' @ nat_or_absent records)
            | None \<Rightarrow> probe_fail FixtureQuery ''fixture_query_returned_too_few_records''
                  (''expected>='' @ show_nat (ex_min_fixture_records expected) @ '' actual='' @ nat_or_absent records)))"

fun check_document ::
  "'v json_access \<Rightarrow> expectations \<Rightarrow> probe_kind \<Rightarrow> (string \<Rightarrow> 'v option) \<Rightarrow> probe_failure + unit" where
  "check_document json expected Health object = check_health json expected object"
| "check_document json expected Handshake object = check_handshake json expected object"
| "check_document json expected Schema object = check_schema json expected object"
| "check_document json expected FixtureQuery object = check_fixture json expected object"

definition check_probe :: "'v json_access \<Rightarrow> probe_kind \<Rightarrow> probe_response \<Rightarrow> expectations \<Rightarrow> probe_failure + unit" where
  "check_probe json kind response expected =
     (case pr_transport_error response of
        Some reason \<Rightarrow> probe_fail kind ''transport_error'' reason
      | None \<Rightarrow>
          if length (pr_body response) > MAX_BODY_BYTES then
            probe_fail kind ''body_too_large''
              (''bytes='' @ show_nat (length (pr_body response)) @ '' limit='' @ show_nat MAX_BODY_BYTES)
          else if \<not> status_is_success response then
            probe_fail kind ''status_not_success'' (''status='' @ show_nat (pr_status_code response))
          else
            (case ja_parse json (pr_body response) of
               None \<Rightarrow> probe_fail kind ''body_not_the_expected_document''
                 (''bytes='' @ show_nat (length (pr_body response)) @ '' is not a JSON document'')
             | Some document \<Rightarrow>
                 (case ja_object json document of
                    None \<Rightarrow> probe_fail kind ''body_not_the_expected_document'' ''the body is not a JSON object''
                  | Some object \<Rightarrow> check_document json expected kind object)))"

section \<open>The doctor\<close>

definition doctor_refuse :: "string \<Rightarrow> string \<Rightarrow> axiom_error" where
  "doctor_refuse rule observed =
     with_detail (with_detail (axiom_error_new ValidationError
       ''the post-update doctor request is not checkable'') ''rule'' rule) ''observed'' observed"

definition validate_expectations :: "expectations \<Rightarrow> unit result" where
  "validate_expectations expected =
     (if ex_component expected = [] \<or> ex_version expected = [] then
        Inl (doctor_refuse ''expectations_incomplete'' (ex_component expected))
      else if ex_protocol_version expected = 0 then
        Inl (doctor_refuse ''expectations_protocol_version_absent'' ''0'')
      else Inr ())"

fun doctor_loop ::
  "'v json_access \<Rightarrow> expectations \<Rightarrow> (probe_kind \<Rightarrow> probe_response) \<Rightarrow> probe_kind list \<Rightarrow>
     probe_outcome list \<Rightarrow> probe_failure list \<Rightarrow> probe_outcome list \<times> probe_failure list" where
  "doctor_loop json expected run [] outcomes failures = (outcomes, failures)"
| "doctor_loop json expected run (kind # kinds) outcomes failures =
     (let response = run kind
      in case check_probe json kind response expected of
           Inl failure \<Rightarrow> doctor_loop json expected run kinds
             (outcomes @ [\<lparr>po_kind = kind, po_status_code = pr_status_code response, po_passed = False\<rparr>])
             (failures @ [failure])
         | Inr _ \<Rightarrow> doctor_loop json expected run kinds
             (outcomes @ [\<lparr>po_kind = kind, po_status_code = pr_status_code response, po_passed = True\<rparr>])
             failures)"

text \<open>\<open>expect\<close> panics on \<open>None\<close>; the lemma \<open>scope_union_failures\<close> shows it never does, so the panic is
  written \<open>Inl\<close> of the internal error.\<close>

definition doctor ::
  "'v json_access \<Rightarrow> (probe_kind \<Rightarrow> probe_response) \<Rightarrow> expectations \<Rightarrow> doctor_report result" where
  "doctor json run expected =
     (case validate_expectations expected of
        Inl e \<Rightarrow> Inl e
      | Inr _ \<Rightarrow>
          (case doctor_loop json expected run probe_kind_all [] [] of
             (outcomes, failures) \<Rightarrow>
               if failures = [] then Inr \<lparr>dc_outcomes = outcomes, dc_verdict = Healthy\<rparr>
               else
                 (case scope_union (map (\<lambda>failure. scope_for_failure (pf_kind failure)) failures) of
                    None \<Rightarrow> Inl (axiom_error_new Internal ''at least one failure'')
                  | Some scope \<Rightarrow> Inr \<lparr>dc_outcomes = outcomes, dc_verdict = Rollback failures scope\<rparr>)))"

section \<open>What a healthy verdict means\<close>

text \<open>A body serves what is expected of a probe.\<close>

definition str_field :: "'v json_access \<Rightarrow> (string \<Rightarrow> 'v option) \<Rightarrow> string \<Rightarrow> string option" where
  "str_field json object name = Option.bind (object name) (ja_str json)"

definition u64_field :: "'v json_access \<Rightarrow> (string \<Rightarrow> 'v option) \<Rightarrow> string \<Rightarrow> u64 option" where
  "u64_field json object name = Option.bind (object name) (ja_u64 json)"

fun serves :: "'v json_access \<Rightarrow> expectations \<Rightarrow> probe_kind \<Rightarrow> (string \<Rightarrow> 'v option) \<Rightarrow> bool" where
  "serves json expected Health object \<longleftrightarrow>
     str_field json object ''status'' = Some ''ok'' \<and>
     str_field json object ''component'' = Some (ex_component expected) \<and>
     str_field json object ''version'' = Some (ex_version expected)"
| "serves json expected Handshake object \<longleftrightarrow>
     str_field json object ''protocol'' = Some MCP_PROTOCOL \<and>
     u64_field json object ''protocol_version'' = Some (ex_protocol_version expected) \<and>
     (\<exists>v vs. Option.bind (object ''capabilities'') (ja_array json) = Some (v # vs))"
| "serves json expected Schema object \<longleftrightarrow>
     u64_field json object ''graph_schema'' = Some (ex_graph_schema expected) \<and>
     u64_field json object ''control_api'' = Some (ex_control_api expected) \<and>
     u64_field json object ''queue_schema'' = Some QUEUE_SCHEMA_VERSION"
| "serves json expected FixtureQuery object \<longleftrightarrow>
     Option.bind (object ''ok'') (ja_bool json) = Some True \<and>
     (\<exists>n \<ge> ex_min_fixture_records expected. u64_field json object ''records'' = Some n)"

definition probe_ok :: "'v json_access \<Rightarrow> expectations \<Rightarrow> (probe_kind \<Rightarrow> probe_response) \<Rightarrow> probe_kind \<Rightarrow> bool" where
  "probe_ok json expected run kind \<longleftrightarrow>
     pr_transport_error (run kind) = None \<and> length (pr_body (run kind)) \<le> MAX_BODY_BYTES \<and>
     200 \<le> pr_status_code (run kind) \<and> pr_status_code (run kind) < 300 \<and>
     (\<exists>document object. ja_parse json (pr_body (run kind)) = Some document \<and>
        ja_object json document = Some object \<and> serves json expected kind object)"

lemma check_document_serves: "check_document json expected kind object = Inr () \<longleftrightarrow> serves json expected kind object"
  by (cases kind)
    (simp_all add: check_health_def check_handshake_def check_schema_def check_fixture_def probe_fail_def Let_def
      str_field_def u64_field_def split: option.split list.split)

lemma check_probe_ok: "check_probe json kind (run kind) expected = Inr () \<longleftrightarrow> probe_ok json expected run kind"
  by (auto simp: check_probe_def probe_ok_def probe_fail_def status_is_success_def check_document_serves
      split: option.split)

lemma check_document_kind: "check_document json expected kind object = Inl failure \<Longrightarrow> pf_kind failure = kind"
  by (cases kind)
    (auto simp: check_health_def check_handshake_def check_schema_def check_fixture_def probe_fail_def Let_def
      split: option.splits list.splits if_splits)

lemma check_probe_kind: "check_probe json kind response expected = Inl failure \<Longrightarrow> pf_kind failure = kind"
  by (auto simp: check_probe_def probe_fail_def split: option.splits if_splits dest: check_document_kind)

lemma doctor_loop_result:
  "\<exists>more_failures. doctor_loop json expected run kinds outcomes failures =
     (outcomes @ map (\<lambda>kind. \<lparr>po_kind = kind, po_status_code = pr_status_code (run kind),
        po_passed = probe_ok json expected run kind\<rparr>) kinds, failures @ more_failures) \<and>
     map pf_kind more_failures = filter (\<lambda>kind. \<not> probe_ok json expected run kind) kinds"
proof (induction kinds arbitrary: outcomes failures)
  case Nil
  show ?case by simp
next
  case (Cons kind kinds)
  show ?case
  proof (cases "check_probe json kind (run kind) expected")
    case (Inl failure)
    then have "\<not> probe_ok json expected run kind" by (simp flip: check_probe_ok)
    with Cons.IH [of "outcomes @ [\<lparr>po_kind = kind, po_status_code = pr_status_code (run kind), po_passed = False\<rparr>]"
        "failures @ [failure]"] check_probe_kind [OF Inl]
    show ?thesis by (auto simp: Inl)
  next
    case (Inr u)
    then have "probe_ok json expected run kind" by (simp flip: check_probe_ok)
    with Cons.IH [of "outcomes @ [\<lparr>po_kind = kind, po_status_code = pr_status_code (run kind), po_passed = True\<rparr>]" failures]
    show ?thesis by (auto simp: Inr)
  qed
qed

lemma fold_union: "fold (\<lambda>scope steps. steps \<union> scope) scopes s = s \<union> \<Union> (set scopes)"
  by (induction scopes arbitrary: s) auto

lemma in_scope_for_failure:
  "step \<in> scope_for_failure kind \<longleftrightarrow> step = StopNewProcess \<or> step = RepointPrevious \<or>
     step = RestoreCompatibleBackup \<and> kind = Schema \<or> step = ClearUnpublishedOutbox \<and> kind = FixtureQuery"
  by (cases kind) (auto simp: scope_for_failure_def Let_def)

lemma scope_union_failures:
  assumes "failures \<noteq> []"
  shows "scope_union (map (\<lambda>failure. scope_for_failure (pf_kind failure)) failures) =
    Some ({StopNewProcess, RepointPrevious} \<union>
      (if Schema \<in> set (map pf_kind failures) then {RestoreCompatibleBackup} else {}) \<union>
      (if FixtureQuery \<in> set (map pf_kind failures) then {ClearUnpublishedOutbox} else {}))"
proof -
  let ?scopes = "map (\<lambda>failure. scope_for_failure (pf_kind failure)) failures"
  have image_eq: "kind \<in> set (map pf_kind failures) \<longleftrightarrow> (\<exists>x\<in>set failures. pf_kind x = kind)" for kind by auto
  have "step \<in> \<Union> (set ?scopes) \<longleftrightarrow> step \<in> {StopNewProcess, RepointPrevious} \<or>
      step = RestoreCompatibleBackup \<and> Schema \<in> set (map pf_kind failures) \<or>
      step = ClearUnpublishedOutbox \<and> FixtureQuery \<in> set (map pf_kind failures)" for step
    using assms image_eq
    by (cases step) (simp_all add: in_scope_for_failure flip: ex_in_conv set_empty)
  then have "\<Union> (set ?scopes) = {StopNewProcess, RepointPrevious} \<union>
      (if Schema \<in> set (map pf_kind failures) then {RestoreCompatibleBackup} else {}) \<union>
      (if FixtureQuery \<in> set (map pf_kind failures) then {ClearUnpublishedOutbox} else {})"
    by (intro set_eqI) (simp del: set_map)
  then show ?thesis by (simp add: scope_union_def fold_union del: set_map)
qed

text \<open>C20: The doctor refuses expectations without a component, a version or a protocol version.  Otherwise it keeps
  a new build exactly when the runner reports, for each of the four probes, an answer without a transport error, with
  a success status, with a body of at most \<open>MAX_BODY_BYTES\<close> that parses to an object and carries what the upgrade
  promised; a success status alone never is health.  Any other answer rolls back, naming the probes that failed
  in their order, in a bounded scope: the process is always stopped and the old version repointed, and the
  backup is restored and the outbox cleared exactly when the schema or the fixture query diverged.  Time is
  the runner's business: a late answer that it reports nevertheless is judged like any other.\<close>

theorem healthy_iff_every_probe_serves:
  "case doctor json run expected of
     Inl e \<Rightarrow> ae_code e = ValidationError \<and>
       (ex_component expected = [] \<or> ex_version expected = [] \<or> ex_protocol_version expected = 0)
   | Inr report \<Rightarrow>
       ex_component expected \<noteq> [] \<and> ex_version expected \<noteq> [] \<and> ex_protocol_version expected \<noteq> 0 \<and>
       map po_kind (dc_outcomes report) = probe_kind_all \<and>
       map po_passed (dc_outcomes report) = map (probe_ok json expected run) probe_kind_all \<and>
       (case dc_verdict report of
          Healthy \<Rightarrow> list_all (probe_ok json expected run) probe_kind_all
        | Rollback failures scope \<Rightarrow>
            failures \<noteq> [] \<and>
            map pf_kind failures = filter (\<lambda>kind. \<not> probe_ok json expected run kind) probe_kind_all \<and>
            scope_is_bounded scope \<and>
            scope_steps scope = [StopNewProcess, RepointPrevious] @
              (if probe_ok json expected run Schema then [] else [RestoreCompatibleBackup]) @
              (if probe_ok json expected run FixtureQuery then [] else [ClearUnpublishedOutbox]))"
proof (cases "validate_expectations expected")
  case (Inl e)
  then show ?thesis by (auto simp: doctor_def validate_expectations_def doctor_refuse_def split: if_splits)
next
  case (Inr u)
  then have checkable: "ex_component expected \<noteq> []" "ex_version expected \<noteq> []" "ex_protocol_version expected \<noteq> 0"
    by (auto simp: validate_expectations_def split: if_splits)
  obtain failures where loop: "doctor_loop json expected run probe_kind_all [] [] =
      (map (\<lambda>kind. \<lparr>po_kind = kind, po_status_code = pr_status_code (run kind),
        po_passed = probe_ok json expected run kind\<rparr>) probe_kind_all, failures)"
    and kinds: "map pf_kind failures = filter (\<lambda>kind. \<not> probe_ok json expected run kind) probe_kind_all"
    using doctor_loop_result [of json expected run probe_kind_all "[]" "[]"] by auto
  show ?thesis
  proof (cases "failures = []")
    case True
    with kinds have "list_all (probe_ok json expected run) probe_kind_all"
      by (auto simp: list_all_iff filter_empty_conv dest!: sym [of "[]"])
    with True checkable show ?thesis by (simp add: doctor_def Inr loop comp_def)
  next
    case False
    have "kind \<in> set probe_kind_all" for kind by (cases kind) (simp_all add: probe_kind_all_def)
    then have "kind \<in> set (map pf_kind failures) \<longleftrightarrow> \<not> probe_ok json expected run kind" for kind unfolding kinds by simp
    with False kinds checkable scope_union_failures [OF False] show ?thesis
      by (simp add: doctor_def Inr loop comp_def scope_is_bounded_def scope_steps_def rollback_step_all_def)
  qed
qed

text \<open>The scope of a schema failure restores the backup and keeps the new build's outbox.\<close>

lemma schema_failure_keeps_outbox:
  "scope_steps (scope_for_failure Schema) = [StopNewProcess, RepointPrevious, RestoreCompatibleBackup]"
  by (simp add: scope_for_failure_def scope_steps_def rollback_step_all_def)

end
