(* ===== verification/UpdRollback.thy ===== *)
theory UpdRollback
  imports UpdDoctor UpdResolve
begin

text \<open>
  Planning the rollback of one compatible version set, \<^verbatim>\<open>axiom/src/update/rollback.rs\<close>: the binary, the
  database schema and the policy move together, or not at all.
\<close>

section \<open>Version sets and compatibility\<close>

record version_set =
  vs_binary :: string
  vs_db_schema :: u32
  vs_policy :: u32

record snapshot =
  sn_set :: version_set
  sn_backup_digest :: string
  sn_backup_verified :: bool

datatype rollback_scope = FullSet | BinaryOnly | SchemaOnly | PolicyOnly

fun rollback_scope_str :: "rollback_scope \<Rightarrow> string" where
  "rollback_scope_str FullSet = ''full_set''"
| "rollback_scope_str BinaryOnly = ''binary_only''"
| "rollback_scope_str SchemaOnly = ''schema_only''"
| "rollback_scope_str PolicyOnly = ''policy_only''"

record binary_release =
  br_version :: string
  br_schema_min :: u32
  br_schema_max :: u32

record schema_migration =
  sm_from :: u32
  sm_to :: u32
  sm_reversible :: bool

record compatibility =
  cm_releases :: "binary_release list"
  cm_migrations :: "schema_migration list"
  cm_policy_floor :: u32
  cm_policy_version :: u32

definition speaks :: "compatibility \<Rightarrow> string \<Rightarrow> u32 \<Rightarrow> bool" where
  "speaks known version schema \<longleftrightarrow>
     list_ex (\<lambda>release. br_version release = version \<and> schema \<ge> br_schema_min release \<and> schema \<le> br_schema_max release)
       (cm_releases known)"

datatype downgrade = Reversible | Irreversible u32 | Missing u32

text \<open>The descending walk; \<open>current - 1\<close> does not underflow as \<open>current > target\<close>.\<close>

definition migration_step :: "compatibility \<Rightarrow> u32 \<Rightarrow> schema_migration option" where
  "migration_step known current =
     find (\<lambda>migration. sm_to migration = current \<and> sm_from migration = current - 1) (cm_migrations known)"

function downgrade_path :: "compatibility \<Rightarrow> u32 \<Rightarrow> u32 \<Rightarrow> downgrade" where
  "downgrade_path known current target =
     (if current > target then
        (case migration_step known current of
           Some migration \<Rightarrow>
             if sm_reversible migration then downgrade_path known (current - 1) target else Irreversible current
         | None \<Rightarrow> Missing current)
      else Reversible)"
  by pat_completeness auto
termination by (relation "measure (\<lambda>(_, current, _). current)") auto

declare downgrade_path.simps [simp del]

record set_rollback_plan =
  sr_from :: version_set
  sr_target :: version_set
  sr_backup_digest :: "string option"
  sr_steps :: "rollback_step list"
  sr_reconcile_required :: bool
  sr_verify_journal :: bool

definition restores_one_set :: "set_rollback_plan \<Rightarrow> bool" where
  "restores_one_set plan \<longleftrightarrow>
     (let schema_moves = vs_db_schema (sr_target plan) \<noteq> vs_db_schema (sr_from plan);
          has_restore = RestoreCompatibleBackup \<in> set (sr_steps plan)
      in schema_moves = has_restore \<and> (\<not> schema_moves \<or> sr_backup_digest plan \<noteq> None))"

definition set_refuse :: "string \<Rightarrow> string \<Rightarrow> axiom_error" where
  "set_refuse rule observed =
     with_detail (with_detail (axiom_error_new ValidationError
       ''the rollback request violates the state-aware rollback contract'') ''rule'' rule) ''observed'' observed"

section \<open>The plan\<close>

definition snapshot_refusal :: "version_set \<Rightarrow> snapshot \<Rightarrow> rollback_scope \<Rightarrow> compatibility \<Rightarrow> axiom_error option" where
  "snapshot_refusal current snap scope known =
     (let target = sn_set snap
      in if scope \<noteq> FullSet then Some (set_refuse ''partial_rollback_refused'' (rollback_scope_str scope))
         else if \<not> sn_backup_verified snap then Some (set_refuse ''backup_not_verified'' (sn_backup_digest snap))
         else if \<not> is_digest (sn_backup_digest snap) then
           Some (set_refuse ''backup_digest_not_a_digest'' (sn_backup_digest snap))
         else if vs_db_schema target > vs_db_schema current then
           Some (set_refuse ''snapshot_schema_newer_than_install'' (show_nat (vs_db_schema target)))
         else if vs_policy target > vs_policy current then
           Some (with_detail (with_detail
             (set_refuse ''snapshot_policy_newer_than_install'' (show_nat (vs_policy target)))
             ''expected'' (show_nat (vs_policy current))) ''actual'' (show_nat (vs_policy target)))
         else if vs_policy target < cm_policy_floor known then
           Some (with_detail (set_refuse ''policy_downgrade_not_supported'' (show_nat (vs_policy target)))
             ''required_version'' (show_nat (cm_policy_floor known)))
         else if \<not> speaks known (vs_binary target) (vs_db_schema target) then
           Some (with_detail (set_refuse ''snapshot_binary_and_schema_incompatible'' (vs_binary target))
             ''schema'' (show_nat (vs_db_schema target)))
         else if \<not> speaks known (vs_binary current) (vs_db_schema current) then
           Some (with_detail (set_refuse ''installed_binary_and_schema_incompatible'' (vs_binary current))
             ''schema'' (show_nat (vs_db_schema current)))
         else None)"

definition plan_set_rollback ::
  "version_set \<Rightarrow> snapshot \<Rightarrow> rollback_scope \<Rightarrow> compatibility \<Rightarrow> set_rollback_plan result" where
  "plan_set_rollback current snap scope known =
     (case snapshot_refusal current snap scope known of
        Some e \<Rightarrow> Inl e
      | None \<Rightarrow>
          (case downgrade_path known (vs_db_schema current) (vs_db_schema (sn_set snap)) of
             Irreversible schema \<Rightarrow> Inl (set_refuse ''schema_downgrade_not_reversible'' (show_nat schema))
           | Missing schema \<Rightarrow> Inl (set_refuse ''schema_downgrade_path_missing'' (show_nat schema))
           | Reversible \<Rightarrow>
               if cm_policy_version known < vs_policy current then
                 Inl (with_detail (set_refuse ''installed_policy_newer_than_this_build'' (show_nat (vs_policy current)))
                   ''expected'' (show_nat (cm_policy_version known)))
               else
                 (let database_moves = vs_db_schema current \<noteq> vs_db_schema (sn_set snap);
                      steps = [StopNewProcess, RepointPrevious];
                      steps = (if database_moves then steps @ [RestoreCompatibleBackup] @ [ClearUnpublishedOutbox] else steps)
                  in Inr \<lparr>sr_from = current, sr_target = sn_set snap, sr_backup_digest = Some (sn_backup_digest snap),
                       sr_steps = steps,
                       sr_reconcile_required = (database_moves \<or> vs_binary current \<noteq> vs_binary (sn_set snap) \<or>
                         vs_policy current \<noteq> vs_policy (sn_set snap)),
                       sr_verify_journal = True\<rparr>)))"

section \<open>What is accepted\<close>

definition reversible_step :: "compatibility \<Rightarrow> u32 \<Rightarrow> bool" where
  "reversible_step known schema \<longleftrightarrow>
     (case migration_step known schema of None \<Rightarrow> False | Some migration \<Rightarrow> sm_reversible migration)"

lemma downgrade_path_reversible:
  "downgrade_path known current target = Reversible \<longleftrightarrow> list_all (reversible_step known) [Suc target..<Suc current]"
proof (induction known current target rule: downgrade_path.induct)
  case (1 known current target)
  show ?case
  proof (cases "current > target")
    case False
    then show ?thesis by (simp add: downgrade_path.simps)
  next
    case True
    then have "list_all (reversible_step known) [Suc target..<Suc current] \<longleftrightarrow>
        list_all (reversible_step known) [Suc target..<Suc (current - 1)] \<and> reversible_step known current"
      by simp
    moreover have "downgrade_path known current target = Reversible \<longleftrightarrow>
        reversible_step known current \<and> downgrade_path known (current - 1) target = Reversible"
      using True by (subst downgrade_path.simps) (simp add: reversible_step_def split: option.split)
    moreover have "downgrade_path known (current - 1) target = Reversible \<longleftrightarrow>
        list_all (reversible_step known) [Suc target..<Suc (current - 1)]" if "reversible_step known current"
    proof -
      from that obtain m where "migration_step known current = Some m" "sm_reversible m"
        by (auto simp: reversible_step_def split: option.splits)
      from 1 [OF True this] show ?thesis .
    qed
    ultimately show ?thesis by blast
  qed
qed

lemma snapshot_refusal_code: "snapshot_refusal current snap scope known = Some e \<Longrightarrow> ae_code e = ValidationError"
  by (auto simp: snapshot_refusal_def set_refuse_def Let_def split: if_splits)

text \<open>Everything a rollback may be planned from.\<close>

definition acceptable :: "version_set \<Rightarrow> snapshot \<Rightarrow> rollback_scope \<Rightarrow> compatibility \<Rightarrow> bool" where
  "acceptable current snap scope known \<longleftrightarrow>
     scope = FullSet \<and> sn_backup_verified snap \<and> is_digest (sn_backup_digest snap) \<and>
     vs_db_schema (sn_set snap) \<le> vs_db_schema current \<and>
     cm_policy_floor known \<le> vs_policy (sn_set snap) \<and> vs_policy (sn_set snap) \<le> vs_policy current \<and>
     vs_policy current \<le> cm_policy_version known \<and>
     speaks known (vs_binary (sn_set snap)) (vs_db_schema (sn_set snap)) \<and>
     speaks known (vs_binary current) (vs_db_schema current) \<and>
     list_all (reversible_step known) [Suc (vs_db_schema (sn_set snap))..<Suc (vs_db_schema current)]"

text \<open>C18: A rollback is planned exactly for the whole version set of a verified backup that is not newer than the
  installation, whose binaries speak their schemas, whose policy lies between the floor and what this build
  writes, and to which every single schema step down is known and reversible.  The plan then restores that set
  and nothing else, with the backup restored and the outbox cleared exactly when the schema moves; every
  refusal is a validation error.\<close>

theorem rollback_restores_one_compatible_set:
  "case plan_set_rollback current snap scope known of
     Inl e \<Rightarrow> ae_code e = ValidationError \<and> \<not> acceptable current snap scope known
   | Inr plan \<Rightarrow>
       acceptable current snap scope known \<and>
       sr_from plan = current \<and> sr_target plan = sn_set snap \<and> restores_one_set plan \<and>
       sr_steps plan = (if vs_db_schema current = vs_db_schema (sn_set snap) then [StopNewProcess, RepointPrevious]
         else rollback_step_all) \<and>
       (sr_reconcile_required plan \<longleftrightarrow> sr_target plan \<noteq> current)"
proof (cases "snapshot_refusal current snap scope known")
  case (Some e)
  from snapshot_refusal_code [OF this] Some show ?thesis
    by (auto simp: plan_set_rollback_def snapshot_refusal_def acceptable_def Let_def simp del: upt_Suc split: if_splits)
next
  case None
  then have ok: "scope = FullSet" "sn_backup_verified snap" "is_digest (sn_backup_digest snap)"
    "vs_db_schema (sn_set snap) \<le> vs_db_schema current" "vs_policy (sn_set snap) \<le> vs_policy current"
    "cm_policy_floor known \<le> vs_policy (sn_set snap)"
    "speaks known (vs_binary (sn_set snap)) (vs_db_schema (sn_set snap))"
    "speaks known (vs_binary current) (vs_db_schema current)"
    by (simp_all add: snapshot_refusal_def Let_def split: if_splits)
  let ?down = "downgrade_path known (vs_db_schema current) (vs_db_schema (sn_set snap))"
  have moved: "sn_set snap = current \<longleftrightarrow> vs_binary (sn_set snap) = vs_binary current \<and>
      vs_db_schema (sn_set snap) = vs_db_schema current \<and> vs_policy (sn_set snap) = vs_policy current" by auto
  show ?thesis
  proof (cases ?down)
    case Reversible
    then have "list_all (reversible_step known) [Suc (vs_db_schema (sn_set snap))..<Suc (vs_db_schema current)]"
      by (simp only: downgrade_path_reversible)
    with Reversible ok None moved show ?thesis
      by (auto simp: plan_set_rollback_def acceptable_def Let_def set_refuse_def restores_one_set_def rollback_step_all_def
          simp del: upt_Suc)
  next
    case (Irreversible n)
    then have "\<not> list_all (reversible_step known) [Suc (vs_db_schema (sn_set snap))..<Suc (vs_db_schema current)]"
      by (simp flip: downgrade_path_reversible del: upt_Suc)
    with Irreversible None show ?thesis by (simp add: plan_set_rollback_def acceptable_def set_refuse_def del: upt_Suc)
  next
    case (Missing n)
    then have "\<not> list_all (reversible_step known) [Suc (vs_db_schema (sn_set snap))..<Suc (vs_db_schema current)]"
      by (simp flip: downgrade_path_reversible del: upt_Suc)
    with Missing None show ?thesis by (simp add: plan_set_rollback_def acceptable_def set_refuse_def del: upt_Suc)
  qed
qed

text \<open>The plan of a rollback that leaves the database alone names a backup all the same.\<close>

lemma backup_named_without_database_move:
  assumes "plan_set_rollback current snap scope known = Inr plan" and "vs_db_schema (sr_target plan) = vs_db_schema current"
  shows "sr_backup_digest plan = Some (sn_backup_digest snap) \<and> RestoreCompatibleBackup \<notin> set (sr_steps plan)"
  using assms by (auto simp: plan_set_rollback_def Let_def split: option.splits downgrade.splits if_splits)

end
