(* ===== verification/UpdBackup.thy ===== *)
theory UpdBackup
  imports BootHost
begin

text \<open>
  The hash-verified backups of an update, \<^verbatim>\<open>axiom/src/update/backup.rs\<close>.  The file system it uses is
  the state \<open>disk\<close>: the files with their bytes, the directories, and what a failing read or write reports.
\<close>

section \<open>Files, plans and records\<close>

record disk =
  dk_files :: "path \<Rightarrow> string option"
  dk_dirs :: "path set"
  dk_read_error :: "path \<Rightarrow> string"
  dk_write_error :: "path \<Rightarrow> string option"

definition fs_read :: "path \<Rightarrow> disk \<Rightarrow> string + string" where
  "fs_read p d = (case dk_files d p of Some bytes \<Rightarrow> Inr bytes | None \<Rightarrow> Inl (dk_read_error d p))"

definition fs_write :: "path \<Rightarrow> string \<Rightarrow> disk \<Rightarrow> (string + unit) \<times> disk" where
  "fs_write p bytes d =
     (case dk_write_error d p of
        Some e \<Rightarrow> (Inl e, d)
      | None \<Rightarrow> (Inr (), d\<lparr>dk_files := (dk_files d)(p \<mapsto> bytes)\<rparr>))"

record backup_target =
  bt_name :: string
  bt_source :: path

record backup_plan =
  bp_targets :: "backup_target list"
  bp_required :: bool

record backup_record =
  br_name :: string
  br_source :: path
  br_path :: path
  br_sha256 :: string
  br_size_bytes :: nat

record backup_set =
  bs_directory :: path
  bs_records :: "backup_record list"

definition backup_names :: "backup_set \<Rightarrow> string list" where
  "backup_names backup = map br_name (bs_records backup)"

text \<open>The lengths are those of files in memory; their sum is below the range of a word.\<close>

definition total_bytes :: "backup_set \<Rightarrow> nat" where
  "total_bytes backup = sum_list (map br_size_bytes (bs_records backup))"

definition backup_refuse :: "string \<Rightarrow> string \<Rightarrow> axiom_error" where
  "backup_refuse rule observed =
     with_detail (with_detail (axiom_error_new ValidationError
       ''the backup cannot be used as a restore point'') ''rule'' rule) ''observed'' observed"

definition validate_backup_name :: "string \<Rightarrow> unit result" where
  "validate_backup_name name =
     (let separator = CHR ''/'' \<in> set name \<or> CHR 0x5C \<in> set name;
          navigates = name = ''..'' \<or> name = ''.'';
          empty = str_trim name = []
      in if empty \<or> separator \<or> navigates then Inl (backup_refuse ''invalid_backup_name'' name) else Inr ())"

section \<open>Copying\<close>

fun backup_loop ::
  "(string \<Rightarrow> string) \<Rightarrow> path \<Rightarrow> backup_target list \<Rightarrow> backup_record list \<Rightarrow> disk \<Rightarrow> backup_record list result \<times> disk" where
  "backup_loop sha256 destination [] records d = (Inr records, d)"
| "backup_loop sha256 destination (target # targets) records d =
     (case validate_backup_name (bt_name target) of
        Inl e \<Rightarrow> (Inl e, d)
      | Inr _ \<Rightarrow>
          (case fs_read (bt_source target) d of
             Inl e \<Rightarrow> (Inl (backup_refuse ''backup_target_unreadable'' (show_path (bt_source target) @ '': '' @ e)), d)
           | Inr bytes \<Rightarrow>
               (let p = path_join destination (bt_name target)
                in case fs_write p bytes d of
                     (Inl e, d) \<Rightarrow> (Inl (backup_refuse ''backup_write_failed'' (show_path p @ '': '' @ e)), d)
                   | (Inr _, d) \<Rightarrow>
                       backup_loop sha256 destination targets
                         (records @ [\<lparr>br_name = bt_name target, br_source = bt_source target, br_path = p,
                            br_sha256 = sha256_hex sha256 bytes, br_size_bytes = length bytes\<rparr>]) d)))"

definition create_backup :: "(string \<Rightarrow> string) \<Rightarrow> backup_plan \<Rightarrow> path \<Rightarrow> disk \<Rightarrow> backup_set result \<times> disk" where
  "create_backup sha256 plan destination d =
     (if destination \<notin> dk_dirs d then
        (Inl (backup_refuse ''backup_destination_not_directory'' (show_path destination)), d)
      else
        (case backup_loop sha256 destination (bp_targets plan) [] d of
           (Inl e, d) \<Rightarrow> (Inl e, d)
         | (Inr records, d) \<Rightarrow> (Inr \<lparr>bs_directory = destination, bs_records = records\<rparr>, d)))"

section \<open>Verifying\<close>

definition verify_backup :: "(string \<Rightarrow> string) \<Rightarrow> disk \<Rightarrow> backup_record \<Rightarrow> unit result" where
  "verify_backup sha256 d copy =
     (case fs_read (br_path copy) d of
        Inl e \<Rightarrow> Inl (backup_refuse ''backup_missing'' (show_path (br_path copy) @ '': '' @ e))
      | Inr bytes \<Rightarrow>
          if length bytes \<noteq> br_size_bytes copy then
            Inl (backup_refuse ''backup_size_mismatch''
              (''name='' @ br_name copy @ '';observed='' @ show_nat (length bytes) @ '';recorded='' @
               show_nat (br_size_bytes copy)))
          else if sha256_hex sha256 bytes \<noteq> br_sha256 copy then
            Inl (backup_refuse ''backup_hash_mismatch''
              (''name='' @ br_name copy @ '';observed='' @ sha256_hex sha256 bytes @ '';recorded='' @ br_sha256 copy))
          else Inr ())"

fun verify_copies :: "(string \<Rightarrow> string) \<Rightarrow> disk \<Rightarrow> backup_record list \<Rightarrow> unit result" where
  "verify_copies sha256 d [] = Inr ()"
| "verify_copies sha256 d (copy # copies) =
     (case verify_backup sha256 d copy of Inl e \<Rightarrow> Inl e | Inr _ \<Rightarrow> verify_copies sha256 d copies)"

definition verify_backup_set :: "(string \<Rightarrow> string) \<Rightarrow> disk \<Rightarrow> backup_set \<Rightarrow> unit result" where
  "verify_backup_set sha256 d backup = verify_copies sha256 d (bs_records backup)"

fun require_copies :: "(string \<Rightarrow> string) \<Rightarrow> disk \<Rightarrow> string \<Rightarrow> backup_record list \<Rightarrow> unit result" where
  "require_copies sha256 d names [] = Inr ()"
| "require_copies sha256 d names (copy # copies) =
     (if br_size_bytes copy = 0 then
        Inl (backup_refuse ''backup_empty'' (''name='' @ br_name copy @ '';irreversible='' @ names))
      else
        (case verify_backup sha256 d copy of Inl e \<Rightarrow> Inl e | Inr _ \<Rightarrow> require_copies sha256 d names copies))"

definition require_backup_for_irreversible ::
  "(string \<Rightarrow> string) \<Rightarrow> disk \<Rightarrow> backup_set option \<Rightarrow> string list \<Rightarrow> unit result" where
  "require_backup_for_irreversible sha256 d backup irreversible =
     (if irreversible = [] then Inr ()
      else
        (let names = join_with CHR '','' irreversible
         in case backup of
              None \<Rightarrow> Inl (backup_refuse ''backup_missing'' (''irreversible='' @ names))
            | Some backup \<Rightarrow>
                if bs_records backup = [] then Inl (backup_refuse ''backup_missing'' (''irreversible='' @ names))
                else require_copies sha256 d names (bs_records backup)))"

section \<open>What a backup holds\<close>

lemma valid_name_join:
  assumes "validate_backup_name name = Inr u"
  shows "path_join destination name = destination @ [name]"
proof -
  have name: "name \<noteq> []" "name \<noteq> ''.''" "CHR ''/'' \<notin> set name"
    using assms by (auto simp: validate_backup_name_def Let_def str_trim_def str_trim_start_def str_trim_end_def split: if_splits)
  have "split_on CHR ''/'' s = [s]" if "CHR ''/'' \<notin> set s" for s using that by (induction s) auto
  with name show ?thesis
    by (cases name) (auto simp: path_join_def path_of_def components_rest_def starts_with_def)
qed

text \<open>A copy is on the disk: the recorded bytes are there.\<close>

definition copied :: "(string \<Rightarrow> string) \<Rightarrow> path \<Rightarrow> disk \<Rightarrow> disk \<Rightarrow> backup_target \<Rightarrow> backup_record \<Rightarrow> bool" where
  "copied sha256 destination d d' target copy \<longleftrightarrow>
     br_name copy = bt_name target \<and> br_source copy = bt_source target \<and> br_path copy = destination @ [bt_name target] \<and>
     (\<exists>bytes. dk_files d (bt_source target) = Some bytes \<and> dk_files d' (br_path copy) = Some bytes \<and>
        br_size_bytes copy = length bytes \<and> br_sha256 copy = sha256_hex sha256 bytes)"

lemma backup_loop_ok:
  assumes "backup_loop sha256 destination targets records d = (Inr records', d')"
    and "distinct (map bt_name targets)"
    and "\<And>t. t \<in> set targets \<Longrightarrow> bt_source t \<notin> (\<lambda>t. destination @ [bt_name t]) ` set targets"
  shows "(\<exists>new. records' = records @ new \<and> list_all2 (copied sha256 destination d d') targets new) \<and>
    (\<forall>p. p \<notin> (\<lambda>t. destination @ [bt_name t]) ` set targets \<longrightarrow> dk_files d' p = dk_files d p)"
  using assms
proof (induction targets arbitrary: records d)
  case Nil
  then show ?case by simp
next
  case (Cons target targets)
  from Cons.prems(1) obtain u bytes where name: "validate_backup_name (bt_name target) = Inr u"
    and read: "dk_files d (bt_source target) = Some bytes"
    by (auto simp: fs_read_def split: sum.splits option.splits)
  let ?p = "destination @ [bt_name target]"
  let ?copy = "\<lparr>br_name = bt_name target, br_source = bt_source target, br_path = ?p,
     br_sha256 = sha256_hex sha256 bytes, br_size_bytes = length bytes\<rparr>"
  let ?d = "d\<lparr>dk_files := (dk_files d)(?p \<mapsto> bytes)\<rparr>"
  from Cons.prems(1) have loop: "backup_loop sha256 destination targets (records @ [?copy]) ?d = (Inr records', d')"
    by (auto simp: fs_read_def fs_write_def read name valid_name_join [OF name] Let_def split: option.splits)
  from Cons.IH [OF loop] Cons.prems(2,3) obtain new where
    new: "records' = (records @ [?copy]) @ new" "list_all2 (copied sha256 destination ?d d') targets new"
    and rest: "\<And>p. p \<notin> (\<lambda>t. destination @ [bt_name t]) ` set targets \<Longrightarrow> dk_files d' p = dk_files ?d p" by auto
  have "dk_files d' ?p = Some bytes" using rest [of ?p] Cons.prems(2) by auto
  then have "copied sha256 destination d d' target ?copy" by (auto simp: copied_def read)
  moreover have "list_all2 (copied sha256 destination d d') targets new"
  proof (rule list.rel_mono_strong [OF new(2)])
    fix t copy
    assume "t \<in> set targets" and copy: "copied sha256 destination ?d d' t copy"
    then have "bt_source t \<noteq> ?p" using Cons.prems(3) by fastforce
    with copy show "copied sha256 destination d d' t copy" by (auto simp: copied_def)
  qed
  ultimately show ?case using new(1) rest by auto
qed

lemma copied_verifies: "copied sha256 destination d d' target copy \<Longrightarrow> verify_backup sha256 d' copy = Inr ()"
  by (auto simp: copied_def verify_backup_def fs_read_def)

lemma copied_lists:
  "list_all2 (copied sha256 destination d d') targets copies \<Longrightarrow>
   map br_name copies = map bt_name targets \<and>
   map (\<lambda>copy. dk_files d' (br_path copy)) copies = map (\<lambda>t. dk_files d (bt_source t)) targets \<and>
   (\<forall>copy\<in>set copies. verify_backup sha256 d' copy = Inr ())"
  by (induction rule: list_all2_induct) (auto simp: copied_verifies, auto simp: copied_def)

lemma verify_copies_iff: "verify_copies sha256 d copies = Inr () \<longleftrightarrow> (\<forall>copy\<in>set copies. verify_backup sha256 d copy = Inr ())"
  by (induction copies) (auto split: sum.splits)

text \<open>A backup whose targets have different names and are not themselves copies holds, file by file and in
  plan order, the very bytes its sources have, under the destination directory; it verifies, and no file
  outside the copies changes, the sources in particular.\<close>

theorem backup_holds_the_sources:
  assumes "create_backup sha256 plan destination d = (Inr backup, d')"
    and "distinct (map bt_name (bp_targets plan))"
    and "bt_source ` set (bp_targets plan) \<inter> (\<lambda>t. destination @ [bt_name t]) ` set (bp_targets plan) = {}"
  shows "verify_backup_set sha256 d' backup = Inr () \<and> backup_names backup = map bt_name (bp_targets plan) \<and>
    map (\<lambda>copy. dk_files d' (br_path copy)) (bs_records backup) = map (\<lambda>t. dk_files d (bt_source t)) (bp_targets plan) \<and>
    map (\<lambda>t. dk_files d' (bt_source t)) (bp_targets plan) = map (\<lambda>t. dk_files d (bt_source t)) (bp_targets plan) \<and>
    (\<forall>p. p \<notin> (\<lambda>t. destination @ [bt_name t]) ` set (bp_targets plan) \<longrightarrow> dk_files d' p = dk_files d p)"
proof -
  obtain records where loop: "backup_loop sha256 destination (bp_targets plan) [] d = (Inr records, d')"
    and backup: "backup = \<lparr>bs_directory = destination, bs_records = records\<rparr>"
    using assms(1) by (auto simp: create_backup_def split: if_splits prod.splits sum.splits)
  have apart: "bt_source t \<notin> (\<lambda>t. destination @ [bt_name t]) ` set (bp_targets plan)" if "t \<in> set (bp_targets plan)" for t
    using assms(3) that by blast
  from backup_loop_ok [OF loop assms(2) apart] have copies: "list_all2 (copied sha256 destination d d') (bp_targets plan) records"
    and rest: "\<And>p. p \<notin> (\<lambda>t. destination @ [bt_name t]) ` set (bp_targets plan) \<Longrightarrow> dk_files d' p = dk_files d p" by auto
  have "verify_backup_set sha256 d' backup = Inr ()" 
    using copied_lists [OF copies] by (simp add: verify_backup_set_def verify_copies_iff backup)
  moreover have "backup_names backup = map bt_name (bp_targets plan) \<and>
      map (\<lambda>copy. dk_files d' (br_path copy)) (bs_records backup) = map (\<lambda>t. dk_files d (bt_source t)) (bp_targets plan)"
    using copied_lists [OF copies] by (simp add: backup_names_def backup)
  moreover have "map (\<lambda>t. dk_files d' (bt_source t)) (bp_targets plan) = map (\<lambda>t. dk_files d (bt_source t)) (bp_targets plan)"
    using apart rest by simp
  ultimately show ?thesis using rest by blast
qed

text \<open>C37: An irreversible migration passes exactly when a recorded backup has at least one copy, none of them
  empty, and every one of them is on the disk with its recorded length and digest; with nothing irreversible
  no backup is asked for.\<close>

theorem irreversible_needs_live_backup:
  "require_backup_for_irreversible sha256 d backup irreversible = Inr () \<longleftrightarrow>
     irreversible = [] \<or>
     (\<exists>copies. map_option bs_records backup = Some copies \<and> copies \<noteq> [] \<and>
        list_all (\<lambda>copy. 0 < br_size_bytes copy \<and>
          (\<exists>bytes. dk_files d (br_path copy) = Some bytes \<and> length bytes = br_size_bytes copy \<and>
             sha256_hex sha256 bytes = br_sha256 copy)) copies)"
proof -
  have copy: "verify_backup sha256 d copy = Inr () \<longleftrightarrow> (\<exists>bytes. dk_files d (br_path copy) = Some bytes \<and>
      length bytes = br_size_bytes copy \<and> sha256_hex sha256 bytes = br_sha256 copy)" for copy
    by (auto simp: verify_backup_def fs_read_def split: option.splits)
  have copies: "require_copies sha256 d names copies = Inr () \<longleftrightarrow>
      list_all (\<lambda>copy. 0 < br_size_bytes copy \<and> verify_backup sha256 d copy = Inr ()) copies" for names copies
    by (induction copies) (auto split: sum.splits)
  show ?thesis
    by (cases backup) (simp_all add: require_backup_for_irreversible_def copies copy Let_def)
qed

section \<open>Corners\<close>

text \<open>A drive prefix is accepted as a plain name, though the comment on the check lists it.\<close>

lemma drive_prefix_is_accepted: "validate_backup_name ''C:evil'' = Inr ()"
  by code_simp

text \<open>Two targets of one name write one file: the backup succeeds and does not verify.\<close>

definition two_files :: disk where
  "two_files = \<lparr>dk_files = [[''a'', ''db''] \<mapsto> ''1'', [''b'', ''db''] \<mapsto> ''22''], dk_dirs = {[''out'']},
     dk_read_error = (\<lambda>_. ''missing''), dk_write_error = (\<lambda>_. None)\<rparr>"

definition same_names :: backup_plan where
  "same_names = \<lparr>bp_targets = [\<lparr>bt_name = ''db'', bt_source = [''a'', ''db'']\<rparr>, \<lparr>bt_name = ''db'', bt_source = [''b'', ''db'']\<rparr>],
     bp_required = True\<rparr>"

lemma same_name_overwrites_copy:
  "\<exists>backup d'. create_backup id same_names [''out''] two_files = (Inr backup, d') \<and>
     isl (verify_backup_set id d' backup) \<and> dk_files d' [''out'', ''db''] = Some ''22''"
proof -
  have name: "validate_backup_name ''db'' = Inr ()" by code_simp
  show ?thesis
    by (simp add: create_backup_def same_names_def two_files_def name valid_name_join [OF name] fs_read_def fs_write_def
        verify_backup_set_def verify_backup_def Let_def)
qed

definition other_names :: backup_plan where
  "other_names = \<lparr>bp_targets = [\<lparr>bt_name = ''db'', bt_source = [''a'', ''db'']\<rparr>, \<lparr>bt_name = ''wal'', bt_source = [''b'', ''db'']\<rparr>],
     bp_required = True\<rparr>"

theorem backup_holds_the_sources_witness:
  "\<exists>backup d'. create_backup id other_names [''out''] two_files = (Inr backup, d') \<and>
     verify_backup_set id d' backup = Inr () \<and> backup_names backup = [''db'', ''wal'']"
proof -
  have name: "validate_backup_name ''db'' = Inr ()" "validate_backup_name ''wal'' = Inr ()" by code_simp+
  have "\<exists>backup d'. create_backup id other_names [''out''] two_files = (Inr backup, d')"
    by (simp add: create_backup_def other_names_def two_files_def name valid_name_join [OF name(1)] valid_name_join [OF name(2)]
        fs_read_def fs_write_def Let_def)
  then obtain backup d' where run: "create_backup id other_names [''out''] two_files = (Inr backup, d')" by blast
  have "verify_backup_set id d' backup = Inr () \<and> backup_names backup = map bt_name (bp_targets other_names)"
    using backup_holds_the_sources [OF run] by (simp add: other_names_def)
  then show ?thesis using run by (auto simp: other_names_def)
qed

end
