(* ===== verification/ExpShard.thy ===== *)
theory ExpShard
  imports BootOwnership UpdPolicy
begin

text \<open>
  Deterministic sharding of a record set, \<^verbatim>\<open>graph-export/src/shard.rs\<close>, with the record and the error of
  \<^verbatim>\<open>graph-export/src/lib.rs\<close>.  The canonical line of a record is the argument \<open>line_of\<close> (JSON), the digest
  the argument \<open>sha256\<close>.
\<close>

section \<open>Records and errors\<close>

record export_error =
  ee_code :: string
  ee_message :: string

type_synonym 'a export_result = "export_error + 'a"

definition export_error_new :: "string \<Rightarrow> string \<Rightarrow> export_error" where
  "export_error_new code message = \<lparr>ee_code = code, ee_message = message\<rparr>"

definition export_error_display :: "export_error \<Rightarrow> string" where
  "export_error_display e = ee_code e @ '': '' @ ee_message e"

record 'j graph_record =
  gr_key :: string
  gr_kind :: string
  gr_body :: 'j

section \<open>Buckets\<close>

definition ERR_RECORD_TOO_LARGE :: string where "ERR_RECORD_TOO_LARGE = ''export-record-too-large''"

record shard_policy =
  sp_bucket_count :: nat
  sp_max_bytes :: nat

definition shard_policy_default :: shard_policy where
  "shard_policy_default = \<lparr>sp_bucket_count = 256, sp_max_bytes = 4 * 1024 * 1024\<rparr>"

text \<open>\<open>u64::from_be_bytes\<close> of the first eight bytes of the digest.\<close>

definition from_be_bytes :: "string \<Rightarrow> nat" where
  "from_be_bytes bytes = foldl (\<lambda>n c. 256 * n + of_char c) 0 bytes"

definition bucket_of :: "(string \<Rightarrow> string) \<Rightarrow> string \<Rightarrow> nat \<Rightarrow> nat" where
  "bucket_of sha256 key bucket_count =
     (let n = max bucket_count 1
      in if n = 1 then 0 else from_be_bytes (take 8 (sha256 key)) mod n)"

text \<open>\<open>{value:0width$}\<close>.\<close>

definition pad_zeros :: "nat \<Rightarrow> nat \<Rightarrow> string" where
  "pad_zeros width n = replicate (width - length (show_nat n)) CHR ''0'' @ show_nat n"

definition bucket_name :: "nat \<Rightarrow> nat \<Rightarrow> string" where
  "bucket_name bucket bucket_count =
     (let width = max (length (show_nat (max bucket_count 1 - 1))) 3
      in ''bucket-'' @ pad_zeros width bucket)"

record planned_shard =
  ps_bucket :: nat
  ps_name :: string
  ps_byte_len :: nat
  ps_record_keys :: "string list"
  ps_sha256 :: string

text \<open>\<open>ShardPlan\<close> has the one field \<open>shards\<close>.\<close>

type_synonym shard_plan = "planned_shard list"

definition shards_for :: "shard_plan \<Rightarrow> nat \<Rightarrow> planned_shard list" where
  "shards_for plan bucket = filter (\<lambda>shard. ps_bucket shard = bucket) plan"

definition plan_buckets :: "shard_plan \<Rightarrow> nat list" where
  "plan_buckets plan = remdups_adj (sort (map ps_bucket plan))"

definition shard_total_bytes :: "shard_plan \<Rightarrow> nat" where
  "shard_total_bytes plan = sum_list (map ps_byte_len plan)"

definition respects_cap :: "shard_plan \<Rightarrow> shard_policy \<Rightarrow> bool" where
  "respects_cap plan policy \<longleftrightarrow> list_all (\<lambda>shard. ps_byte_len shard \<le> sp_max_bytes policy) plan"

section \<open>Splitting one bucket\<close>

text \<open>The closure \<open>flush\<close>; the bytes and keys collected so far and the parts are its state.\<close>

definition shard_flush ::
  "(string \<Rightarrow> string) \<Rightarrow> nat \<Rightarrow> string \<Rightarrow> nat \<Rightarrow> string \<times> string list \<times> planned_shard list \<Rightarrow>
     string \<times> string list \<times> planned_shard list" where
  "shard_flush sha256 bucket base part s =
     (case s of
        (bytes, keys, parts) \<Rightarrow>
          if bytes = [] then (bytes, keys, parts)
          else
            (let name = (if parts = [] \<and> part = 0 then base else base @ ''/part-'' @ pad_zeros 3 part)
             in ([], [], parts @ [\<lparr>ps_bucket = bucket, ps_name = name, ps_byte_len = length bytes,
                   ps_record_keys = keys, ps_sha256 = sha256_hex sha256 bytes\<rparr>])))"

fun split_loop ::
  "(string \<Rightarrow> string) \<Rightarrow> ('j graph_record \<Rightarrow> string export_result) \<Rightarrow> shard_policy \<Rightarrow> nat \<Rightarrow> string \<Rightarrow>
     'j graph_record list \<Rightarrow> nat \<Rightarrow> string \<times> string list \<times> planned_shard list \<Rightarrow> planned_shard list export_result" where
  "split_loop sha256 line_of policy bucket base [] part (bytes, keys, parts) =
     (let part_index = (if parts = [] then 0 else part)
      in case shard_flush sha256 bucket base part_index (bytes, keys, parts) of (_, _, parts) \<Rightarrow> Inr parts)"
| "split_loop sha256 line_of policy bucket base (record # records) part (bytes, keys, parts) =
     (case line_of record of
        Inl e \<Rightarrow> Inl e
      | Inr line \<Rightarrow>
          if length line + 1 > sp_max_bytes policy then
            Inl (export_error_new ERR_RECORD_TOO_LARGE
              (''record '' @ gr_key record @ '' needs '' @ show_nat (length line + 1) @ '' bytes but the shard cap is '' @
               show_nat (sp_max_bytes policy)))
          else
            (case (if bytes \<noteq> [] \<and> length bytes + length line + 1 > sp_max_bytes policy then
                     (let part_index = (if length parts = 0 then 0 else part)
                      in (part + 1, shard_flush sha256 bucket base part_index (bytes, keys, parts)))
                   else (part, (bytes, keys, parts))) of
               (part, bytes, keys, parts) \<Rightarrow>
                 split_loop sha256 line_of policy bucket base records part
                   (bytes @ line @ [CHR 0x0A], keys @ [gr_key record], parts)))"

definition split_bucket ::
  "(string \<Rightarrow> string) \<Rightarrow> ('j graph_record \<Rightarrow> string export_result) \<Rightarrow> 'j graph_record list \<Rightarrow> shard_policy \<Rightarrow> nat \<Rightarrow>
     planned_shard list export_result" where
  "split_bucket sha256 line_of records policy bucket =
     split_loop sha256 line_of policy bucket (bucket_name bucket (sp_bucket_count policy)) records 0 ([], [], [])"

definition owned_records ::
  "(string \<Rightarrow> string) \<Rightarrow> shard_policy \<Rightarrow> 'j graph_record list \<Rightarrow> nat \<Rightarrow> 'j graph_record list" where
  "owned_records sha256 policy records bucket =
     sort_by (\<lambda>left right. cmp (gr_key left) (gr_key right))
       (filter (\<lambda>record. bucket_of sha256 (gr_key record) (sp_bucket_count policy) = bucket) records)"

fun plan_loop ::
  "(string \<Rightarrow> string) \<Rightarrow> ('j graph_record \<Rightarrow> string export_result) \<Rightarrow> shard_policy \<Rightarrow> 'j graph_record list \<Rightarrow> nat list \<Rightarrow>
     shard_plan \<Rightarrow> shard_plan export_result" where
  "plan_loop sha256 line_of policy records [] plan = Inr plan"
| "plan_loop sha256 line_of policy records (bucket # buckets) plan =
     (case split_bucket sha256 line_of (owned_records sha256 policy records bucket) policy bucket of
        Inl e \<Rightarrow> Inl e
      | Inr parts \<Rightarrow> plan_loop sha256 line_of policy records buckets (plan @ parts))"

definition shard_plan_of ::
  "(string \<Rightarrow> string) \<Rightarrow> ('j graph_record \<Rightarrow> string export_result) \<Rightarrow> 'j graph_record list \<Rightarrow> shard_policy \<Rightarrow>
     shard_plan export_result" where
  "shard_plan_of sha256 line_of records policy =
     (let buckets = remdups_adj (sort (map (\<lambda>record. bucket_of sha256 (gr_key record) (sp_bucket_count policy)) records))
      in plan_loop sha256 line_of policy records buckets [])"

section \<open>What the parts hold\<close>

text \<open>The published bytes of a group of records, and the shard that describes them.\<close>

definition shard_bytes :: "('j graph_record \<Rightarrow> string export_result) \<Rightarrow> 'j graph_record list \<Rightarrow> string" where
  "shard_bytes line_of records = concat (map (\<lambda>r. projr (line_of r) @ [CHR 0x0A]) records)"

definition part_name :: "string \<Rightarrow> nat \<Rightarrow> string" where
  "part_name base n = (if n = 0 then base else base @ ''/part-'' @ pad_zeros 3 n)"

definition describes ::
  "(string \<Rightarrow> string) \<Rightarrow> ('j graph_record \<Rightarrow> string export_result) \<Rightarrow> nat \<Rightarrow> 'j graph_record list \<Rightarrow> planned_shard \<Rightarrow> bool" where
  "describes sha256 line_of bucket records shard \<longleftrightarrow>
     records \<noteq> [] \<and> ps_bucket shard = bucket \<and> ps_record_keys shard = map gr_key records \<and>
     ps_byte_len shard = length (shard_bytes line_of records) \<and>
     ps_sha256 shard = sha256_hex sha256 (shard_bytes line_of records)"

lemma shard_bytes_Nil_iff [simp]: "shard_bytes line_of records = [] \<longleftrightarrow> records = []"
  by (cases records) (auto simp: shard_bytes_def)

lemma shard_bytes_append: "shard_bytes line_of (xs @ ys) = shard_bytes line_of xs @ shard_bytes line_of ys"
  by (simp add: shard_bytes_def)

lemma split_loop_ok:
  assumes "split_loop sha256 line_of policy bucket base records part (shard_bytes line_of cur, map gr_key cur, parts) = Inr parts'"
    and "length (shard_bytes line_of cur) \<le> sp_max_bytes policy" and "part = length parts"
  shows "\<exists>groups new. parts' = parts @ new \<and> concat groups = cur @ records \<and>
    list_all2 (describes sha256 line_of bucket) groups new \<and>
    list_all (\<lambda>shard. ps_byte_len shard \<le> sp_max_bytes policy) new \<and>
    map ps_name new = map (part_name base) [length parts..<length parts + length new]"
  using assms
proof (induction records arbitrary: part cur parts)
  case Nil
  show ?case
  proof (cases "cur = []")
    case True
    with Nil.prems show ?thesis
      by (intro exI [of _ "[]"]) (simp add: shard_flush_def)
  next
    case False
    let ?shard = "\<lparr>ps_bucket = bucket, ps_name = part_name base part, ps_byte_len = length (shard_bytes line_of cur),
       ps_record_keys = map gr_key cur, ps_sha256 = sha256_hex sha256 (shard_bytes line_of cur)\<rparr>"
    from False Nil.prems have "parts' = parts @ [?shard]"
      by (auto simp: shard_flush_def part_name_def Let_def)
    with False Nil.prems show ?thesis
      by (intro exI [of _ "[cur]"] exI [of _ "[?shard]"]) (simp add: describes_def)
  qed
next
  case (Cons r rs)
  from Cons.prems(1) obtain line where line: "line_of r = Inr line" and fits: "length line + 1 \<le> sp_max_bytes policy"
    by (auto split: sum.splits if_splits)
  have bytes: "shard_bytes line_of (cur' @ [r]) = shard_bytes line_of cur' @ line @ [CHR 0x0A]" for cur'
    by (simp add: shard_bytes_def line)
  have keys: "map gr_key (cur' @ [r]) = map gr_key cur' @ [gr_key r]" for cur' by simp
  show ?case
  proof (cases "cur \<noteq> [] \<and> length (shard_bytes line_of cur) + length line + 1 > sp_max_bytes policy")
    case True
    let ?shard = "\<lparr>ps_bucket = bucket, ps_name = part_name base part, ps_byte_len = length (shard_bytes line_of cur),
       ps_record_keys = map gr_key cur, ps_sha256 = sha256_hex sha256 (shard_bytes line_of cur)\<rparr>"
    from True have flush: "shard_flush sha256 bucket base (if length parts = 0 then 0 else part) (shard_bytes line_of cur, map gr_key cur, parts) =
        ([], [], parts @ [?shard])"
      using Cons.prems(3) by (simp add: shard_flush_def part_name_def)
    have "split_loop sha256 line_of policy bucket base rs (part + 1)
        (shard_bytes line_of [r], map gr_key [r], parts @ [?shard]) = Inr parts'"
      using Cons.prems(1) True fits flush bytes [of "[]"] by (simp add: line Let_def shard_bytes_def)
    from Cons.IH [OF this] Cons.prems(3) fits bytes [of "[]"] obtain groups new where
      ih: "parts' = parts @ [?shard] @ new" "concat groups = r # rs"
        "list_all2 (describes sha256 line_of bucket) groups new"
        "list_all (\<lambda>shard. ps_byte_len shard \<le> sp_max_bytes policy) new"
        "map ps_name new = map (part_name base) [Suc (length parts)..<Suc (length parts) + length new]"
      by (auto simp: shard_bytes_def)
    have "[length parts..<length parts + length (?shard # new)] = length parts # [Suc (length parts)..<Suc (length parts) + length new]"
      by (simp add: upt_conv_Cons del: upt_Suc)
    moreover have "describes sha256 line_of bucket cur ?shard" using True by (simp add: describes_def)
    ultimately show ?thesis using ih Cons.prems(2,3)
      by (intro exI [of _ "cur # groups"] exI [of _ "?shard # new"]) (simp del: upt_Suc)
  next
    case False
    then have next_step: "split_loop sha256 line_of policy bucket base rs part
        (shard_bytes line_of (cur @ [r]), map gr_key (cur @ [r]), parts) = Inr parts'"
      using Cons.prems(1) fits unfolding bytes keys by (auto simp: line)
    have "length (shard_bytes line_of (cur @ [r])) \<le> sp_max_bytes policy"
      using False fits unfolding bytes by (cases "cur = []") (auto simp: shard_bytes_def)
    from Cons.IH [OF next_step this Cons.prems(3)] show ?thesis by simp
  qed
qed

lemma split_loop_isl:
  "isl (split_loop sha256 line_of policy bucket base records part s) \<longleftrightarrow>
     list_ex (\<lambda>r. case line_of r of Inl e \<Rightarrow> True | Inr line \<Rightarrow> sp_max_bytes policy < length line + 1) records"
proof (induction records arbitrary: part s)
  case Nil
  show ?case by (cases s) (simp add: Let_def split: prod.split)
next
  case (Cons r rs)
  show ?case by (cases s) (auto simp: Let_def Cons.IH split: sum.split prod.split)
qed

section \<open>Names\<close>

lemma pad_zeros_inject: "pad_zeros w m = pad_zeros w n \<Longrightarrow> m = n"
proof -
  have "digits_value (replicate k CHR ''0'' @ show_nat i) = i" for k i
  proof -
    have "foldl (\<lambda>n c. 10 * n + (of_char c - 48)) 0 (replicate k CHR ''0'') = (0::nat)" by (induction k) auto
    then show ?thesis using show_nat_value [of i] by (simp add: digits_value_def)
  qed
  then show "pad_zeros w m = pad_zeros w n \<Longrightarrow> m = n" by (metis pad_zeros_def)
qed

lemma pad_zeros_no_slash: "CHR ''/'' \<notin> set (pad_zeros w n)"
  using show_nat_digits [of "CHR ''/''" n] by (auto simp: pad_zeros_def)

lemma bucket_name_inject: "bucket_name b n = bucket_name c n \<Longrightarrow> b = c"
  by (auto simp: bucket_name_def Let_def dest: pad_zeros_inject)

lemma bucket_name_no_slash: "CHR ''/'' \<notin> set (bucket_name b n)"
  by (simp add: bucket_name_def Let_def pad_zeros_no_slash)

lemma part_name_inject:
  assumes "CHR ''/'' \<notin> set base" and "CHR ''/'' \<notin> set base'" and "part_name base i = part_name base' j"
  shows "base = base' \<and> i = j"
proof -
  have cut: "takeWhile (\<lambda>c. c \<noteq> CHR ''/'') (part_name b k) = b" if "CHR ''/'' \<notin> set b" for b k
    using that by (induction b) (auto simp: part_name_def)
  have "base = base'" using cut [OF assms(1)] cut [OF assms(2)] assms(3) by metis
  with assms(3) show ?thesis by (auto simp: part_name_def split: if_splits dest: pad_zeros_inject)
qed

section \<open>The whole plan\<close>

lemma split_bucket_ok:
  assumes "split_bucket sha256 line_of records policy bucket = Inr parts"
  shows "\<exists>groups. concat groups = records \<and> list_all2 (describes sha256 line_of bucket) groups parts \<and>
    list_all (\<lambda>shard. ps_byte_len shard \<le> sp_max_bytes policy) parts \<and>
    map ps_name parts = map (part_name (bucket_name bucket (sp_bucket_count policy))) [0..<length parts]"
proof -
  from assms have "split_loop sha256 line_of policy bucket (bucket_name bucket (sp_bucket_count policy)) records 0
      (shard_bytes line_of [], map gr_key [], []) = Inr parts"
    by (simp add: split_bucket_def shard_bytes_def)
  from split_loop_ok [OF this] show ?thesis by (auto simp: shard_bytes_def)
qed

lemma describes_keys:
  "list_all2 (describes sha256 line_of bucket) groups parts \<Longrightarrow>
   concat (map ps_record_keys parts) = map gr_key (concat groups) \<and> (\<forall>shard\<in>set parts. ps_bucket shard = bucket) \<and>
   sum_list (map ps_byte_len parts) = length (shard_bytes line_of (concat groups))"
  by (induction rule: list_all2_induct) (auto simp: describes_def shard_bytes_append shard_bytes_def)

text \<open>What one bucket contributes.\<close>

definition bucket_parts_ok ::
  "(string \<Rightarrow> string) \<Rightarrow> ('j graph_record \<Rightarrow> string export_result) \<Rightarrow> shard_policy \<Rightarrow> 'j graph_record list \<Rightarrow> nat \<Rightarrow>
     planned_shard list \<Rightarrow> bool" where
  "bucket_parts_ok sha256 line_of policy records bucket parts \<longleftrightarrow>
     split_bucket sha256 line_of (owned_records sha256 policy records bucket) policy bucket = Inr parts"

lemma shard_loop_ok:
  "plan_loop sha256 line_of policy records buckets plan = Inr plan' \<longleftrightarrow>
   (\<exists>partss. list_all2 (bucket_parts_ok sha256 line_of policy records) buckets partss \<and> plan' = plan @ concat partss)"
proof (induction buckets arbitrary: plan)
  case Nil
  show ?case by auto
next
  case (Cons bucket buckets)
  show ?case
  proof (cases "split_bucket sha256 line_of (owned_records sha256 policy records bucket) policy bucket")
    case (Inl e)
    then show ?thesis by (auto simp: list_all2_Cons1 bucket_parts_ok_def)
  next
    case (Inr parts)
    then have "bucket_parts_ok sha256 line_of policy records bucket p \<longleftrightarrow> p = parts" for p
      by (auto simp: bucket_parts_ok_def)
    with Inr Cons.IH [of "plan @ parts"] show ?thesis by (auto simp: list_all2_Cons1)
  qed
qed

lemma plan_loop_isl:
  "isl (plan_loop sha256 line_of policy records buckets plan) \<longleftrightarrow>
   list_ex (\<lambda>bucket. isl (split_bucket sha256 line_of (owned_records sha256 policy records bucket) policy bucket)) buckets"
  by (induction buckets arbitrary: plan) (auto split: sum.split)

lemma bucket_parts:
  assumes "bucket_parts_ok sha256 line_of policy records bucket parts"
  shows "concat (map ps_record_keys parts) = map gr_key (owned_records sha256 policy records bucket)"
    and "\<forall>shard\<in>set parts. ps_bucket shard = bucket \<and> ps_byte_len shard \<le> sp_max_bytes policy"
    and "map ps_name parts = map (part_name (bucket_name bucket (sp_bucket_count policy))) [0..<length parts]"
    and "sum_list (map ps_byte_len parts) = length (shard_bytes line_of (owned_records sha256 policy records bucket))"
proof -
  from assms have "split_bucket sha256 line_of (owned_records sha256 policy records bucket) policy bucket = Inr parts"
    by (simp add: bucket_parts_ok_def)
  from split_bucket_ok [OF this] obtain groups where
    groups: "concat groups = owned_records sha256 policy records bucket" "list_all2 (describes sha256 line_of bucket) groups parts"
    and rest: "list_all (\<lambda>shard. ps_byte_len shard \<le> sp_max_bytes policy) parts"
      "map ps_name parts = map (part_name (bucket_name bucket (sp_bucket_count policy))) [0..<length parts]" by blast
  from describes_keys [OF groups(2)] groups(1) rest show
    "concat (map ps_record_keys parts) = map gr_key (owned_records sha256 policy records bucket)"
    "\<forall>shard\<in>set parts. ps_bucket shard = bucket \<and> ps_byte_len shard \<le> sp_max_bytes policy"
    "map ps_name parts = map (part_name (bucket_name bucket (sp_bucket_count policy))) [0..<length parts]"
    "sum_list (map ps_byte_len parts) = length (shard_bytes line_of (owned_records sha256 policy records bucket))"
    by (simp_all add: list_all_iff)
qed

lemma mset_by_buckets:
  assumes "distinct buckets"
  shows "mset (concat (map (\<lambda>b. sort_by c (filter (\<lambda>r. f r = b) records)) buckets)) = filter_mset (\<lambda>r. f r \<in> set buckets) (mset records)"
  using assms
proof (induction buckets)
  case Nil
  show ?case by simp
next
  case (Cons b buckets)
  then have "mset (concat (map (\<lambda>b. sort_by c (filter (\<lambda>r. f r = b) records)) buckets)) = filter_mset (\<lambda>r. f r \<in> set buckets) (mset records)"
    by simp
  moreover have "filter_mset (\<lambda>r. f r = b) M + filter_mset (\<lambda>r. f r \<in> set buckets) M = filter_mset (\<lambda>r. f r = b \<or> f r \<in> set buckets) M" for M
    using Cons.prems by (induction M) auto
  ultimately show ?case by (simp add: mset_filter)
qed

lemma strict_sorted_buckets: "sorted_wrt (<) (remdups_adj (sort xs))" for xs :: "nat list"
proof -
  have "sorted ys \<Longrightarrow> sorted_wrt (<) (remdups_adj ys)" for ys :: "nat list"
    by (induction ys rule: remdups_adj.induct) (auto simp: less_le)
  then show ?thesis by simp
qed

lemma distinct_part_names:
  assumes "list_all2 (bucket_parts_ok sha256 line_of policy records) buckets partss" and "distinct buckets"
  shows "distinct (map ps_name (concat partss)) \<and>
    set (map ps_name (concat partss)) \<subseteq> {part_name (bucket_name b (sp_bucket_count policy)) i | b i. b \<in> set buckets}"
  using assms
proof (induction rule: list_all2_induct)
  case Nil
  show ?case by simp
next
  case (Cons bucket buckets parts partss)
  note names = bucket_parts(3) [OF Cons.hyps(1)]
  let ?name = "\<lambda>b i. part_name (bucket_name b (sp_bucket_count policy)) i"
  have same: "?name b i = ?name c j \<longleftrightarrow> b = c \<and> i = j" for b c i j
    using part_name_inject [OF bucket_name_no_slash bucket_name_no_slash] bucket_name_inject by metis
  have "distinct (map ps_name parts)" unfolding names by (simp add: distinct_map inj_on_def same)
  moreover have mine: "\<exists>i. x = ?name bucket i" if "x \<in> set (map ps_name parts)" for x
    using that unfolding names by auto
  moreover have theirs: "\<exists>b i. x = ?name b i \<and> b \<in> set buckets" if "x \<in> set (map ps_name (concat partss))" for x
  proof -
    from Cons.IH Cons.prems have "set (map ps_name (concat partss)) \<subseteq> {?name b i | b i. b \<in> set buckets}" by simp
    with that show ?thesis by blast
  qed
  moreover have "set (map ps_name parts) \<inter> set (map ps_name (concat partss)) = {}"
  proof (rule ccontr)
    assume "\<not> ?thesis"
    then obtain x where x: "x \<in> set (map ps_name parts)" "x \<in> set (map ps_name (concat partss))" by blast
    from mine [OF x(1)] theirs [OF x(2)] Cons.prems show False by (auto simp: same)
  qed
  ultimately show ?case using Cons.IH Cons.prems
    by (simp only: concat.simps map_append distinct_append set_append list.set distinct.simps) blast
qed

text \<open>C17: A shard plan publishes every record exactly once: the keys of its shards are, with multiplicity, the
  keys of the records; every key lies in the bucket its digest names; no shard exceeds the byte cap, shard
  names are distinct, and the planned bytes are the bytes of the records.\<close>

theorem shards_publish_every_record_once:
  assumes "shard_plan_of sha256 line_of records policy = Inr plan"
  shows "mset (concat (map ps_record_keys plan)) = mset (map gr_key records) \<and>
    list_all (\<lambda>shard. list_all (\<lambda>key. bucket_of sha256 key (sp_bucket_count policy) = ps_bucket shard) (ps_record_keys shard)) plan \<and>
    respects_cap plan policy \<and> distinct (map ps_name plan) \<and>
    shard_total_bytes plan = length (shard_bytes line_of records)"
proof -
  let ?bucket = "\<lambda>r. bucket_of sha256 (gr_key r) (sp_bucket_count policy)"
  let ?buckets = "remdups_adj (sort (map ?bucket records))"
  obtain partss where ok: "list_all2 (bucket_parts_ok sha256 line_of policy records) ?buckets partss" and plan: "plan = concat partss"
    using assms by (auto simp: shard_plan_of_def shard_loop_ok)
  have distinct: "distinct ?buckets" using strict_sorted_buckets strict_sorted_iff by blast
  have each: "concat (map ps_record_keys (concat pss)) = map gr_key (concat (map (owned_records sha256 policy records) bs)) \<and>
      sum_list (map ps_byte_len (concat pss)) = length (shard_bytes line_of (concat (map (owned_records sha256 policy records) bs))) \<and>
      (\<forall>shard\<in>set (concat pss). ps_byte_len shard \<le> sp_max_bytes policy \<and>
         (\<forall>key\<in>set (ps_record_keys shard). bucket_of sha256 key (sp_bucket_count policy) = ps_bucket shard))"
    if "list_all2 (bucket_parts_ok sha256 line_of policy records) bs pss" for bs pss
    using that
  proof (induction rule: list_all2_induct)
    case Nil
    show ?case by (simp add: shard_bytes_def)
  next
    case (Cons b bs parts pss)
    note parts = bucket_parts [OF Cons.hyps(1)]
    have "bucket_of sha256 key (sp_bucket_count policy) = b" if "shard \<in> set parts" "key \<in> set (ps_record_keys shard)" for shard key
    proof -
      from that have "key \<in> set (concat (map ps_record_keys parts))" by auto
      then show ?thesis unfolding parts(1) by (auto simp: owned_records_def)
    qed
    with Cons.IH parts show ?case by (auto simp: shard_bytes_append)
  qed
  have all: "mset (concat (map (owned_records sha256 policy records) ?buckets)) = mset records"
  proof -
    have "mset (concat (map (owned_records sha256 policy records) ?buckets)) = filter_mset (\<lambda>r. ?bucket r \<in> set ?buckets) (mset records)"
      unfolding owned_records_def by (rule mset_by_buckets [OF distinct])
    also have "\<dots> = mset records" by (simp add: filter_mset_eq_conv)
    finally show ?thesis .
  qed
  have "length (shard_bytes line_of xs) = (\<Sum>r\<in>#mset xs. length (projr (line_of r)) + 1)" for xs
    by (induction xs) (simp_all add: shard_bytes_def)
  then have "length (shard_bytes line_of (concat (map (owned_records sha256 policy records) ?buckets))) = length (shard_bytes line_of records)"
    using all by simp
  moreover have "mset (map gr_key (concat (map (owned_records sha256 policy records) ?buckets))) = mset (map gr_key records)"
    using all by (simp only: mset_map)
  ultimately show ?thesis
    using each [OF ok] distinct_part_names [OF ok distinct]
    by (auto simp: plan respects_cap_def shard_total_bytes_def list_all_iff)
qed

text \<open>A plan is refused exactly when some record has no canonical line or does not fit a shard by itself.\<close>

text \<open>C40: Sharding fails exactly when some record cannot be encoded or its line with the line feed is longer than
  the cap; the number of buckets and the size of the set never make it fail.\<close>

theorem sharding_fails_iff_a_record_cannot_fit:
  "isl (shard_plan_of sha256 line_of records policy) \<longleftrightarrow>
     list_ex (\<lambda>r. case line_of r of Inl e \<Rightarrow> True | Inr line \<Rightarrow> sp_max_bytes policy < length line + 1) records"
proof -
  have "isl (split_bucket sha256 line_of (owned_records sha256 policy records bucket) policy bucket) \<longleftrightarrow>
      (\<exists>r\<in>set records. bucket_of sha256 (gr_key r) (sp_bucket_count policy) = bucket \<and>
         (case line_of r of Inl e \<Rightarrow> True | Inr line \<Rightarrow> sp_max_bytes policy < length line + 1))" for bucket
    by (auto simp: split_bucket_def split_loop_isl list_ex_iff owned_records_def)
  then show ?thesis by (auto simp: shard_plan_of_def plan_loop_isl list_ex_iff)
qed

lemma shards_for_bucket:
  assumes "list_all2 (bucket_parts_ok sha256 line_of policy records) buckets partss" and "distinct buckets"
  shows "shards_for (concat partss) bucket =
    (if bucket \<in> set buckets then projr (split_bucket sha256 line_of (owned_records sha256 policy records bucket) policy bucket)
     else [])"
  using assms
proof (induction rule: list_all2_induct)
  case Nil
  show ?case by (simp add: shards_for_def)
next
  case (Cons b buckets parts partss)
  have "\<forall>shard\<in>set parts. ps_bucket shard = b" using bucket_parts(2) [OF Cons.hyps(1)] by blast
  then have "filter (\<lambda>shard. ps_bucket shard = bucket) parts = (if bucket = b then parts else [])"
    by (auto simp: filter_empty_conv filter_id_conv)
  with Cons.IH Cons.prems Cons.hyps(1) show ?case
    by (auto simp: shards_for_def bucket_parts_ok_def)
qed

lemma shards_for_plan:
  assumes "shard_plan_of sha256 line_of records policy = Inr plan"
  shows "shards_for plan bucket =
    (if owned_records sha256 policy records bucket = [] then []
     else projr (split_bucket sha256 line_of (owned_records sha256 policy records bucket) policy bucket))"
proof -
  let ?buckets = "remdups_adj (sort (map (\<lambda>r. bucket_of sha256 (gr_key r) (sp_bucket_count policy)) records))"
  obtain partss where ok: "list_all2 (bucket_parts_ok sha256 line_of policy records) ?buckets partss" and plan: "plan = concat partss"
    using assms by (auto simp: shard_plan_of_def shard_loop_ok)
  have "distinct ?buckets" using strict_sorted_buckets strict_sorted_iff by blast
  moreover have "bucket \<in> set ?buckets \<longleftrightarrow> owned_records sha256 policy records bucket \<noteq> []"
    by (auto simp: owned_records_def filter_empty_conv)
  ultimately show ?thesis using shards_for_bucket [OF ok] by (simp add: plan)
qed

text \<open>Adding records to other buckets moves no shard of this one: its parts, their names, bytes and digests
  stay what they were.\<close>

theorem unrelated_records_move_no_shard:
  assumes "shard_plan_of sha256 line_of records policy = Inr plan"
    and "shard_plan_of sha256 line_of (records @ added) policy = Inr plan'"
    and "bucket \<notin> (\<lambda>r. bucket_of sha256 (gr_key r) (sp_bucket_count policy)) ` set added"
  shows "shards_for plan' bucket = shards_for plan bucket"
proof -
  have "filter (\<lambda>r. bucket_of sha256 (gr_key r) (sp_bucket_count policy) = bucket) added = []"
    using assms(3) by (auto simp: filter_empty_conv)
  then have "owned_records sha256 policy (records @ added) bucket = owned_records sha256 policy records bucket"
    by (simp add: owned_records_def)
  then show ?thesis by (simp add: shards_for_plan [OF assms(1)] shards_for_plan [OF assms(2)])
qed

section \<open>A sample\<close>

definition sample_line :: "string graph_record \<Rightarrow> string export_result" where
  "sample_line r = Inr (gr_key r @ gr_body r)"

definition sample_record :: "string \<Rightarrow> string \<Rightarrow> string graph_record" where
  "sample_record key body = \<lparr>gr_key = key, gr_kind = ''edge'', gr_body = body\<rparr>"

definition sample_set :: "string graph_record list" where
  "sample_set = [sample_record ''b'' ''22'', sample_record ''a'' ''1'', sample_record ''a'' ''33'']"

definition sample_policy :: shard_policy where
  "sample_policy = \<lparr>sp_bucket_count = 1, sp_max_bytes = 8\<rparr>"

text \<open>The second part is named as if below the first, which carries the name of the bucket itself; no part is
  ever called \<open>part-000\<close>.\<close>

lemma second_part_is_below_the_first:
  "case shard_plan_of id sample_line sample_set sample_policy of
     Inl e \<Rightarrow> False
   | Inr plan \<Rightarrow> map ps_name plan = [''bucket-000'', ''bucket-000/part-001''] \<and>
       map ps_record_keys plan = [[''a'', ''a''], [''b'']]"
  by code_simp

theorem shards_publish_every_record_once_witness:
  "\<exists>plan. shard_plan_of id sample_line sample_set sample_policy = Inr plan \<and>
     mset (concat (map ps_record_keys plan)) = {#''a'', ''a'', ''b''#} \<and> shard_total_bytes plan = 11"
proof -
  obtain plan where plan: "shard_plan_of id sample_line sample_set sample_policy = Inr plan"
    using second_part_is_below_the_first by (auto split: sum.splits)
  from shards_publish_every_record_once [OF plan] have
    "mset (concat (map ps_record_keys plan)) = mset (map gr_key sample_set)"
    "shard_total_bytes plan = length (shard_bytes sample_line sample_set)" by blast+
  with plan show ?thesis
    by (intro exI [of _ plan]) (simp add: sample_set_def sample_record_def shard_bytes_def sample_line_def)
qed

definition two_buckets :: shard_policy where
  "two_buckets = \<lparr>sp_bucket_count = 2, sp_max_bytes = 8\<rparr>"

theorem unrelated_records_move_no_shard_witness:
  "\<exists>plan plan'. shard_plan_of id sample_line sample_set two_buckets = Inr plan \<and>
     shard_plan_of id sample_line (sample_set @ [sample_record ''d'' ''4'']) two_buckets = Inr plan' \<and>
     shards_for plan' 1 = shards_for plan 1 \<and> shard_total_bytes plan = 11 \<and> shard_total_bytes plan' = 14"
proof -
  have "case shard_plan_of id sample_line sample_set two_buckets of Inl e \<Rightarrow> False | Inr plan \<Rightarrow> shard_total_bytes plan = 11"
    by code_simp
  then obtain plan where plan: "shard_plan_of id sample_line sample_set two_buckets = Inr plan" "shard_total_bytes plan = 11"
    by (auto split: sum.splits)
  have "case shard_plan_of id sample_line (sample_set @ [sample_record ''d'' ''4'']) two_buckets of
      Inl e \<Rightarrow> False | Inr plan \<Rightarrow> shard_total_bytes plan = 14" by code_simp
  then obtain plan' where plan': "shard_plan_of id sample_line (sample_set @ [sample_record ''d'' ''4'']) two_buckets = Inr plan'"
    "shard_total_bytes plan' = 14" by (auto split: sum.splits)
  have "1 \<notin> (\<lambda>r. bucket_of id (gr_key r) (sp_bucket_count two_buckets)) ` set [sample_record ''d'' ''4'']" by code_simp
  from unrelated_records_move_no_shard [OF plan(1) plan'(1) this] plan plan' show ?thesis by blast
qed

end
