(* ===== verification/ExpManifest.thy ===== *)
theory ExpManifest
  imports ExpShard
begin

text \<open>
  The generation manifest, \<^verbatim>\<open>graph-export/src/manifest.rs\<close>, and the gate a generation passes before it is
  published, \<^verbatim>\<open>graph-export/src/validate.rs\<close>.  JSON is the record \<open>manifest_json\<close>: \<open>mj_encode\<close> renders the
  canonical bytes of a manifest, \<open>mj_decode\<close> parses bytes that are the canonical encoding of a document with
  the contract's exact field sets, \<open>mj_canonical\<close> is the line-wise canonical form.
\<close>

definition ERR_IO :: string where "ERR_IO = ''export-io''"
definition ERR_CANONICAL :: string where "ERR_CANONICAL = ''export-canonical''"
definition ERR_INTEGRITY :: string where "ERR_INTEGRITY = ''export-integrity''"
definition ERR_MISSING :: string where "ERR_MISSING = ''export-missing''"
definition ERR_UNSUPPORTED :: string where "ERR_UNSUPPORTED = ''export-unsupported''"
definition ERR_LOCKED :: string where "ERR_LOCKED = ''export-locked''"
definition ERR_NOT_CANONICAL :: string where "ERR_NOT_CANONICAL = ''export-not-canonical''"

definition MANIFEST_SCHEMA_VERSION :: u32 where "MANIFEST_SCHEMA_VERSION = 1"
definition MAX_SHARD_BYTES :: nat where "MAX_SHARD_BYTES = 16777216"

definition FILE_ROLES :: "string list" where
  "FILE_ROLES = [''nodes'', ''edges'', ''symbol_index'', ''outgoing_index'', ''incoming_index'',
     ''architecture_summary'', ''coverage'']"

definition COVERAGE_STATUSES :: "string list" where
  "COVERAGE_STATUSES = [''complete_for_profile'', ''partial'', ''unsupported'']"

section \<open>The forms of a field\<close>

definition manifest_sha256_hex :: "string \<Rightarrow> bool" where
  "manifest_sha256_hex candidate \<longleftrightarrow>
     length candidate = 64 \<and> list_all (\<lambda>c. is_ascii_digit c \<or> CHR ''a'' \<le> c \<and> c \<le> CHR ''f'') candidate"

definition is_portable_relative :: "string \<Rightarrow> bool" where
  "is_portable_relative p =
     (if p = [] \<or> starts_with p ''/'' \<or> CHR 0x5C \<in> set p then False
      else if 1 < length p \<and> p ! 1 = CHR '':'' then False
      else \<not> list_ex (\<lambda>part. part = ''..'') (split_on CHR ''/'' p))"

definition is_ascii_lowercase :: "char \<Rightarrow> bool" where
  "is_ascii_lowercase c \<longleftrightarrow> CHR ''a'' \<le> c \<and> c \<le> CHR ''z''"

fun is_identifier :: "string \<Rightarrow> bool" where
  "is_identifier [] = False"
| "is_identifier (first # rest) =
     (if \<not> is_ascii_lowercase first then False
      else if length (first # rest) > 63 then False
      else list_all (\<lambda>c. is_ascii_lowercase c \<or> is_ascii_digit c \<or> c = CHR ''-'') rest)"

section \<open>The document\<close>

record manifest_entry =
  me_path :: string
  me_role :: string
  me_sha256 :: string
  me_bytes :: nat
  me_records :: nat

definition entry_from_bytes :: "(string \<Rightarrow> string) \<Rightarrow> string \<Rightarrow> string \<Rightarrow> string \<Rightarrow> nat \<Rightarrow> manifest_entry" where
  "entry_from_bytes sha256 p role bytes n =
     \<lparr>me_path = p, me_role = role, me_sha256 = sha256_hex sha256 bytes, me_bytes = length bytes, me_records = n\<rparr>"

definition entry_matches :: "(string \<Rightarrow> string) \<Rightarrow> manifest_entry \<Rightarrow> string \<Rightarrow> bool" where
  "entry_matches sha256 entry bytes \<longleftrightarrow> me_bytes entry = length bytes \<and> me_sha256 entry = sha256_hex sha256 bytes"

record coverage_block =
  cb_status :: string
  cb_input_files :: nat
  cb_processed_files :: nat
  cb_unresolved_references :: nat
  cb_unsupported_patterns :: "string list"

definition coverage_complete :: "nat \<Rightarrow> nat \<Rightarrow> nat \<Rightarrow> coverage_block" where
  "coverage_complete input_files processed_files unresolved_references =
     \<lparr>cb_status = ''complete_for_profile'', cb_input_files = input_files, cb_processed_files = processed_files,
      cb_unresolved_references = unresolved_references, cb_unsupported_patterns = []\<rparr>"

record manifest_header =
  mh_solution_id :: string
  mh_project_id :: string
  mh_analysis_profile :: string
  mh_generator_version :: string
  mh_analyzer_set_hash :: string
  mh_source_fingerprint :: string
  mh_config_fingerprint :: string
  mh_dependency_fingerprint :: string
  mh_coverage :: coverage_block

text \<open>\<open>GenerationManifest\<close> repeats the header's fields beside its version and its files.\<close>

record generation_manifest = manifest_header +
  gm_schema_version :: u32
  gm_files :: "manifest_entry list"

record manifest_json =
  mj_encode :: "generation_manifest \<Rightarrow> string export_result"
  mj_decode :: "string \<Rightarrow> generation_manifest export_result"
  mj_canonical :: "string \<Rightarrow> bool"

definition generation_id :: "(string \<Rightarrow> string) \<Rightarrow> manifest_json \<Rightarrow> generation_manifest \<Rightarrow> string export_result" where
  "generation_id sha256 json m =
     (case mj_encode json m of Inl e \<Rightarrow> Inl e | Inr bytes \<Rightarrow> Inr (sha256_hex sha256 bytes))"

definition record_count :: "generation_manifest \<Rightarrow> nat" where
  "record_count m = sum_list (map me_records (gm_files m))"

definition manifest_total_bytes :: "generation_manifest \<Rightarrow> nat" where
  "manifest_total_bytes m = sum_list (map me_bytes (gm_files m))"

section \<open>Structural validation\<close>

definition integrity :: "string \<Rightarrow> 'a export_result" where
  "integrity message = Inl (export_error_new ERR_INTEGRITY message)"

definition validate_head :: "generation_manifest \<Rightarrow> unit export_result" where
  "validate_head m =
     (if gm_schema_version m \<noteq> MANIFEST_SCHEMA_VERSION then
        integrity (''manifest schema major '' @ show_nat (gm_schema_version m) @ '' is not the supported major '' @
          show_nat MANIFEST_SCHEMA_VERSION)
      else if \<not> is_identifier (mh_solution_id m) then
        integrity (''manifest solution_id '' @ mh_solution_id m @ '' is not a portable identifier'')
      else if \<not> is_identifier (mh_project_id m) then
        integrity (''manifest project_id '' @ mh_project_id m @ '' is not a portable identifier'')
      else if list_ex (\<lambda>t. t = []) [mh_analysis_profile m, mh_generator_version m] then
        integrity ''manifest analysis_profile and generator_version must be non-empty''
      else
        (case find (\<lambda>digest. \<not> manifest_sha256_hex digest)
           [mh_analyzer_set_hash m, mh_source_fingerprint m, mh_config_fingerprint m, mh_dependency_fingerprint m] of
           Some digest \<Rightarrow> integrity (''manifest fingerprint '' @ digest @ '' is not a lowercase sha256 digest'')
         | None \<Rightarrow>
             if cb_status (mh_coverage m) \<notin> set COVERAGE_STATUSES then
               integrity (''manifest coverage status '' @ cb_status (mh_coverage m) @ '' is not supported'')
             else if cb_processed_files (mh_coverage m) > cb_input_files (mh_coverage m) then
               integrity (''manifest coverage processed_files '' @ show_nat (cb_processed_files (mh_coverage m)) @
                 '' exceeds input_files '' @ show_nat (cb_input_files (mh_coverage m)))
             else if gm_files m = [] then integrity ''manifest files must be a non-empty list''
             else Inr ()))"

fun validate_entries :: "string list \<Rightarrow> manifest_entry list \<Rightarrow> unit export_result" where
  "validate_entries roles [] = Inr ()"
| "validate_entries roles (entry # entries) =
     (if \<not> is_portable_relative (me_path entry) then
        integrity (''manifest entry path '' @ me_path entry @ '' is not a portable relative path'')
      else if me_role entry \<notin> set FILE_ROLES then
        integrity (''manifest entry role '' @ me_role entry @ '' is not supported'')
      else if me_role entry \<in> set roles then
        integrity (''manifest declares duplicate file role '' @ me_role entry)
      else if \<not> manifest_sha256_hex (me_sha256 entry) then
        integrity (''manifest entry '' @ me_path entry @ '' sha256 is not a lowercase digest'')
      else if me_bytes entry < 1 \<or> me_bytes entry > MAX_SHARD_BYTES then
        integrity (''manifest entry '' @ me_path entry @ '' declares '' @ show_nat (me_bytes entry) @
          '' bytes, outside 1..='' @ show_nat MAX_SHARD_BYTES)
      else validate_entries (roles @ [me_role entry]) entries)"

fun validate_paths :: "manifest_entry list \<Rightarrow> manifest_entry list \<Rightarrow> unit export_result" where
  "validate_paths seen [] = Inr ()"
| "validate_paths seen (entry # entries) =
     (if list_ex (\<lambda>e. me_path e = me_path entry) seen then
        integrity (''manifest declares duplicate file path '' @ me_path entry)
      else validate_paths (seen @ [entry]) entries)"

definition manifest_validate :: "generation_manifest \<Rightarrow> unit export_result" where
  "manifest_validate m =
     (case validate_head m of
        Inl e \<Rightarrow> Inl e
      | Inr _ \<Rightarrow>
          (case validate_entries [] (gm_files m) of
             Inl e \<Rightarrow> Inl e
           | Inr _ \<Rightarrow> validate_paths [] (gm_files m)))"

definition manifest_build :: "manifest_header \<Rightarrow> manifest_entry list \<Rightarrow> generation_manifest export_result" where
  "manifest_build header entries =
     (let m = manifest_header.extend header \<lparr>gm_schema_version = MANIFEST_SCHEMA_VERSION, gm_files = entries\<rparr>
      in case manifest_validate m of Inl e \<Rightarrow> Inl e | Inr _ \<Rightarrow> Inr m)"

definition from_canonical_bytes :: "manifest_json \<Rightarrow> string \<Rightarrow> generation_manifest export_result" where
  "from_canonical_bytes json raw =
     (case mj_decode json raw of
        Inl e \<Rightarrow> Inl e
      | Inr m \<Rightarrow> (case manifest_validate m of Inl e \<Rightarrow> Inl e | Inr _ \<Rightarrow> Inr m))"

section \<open>Verification against the files\<close>

type_synonym loaded_file = "string \<times> string \<times> nat"

fun verify_entries :: "(string \<Rightarrow> string) \<Rightarrow> loaded_file list \<Rightarrow> manifest_entry list \<Rightarrow> unit export_result" where
  "verify_entries sha256 loaded [] = Inr ()"
| "verify_entries sha256 loaded (entry # entries) =
     (case find (\<lambda>(p, _, _). p = me_path entry) loaded of
        None \<Rightarrow> Inl (export_error_new ERR_MISSING (''generation is missing '' @ me_path entry))
      | Some (_, bytes, n) \<Rightarrow>
          if \<not> entry_matches sha256 entry bytes then
            integrity (me_path entry @ '' does not match its manifest entry ('' @ show_nat (length bytes) @
              '' bytes vs '' @ show_nat (me_bytes entry) @ '')'')
          else if n \<noteq> me_records entry then
            integrity (me_path entry @ '' has '' @ show_nat n @ '' records but the manifest says '' @
              show_nat (me_records entry))
          else verify_entries sha256 loaded entries)"

fun verify_named :: "generation_manifest \<Rightarrow> loaded_file list \<Rightarrow> unit export_result" where
  "verify_named m [] = Inr ()"
| "verify_named m ((p, bytes, n) # loaded) =
     (if \<not> list_ex (\<lambda>entry. me_path entry = p) (gm_files m) then
        Inl (export_error_new ERR_MISSING (p @ '' is not named by the manifest''))
      else verify_named m loaded)"

definition manifest_verify :: "(string \<Rightarrow> string) \<Rightarrow> generation_manifest \<Rightarrow> loaded_file list \<Rightarrow> unit export_result" where
  "manifest_verify sha256 m loaded =
     (case manifest_validate m of
        Inl e \<Rightarrow> Inl e
      | Inr _ \<Rightarrow>
          (case verify_entries sha256 loaded (gm_files m) of
             Inl e \<Rightarrow> Inl e
           | Inr _ \<Rightarrow> verify_named m loaded))"

record validation_report =
  vr_generation_id :: string
  vr_files :: nat
  vr_records :: nat
  vr_bytes :: nat

fun validate_loop :: "manifest_json \<Rightarrow> loaded_file list \<Rightarrow> nat \<Rightarrow> nat export_result" where
  "validate_loop json [] bytes_total = Inr bytes_total"
| "validate_loop json ((p, bytes, n) # loaded) bytes_total =
     (if \<not> mj_canonical json (from_utf8_lossy bytes) then
        Inl (export_error_new ERR_NOT_CANONICAL (''published shard '' @ p @ '' is not in canonical form''))
      else validate_loop json loaded (bytes_total + length bytes))"

definition validate_files ::
  "(string \<Rightarrow> string) \<Rightarrow> manifest_json \<Rightarrow> loaded_file list \<Rightarrow> generation_manifest \<Rightarrow> validation_report export_result" where
  "validate_files sha256 json loaded m =
     (case manifest_verify sha256 m loaded of
        Inl e \<Rightarrow> Inl e
      | Inr _ \<Rightarrow>
          (case validate_loop json loaded 0 of
             Inl e \<Rightarrow> Inl e
           | Inr bytes_total \<Rightarrow>
               (case generation_id sha256 json m of
                  Inl e \<Rightarrow> Inl e
                | Inr gid \<Rightarrow> Inr \<lparr>vr_generation_id = gid, vr_files = length loaded, vr_records = record_count m,
                    vr_bytes = bytes_total\<rparr>)))"

text \<open>A generation directory: the bytes under each relative path.\<close>

type_synonym generation_dir = "string \<Rightarrow> string option"

definition read_manifest :: "manifest_json \<Rightarrow> generation_dir \<Rightarrow> generation_manifest export_result" where
  "read_manifest json d =
     (case d ''manifest.json'' of
        None \<Rightarrow> Inl (export_error_new ERR_MISSING ''no manifest'')
      | Some bytes \<Rightarrow> from_canonical_bytes json bytes)"

fun load_entries :: "generation_dir \<Rightarrow> manifest_entry list \<Rightarrow> loaded_file list \<Rightarrow> loaded_file list export_result" where
  "load_entries d [] loaded = Inr loaded"
| "load_entries d (entry # entries) loaded =
     (case d (me_path entry) of
        None \<Rightarrow> Inl (export_error_new ERR_MISSING (me_path entry))
      | Some bytes \<Rightarrow> load_entries d entries (loaded @ [(me_path entry, bytes, me_records entry)]))"

definition validate_generation ::
  "(string \<Rightarrow> string) \<Rightarrow> manifest_json \<Rightarrow> generation_dir \<Rightarrow> validation_report export_result" where
  "validate_generation sha256 json d =
     (case read_manifest json d of
        Inl e \<Rightarrow> Inl e
      | Inr m \<Rightarrow>
          (case load_entries d (gm_files m) [] of
             Inl e \<Rightarrow> Inl e
           | Inr loaded \<Rightarrow> validate_files sha256 json loaded m))"

section \<open>What is valid\<close>

definition entry_ok :: "manifest_entry \<Rightarrow> bool" where
  "entry_ok entry \<longleftrightarrow> is_portable_relative (me_path entry) \<and> me_role entry \<in> set FILE_ROLES \<and>
     manifest_sha256_hex (me_sha256 entry) \<and> 1 \<le> me_bytes entry \<and> me_bytes entry \<le> MAX_SHARD_BYTES"

lemma validate_entries_iff:
  "distinct roles \<Longrightarrow> validate_entries roles entries = Inr () \<longleftrightarrow>
     list_all entry_ok entries \<and> distinct (roles @ map me_role entries)"
  by (induction entries arbitrary: roles) (auto simp: integrity_def entry_ok_def)

lemma validate_paths_iff:
  "distinct (map me_path seen) \<Longrightarrow> validate_paths seen entries = Inr () \<longleftrightarrow> distinct (map me_path (seen @ entries))"
proof (induction entries arbitrary: seen)
  case Nil
  then show ?case by simp
next
  case (Cons entry entries)
  have "list_ex (\<lambda>e. me_path e = me_path entry) seen \<longleftrightarrow> me_path entry \<in> set (map me_path seen)"
    by (simp add: list_ex_iff image_iff) metis
  with Cons.IH [of "seen @ [entry]"] Cons.prems show ?case
    by (cases "me_path entry \<in> set (map me_path seen)") (simp_all add: integrity_def)
qed

lemma validate_head_iff:
  "validate_head m = Inr () \<longleftrightarrow>
     gm_schema_version m = 1 \<and> is_identifier (mh_solution_id m) \<and> is_identifier (mh_project_id m) \<and>
     mh_analysis_profile m \<noteq> [] \<and> mh_generator_version m \<noteq> [] \<and>
     list_all manifest_sha256_hex
       [mh_analyzer_set_hash m, mh_source_fingerprint m, mh_config_fingerprint m, mh_dependency_fingerprint m] \<and>
     cb_status (mh_coverage m) \<in> set COVERAGE_STATUSES \<and>
     cb_processed_files (mh_coverage m) \<le> cb_input_files (mh_coverage m) \<and> gm_files m \<noteq> []"
  by (auto simp: validate_head_def integrity_def MANIFEST_SCHEMA_VERSION_def split: option.split)

lemma result_bind_Inr: "(case r of Inl e \<Rightarrow> Inl e | Inr x \<Rightarrow> f x) = Inr y \<longleftrightarrow> (\<exists>x. r = Inr x \<and> f x = Inr y)"
  by (cases r) auto

lemma manifest_validate_iff:
  "manifest_validate m = Inr () \<longleftrightarrow>
     gm_schema_version m = 1 \<and> is_identifier (mh_solution_id m) \<and> is_identifier (mh_project_id m) \<and>
     mh_analysis_profile m \<noteq> [] \<and> mh_generator_version m \<noteq> [] \<and>
     list_all manifest_sha256_hex
       [mh_analyzer_set_hash m, mh_source_fingerprint m, mh_config_fingerprint m, mh_dependency_fingerprint m] \<and>
     cb_status (mh_coverage m) \<in> set COVERAGE_STATUSES \<and>
     cb_processed_files (mh_coverage m) \<le> cb_input_files (mh_coverage m) \<and> gm_files m \<noteq> [] \<and>
     list_all entry_ok (gm_files m) \<and> distinct (map me_role (gm_files m)) \<and> distinct (map me_path (gm_files m))"
  by (auto simp: manifest_validate_def result_bind_Inr validate_head_iff validate_entries_iff validate_paths_iff
      simp del: list.pred_inject)

text \<open>C39: A manifest is accepted exactly when it is of this version, its identifiers, fingerprints and coverage
  have the contract's form, it names at least one file and every file has a portable path, a digest, a size
  within the shard limit and one of the seven roles, with no role and no path named twice.\<close>

theorem manifest_valid_iff:
  "manifest_validate m = Inr () \<longleftrightarrow>
     gm_schema_version m = 1 \<and> is_identifier (mh_solution_id m) \<and> is_identifier (mh_project_id m) \<and>
     mh_analysis_profile m \<noteq> [] \<and> mh_generator_version m \<noteq> [] \<and>
     list_all manifest_sha256_hex
       [mh_analyzer_set_hash m, mh_source_fingerprint m, mh_config_fingerprint m, mh_dependency_fingerprint m] \<and>
     cb_status (mh_coverage m) \<in> set COVERAGE_STATUSES \<and>
     cb_processed_files (mh_coverage m) \<le> cb_input_files (mh_coverage m) \<and> gm_files m \<noteq> [] \<and>
     list_all entry_ok (gm_files m) \<and> distinct (map me_role (gm_files m)) \<and> distinct (map me_path (gm_files m))"
  by (rule manifest_validate_iff)

section \<open>What a validated generation is\<close>

lemma load_entries_iff:
  "load_entries d entries loaded = Inr loaded' \<longleftrightarrow>
     list_all (\<lambda>e. d (me_path e) \<noteq> None) entries \<and>
     loaded' = loaded @ map (\<lambda>e. (me_path e, the (d (me_path e)), me_records e)) entries"
  by (induction entries arbitrary: loaded) (auto split: option.split)

lemma find_loaded:
  assumes "distinct (map me_path entries)" and "entry \<in> set entries"
  shows "find (\<lambda>(p, _, _). p = me_path entry) (map (\<lambda>e. (me_path e, f e, me_records e)) entries) =
    Some (me_path entry, f entry, me_records entry)"
  using assms by (induction entries) auto

lemma verify_entries_iff:
  assumes "distinct (map me_path all)" and "set entries \<subseteq> set all"
  shows "verify_entries sha256 (map (\<lambda>e. (me_path e, f e, me_records e)) all) entries = Inr () \<longleftrightarrow>
    list_all (\<lambda>e. entry_matches sha256 e (f e)) entries"
  using assms(2) by (induction entries) (auto simp: find_loaded [OF assms(1)] integrity_def)

lemma verify_named_iff:
  "verify_named m loaded = Inr () \<longleftrightarrow> fst ` set loaded \<subseteq> me_path ` set (gm_files m)"
proof (induction loaded)
  case Nil
  show ?case by simp
next
  case (Cons l loaded)
  obtain p bytes n where l: "l = (p, bytes, n)" using prod_cases3 by blast
  have "list_ex (\<lambda>entry. me_path entry = p) (gm_files m) \<longleftrightarrow> p \<in> me_path ` set (gm_files m)"
    by (simp add: list_ex_iff image_iff) metis
  with Cons show ?case by (simp add: l)
qed

lemma validate_loop_iff:
  "validate_loop json loaded n = Inr k \<longleftrightarrow>
     list_all (\<lambda>(p, bytes, r). mj_canonical json (from_utf8_lossy bytes)) loaded \<and>
     k = n + sum_list (map (\<lambda>(p, bytes, r). length bytes) loaded)"
  by (induction loaded arbitrary: n) (auto split: if_splits)

text \<open>A shard on the disk is the one its entry records.\<close>

definition shard_intact :: "(string \<Rightarrow> string) \<Rightarrow> manifest_json \<Rightarrow> generation_dir \<Rightarrow> manifest_entry \<Rightarrow> bool" where
  "shard_intact sha256 json d entry \<longleftrightarrow>
     (\<exists>bytes. d (me_path entry) = Some bytes \<and> length bytes = me_bytes entry \<and>
        sha256_hex sha256 bytes = me_sha256 entry \<and> mj_canonical json (from_utf8_lossy bytes))"

lemma verify_loaded:
  assumes "manifest_validate m = Inr ()" and "list_all (\<lambda>e. d (me_path e) \<noteq> None) (gm_files m)"
  shows "validate_files sha256 json (map (\<lambda>e. (me_path e, the (d (me_path e)), me_records e)) (gm_files m)) m = Inr report \<longleftrightarrow>
    list_all (shard_intact sha256 json d) (gm_files m) \<and>
    (\<exists>gid. generation_id sha256 json m = Inr gid \<and>
       report = \<lparr>vr_generation_id = gid, vr_files = length (gm_files m), vr_records = record_count m,
         vr_bytes = manifest_total_bytes m\<rparr>)"
proof -
  let ?loaded = "map (\<lambda>e. (me_path e, the (d (me_path e)), me_records e)) (gm_files m)"
  have paths: "distinct (map me_path (gm_files m))" using assms(1) by (simp add: manifest_validate_def result_bind_Inr validate_paths_iff)
  have verify: "manifest_verify sha256 m ?loaded = Inr () \<longleftrightarrow>
      list_all (\<lambda>e. entry_matches sha256 e (the (d (me_path e)))) (gm_files m)"
    using assms(1) verify_entries_iff [OF paths subset_refl, of sha256 "\<lambda>e. the (d (me_path e))"]
    by (auto simp: manifest_verify_def result_bind_Inr verify_named_iff)
  have intact: "shard_intact sha256 json d e \<longleftrightarrow>
      entry_matches sha256 e (the (d (me_path e))) \<and> mj_canonical json (from_utf8_lossy (the (d (me_path e))))"
    if "e \<in> set (gm_files m)" for e
    using assms(2) that by (auto simp: shard_intact_def entry_matches_def list_all_iff)
  have bytes: "sum_list (map (\<lambda>(p, bytes, r). length bytes) ?loaded) = manifest_total_bytes m"
    if "list_all (\<lambda>e. entry_matches sha256 e (the (d (me_path e)))) (gm_files m)"
    using that by (auto simp: manifest_total_bytes_def comp_def entry_matches_def list_all_iff intro!: arg_cong [of _ _ sum_list])
  show ?thesis
    using intact bytes
    by (auto simp: validate_files_def result_bind_Inr verify validate_loop_iff list_all_iff record_count_def split: sum.splits)
qed

lemma validate_generation_iff:
  "validate_generation sha256 json d = Inr report \<longleftrightarrow>
     (\<exists>raw m gid. d ''manifest.json'' = Some raw \<and> mj_decode json raw = Inr m \<and> manifest_validate m = Inr () \<and>
        list_all (shard_intact sha256 json d) (gm_files m) \<and> generation_id sha256 json m = Inr gid \<and>
        report = \<lparr>vr_generation_id = gid, vr_files = length (gm_files m), vr_records = record_count m,
          vr_bytes = manifest_total_bytes m\<rparr>)"
proof -
  have present: "list_all (\<lambda>e. d (me_path e) \<noteq> None) entries" if "list_all (shard_intact sha256 json d) entries" for entries
    using that by (auto simp: list_all_iff shard_intact_def)
  have "validate_generation sha256 json d = Inr report \<longleftrightarrow>
      (\<exists>raw m. d ''manifest.json'' = Some raw \<and> mj_decode json raw = Inr m \<and> manifest_validate m = Inr () \<and>
         list_all (\<lambda>e. d (me_path e) \<noteq> None) (gm_files m) \<and>
         validate_files sha256 json (map (\<lambda>e. (me_path e, the (d (me_path e)), me_records e)) (gm_files m)) m = Inr report)"
    by (auto simp: validate_generation_def read_manifest_def from_canonical_bytes_def result_bind_Inr load_entries_iff
        split: option.split)
  also have "\<dots> \<longleftrightarrow> (\<exists>raw m gid. d ''manifest.json'' = Some raw \<and> mj_decode json raw = Inr m \<and> manifest_validate m = Inr () \<and>
        list_all (shard_intact sha256 json d) (gm_files m) \<and> generation_id sha256 json m = Inr gid \<and>
        report = \<lparr>vr_generation_id = gid, vr_files = length (gm_files m), vr_records = record_count m,
          vr_bytes = manifest_total_bytes m\<rparr>)"
    using verify_loaded present by blast
  finally show ?thesis .
qed

text \<open>A generation directory is accepted exactly when its manifest is the canonical encoding of a valid
  document and every shard that document names is there, byte for byte of the recorded length and digest and
  in canonical form; the report then carries the identity, the files and the totals of the manifest.\<close>

theorem generation_accepted_iff:
  "validate_generation sha256 json d = Inr report \<longleftrightarrow>
     (\<exists>raw m gid. d ''manifest.json'' = Some raw \<and> mj_decode json raw = Inr m \<and> manifest_validate m = Inr () \<and>
        list_all (shard_intact sha256 json d) (gm_files m) \<and> generation_id sha256 json m = Inr gid \<and>
        report = \<lparr>vr_generation_id = gid, vr_files = length (gm_files m), vr_records = record_count m,
          vr_bytes = manifest_total_bytes m\<rparr>)"
  by (rule validate_generation_iff)

section \<open>Record counts\<close>

definition sample_entry :: "nat \<Rightarrow> manifest_entry" where
  "sample_entry n = \<lparr>me_path = ''nodes.json'', me_role = ''nodes'', me_sha256 = replicate 64 CHR ''a'', me_bytes = 3,
     me_records = n\<rparr>"

definition sample_manifest :: "nat \<Rightarrow> generation_manifest" where
  "sample_manifest n = \<lparr>mh_solution_id = ''s'', mh_project_id = ''p'', mh_analysis_profile = ''default'',
     mh_generator_version = ''1'', mh_analyzer_set_hash = replicate 64 CHR ''a'', mh_source_fingerprint = replicate 64 CHR ''a'',
     mh_config_fingerprint = replicate 64 CHR ''a'', mh_dependency_fingerprint = replicate 64 CHR ''a'',
     mh_coverage = coverage_complete 1 1 0, gm_schema_version = 1, gm_files = [sample_entry n]\<rparr>"

definition sample_json :: "nat \<Rightarrow> manifest_json" where
  "sample_json n = \<lparr>mj_encode = (\<lambda>_. Inr ''m''), mj_decode = (\<lambda>_. Inr (sample_manifest n)), mj_canonical = (\<lambda>_. True)\<rparr>"

definition sample_dir :: generation_dir where
  "sample_dir = [''manifest.json'' \<mapsto> ''m'', ''nodes.json'' \<mapsto> ''[]'' @ [CHR 0x0A]]"

definition constant_digest :: "string \<Rightarrow> string" where
  "constant_digest bytes = replicate 32 (CHR 0xAA)"

lemma constant_digest_hex: "sha256_hex constant_digest bytes = replicate 64 CHR ''a''"
  unfolding sha256_hex_def constant_digest_def by code_simp

lemma sample_manifest_valid: "manifest_validate (sample_manifest n) = Inr ()"
proof -
  have "manifest_sha256_hex (replicate 64 CHR ''a'')" by code_simp
  moreover have "is_portable_relative ''nodes.json''" "is_identifier ''s''" "is_identifier ''p''" by code_simp+
  ultimately show ?thesis
    by (simp add: manifest_validate_iff sample_manifest_def sample_entry_def coverage_complete_def COVERAGE_STATUSES_def
      entry_ok_def FILE_ROLES_def MAX_SHARD_BYTES_def)
qed

text \<open>The record count of a file is taken from the manifest itself when a directory is validated: an empty
  array passes for any count.\<close>

lemma record_counts_are_not_checked:
  "\<exists>report. validate_generation constant_digest (sample_json n) sample_dir = Inr report \<and> vr_records report = n"
proof -
  have "shard_intact constant_digest (sample_json n) sample_dir (sample_entry n)"
    by (simp add: shard_intact_def sample_json_def sample_dir_def sample_entry_def constant_digest_hex)
  then show ?thesis
    using sample_manifest_valid [of n]
    by (intro exI [of _ "\<lparr>vr_generation_id = sha256_hex constant_digest ''m'', vr_files = 1, vr_records = n, vr_bytes = 3\<rparr>"])
      (auto simp: validate_generation_iff generation_id_def sample_json_def sample_dir_def sample_manifest_def record_count_def
        manifest_total_bytes_def sample_entry_def)
qed

end
