(* ===== verification/ExpPublish.thy ===== *)
theory ExpPublish
  imports ExpManifest UpdResolve
begin

text \<open>
  The atomic pointer of a lane and the recovery of a publication that a crash interrupted,
  \<^verbatim>\<open>graph-export/src/pointer.rs\<close> and \<^verbatim>\<open>graph-export/src/recovery.rs\<close>.  The lane is what the
  two modules see of an export root: the pointer file, its temporary, the staged and the installed
  generations.  A failing system call is told by \<open>io_faults\<close>; JSON is the record \<open>pointer_json\<close>.
\<close>

section \<open>The pointer document\<close>

definition POINTER_FILE :: string where "POINTER_FILE = ''current.json''"
definition ERR_TORN_POINTER :: string where "ERR_TORN_POINTER = ''export-pointer-torn''"
definition POINTER_SCHEMA_VERSION :: u32 where "POINTER_SCHEMA_VERSION = 1"

record current_pointer =
  cu_generation_id :: string
  cu_manifest_sha256 :: string
  cu_schema_version :: u32

definition current_pointer_new :: "string \<Rightarrow> current_pointer" where
  "current_pointer_new gid =
     \<lparr>cu_generation_id = gid, cu_manifest_sha256 = gid, cu_schema_version = POINTER_SCHEMA_VERSION\<rparr>"

definition is_self_consistent :: "current_pointer \<Rightarrow> bool" where
  "is_self_consistent p \<longleftrightarrow>
     length (cu_generation_id p) = 64 \<and> cu_generation_id p = cu_manifest_sha256 p \<and>
     list_all (\<lambda>c. is_ascii_hexdigit c \<and> \<not> is_ascii_uppercase c) (cu_generation_id p)"

text \<open>\<open>pj_encode\<close> renders the sorted map of the three fields or says why it cannot, \<open>pj_decode\<close> is the derived
  reader, whose missing version is version 1.\<close>

record pointer_json =
  pj_encode :: "current_pointer \<Rightarrow> string + string"
  pj_decode :: "string \<Rightarrow> string + current_pointer"

definition pointer_canonical_bytes :: "pointer_json \<Rightarrow> current_pointer \<Rightarrow> string export_result" where
  "pointer_canonical_bytes json p =
     (case pj_encode json p of
        Inl e \<Rightarrow> Inl (export_error_new ERR_CANONICAL (''pointer: '' @ e))
      | Inr body \<Rightarrow> Inr (body @ [CHR 0x0A]))"

datatype pointer_strategy = AtomicReplace | UnsupportedStrategy

section \<open>The lane and its system calls\<close>

type_synonym gen_files = "(string, string) btree_map"

record lane =
  ln_root :: string
  ln_pointer :: "string option"
  ln_temporary :: "string option"
  ln_staging :: "(string, gen_files) btree_map"
  ln_generations :: "(string, gen_files) btree_map"

datatype io_call = CreateDirs | CreateTemporary | WriteTemporary string | SyncTemporary | RenameTemporary
  | ReadPointer | ReadStaging | InstallStaged string | RemoveStaged string

text \<open>What a call that fails reports, and what a write that fails leaves of its bytes.\<close>

record io_faults =
  if_error :: "io_call \<Rightarrow> string option"
  if_torn :: "string \<Rightarrow> string"

definition io_error :: "string \<Rightarrow> export_error" where
  "io_error message = export_error_new ERR_IO message"

fun call_effect :: "io_call \<Rightarrow> lane \<Rightarrow> lane" where
  "call_effect CreateTemporary l = l\<lparr>ln_temporary := Some []\<rparr>"
| "call_effect (WriteTemporary body) l = l\<lparr>ln_temporary := Some body\<rparr>"
| "call_effect RenameTemporary l = l\<lparr>ln_pointer := ln_temporary l, ln_temporary := None\<rparr>"
| "call_effect (InstallStaged gid) l =
     (case bt_get (ln_staging l) gid of
        None \<Rightarrow> l
      | Some d \<Rightarrow> l\<lparr>ln_staging := bt_remove gid (ln_staging l), ln_generations := bt_insert gid d (ln_generations l)\<rparr>)"
| "call_effect (RemoveStaged gid) l = l\<lparr>ln_staging := bt_remove gid (ln_staging l)\<rparr>"
| "call_effect _ l = l"

text \<open>A failed rename removes the temporary file; a failed write leaves a part of it.\<close>

fun call_failure :: "io_faults \<Rightarrow> io_call \<Rightarrow> lane \<Rightarrow> lane" where
  "call_failure faults (WriteTemporary body) l = l\<lparr>ln_temporary := Some (if_torn faults body)\<rparr>"
| "call_failure faults RenameTemporary l = l\<lparr>ln_temporary := None\<rparr>"
| "call_failure faults _ l = l"

fun run_calls :: "io_faults \<Rightarrow> io_call list \<Rightarrow> lane \<Rightarrow> unit export_result \<times> lane" where
  "run_calls faults [] l = (Inr (), l)"
| "run_calls faults (c # calls) l =
     (case if_error faults c of
        Some e \<Rightarrow> (Inl (io_error e), call_failure faults c l)
      | None \<Rightarrow> run_calls faults calls (call_effect c l))"

text \<open>Every lane a process killed at any moment of the run may leave: before each call, inside a failing or
  unfinished one, and after the last.\<close>

fun crash_states :: "io_faults \<Rightarrow> io_call list \<Rightarrow> lane \<Rightarrow> lane list" where
  "crash_states faults [] l = [l]"
| "crash_states faults (c # calls) l =
     l # call_failure faults c l #
       (case if_error faults c of Some e \<Rightarrow> [] | None \<Rightarrow> crash_states faults calls (call_effect c l))"

section \<open>Reading and replacing the pointer\<close>

definition pointer_path :: "lane \<Rightarrow> string" where
  "pointer_path l = ln_root l @ ''/'' @ POINTER_FILE"

definition pointer_read :: "io_faults \<Rightarrow> pointer_json \<Rightarrow> lane \<Rightarrow> current_pointer option export_result" where
  "pointer_read faults json l =
     (case ln_pointer l of
        None \<Rightarrow> Inr None
      | Some bytes \<Rightarrow>
          (case if_error faults ReadPointer of
             Some e \<Rightarrow> Inl (io_error e)
           | None \<Rightarrow>
               (case pj_decode json bytes of
                  Inl e \<Rightarrow> Inl (export_error_new ERR_TORN_POINTER (pointer_path l @ '' is not a complete pointer: '' @ e))
                | Inr p \<Rightarrow>
                    if cu_schema_version p \<noteq> POINTER_SCHEMA_VERSION then
                      Inl (export_error_new ERR_UNSUPPORTED
                        (pointer_path l @ '' declares pointer schema_version '' @ show_nat (cu_schema_version p) @
                         '' but this reader implements '' @ show_nat POINTER_SCHEMA_VERSION))
                    else if \<not> is_self_consistent p then
                      Inl (export_error_new ERR_TORN_POINTER (pointer_path l @ '' is not self-consistent''))
                    else Inr (Some p))))"

text \<open>The pointer is encoded when the temporary file is open; without an encoding nothing more is called.\<close>

definition replace_calls :: "pointer_json \<Rightarrow> current_pointer \<Rightarrow> io_call list" where
  "replace_calls json p =
     [CreateDirs, CreateTemporary] @
     (case pointer_canonical_bytes json p of
        Inl _ \<Rightarrow> []
      | Inr body \<Rightarrow> [WriteTemporary body, SyncTemporary, RenameTemporary])"

definition pointer_replace ::
  "io_faults \<Rightarrow> pointer_json \<Rightarrow> current_pointer \<Rightarrow> pointer_strategy \<Rightarrow> lane \<Rightarrow> unit export_result \<times> lane" where
  "pointer_replace faults json p strategy l =
     (if strategy = UnsupportedStrategy then
        (Inl (export_error_new ERR_UNSUPPORTED
           ''refusing to remove the current pointer before renaming: that leaves a window with no pointer''), l)
      else if \<not> is_self_consistent p then
        (Inl (export_error_new ERR_TORN_POINTER ''refusing to publish an inconsistent pointer''), l)
      else
        (case run_calls faults (replace_calls json p) l of
           (Inl e, l) \<Rightarrow> (Inl e, l)
         | (Inr _, l) \<Rightarrow> (map_sum id (\<lambda>_. ()) (pointer_canonical_bytes json p), l)))"

section \<open>Recovery\<close>

definition REASON_STAGING_INCOMPLETE :: string where
  "REASON_STAGING_INCOMPLETE = ''incomplete-staging-never-becomes-current''"
definition REASON_CURRENT_GENERATION_MISSING :: string where
  "REASON_CURRENT_GENERATION_MISSING = ''current-generation-is-missing''"
definition REASON_CLEAN :: string where
  "REASON_CLEAN = ''publication-state-is-consistent''"

record staging_observation =
  so_generation_id :: string
  so_sealed :: bool

record recovery_state =
  rs_pointer :: "current_pointer option"
  rs_pointer_target_present :: bool
  rs_pinned :: "string option"
  rs_staging :: "staging_observation list"

datatype recovery_action = NothingToDo | InstallSealed string | DiscardStaging string string
  | RestorePinned string string | ReportState string

fun describe :: "recovery_action \<Rightarrow> string" where
  "describe NothingToDo = ''nothing to resume''"
| "describe (InstallSealed gid) = ''install sealed generation '' @ gid"
| "describe (DiscardStaging gid reason) = ''discard staging '' @ gid @ '': '' @ reason"
| "describe (RestorePinned gid reason) = ''restore pinned generation '' @ gid @ '': '' @ reason"
| "describe (ReportState reason) = ''report: '' @ reason"

definition recovery_plan :: "recovery_state \<Rightarrow> recovery_action" where
  "recovery_plan state =
     (case rs_pointer state of
        Some p \<Rightarrow>
          if rs_pointer_target_present state then NothingToDo
          else
            (case rs_pinned state of
               Some pinned \<Rightarrow>
                 if pinned \<noteq> cu_generation_id p then RestorePinned pinned REASON_CURRENT_GENERATION_MISSING
                 else ReportState REASON_CURRENT_GENERATION_MISSING
             | None \<Rightarrow> ReportState REASON_CURRENT_GENERATION_MISSING)
      | None \<Rightarrow>
          (case find so_sealed (rs_staging state) of
             Some sealed \<Rightarrow> InstallSealed (so_generation_id sealed)
           | None \<Rightarrow>
               (case rs_staging state of
                  incomplete # _ \<Rightarrow> DiscardStaging (so_generation_id incomplete) REASON_STAGING_INCOMPLETE
                | [] \<Rightarrow>
                    (case rs_pinned state of
                       Some pinned \<Rightarrow> RestorePinned pinned REASON_CLEAN
                     | None \<Rightarrow> NothingToDo))))"

definition recovery_observe ::
  "(string \<Rightarrow> string) \<Rightarrow> manifest_json \<Rightarrow> io_faults \<Rightarrow> pointer_json \<Rightarrow> lane \<Rightarrow> string option \<Rightarrow> recovery_state export_result" where
  "recovery_observe sha256 mjson faults json l pinned =
     (case pointer_read faults json l of
        Inl e \<Rightarrow> Inl e
      | Inr pointer \<Rightarrow>
          (let present = (case pointer of
                 Some p \<Rightarrow>
                   (case bt_get (ln_generations l) (cu_generation_id p) of
                      None \<Rightarrow> False
                    | Some d \<Rightarrow> \<not> isl (validate_generation sha256 mjson (bt_get d)))
               | None \<Rightarrow> False)
           in case (if ln_staging l = [] then None else if_error faults ReadStaging) of
                Some e \<Rightarrow> Inl (io_error e)
              | None \<Rightarrow>
                  Inr \<lparr>rs_pointer = pointer, rs_pointer_target_present = present, rs_pinned = pinned,
                    rs_staging = map (\<lambda>(gid, d). \<lparr>so_generation_id = gid,
                      so_sealed = (\<not> isl (read_manifest mjson (bt_get d)))\<rparr>) (ln_staging l)\<rparr>))"

definition recovery_resume ::
  "(string \<Rightarrow> string) \<Rightarrow> manifest_json \<Rightarrow> io_faults \<Rightarrow> pointer_json \<Rightarrow> lane \<Rightarrow> string option \<Rightarrow>
     recovery_action export_result \<times> lane" where
  "recovery_resume sha256 mjson faults json l pinned =
     (case recovery_observe sha256 mjson faults json l pinned of
        Inl e \<Rightarrow> (Inl e, l)
      | Inr state \<Rightarrow>
          (let action = recovery_plan state
           in case action of
                InstallSealed gid \<Rightarrow>
                  (case read_manifest mjson (\<lambda>p. Option.bind (bt_get (ln_staging l) gid) (\<lambda>d. bt_get d p)) of
                     Inl e \<Rightarrow> (Inl e, l)
                   | Inr manifest \<Rightarrow>
                       (case (if bt_get (ln_generations l) gid \<noteq> None then (Inr (), l)
                              else run_calls faults [CreateDirs, InstallStaged gid] l) of
                          (Inl e, l) \<Rightarrow> (Inl e, l)
                        | (Inr _, l) \<Rightarrow>
                            (case generation_id sha256 mjson manifest of
                               Inl e \<Rightarrow> (Inl e, l)
                             | Inr mid \<Rightarrow>
                                 (case pointer_replace faults json (current_pointer_new mid) AtomicReplace l of
                                    (Inl e, l) \<Rightarrow> (Inl e, l)
                                  | (Inr _, l) \<Rightarrow> (Inr action, l)))))
              | DiscardStaging gid _ \<Rightarrow>
                  (case (if bt_get (ln_staging l) gid = None then (Inr (), l) else run_calls faults [RemoveStaged gid] l) of
                     (Inl e, l) \<Rightarrow> (Inl e, l)
                   | (Inr _, l) \<Rightarrow> (Inr action, l))
              | _ \<Rightarrow> (Inr action, l)))"

section \<open>The swap\<close>


lemma replace_crash_pointer:
  "l' \<in> set (crash_states faults (replace_calls json p) l) \<Longrightarrow>
   ln_root l' = ln_root l \<and>
   (ln_pointer l' = ln_pointer l \<or> (\<exists>bytes. pointer_canonical_bytes json p = Inr bytes \<and> ln_pointer l' = Some bytes)) \<and>
   ln_generations l' = ln_generations l \<and> ln_staging l' = ln_staging l"
  by (cases "pointer_canonical_bytes json p") (auto simp: replace_calls_def split: option.splits)

text \<open>C16: Killed at any moment of a replacement, with any of its system calls failing and any part of the
  temporary file written, a lane shows its reader either the pointer it had or the new one, complete; a
  replacement that reports success shows the new one, and one that reports an error, of a system call or of the
  encoding, leaves the old one.\<close>

theorem pointer_swap_is_atomic:
  assumes "is_self_consistent p" and "cu_schema_version p = POINTER_SCHEMA_VERSION"
    and "\<And>bytes. pointer_canonical_bytes json p = Inr bytes \<Longrightarrow> pj_decode json bytes = Inr p"
    and "if_error faults ReadPointer = None"
  shows "list_all (\<lambda>l'. pointer_read faults json l' = pointer_read faults json l \<or> pointer_read faults json l' = Inr (Some p))
      (crash_states faults (replace_calls json p) l) \<and>
    (case pointer_replace faults json p AtomicReplace l of
       (Inl e, l') \<Rightarrow> ln_pointer l' = ln_pointer l \<and> (ee_code e = ERR_IO \<or> pointer_canonical_bytes json p = Inl e)
     | (Inr _, l') \<Rightarrow> pointer_read faults json l' = Inr (Some p))"
proof
  have new: "pointer_read faults json l' = Inr (Some p)"
    if "pointer_canonical_bytes json p = Inr bytes" "ln_pointer l' = Some bytes" for l' bytes
    using assms that by (simp add: pointer_read_def)
  have same: "pointer_read faults json l' = pointer_read faults json l"
    if "ln_root l' = ln_root l" "ln_pointer l' = ln_pointer l" for l'
  proof -
    have "pointer_path l' = pointer_path l" using that by (simp add: pointer_path_def)
    then show ?thesis unfolding pointer_read_def that(2) by (rule ssubst) (rule refl)
  qed
  show "list_all (\<lambda>l'. pointer_read faults json l' = pointer_read faults json l \<or> pointer_read faults json l' = Inr (Some p))
      (crash_states faults (replace_calls json p) l)"
    unfolding list_all_iff using replace_crash_pointer new same by blast
  show "case pointer_replace faults json p AtomicReplace l of
       (Inl e, l') \<Rightarrow> ln_pointer l' = ln_pointer l \<and> (ee_code e = ERR_IO \<or> pointer_canonical_bytes json p = Inl e)
     | (Inr _, l') \<Rightarrow> pointer_read faults json l' = Inr (Some p)"
  proof (cases "pointer_canonical_bytes json p")
    case (Inl e)
    with assms(1) show ?thesis
      by (simp add: pointer_replace_def replace_calls_def io_error_def export_error_new_def split: option.split)
  next
    case (Inr bytes)
    with assms(1) new [OF Inr] show ?thesis
      by (simp add: pointer_replace_def replace_calls_def io_error_def export_error_new_def split: option.split)
  qed
qed

section \<open>What recovery does to a lane\<close>














section \<open>Corners of recovery\<close>

text \<open>To restore the pinned generation is only announced.\<close>

lemma restore_pinned_changes_nothing:
  "recovery_resume sha256 mjson faults json l pinned = (Inr (RestorePinned gid reason), l') \<Longrightarrow> l' = l"
  by (auto simp: recovery_resume_def Let_def split: sum.splits recovery_action.splits prod.splits if_splits option.splits)

definition no_faults :: io_faults where
  "no_faults = \<lparr>if_error = (\<lambda>_. None), if_torn = (\<lambda>b. b)\<rparr>"

definition sample_pointer_json :: pointer_json where
  "sample_pointer_json = \<lparr>pj_encode = (\<lambda>p. Inr (cu_generation_id p)), pj_decode = (\<lambda>b. Inr (current_pointer_new (butlast b)))\<rparr>"

theorem pointer_swap_is_atomic_witness:
  "case pointer_replace no_faults sample_pointer_json (current_pointer_new (replicate 64 CHR ''a'')) AtomicReplace
      \<lparr>ln_root = ''r'', ln_pointer = None, ln_temporary = None, ln_staging = [], ln_generations = []\<rparr> of
     (Inl e, l') \<Rightarrow> False
   | (Inr _, l') \<Rightarrow> pointer_read no_faults sample_pointer_json l' = Inr (Some (current_pointer_new (replicate 64 CHR ''a'')))"
proof -
  let ?p = "current_pointer_new (replicate 64 CHR ''a'')"
  let ?l = "\<lparr>ln_root = ''r'', ln_pointer = None, ln_temporary = None, ln_staging = [], ln_generations = []\<rparr>"
  have consistent: "is_self_consistent ?p" by code_simp
  have version: "cu_schema_version ?p = POINTER_SCHEMA_VERSION" by (simp add: current_pointer_new_def)
  have decoded: "pointer_canonical_bytes sample_pointer_json ?p = Inr bytes \<Longrightarrow> pj_decode sample_pointer_json bytes = Inr ?p" for bytes
    by (auto simp: sample_pointer_json_def pointer_canonical_bytes_def current_pointer_new_def)
  have no_fault: "if_error no_faults c = None" for c by (simp add: no_faults_def)
  note pointer_swap_is_atomic [OF consistent version decoded no_fault, THEN conjunct2, of ?l]
  moreover have "\<not> isl (fst (pointer_replace no_faults sample_pointer_json ?p AtomicReplace ?l))"
    using consistent
    by (simp add: pointer_replace_def replace_calls_def no_fault pointer_canonical_bytes_def sample_pointer_json_def)
  ultimately show ?thesis by (auto split: prod.splits sum.splits)
qed

text \<open>A process that dies after it wrote the manifest of the very first generation, and before it renamed the
  staging directory from its working name to the identity: recovery installs the directory under the working
  name, points at the identity, and is stuck with a pointer to a generation that is not there.\<close>

definition dead_lane :: lane where
  "dead_lane = \<lparr>ln_root = ''r'', ln_pointer = None, ln_temporary = None,
     ln_staging = [(''pending-0-demo'', [(''manifest.json'', ''m'')])], ln_generations = []\<rparr>"

lemma recovery_points_at_missing_generation:
  "\<exists>l'. recovery_resume constant_digest (sample_json 0) no_faults sample_pointer_json dead_lane None =
       (Inr (InstallSealed ''pending-0-demo''), l') \<and>
     pointer_read no_faults sample_pointer_json l' = Inr (Some (current_pointer_new (replicate 64 CHR ''a''))) \<and>
     bt_get (ln_generations l') (replicate 64 CHR ''a'') = None \<and>
     recovery_resume constant_digest (sample_json 0) no_faults sample_pointer_json l' None =
       (Inr (ReportState REASON_CURRENT_GENERATION_MISSING), l')"
proof -
  let ?gid = "replicate 64 CHR ''a''" and ?json = "sample_json 0" and ?files = "[(''manifest.json'', ''m'')]"
  let ?l' = "\<lparr>ln_root = ''r'', ln_pointer = Some (?gid @ [CHR 0x0A]), ln_temporary = None, ln_staging = [],
     ln_generations = [(''pending-0-demo'', ?files)]\<rparr>"
  have consistent: "is_self_consistent (current_pointer_new ?gid)" by code_simp
  have manifest: "read_manifest ?json d = Inr (sample_manifest 0)" if "d ''manifest.json'' = Some ''m''" for d
    using sample_manifest_valid [of 0] that by (simp add: read_manifest_def from_canonical_bytes_def sample_json_def)
  have gid: "generation_id constant_digest ?json (sample_manifest 0) = Inr ?gid"
    by (simp add: generation_id_def sample_json_def constant_digest_hex)
  have no_fault: "if_error no_faults c = None" for c by (simp add: no_faults_def)
  have "recovery_observe constant_digest ?json no_faults sample_pointer_json dead_lane None =
      Inr \<lparr>rs_pointer = None, rs_pointer_target_present = False, rs_pinned = None,
        rs_staging = [\<lparr>so_generation_id = ''pending-0-demo'', so_sealed = True\<rparr>]\<rparr>"
    by (simp add: recovery_observe_def pointer_read_def dead_lane_def no_fault manifest bt_get_def)
  then have first: "recovery_resume constant_digest ?json no_faults sample_pointer_json dead_lane None =
      (Inr (InstallSealed ''pending-0-demo''), ?l')"
    using consistent
    by (simp add: recovery_resume_def recovery_plan_def dead_lane_def no_fault bt_get_def bt_remove_def
        manifest gid pointer_replace_def replace_calls_def pointer_canonical_bytes_def sample_pointer_json_def
        current_pointer_new_def)
  have read: "pointer_read no_faults sample_pointer_json ?l' = Inr (Some (current_pointer_new ?gid))"
    using consistent by (simp add: pointer_read_def no_fault sample_pointer_json_def current_pointer_new_def)
  have missing: "bt_get (ln_generations ?l') ?gid = None" by code_simp
  have "recovery_observe constant_digest ?json no_faults sample_pointer_json ?l' None =
      Inr \<lparr>rs_pointer = Some (current_pointer_new ?gid), rs_pointer_target_present = False, rs_pinned = None, rs_staging = []\<rparr>"
    using missing unfolding recovery_observe_def read by (simp add: current_pointer_new_def)
  then have "recovery_resume constant_digest ?json no_faults sample_pointer_json ?l' None =
      (Inr (ReportState REASON_CURRENT_GENERATION_MISSING), ?l')"
    by (simp add: recovery_resume_def recovery_plan_def)
  with first read missing show ?thesis by blast
qed

text \<open>A staged directory that holds nothing but its manifest, under the name of its identity: it becomes
  current, and the generation pointed at then does not validate.\<close>

definition shardless_lane :: lane where
  "shardless_lane = dead_lane\<lparr>ln_staging := [(replicate 64 CHR ''a'', [(''manifest.json'', ''m'')])]\<rparr>"

lemma shardless_staging_becomes_current:
  "\<exists>l'. recovery_resume constant_digest (sample_json 0) no_faults sample_pointer_json shardless_lane None =
       (Inr (InstallSealed (replicate 64 CHR ''a'')), l') \<and>
     pointer_read no_faults sample_pointer_json l' = Inr (Some (current_pointer_new (replicate 64 CHR ''a''))) \<and>
     bt_get (ln_generations l') (replicate 64 CHR ''a'') = Some [(''manifest.json'', ''m'')] \<and>
     isl (validate_generation constant_digest (sample_json 0) (bt_get [(''manifest.json'', ''m'')]))"
proof -
  let ?gid = "replicate 64 CHR ''a''" and ?json = "sample_json 0" and ?files = "[(''manifest.json'', ''m'')]"
  let ?l' = "\<lparr>ln_root = ''r'', ln_pointer = Some (?gid @ [CHR 0x0A]), ln_temporary = None, ln_staging = [],
     ln_generations = [(?gid, ?files)]\<rparr>"
  have consistent: "is_self_consistent (current_pointer_new ?gid)" by code_simp
  have manifest: "read_manifest ?json d = Inr (sample_manifest 0)" if "d ''manifest.json'' = Some ''m''" for d
    using sample_manifest_valid [of 0] that by (simp add: read_manifest_def from_canonical_bytes_def sample_json_def)
  have gid: "generation_id constant_digest ?json (sample_manifest 0) = Inr ?gid"
    by (simp add: generation_id_def sample_json_def constant_digest_hex)
  have no_fault: "if_error no_faults c = None" for c by (simp add: no_faults_def)
  have "recovery_observe constant_digest ?json no_faults sample_pointer_json shardless_lane None =
      Inr \<lparr>rs_pointer = None, rs_pointer_target_present = False, rs_pinned = None,
        rs_staging = [\<lparr>so_generation_id = ?gid, so_sealed = True\<rparr>]\<rparr>"
    by (simp add: recovery_observe_def pointer_read_def shardless_lane_def dead_lane_def no_fault manifest bt_get_def)
  then have "recovery_resume constant_digest ?json no_faults sample_pointer_json shardless_lane None =
      (Inr (InstallSealed ?gid), ?l')"
    using consistent
    by (simp add: recovery_resume_def recovery_plan_def shardless_lane_def dead_lane_def no_fault bt_get_def bt_remove_def
        manifest gid pointer_replace_def replace_calls_def pointer_canonical_bytes_def sample_pointer_json_def
        current_pointer_new_def)
  moreover have "pointer_read no_faults sample_pointer_json ?l' = Inr (Some (current_pointer_new ?gid))"
    using consistent by (simp add: pointer_read_def no_fault sample_pointer_json_def current_pointer_new_def)
  moreover have "bt_get (ln_generations ?l') ?gid = Some ?files" by (simp add: bt_get_def)
  moreover have "isl (validate_generation constant_digest ?json (bt_get ?files))"
  proof -
    have "read_manifest ?json (bt_get ?files) = Inr (sample_manifest 0)" by (rule manifest) (simp add: bt_get_def)
    then show ?thesis
      by (simp add: validate_generation_def) (simp add: sample_manifest_def sample_entry_def bt_get_def)
  qed
  ultimately show ?thesis by blast
qed

end
