(* ===== verification/ExpReader.thy ===== *)
theory ExpReader
  imports ExpPublish
begin

text \<open>
  Guarded reads of a generation, \<^verbatim>\<open>graph-export/src/reader.rs\<close>, and the archived checkpoint,
  \<^verbatim>\<open>archive.rs\<close>, with the lock modes of \<^verbatim>\<open>graph-core/src/locks.rs\<close>.  The guard of a load is the
  function \<open>held\<close>: its answer to each consultation, by number.  \<open>count_records\<close> counts the records of a
  document (JSON).
\<close>

section \<open>Lock modes\<close>

datatype lock_mode = SharedLock | ExclusiveLock

fun mode_is_shared :: "lock_mode \<Rightarrow> bool" where
  "mode_is_shared SharedLock = True"
| "mode_is_shared ExclusiveLock = False"

fun mode_excludes :: "lock_mode \<Rightarrow> lock_mode \<Rightarrow> bool" where
  "mode_excludes ExclusiveLock _ = True"
| "mode_excludes SharedLock ExclusiveLock = True"
| "mode_excludes SharedLock SharedLock = False"

datatype lock_backend = NativeLock | LocalOnlyLock

datatype guard_error = GuardLocked string | GuardUnsupported string | GuardIo string string

definition GUARD_ERR_LOCKED :: string where "GUARD_ERR_LOCKED = ''solution-guard-locked''"
definition GUARD_ERR_UNSUPPORTED :: string where "GUARD_ERR_UNSUPPORTED = ''solution-guard-unsupported''"

definition LOCAL_ONLY_DETAIL :: string where
  "LOCAL_ONLY_DETAIL = ''an in-process-only lock is not a solution guard: the shared reader lock and the exclusive writer lock must be enforced by the operating system so that a second process observes the same exclusion''"

fun guard_error_code :: "guard_error \<Rightarrow> string" where
  "guard_error_code (GuardLocked _) = GUARD_ERR_LOCKED"
| "guard_error_code _ = GUARD_ERR_UNSUPPORTED"

fun guard_error_path :: "guard_error \<Rightarrow> string option" where
  "guard_error_path (GuardLocked p) = Some p"
| "guard_error_path (GuardIo p _) = Some p"
| "guard_error_path (GuardUnsupported _) = None"

fun guard_error_display :: "guard_error \<Rightarrow> string" where
  "guard_error_display (GuardLocked p) = GUARD_ERR_LOCKED @ '': '' @ p"
| "guard_error_display (GuardUnsupported detail) = GUARD_ERR_UNSUPPORTED @ '': '' @ detail"
| "guard_error_display (GuardIo p message) = GUARD_ERR_UNSUPPORTED @ '': '' @ p @ '': '' @ message"

text \<open>The operating system's lock is the argument \<open>open_and_lock\<close>, from the holders so far.\<close>

definition acquire_with ::
  "(string \<Rightarrow> lock_mode \<Rightarrow> 's \<Rightarrow> (guard_error + unit) \<times> 's) \<Rightarrow> lock_backend \<Rightarrow> string \<Rightarrow> lock_mode \<Rightarrow> 's \<Rightarrow>
     (guard_error + lock_mode \<times> string) \<times> 's" where
  "acquire_with open_and_lock backend p mode s =
     (case backend of
        LocalOnlyLock \<Rightarrow> (Inl (GuardUnsupported LOCAL_ONLY_DETAIL), s)
      | NativeLock \<Rightarrow>
          (case open_and_lock p mode s of
             (Inl e, s) \<Rightarrow> (Inl e, s)
           | (Inr _, s) \<Rightarrow> (Inr (mode, p), s)))"

section \<open>Loading\<close>

definition ERR_UNGUARDED :: string where "ERR_UNGUARDED = ''export-read-unguarded''"
definition LOAD_PHASES :: "string list" where "LOAD_PHASES = [''pointer'', ''manifest'', ''shards'']"

record shard_content =
  sh_relative_path :: string
  sh_bytes :: string

record snapshot_read =
  sn_generation_id :: string
  sn_manifest :: generation_manifest
  sn_shards :: "shard_content list"
  sn_guarded_checks :: nat

definition snapshot_shard :: "snapshot_read \<Rightarrow> string \<Rightarrow> string option" where
  "snapshot_shard snap relative_path =
     map_option sh_bytes (find (\<lambda>shard. sh_relative_path shard = relative_path) (sn_shards snap))"

definition snapshot_total_bytes :: "snapshot_read \<Rightarrow> nat" where
  "snapshot_total_bytes snap = sum_list (map (\<lambda>shard. length (sh_bytes shard)) (sn_shards snap))"

definition generation_files :: "lane \<Rightarrow> string \<Rightarrow> generation_dir" where
  "generation_files l gid = (\<lambda>p. Option.bind (bt_get (ln_generations l) gid) (\<lambda>d. bt_get d p))"

text \<open>The closure \<open>check\<close>: consultation number \<open>checks\<close> of the guard.\<close>

definition guard_check :: "(nat \<Rightarrow> bool) \<Rightarrow> nat \<Rightarrow> string \<Rightarrow> unit export_result" where
  "guard_check held checks phase =
     (if held checks then Inr ()
      else Inl (export_error_new ERR_UNGUARDED (''guard was lost before reading the '' @ phase)))"

fun load_shards ::
  "(nat \<Rightarrow> bool) \<Rightarrow> generation_dir \<Rightarrow> manifest_entry list \<Rightarrow> nat \<Rightarrow> shard_content list \<Rightarrow> (nat \<times> shard_content list) export_result" where
  "load_shards held d [] checks shards = Inr (checks, shards)"
| "load_shards held d (entry # entries) checks shards =
     (case guard_check held checks (LOAD_PHASES ! 2) of
        Inl e \<Rightarrow> Inl e
      | Inr _ \<Rightarrow>
          (case d (me_path entry) of
             None \<Rightarrow> Inl (export_error_new ERR_MISSING (me_path entry))
           | Some bytes \<Rightarrow>
               load_shards held d entries (checks + 1) (shards @ [\<lparr>sh_relative_path = me_path entry, sh_bytes = bytes\<rparr>])))"

definition reader_load ::
  "manifest_json \<Rightarrow> io_faults \<Rightarrow> pointer_json \<Rightarrow> (nat \<Rightarrow> bool) \<Rightarrow> lane \<Rightarrow> snapshot_read export_result" where
  "reader_load mjson faults json held l =
     (case guard_check held 0 (LOAD_PHASES ! 0) of
        Inl e \<Rightarrow> Inl e
      | Inr _ \<Rightarrow>
          (case pointer_read faults json l of
             Inl e \<Rightarrow> Inl e
           | Inr None \<Rightarrow> Inl (export_error_new ERR_MISSING (''no current pointer under '' @ ln_root l))
           | Inr (Some p) \<Rightarrow>
               (case guard_check held 1 (LOAD_PHASES ! 1) of
                  Inl e \<Rightarrow> Inl e
                | Inr _ \<Rightarrow>
                    (let d = generation_files l (cu_generation_id p)
                     in case read_manifest mjson d of
                          Inl e \<Rightarrow> Inl e
                        | Inr m \<Rightarrow>
                            (case load_shards held d (gm_files m) 2 [] of
                               Inl e \<Rightarrow> Inl e
                             | Inr (checks, shards) \<Rightarrow>
                                 Inr \<lparr>sn_generation_id = cu_generation_id p, sn_manifest = m, sn_shards = shards,
                                   sn_guarded_checks = checks\<rparr>)))))"

fun count_shards ::
  "(string \<Rightarrow> nat export_result) \<Rightarrow> shard_content list \<Rightarrow> loaded_file list \<Rightarrow> loaded_file list export_result" where
  "count_shards count_records [] loaded = Inr loaded"
| "count_shards count_records (shard # shards) loaded =
     (case count_records (sh_bytes shard) of
        Inl e \<Rightarrow> Inl e
      | Inr n \<Rightarrow> count_shards count_records shards (loaded @ [(sh_relative_path shard, sh_bytes shard, n)]))"

definition load_verified ::
  "(string \<Rightarrow> string) \<Rightarrow> (string \<Rightarrow> nat export_result) \<Rightarrow> manifest_json \<Rightarrow> io_faults \<Rightarrow> pointer_json \<Rightarrow> (nat \<Rightarrow> bool) \<Rightarrow> lane \<Rightarrow>
     snapshot_read export_result" where
  "load_verified sha256 count_records mjson faults json held l =
     (case reader_load mjson faults json held l of
        Inl e \<Rightarrow> Inl e
      | Inr snap \<Rightarrow>
          (case count_shards count_records (sn_shards snap) [] of
             Inl e \<Rightarrow> Inl e
           | Inr loaded \<Rightarrow>
               (case validate_files sha256 mjson loaded (sn_manifest snap) of
                  Inl e \<Rightarrow> Inl e
                | Inr _ \<Rightarrow> Inr snap)))"

text \<open>The pinned load asks the guard once before the manifest and once before each shard.\<close>

fun load_pinned_shards ::
  "(string \<Rightarrow> nat export_result) \<Rightarrow> (nat \<Rightarrow> bool) \<Rightarrow> generation_dir \<Rightarrow> manifest_entry list \<Rightarrow> nat \<Rightarrow>
     shard_content list \<Rightarrow> loaded_file list \<Rightarrow> (shard_content list \<times> loaded_file list) export_result" where
  "load_pinned_shards count_records held d [] checks shards loaded = Inr (shards, loaded)"
| "load_pinned_shards count_records held d (entry # entries) checks shards loaded =
     (if \<not> held checks then Inl (export_error_new ERR_UNGUARDED ''snapshot guard lost'')
      else
        (case d (me_path entry) of
           None \<Rightarrow> Inl (io_error (me_path entry))
         | Some bytes \<Rightarrow>
             (case count_records bytes of
                Inl e \<Rightarrow> Inl e
              | Inr n \<Rightarrow> load_pinned_shards count_records held d entries (checks + 1)
                  (shards @ [\<lparr>sh_relative_path = me_path entry, sh_bytes = bytes\<rparr>])
                  (loaded @ [(me_path entry, bytes, n)]))))"

definition load_pinned_verified ::
  "(string \<Rightarrow> string) \<Rightarrow> (string \<Rightarrow> nat export_result) \<Rightarrow> manifest_json \<Rightarrow> (nat \<Rightarrow> bool) \<Rightarrow> bool \<Rightarrow> lane \<Rightarrow> string \<Rightarrow>
     snapshot_read export_result" where
  "load_pinned_verified sha256 count_records mjson held shared l gid =
     (if \<not> manifest_sha256_hex gid \<or> \<not> held 0 \<or> \<not> shared then
        Inl (export_error_new ERR_UNGUARDED ''pinned snapshot requires a shared guard and SHA256 identity'')
      else
        (let d = generation_files l gid
         in case read_manifest mjson d of
              Inl e \<Rightarrow> Inl e
            | Inr m \<Rightarrow>
                (case generation_id sha256 mjson m of
                   Inl e \<Rightarrow> Inl e
                 | Inr mid \<Rightarrow>
                     if mid \<noteq> gid then Inl (export_error_new ERR_INTEGRITY ''pinned manifest hash disagrees with catalog'')
                     else
                       (case load_pinned_shards count_records held d (gm_files m) 1 [] [] of
                          Inl e \<Rightarrow> Inl e
                        | Inr (shards, loaded) \<Rightarrow>
                            (case validate_files sha256 mjson loaded m of
                               Inl e \<Rightarrow> Inl e
                             | Inr _ \<Rightarrow> Inr \<lparr>sn_generation_id = gid, sn_manifest = m, sn_shards = shards,
                                 sn_guarded_checks = length shards + 1\<rparr>)))))"

section \<open>The archive\<close>

definition REASON_SNAPSHOT_ONLY :: string where "REASON_SNAPSHOT_ONLY = ''freshness-unknown-snapshot-only''"

datatype archive_mode = SnapshotOnly | LiveSource
datatype freshness = FreshCurrent | FreshUnknown string
datatype archive_request = VerifyHashes | VerifyAgainstLiveSource

fun fresh_is_current :: "freshness \<Rightarrow> bool" where
  "fresh_is_current FreshCurrent = True"
| "fresh_is_current (FreshUnknown _) = False"

fun fresh_reason :: "freshness \<Rightarrow> string option" where
  "fresh_reason FreshCurrent = None"
| "fresh_reason (FreshUnknown reason) = Some reason"

record archive_verification =
  av_generation_id :: string
  av_files :: nat
  av_records :: nat
  av_freshness :: freshness

definition archive_freshness :: "archive_mode \<Rightarrow> freshness" where
  "archive_freshness mode =
     (case mode of SnapshotOnly \<Rightarrow> FreshUnknown REASON_SNAPSHOT_ONLY | LiveSource \<Rightarrow> FreshCurrent)"

definition archive_serve ::
  "(string \<Rightarrow> string) \<Rightarrow> manifest_json \<Rightarrow> io_faults \<Rightarrow> pointer_json \<Rightarrow> lane \<Rightarrow> archive_mode \<Rightarrow> archive_request \<Rightarrow>
     archive_verification export_result" where
  "archive_serve sha256 mjson faults json l mode request =
     (if mode = SnapshotOnly \<and> request = VerifyAgainstLiveSource then
        Inl (export_error_new ERR_UNSUPPORTED REASON_SNAPSHOT_ONLY)
      else
        (case pointer_read faults json l of
           Inl e \<Rightarrow> Inl e
         | Inr None \<Rightarrow> Inl (export_error_new ERR_MISSING (''no archived pointer under '' @ ln_root l))
         | Inr (Some p) \<Rightarrow>
             (case validate_generation sha256 mjson (generation_files l (cu_generation_id p)) of
                Inl e \<Rightarrow> Inl e
              | Inr report \<Rightarrow> Inr \<lparr>av_generation_id = vr_generation_id report, av_files = vr_files report,
                  av_records = vr_records report, av_freshness = archive_freshness mode\<rparr>)))"

section \<open>What a verified load holds\<close>

lemma load_shards_ok:
  "load_shards held d entries checks shards = Inr (checks', shards') \<Longrightarrow>
     checks' = checks + length entries \<and> list_all held [checks..<checks'] \<and>
     list_all (\<lambda>e. d (me_path e) \<noteq> None) entries \<and>
     shards' = shards @ map (\<lambda>e. \<lparr>sh_relative_path = me_path e, sh_bytes = the (d (me_path e))\<rparr>) entries"
proof (induction entries arbitrary: checks shards)
  case Nil
  then show ?case by simp
next
  case (Cons entry entries)
  from Cons.prems obtain bytes where held: "held checks" and bytes: "d (me_path entry) = Some bytes"
    and rest: "load_shards held d entries (checks + 1) (shards @ [\<lparr>sh_relative_path = me_path entry, sh_bytes = bytes\<rparr>]) = Inr (checks', shards')"
    by (auto simp: guard_check_def split: if_splits option.splits)
  note ih = Cons.IH [OF rest]
  then have "checks < checks'" by simp
  then have "[checks..<checks'] = checks # [Suc checks..<checks']" by (rule upt_conv_Cons)
  moreover have "list_all held [Suc checks..<checks']" using ih [THEN conjunct2, THEN conjunct1] by (simp del: upt_Suc)
  ultimately have "list_all held [checks..<checks']" using held by (simp del: upt_Suc)
  with ih bytes show ?case by (simp del: upt_Suc)
qed

lemma count_shards_ok:
  "count_shards count_records shards loaded = Inr loaded' \<Longrightarrow>
     list_all (\<lambda>shard. \<not> isl (count_records (sh_bytes shard))) shards \<and>
     loaded' = loaded @ map (\<lambda>shard. (sh_relative_path shard, sh_bytes shard, projr (count_records (sh_bytes shard)))) shards"
proof (induction shards arbitrary: loaded)
  case Nil
  then show ?case by simp
next
  case (Cons shard shards)
  show ?case
  proof (cases "count_records (sh_bytes shard)")
    case (Inl e)
    with Cons.prems show ?thesis by simp
  next
    case (Inr n)
    with Cons.prems have "count_shards count_records shards (loaded @ [(sh_relative_path shard, sh_bytes shard, n)]) = Inr loaded'"
      by simp
    from Cons.IH [OF this] Inr show ?thesis by simp
  qed
qed

lemma find_read:
  assumes "distinct (map me_path entries)" and "entry \<in> set entries"
  shows "find (\<lambda>(p, _, _). p = me_path entry) (map (\<lambda>e. (me_path e, f e, g e)) entries) =
    Some (me_path entry, f entry, g entry)"
  using assms by (induction entries) auto

lemma verify_entries_read:
  assumes "distinct (map me_path all)" and "set entries \<subseteq> set all"
  shows "verify_entries sha256 (map (\<lambda>e. (me_path e, f e, g e)) all) entries = Inr () \<longleftrightarrow>
    list_all (\<lambda>e. entry_matches sha256 e (f e) \<and> g e = me_records e) entries"
  using assms(2)
proof (induction entries)
  case Nil
  show ?case by simp
next
  case (Cons entry entries)
  with find_read [OF assms(1), of entry f g] show ?case by (simp add: integrity_def)
qed

text \<open>C19: A verified load returns a snapshot only of a valid manifest whose every shard it holds complete: the
  bytes on the disk, of the recorded length, digest and record count; and the guard was held at each of its
  checks, one before the pointer, one before the manifest and one before every shard.\<close>

theorem verified_load_is_intact:
  assumes "load_verified sha256 count_records mjson faults json held l = Inr snap"
  shows "sn_guarded_checks snap = length (gm_files (sn_manifest snap)) + 2 \<and> list_all held [0..<sn_guarded_checks snap] \<and>
    pointer_read faults json l \<in> range (\<lambda>p. Inr (Some p)) \<and>
    manifest_validate (sn_manifest snap) = Inr () \<and>
    map sh_relative_path (sn_shards snap) = map me_path (gm_files (sn_manifest snap)) \<and>
    list_all2 (\<lambda>entry shard. generation_files l (sn_generation_id snap) (me_path entry) = Some (sh_bytes shard) \<and>
        length (sh_bytes shard) = me_bytes entry \<and> sha256_hex sha256 (sh_bytes shard) = me_sha256 entry \<and>
        count_records (sh_bytes shard) = Inr (me_records entry))
      (gm_files (sn_manifest snap)) (sn_shards snap)"
proof -
  obtain loaded report where load: "reader_load mjson faults json held l = Inr snap"
    and count: "count_shards count_records (sn_shards snap) [] = Inr loaded"
    and valid: "validate_files sha256 mjson loaded (sn_manifest snap) = Inr report"
    using assms by (auto simp: load_verified_def split: sum.splits)
  from load obtain p where p: "pointer_read faults json l = Inr (Some p)" "sn_generation_id snap = cu_generation_id p"
    and start: "held 0" "held 1"
    and shards: "load_shards held (generation_files l (cu_generation_id p)) (gm_files (sn_manifest snap)) 2 [] =
      Inr (sn_guarded_checks snap, sn_shards snap)"
    by (auto simp: reader_load_def guard_check_def Let_def split: if_splits sum.splits option.splits prod.splits)
  let ?d = "generation_files l (cu_generation_id p)" and ?m = "sn_manifest snap"
  let ?bytes = "\<lambda>e. the (?d (me_path e))"
  note loaded_shards = load_shards_ok [OF shards]
  have upt: "[0..<sn_guarded_checks snap] = 0 # 1 # [2..<sn_guarded_checks snap]"
  proof -
    have n: "1 < sn_guarded_checks snap" using loaded_shards by simp
    then show ?thesis using upt_conv_Cons [of 0 "sn_guarded_checks snap"] upt_conv_Cons [of 1 "sn_guarded_checks snap"]
      by (simp add: numeral_2_eq_2)
  qed
  have guarded: "list_all held [0..<sn_guarded_checks snap]"
    unfolding upt using loaded_shards [THEN conjunct2, THEN conjunct1] start by (simp del: upt_Suc)
  have manifest: "manifest_validate ?m = Inr ()" and verified: "verify_entries sha256 loaded (gm_files ?m) = Inr ()"
    using valid by (auto simp: validate_files_def manifest_verify_def result_bind_Inr split: sum.splits)
  have paths: "distinct (map me_path (gm_files ?m))" using manifest by (simp add: manifest_validate_iff)
  have loaded: "loaded = map (\<lambda>e. (me_path e, ?bytes e, projr (count_records (?bytes e)))) (gm_files ?m)"
    using count_shards_ok [OF count] loaded_shards by simp
  have counted: "\<not> isl (count_records (?bytes e))" if "e \<in> set (gm_files ?m)" for e
    using count_shards_ok [OF count] loaded_shards that by (auto simp: list_all_iff)
  have each: "entry_matches sha256 e (?bytes e) \<and> count_records (?bytes e) = Inr (me_records e) \<and> ?d (me_path e) = Some (?bytes e)"
    if e: "e \<in> set (gm_files ?m)" for e
  proof -
    have "entry_matches sha256 e (?bytes e) \<and> projr (count_records (?bytes e)) = me_records e"
      using verified verify_entries_read [OF paths subset_refl, of sha256 ?bytes "\<lambda>e. projr (count_records (?bytes e))"] e
      by (simp add: loaded list_all_iff)
    moreover have "?d (me_path e) = Some (?bytes e)" using loaded_shards e by (auto simp: list_all_iff)
    ultimately show ?thesis using counted [OF e] by (cases "count_records (?bytes e)") auto
  qed
  have "list_all2 (\<lambda>entry shard. ?d (me_path entry) = Some (sh_bytes shard) \<and>
        length (sh_bytes shard) = me_bytes entry \<and> sha256_hex sha256 (sh_bytes shard) = me_sha256 entry \<and>
        count_records (sh_bytes shard) = Inr (me_records entry)) (gm_files ?m) (sn_shards snap)"
    using each loaded_shards by (simp add: list_all2_map2 list_all2_same entry_matches_def)
  then show ?thesis
    using loaded_shards guarded p manifest by (simp add: comp_def del: upt_Suc)
qed

section \<open>Corners of reading\<close>

text \<open>The plain load looks at no digest, though its comment lists a failure for one: the shard may be anything.\<close>

definition torn_lane :: lane where
  "torn_lane = \<lparr>ln_root = ''r'', ln_pointer = Some (replicate 64 CHR ''b'' @ [CHR 0x0A]), ln_temporary = None, ln_staging = [],
     ln_generations = [(replicate 64 CHR ''b'', [(''manifest.json'', ''m''), (''nodes.json'', ''torn'')])]\<rparr>"

lemma torn_lane_manifest:
  "read_manifest (sample_json 0) (generation_files torn_lane (replicate 64 CHR ''b'')) = Inr (sample_manifest 0)"
  using sample_manifest_valid [of 0]
  by (simp add: read_manifest_def from_canonical_bytes_def sample_json_def generation_files_def torn_lane_def bt_get_def)

lemma torn_lane_pointer:
  "pointer_read no_faults sample_pointer_json torn_lane = Inr (Some (current_pointer_new (replicate 64 CHR ''b'')))"
proof -
  have "is_self_consistent (current_pointer_new (replicate 64 CHR ''b''))" by code_simp
  then show ?thesis
    by (simp add: pointer_read_def torn_lane_def no_faults_def sample_pointer_json_def current_pointer_new_def)
qed

lemma plain_load_accepts_torn_shard:
  "\<exists>snap. reader_load (sample_json 0) no_faults sample_pointer_json (\<lambda>_. True) torn_lane = Inr snap \<and>
     map sh_bytes (sn_shards snap) = [''torn''] \<and> map me_bytes (gm_files (sn_manifest snap)) = [3]"
  by (simp add: reader_load_def guard_check_def torn_lane_pointer current_pointer_new_def torn_lane_manifest)
    (simp add: sample_manifest_def sample_entry_def generation_files_def torn_lane_def bt_get_def guard_check_def)

text \<open>Neither the plain nor the verified load compares the identity the pointer names with the manifest's.\<close>

definition other_lane :: lane where
  "other_lane = torn_lane\<lparr>ln_generations := [(replicate 64 CHR ''b'', [(''manifest.json'', ''m''), (''nodes.json'', ''[]'' @ [CHR 0x0A])])]\<rparr>"

lemma verified_load_accepts_other_identity:
  "\<exists>snap. load_verified constant_digest (\<lambda>_. Inr 0) (sample_json 0) no_faults sample_pointer_json (\<lambda>_. True) other_lane = Inr snap \<and>
     sn_generation_id snap = replicate 64 CHR ''b'' \<and>
     generation_id constant_digest (sample_json 0) (sn_manifest snap) = Inr (replicate 64 CHR ''a'')"
proof -
  have pointer: "pointer_read no_faults sample_pointer_json other_lane = Inr (Some (current_pointer_new (replicate 64 CHR ''b'')))"
  proof -
    have "is_self_consistent (current_pointer_new (replicate 64 CHR ''b''))" by code_simp
    then show ?thesis
      by (simp add: pointer_read_def other_lane_def torn_lane_def no_faults_def sample_pointer_json_def current_pointer_new_def)
  qed
  have manifest: "read_manifest (sample_json 0) (generation_files other_lane (replicate 64 CHR ''b'')) = Inr (sample_manifest 0)"
    using sample_manifest_valid [of 0]
    by (simp add: read_manifest_def from_canonical_bytes_def sample_json_def generation_files_def other_lane_def torn_lane_def bt_get_def)
  let ?snap = "\<lparr>sn_generation_id = replicate 64 CHR ''b'', sn_manifest = sample_manifest 0,
     sn_shards = [\<lparr>sh_relative_path = ''nodes.json'', sh_bytes = ''[]'' @ [CHR 0x0A]\<rparr>], sn_guarded_checks = 3\<rparr>"
  have "reader_load (sample_json 0) no_faults sample_pointer_json (\<lambda>_. True) other_lane = Inr ?snap"
    by (simp add: reader_load_def guard_check_def pointer current_pointer_new_def manifest)
      (simp add: sample_manifest_def sample_entry_def generation_files_def other_lane_def torn_lane_def bt_get_def guard_check_def)
  moreover have gid: "generation_id constant_digest (sample_json 0) (sample_manifest 0) = Inr (replicate 64 CHR ''a'')"
    by (simp add: generation_id_def sample_json_def constant_digest_hex)
  moreover have "\<not> isl (validate_files constant_digest (sample_json 0) [(''nodes.json'', ''[]'' @ [CHR 0x0A], 0)] (sample_manifest 0))"
    using sample_manifest_valid [of 0] gid
    by (simp add: validate_files_def manifest_verify_def)
      (simp add: sample_manifest_def sample_entry_def entry_matches_def constant_digest_hex sample_json_def)
  ultimately show ?thesis
    by (intro exI [of _ ?snap]) (auto simp: load_verified_def split: sum.split)
qed

theorem verified_load_is_intact_witness:
  "\<exists>snap. load_verified constant_digest (\<lambda>_. Inr 0) (sample_json 0) no_faults sample_pointer_json (\<lambda>_. True) other_lane = Inr snap \<and>
     manifest_validate (sn_manifest snap) = Inr () \<and> map sh_relative_path (sn_shards snap) = map me_path (gm_files (sn_manifest snap))"
proof -
  obtain snap where snap: "load_verified constant_digest (\<lambda>_. Inr 0) (sample_json 0) no_faults sample_pointer_json (\<lambda>_. True) other_lane = Inr snap"
    using verified_load_accepts_other_identity by blast
  from verified_load_is_intact [OF snap] snap show ?thesis by blast
qed

text \<open>An archive opened with live source calls itself current, whatever the source is: nothing is compared.\<close>

lemma live_archive_is_current_unseen:
  "archive_serve sha256 mjson faults json l LiveSource request = Inr v \<Longrightarrow> fresh_is_current (av_freshness v)"
  by (auto simp: archive_serve_def archive_freshness_def split: sum.splits option.splits)

end
