(* ===== verification/Spec2Isabelle.thy ===== *)
theory Spec2Isabelle
  imports QueueMachine QueueEnqueue QueueSchedule QueueRetry QueueBudget QueuePressure QueueBarrier
    WatchConfig WatchDirty WatchDebounce WatchReconcile
    GraphIdentity GraphIncremental GraphInvalidation GraphImports GraphTypes GraphCalls
    GraphCoverage GraphLanguage BootIgnore BootSpan BootGitignore BootReview BootApply BootRollback
    UpdSource UpdDrain UpdCheck UpdDoctor UpdRollback UpdBackup ExpReader
begin

text \<open>
  A verification library for the graph daemon: the durable work queue (\<^verbatim>\<open>crates/graph-queue\<close>),
  the watcher that feeds it (\<^verbatim>\<open>crates/graph-watch\<close>), the language-independent part of the analyser
  (\<^verbatim>\<open>crates/graph-analyze\<close>), the publication of the graph (\<^verbatim>\<open>crates/graph-export\<close>), the installer's
  managed edits of a repository (\<^verbatim>\<open>crates/axiom/src/bootstrap\<close>) and its updates
  (\<^verbatim>\<open>crates/axiom/src/update\<close>), and the part of \<^verbatim>\<open>crates/graph-core\<close> they rest on.  File and function
  names below are those under \<^verbatim>\<open>src/crates\<close>; each definition carries the name of the function it models,
  with a prefix where two functions share one.

  \<^bold>\<open>Conventions.\<close>  A struct is a record, an enum a datatype, \<open>Result<T, AxiomError>\<close> is
  \<open>axiom_error + 'a\<close> (\<open>result\<close>), a \<open>&mut self\<close> method returns the updated state beside its
  result.  Machine integers are \<open>int\<close> or \<open>nat\<close> with the saturating, checked and wrapping operations
  of \<open>Prelude\<close> written out at their width.  Strings are the UTF-8 bytes.  A \<open>BTreeMap\<close> is an
  association list with strictly increasing keys (locale \<open>ordered_map\<close>).  A call that can panic
  returns \<open>'a run\<close> with the value \<open>Panic\<close>.  Clock readings, file-system walks, snapshots and the
  SHA-256 digest are arguments.  \<open>cfg!(windows)\<close> is the argument \<open>windows\<close>.

  \<^bold>\<open>Shared theories.\<close>  \<open>Prelude\<close> holds integers, strings, orders, sorting and maps; \<open>Machines\<close>
  holds traces of a step relation and the interfaces \<open>state_machine\<close>, \<open>fenced_machine\<close> and
  \<open>sticky_requirement\<close>, which the components interpret on their own operations.  \<open>Redact\<close> and
  \<open>Errors\<close> model \<^verbatim>\<open>graph-core/src/redact.rs\<close> and \<^verbatim>\<open>error.rs\<close>: no error carries an
  unscrubbed detail, whichever way it is built.

  \<^bold>\<open>The queue.\<close>  \<open>QueueCore\<close> models the row and the transition table (\<^verbatim>\<open>lib.rs\<close>),
  \<open>QueueLease\<close> claims and heartbeats (\<^verbatim>\<open>claim.rs\<close>, \<^verbatim>\<open>heartbeat.rs\<close>), \<open>QueueAck\<close>,
  \<open>QueueCancel\<close> and \<open>QueueRecover\<close> the other calls on a row.  \<open>QueueMachine\<close> puts every call together as
  one fenced machine, with any arguments and clock readings: old fences are never accepted again,
  the fence counts the grants, and runs follow the transition table.  \<open>QueueEnqueue\<close> is the pending
  index, \<open>QueueSchedule\<close> the choice of the next job, \<open>QueueRetry\<close> the backoff, \<open>QueueBudget\<close> the
  parser batches, \<open>QueuePressure\<close> the high-water mark of dirty paths and \<open>QueueBarrier\<close> the
  freshness barrier.

  \<^bold>\<open>The watcher.\<close>  \<open>WatchPath\<close> is the path gate (locale \<open>canonical_form\<close>), \<open>WatchIgnore\<close> and
  \<open>WatchInput\<close> the two policies, \<open>WatchConfig\<close> the invalidation scope, \<open>WatchNormalize\<close> the
  reduction of a flush, \<open>WatchRecovery\<close> the persisted full-scan requirement, \<open>WatchInventory\<close> the
  comparison of a walk with the stored inventory, \<open>WatchPoll\<close> the polling backend,
  \<open>WatchReconcile\<close> the decision on a flush, \<open>WatchDebounce\<close> the debouncer and \<open>WatchDirty\<close> the
  generations of a project.

  \<^bold>\<open>The analyser.\<close>  \<open>GraphIdentity\<close> models the keys of declarations (\<^verbatim>\<open>identity.rs\<close>): the tuple
  encoding is injective and repeated keys are told apart.  \<open>GraphIncremental\<close> is the per-file fact
  set (\<^verbatim>\<open>incremental.rs\<close>), equal to a rebuild whatever the order of updates; \<open>GraphInvalidation\<close>
  the plan of what a change makes stale (\<^verbatim>\<open>invalidation.rs\<close>), the reflexive-transitive closure of
  the dependents.  \<open>GraphImports\<close>, \<open>GraphTypes\<close> and \<open>GraphCalls\<close> are the three resolvers
  (\<^verbatim>\<open>imports.rs\<close>, \<^verbatim>\<open>types.rs\<close>, \<^verbatim>\<open>calls.rs\<close>), each with the exact condition under which it
  asserts an edge, and with the corners where the code misses one.  \<open>GraphSource\<close> is the table of
  line starts and the vocabulary (\<^verbatim>\<open>lib.rs\<close>), \<open>GraphLanguage\<close> the pinned grammars and the routing of
  files to parsers (\<^verbatim>\<open>adapter.rs\<close>, \<^verbatim>\<open>grammar.rs\<close>), \<open>GraphCoverage\<close> the coverage report
  (\<^verbatim>\<open>coverage.rs\<close>), which never claims more than was read.

  \<^bold>\<open>The installer's bootstrap.\<close>  \<open>StrText\<close> and \<open>StrUtf8\<close> hold the text functions of the standard
  library.  \<open>BootMarkers\<close> finds the one managed block of a document (\<^verbatim>\<open>markers.rs\<close>), \<open>BootSpan\<close>
  proves where it lies, \<open>BootText\<close> are the two edits of a document (\<^verbatim>\<open>text.rs\<close>) and \<open>BootBlock\<close>
  what the marker scan sees after each.  \<open>BootIgnore\<close> and \<open>BootGitignore\<close> are the ignore rules and
  their managed block (\<^verbatim>\<open>gitignore.rs\<close>).  \<open>BootOwnership\<close> is the manifest with drift and the policy
  file (\<^verbatim>\<open>ownership.rs\<close>, \<^verbatim>\<open>policy.rs\<close>), \<open>BootDiff\<close> the diff, \<open>BootPlan\<close> the plan of one repository and
  \<open>BootReview\<close> the digest-bound document (\<^verbatim>\<open>plan.rs\<close>).  \<open>BootHost\<close> is the file system an apply works
  on, the locale \<open>bootstrap_host\<close>; \<open>BootLock\<close> the per-repository lock and the freshness check
  (\<^verbatim>\<open>preconditions.rs\<close>), the locale \<open>exclusive_files\<close>; \<open>BootApply\<close> the apply (\<^verbatim>\<open>apply.rs\<close>): all or
  nothing unless undoing it fails too, and a second plan is unchanged; \<open>BootRollback\<close> its undoing (\<^verbatim>\<open>rollback.rs\<close>), which never
  discards a later edit.

  \<^bold>\<open>Publication.\<close>  \<open>ExpShard\<close> plans the shards of a record set (\<^verbatim>\<open>shard.rs\<close>): every record once, none
  above the cap.  \<open>ExpManifest\<close> is the contract of a generation and its gate (\<^verbatim>\<open>manifest.rs\<close>,
  \<^verbatim>\<open>validate.rs\<close>).  \<open>ExpPublish\<close> models the pointer as a sequence of system calls that may fail or be
  cut short, and the recovery from a crash (\<^verbatim>\<open>pointer.rs\<close>, \<^verbatim>\<open>recovery.rs\<close>); \<open>ExpReader\<close> the guarded reads
  and the archive (\<^verbatim>\<open>reader.rs\<close>, \<^verbatim>\<open>archive.rs\<close>, \<^verbatim>\<open>graph-core/src/locks.rs\<close>).

  \<^bold>\<open>The installer's updates.\<close>  \<open>UpdPolicy\<close> decides whether an update may apply itself (\<^verbatim>\<open>policy.rs\<close>),
  \<open>UpdResolve\<close> which release is meant (\<^verbatim>\<open>resolve.rs\<close>), \<open>UpdSource\<close> where it comes from (\<^verbatim>\<open>source.rs\<close>),
  \<open>UpdTrust\<close> whether its metadata is signed and above the highest version it is given (\<^verbatim>\<open>trust.rs\<close>) and \<open>UpdCheck\<close> when the network may
  be asked (\<^verbatim>\<open>check.rs\<close>).  \<open>UpdDrain\<close> waits for the running work with a bound (\<^verbatim>\<open>drain.rs\<close>), \<open>UpdBackup\<close>
  makes and checks the copies (\<^verbatim>\<open>backup.rs\<close>), \<open>UpdDoctor\<close> judges the new build (\<^verbatim>\<open>verify.rs\<close>) and
  \<open>UpdRollback\<close> plans the return to one compatible version set (\<^verbatim>\<open>rollback.rs\<close>).

  \<^bold>\<open>This theory\<close> holds the properties that span components: the life of a row from the index to an
  accepted result, and the paths from the debouncer and the poller to the policies and to
  normalization.

  \<^bold>\<open>Bounds.\<close>  Loops are structural or have a measure and no fuel is used; the polling loop of a drain is
  a partial function that is proved to return always.  The bounds of the code (lease lengths, batch caps,
  hint caps, retry limits, poll limits) are the constants of the source.

  \<^bold>\<open>Not modelled.\<close>  The SQLite store and everything over it (SQL run by a library), operating-system
  watchers and locks, command-line front ends, the JSON library (an argument where a document is read or
  written, for a manifest with the canonical comparison and the key checks of its reader), signature checks and the SHA-256 digest (arguments), the tree-sitter adapters, the staging of
  a generation on disk and the installer's plans and host integration.
\<close>

section \<open>The queue index and the life of its rows\<close>

lemma pending_row_start:
  assumes "index_wf idx" and "row \<in> set (pending_rows idx)"
  shows "job_wf row \<and> j_fence row = 0 \<and> j_attempt row = 0 \<and> j_lease_owner row = None"
proof -
  note found = index_rows_distinct [OF assms]
  then have "pending_row_wf (dedup_key (j_solution_id row) (j_kind row) (j_scope_key row)) row"
    using assms(1) by (simp add: index_wf_def index_pending_def)
  then show ?thesis by (simp add: pending_row_wf_def job_wf_def in_i64_def i64_min_def i64_max_def)
qed

text \<open>C6: From an empty index to an accepted result: whatever sequence of intents, starts and finishes
  filled the index, and whatever calls a worker then makes on a row taken from it, a start, heartbeat
  or commit is accepted only on a well-formed row, under a fence that is the number of leases the
  calls have granted, so never before the first grant.\<close>

theorem enqueued_row_runs_safely:
  assumes "trace (\<lambda>s e t. t = index_apply s e) pending_index_new evs idx"
    and "row \<in> set (pending_rows idx)"
    and "trace job_step row calls row'" and "accepted_fence row' ev = Some f"
  shows "job_wf row' \<and> f = int (grant_count row calls) \<and> 1 \<le> f"
proof -
  note start = pending_row_start [OF index.trace_inv [OF assms(1) index_wf_new] assms(2)]
  then have "j_attempt row \<le> u32_max" by simp
  then have f: "f = int (grant_count row calls)"
    using run_grants [OF assms(3)] start accepted_fence_current [OF assms(4)] by simp
  moreover have "job_wf row'" using job.trace_inv [OF assms(3)] start by blast
  moreover have "grant_count row calls \<noteq> 0"
  proof
    assume "grant_count row calls = 0"
    then have "j_lease_owner row' = None"
      using no_grant_no_owner [OF assms(3)] start by simp
    with accepted_has_owner [OF assms(4)] show False by simp
  qed
  ultimately show ?thesis by linarith
qed

theorem enqueued_row_runs_safely_witness:
  "let row = job_record_new ''j'' ''s'' Repair ''p'' 0 1 0;
       row' = job_apply row (EvClaim ''w'' 0 10);
       l = \<lparr>l_job_id = ''j'', l_fence = 1, l_owner = ''w'', l_lease_until = 10\<rparr>
   in accepted_fence row' (EvStart l 5) = Some 1 \<and> grant_count row [EvClaim ''w'' 0 10] = 1"
proof -
  define idx where "idx = index_apply pending_index_new
    (IdxEnqueue (enqueue_request_new ''j'' ''s'' Repair ''p'' 1 0))"
  define row where "row = job_record_new ''j'' ''s'' Repair ''p'' 0 1 0"
  define l where "l = \<lparr>l_job_id = ''j'', l_fence = 1, l_owner = ''w'', l_lease_until = 10\<rparr>"
  have run: "trace (\<lambda>s e t. t = index_apply s e) pending_index_new
      [IdxEnqueue (enqueue_request_new ''j'' ''s'' Repair ''p'' 1 0)] idx"
    by (simp add: trace_Cons_iff idx_def)
  have row: "row \<in> set (pending_rows idx)"
    by (simp add: idx_def row_def pending_rows_def enqueue_def er_validate_def
        enqueue_request_new_def pending_index_new_def Let_def job_record_new_def)
  have ok: "accepted_fence (job_apply row (EvClaim ''w'' 0 10)) (EvStart l 5) = Some 1"
    by (simp add: row_def l_def row_eval)
  have "grant_count row [EvClaim ''w'' 0 10] = 1"
    using enqueued_row_runs_safely [OF run row _ ok, of "[EvClaim ''w'' 0 10]"]
    by (simp add: job_trace_iff)
  with ok show ?thesis unfolding Let_def row_def l_def by blast
qed

section \<open>From the watcher to the policies\<close>

lemma canonical_input_decided:
  assumes "portable_relative_path path = Inr path"
  shows "\<exists>decision. ignore_classify windows ignore path = Inr decision"
    and "input_decide windows input path entry \<noteq> Return (Inl e)"
  using assms
  by (auto simp: ignore_classify_def input_decide_def elim!: bind_run.elims split: option.splits)

text \<open>A debounced batch can always be judged: whatever notes, takes and flushes came before, every
  path of a released batch is canonical, the batch is sorted without repetition and within its bound,
  and neither the ignore policy nor the input policy refuses any of its paths as invalid.\<close>

theorem debounced_paths_are_decidable:
  assumes "trace debounce_step (debouncer_new policy) evs d"
    and "debounce_take d now = (Some batch, d') \<or> flush_now d = (Some batch, d')"
    and "path \<in> set (bb_paths batch)"
  shows "portable_relative_path path = Inr path \<and>
    sorted_wrt (<) (bb_paths batch) \<and> length (bb_paths batch) \<le> MAX_DEBOUNCED_PATHS \<and>
    (\<exists>decision. ignore_classify windows ignore path = Inr decision) \<and>
    (\<nexists>e. input_decide windows input path entry = Return (Inl e))"
proof -
  have wf: "debounce_wf d" using assms(1) debouncer_new_wf by (rule debounce.trace_inv)
  have batch: "bb_paths batch = db_pending d"
    using assms(2)
    by (auto simp: debounce_take_def flush_now_def flush_def Let_def split: option.splits if_splits)
  then have p: "portable_relative_path path = Inr path"
    using wf assms(3) by (simp add: debounce_wf_def list_all_iff)
  with canonical_input_decided [OF p] batch wf show ?thesis by (auto simp: debounce_wf_def)
qed

theorem debounced_paths_are_decidable_witness:
  "let d = debounce_apply (debouncer_new \<lparr>dbp_debounce = 5, dbp_max_debounce = 8\<rparr>)
         (DebounceNote (''a'' @ [CHR 0x5C] @ ''b'') 0)
   in fst (flush_now d) = Some \<lparr>bb_paths = [''a/b''], bb_trigger = MaximumWait\<rparr> \<and>
      portable_relative_path ''a/b'' = Inr ''a/b''"
proof -
  define p where "p = \<lparr>dbp_debounce = 5, dbp_max_debounce = 8\<rparr>"
  define raw where "raw = ''a'' @ [CHR 0x5C] @ ''b''"
  define d where "d = debounce_apply (debouncer_new p) (DebounceNote raw 0)"
  have "portable_relative_path raw = Inr ''a/b''" unfolding raw_def by code_simp
  then have f: "flush_now d = (Some \<lparr>bb_paths = [''a/b''], bb_trigger = MaximumWait\<rparr>, snd (flush_now d))"
    by (simp add: d_def debounce_note_def debouncer_new_def bs_insert_def flush_now_def flush_def
        MAX_DEBOUNCED_PATHS_def)
  have "trace debounce_step (debouncer_new p) [DebounceNote raw 0] d"
    by (simp add: trace_Cons_iff d_def)
  from debounced_paths_are_decidable [OF this disjI2 [OF f], of "''a/b''"]
  have "portable_relative_path ''a/b'' = Inr ''a/b''" by simp
  with f show ?thesis unfolding Let_def d_def p_def raw_def by (metis fst_conv)
qed

text \<open>What a poll reports can always be applied: the hints of a successful poll are normalized
  without an error as long as they fit one batch, each becomes exactly one action, and neither a
  dropped hint nor an unmatched rename can remain.\<close>

theorem poll_feeds_normalize:
  assumes "trace (\<lambda>w snapshot w'. w' = snd (poll w snapshot)) polling_new polls w"
    and "poll w snapshot = (Inr out, w')" and "length (po_hints out) \<le> MAX_HINTS_PER_BATCH"
  shows "\<exists>n. normalize windows (po_hints out) = Inr n \<and> no_dropped n = 0 \<and>
    no_unmatched_renames_from n = [] \<and> length (no_hints n) = length (po_hints out)"
proof -
  have wf: "poll_wf w" using assms(1) polling_new_wf by (rule polling.trace_inv)
  note canonical = poll_hints_canonical [OF wf assms(2)]
  then have "rh_kind h \<noteq> KindOther \<and> rh_kind h \<noteq> KindRenamedFrom" if "h \<in> set (po_hints out)" for h
    using that by fastforce
  then have kinds: "paths_of (\<lambda>k. k = KindOther) (po_hints out) = []"
    "paths_of (\<lambda>k. k = KindRenamedFrom) (po_hints out) = []"
    by (simp_all add: paths_of_def filter_empty_conv)
  have "list_all (\<lambda>h. is_portable_relative_path (rh_path h)) (po_hints out)"
    using canonical by (simp add: list_all_iff is_portable_relative_path_def)
  then obtain n where n: "normalize windows (po_hints out) = Inr n"
    using normalize_total [OF _ assms(3)] by blast
  from n have "no_dropped n = 0" "no_unmatched_renames_from n = []"
    by (rule normalize_ok, use kinds in simp)+
  moreover have "length (no_hints n) + no_dropped n = length (po_hints out)"
    by (rule normalize_length [OF n])
  ultimately show ?thesis using n by auto
qed

theorem poll_feeds_normalize_witness:
  "let st = \<lparr>fs_size_bytes = 1, fs_modified_ns = 5\<rparr>;
       w = snd (poll polling_new (Inr [(''a'', st)]))
   in \<exists>n. normalize False (po_hints \<lparr>po_hints = [\<lparr>rh_path = ''b'', rh_kind = KindCreated\<rparr>,
          \<lparr>rh_path = ''a'', rh_kind = KindRemoved\<rparr>], po_first_scan = False\<rparr>) = Inr n \<and>
        length (no_hints n) = 2 \<and>
        fst (poll w (Inr [(''b'', st)])) = Inr \<lparr>po_hints = [\<lparr>rh_path = ''b'', rh_kind = KindCreated\<rparr>,
          \<lparr>rh_path = ''a'', rh_kind = KindRemoved\<rparr>], po_first_scan = False\<rparr>"
proof -
  define st where "st = \<lparr>fs_size_bytes = 1, fs_modified_ns = 5\<rparr>"
  define w where "w = snd (poll polling_new (Inr [(''a'', st)]))"
  define out where "out = \<lparr>po_hints = [\<lparr>rh_path = ''b'', rh_kind = KindCreated\<rparr>,
          \<lparr>rh_path = ''a'', rh_kind = KindRemoved\<rparr>], po_first_scan = False\<rparr>"
  have ab: "portable_relative_path ''a'' = Inr ''a''" "portable_relative_path ''b'' = Inr ''b''"
    by code_simp+
  have w: "w = \<lparr>pw_previous = [(''a'', st)], pw_initialized = True\<rparr>"
    by (simp add: w_def poll_def polling_new_def ab)
  have "fst (poll w (Inr [(''b'', st)])) = Inr out"
    by (simp add: poll_def w ab out_def changed_hints_def removed_hints_def bt_get_def)
  then have p: "poll w (Inr [(''b'', st)]) = (Inr out, snd (poll w (Inr [(''b'', st)])))"
    by (metis prod.collapse)
  have "trace (\<lambda>w snapshot w'. w' = snd (poll w snapshot)) polling_new [Inr [(''a'', st)]] w"
    by (simp add: trace_Cons_iff w_def)
  from poll_feeds_normalize [OF this p, of False]
  have "\<exists>n. normalize False (po_hints out) = Inr n \<and> length (no_hints n) = 2"
    by (auto simp: out_def MAX_HINTS_PER_BATCH_def)
  with p show ?thesis unfolding Let_def st_def w_def out_def by (metis fst_conv)
qed

end
